(* ===== verification/Go_Prelude.thy ===== *)
theory Go_Prelude
  imports Complex_Main "HOL-Library.Multiset" "HOL-Library.Signed_Division"
    "HOL-Library.Sublist"
begin

text \<open>
  Shared vocabulary of the development: how a Go call ends (a value or a run-time panic),
  Go's 64-bit integers as \<open>int\<close> with the wrap-around written out, the functions of
  Go's \<open>strings\<close> package the sources call, and the generic lemmas on lists and maps the
  component theories share.

  \<^item> A Go function returning \<open>(T, error)\<close> is a function into \<open>error + 'a\<close>
    (\<open>Inl\<close> the error).
  \<^item> A Go function that can panic is a function into \<open>'a outcome\<close>.
  \<^item> A Go \<open>int\<close> or \<open>int64\<close> is an \<open>int\<close>; every addition, subtraction and
    multiplication the source performs on one is followed by \<open>wrap64\<close>.
\<close>

section \<open>Collections of rewrite rules\<close>

named_theorems go_simps \<open>unfolding rules for the combinators of the embedding\<close>
named_theorems invar_intros \<open>rules that establish a component invariant\<close>

section \<open>How a call ends\<close>

text \<open>The run-time panics that the modelled code can raise.\<close>

datatype panic =
    IntegerDivideByZero
  | IndexOutOfRange
  | NilMapWrite
  | NilDereference
  | MissingLocation
  | NonPositiveTicker
  | InterfaceConversion
  | DuplicateMetric

datatype 'a outcome = Ok 'a | Panic panic

fun obind :: "'a outcome \<Rightarrow> ('a \<Rightarrow> 'b outcome) \<Rightarrow> 'b outcome" where
  "obind (Ok x) f = f x"
| "obind (Panic p) f = Panic p"

fun omap :: "('a \<Rightarrow> 'b) \<Rightarrow> 'a outcome \<Rightarrow> 'b outcome" where
  "omap f (Ok x) = Ok (f x)"
| "omap f (Panic p) = Panic p"

fun returns :: "'a outcome \<Rightarrow> bool" where
  "returns (Ok x) = True"
| "returns (Panic p) = False"

text \<open>Error values. \<open>Plain\<close> is an error with a text of its own (\<open>errors.New\<close>,
  \<open>fmt.Errorf\<close> without an inner error), \<open>Wrap\<close> puts a text before an inner error
  (\<open>fmt.Errorf("...: %v", err)\<close>) and \<open>WrapIn\<close> also one behind it, \<open>NumError\<close> is what \<open>strconv\<close> returns for an input it
  cannot read, \<open>External\<close> an error that comes from code outside the repository.\<close>

datatype go_error = Plain string | Wrap string go_error | WrapIn string go_error string
  | NumError string | External string

type_synonym 'a fallible = "go_error + 'a"

text \<open>The text of an error, \<open>err.Error()\<close>. Of \<open>strconv\<close>'s error only the offending input is kept.\<close>

fun err_text :: "go_error \<Rightarrow> string" where
  "err_text (Plain s) = s"
| "err_text (Wrap s e) = s @ err_text e"
| "err_text (WrapIn s e t) = s @ err_text e @ t"
| "err_text (NumError s) = ''strconv.ParseFloat: '' @ s"
| "err_text (External s) = s"

section \<open>Machine integers\<close>

text \<open>Go's \<open>int\<close> and \<open>int64\<close> are 64 bits wide on every platform the scheduler is built
  for; arithmetic wraps around in two's complement.\<close>

definition wrap64 :: "int \<Rightarrow> int" where
  "wrap64 x = (x + 2 ^ 63) mod 2 ^ 64 - 2 ^ 63"

definition int64 :: "int \<Rightarrow> bool" where
  "int64 x \<longleftrightarrow> - (2 ^ 63) \<le> x \<and> x < 2 ^ 63"

abbreviation min_int64 :: int where
  "min_int64 \<equiv> - (2 ^ 63)"

text \<open>Integer division truncates towards zero and panics on a zero divisor.\<close>

definition go_div :: "int \<Rightarrow> int \<Rightarrow> int outcome" where
  "go_div a b = (if b = 0 then Panic IntegerDivideByZero else Ok (wrap64 (a sdiv b)))"

section \<open>Strings\<close>

text \<open>\<open>strings.Split\<close> for a separator of one byte.\<close>

fun go_split :: "char \<Rightarrow> string \<Rightarrow> string list" where
  "go_split c [] = [[]]"
| "go_split c (x # xs) =
     (if x = c then [] # go_split c xs
      else (case go_split c xs of [] \<Rightarrow> [[x]] | y # ys \<Rightarrow> (x # y) # ys))"

text \<open>Pieces joined with the separator, the inverse of \<open>go_split\<close>.\<close>

fun go_join :: "char \<Rightarrow> string list \<Rightarrow> string" where
  "go_join c [] = []"
| "go_join c [x] = x"
| "go_join c (x # y # ys) = x @ c # go_join c (y # ys)"

text \<open>\<open>strings.HasPrefix\<close> and \<open>strings.TrimPrefix\<close>.\<close>

definition has_prefix :: "string \<Rightarrow> string \<Rightarrow> bool" where
  "has_prefix s p \<longleftrightarrow> take (length p) s = p"

definition trim_prefix :: "string \<Rightarrow> string \<Rightarrow> string" where
  "trim_prefix s p = (if has_prefix s p then drop (length p) s else s)"

section \<open>Lemmas\<close>

subsection \<open>Outcomes\<close>

lemma obind_eq_Ok_iff [go_simps]: "obind m f = Ok y \<longleftrightarrow> (\<exists>x. m = Ok x \<and> f x = Ok y)"
  by (cases m) auto

lemma obind_eq_Panic_iff [go_simps]:
  "obind m f = Panic p \<longleftrightarrow> m = Panic p \<or> (\<exists>x. m = Ok x \<and> f x = Panic p)"
  by (cases m) auto

lemma omap_eq_Ok_iff [go_simps]: "omap f m = Ok y \<longleftrightarrow> (\<exists>x. m = Ok x \<and> y = f x)"
  by (cases m) auto

lemma omap_eq_Panic_iff [go_simps]: "omap f m = Panic p \<longleftrightarrow> m = Panic p"
  by (cases m) auto

lemma returns_obind: "returns m \<Longrightarrow> (\<And>x. m = Ok x \<Longrightarrow> returns (f x)) \<Longrightarrow> returns (obind m f)"
  by (cases m) auto

lemma returns_case_sum:
  "(\<And>a. x = Inl a \<Longrightarrow> returns (f a)) \<Longrightarrow> (\<And>b. x = Inr b \<Longrightarrow> returns (g b)) \<Longrightarrow>
   returns (case x of Inl a \<Rightarrow> f a | Inr b \<Rightarrow> g b)"
  by (cases x) auto

lemma returns_if: "(b \<Longrightarrow> returns x) \<Longrightarrow> (\<not> b \<Longrightarrow> returns y) \<Longrightarrow> returns (if b then x else y)"
  by simp

lemma returns_Ok: "returns (Ok x)"
  by simp

lemmas returns_intros = returns_obind returns_case_sum returns_if returns_Ok

lemma returns_iff: "returns m \<longleftrightarrow> (\<exists>x. m = Ok x)"
  by (cases m) auto

subsection \<open>Wrap-around\<close>

lemma wrap64_range: "int64 (wrap64 x)"
proof -
  have "0 \<le> (x + 2 ^ 63) mod 2 ^ 64" "(x + 2 ^ 63) mod 2 ^ 64 < (2 :: int) ^ 64"
    by simp_all
  then show ?thesis by (simp add: wrap64_def int64_def)
qed

lemma wrap64_id [simp]: "int64 x \<Longrightarrow> wrap64 x = x"
  by (simp add: wrap64_def int64_def)

lemma wrap64_numeral_id:
  "- (2 ^ 63) \<le> x \<Longrightarrow> x < 2 ^ 63 \<Longrightarrow> wrap64 x = x"
  by (simp add: int64_def)

lemma wrap64_idem [simp]: "wrap64 (wrap64 x) = wrap64 x"
  by (simp add: wrap64_range)

lemma wrap64_0 [simp]: "wrap64 0 = 0"
  by (simp add: wrap64_def)

lemma wrap64_mod: "wrap64 x mod 2 ^ 64 = x mod 2 ^ 64"
  by (simp add: wrap64_def mod_diff_left_eq)

lemma wrap64_eq_iff: "wrap64 x = wrap64 y \<longleftrightarrow> x mod 2 ^ 64 = y mod 2 ^ 64"
proof
  assume "wrap64 x = wrap64 y"
  then show "x mod 2 ^ 64 = y mod 2 ^ 64" by (metis wrap64_mod)
next
  assume "x mod 2 ^ 64 = y mod 2 ^ 64"
  then have "(x + 2 ^ 63) mod 2 ^ 64 = (y + 2 ^ 63) mod 2 ^ 64"
    by (rule mod_add_cong) simp
  then show "wrap64 x = wrap64 y" by (simp add: wrap64_def)
qed

lemma wrap64_add_left [simp]: "wrap64 (wrap64 x + y) = wrap64 (x + y)"
  unfolding wrap64_eq_iff by (metis mod_add_left_eq wrap64_mod)

lemma wrap64_diff_left [simp]: "wrap64 (wrap64 x - y) = wrap64 (x - y)"
  unfolding wrap64_eq_iff by (metis mod_diff_left_eq wrap64_mod)

lemma wrap64_diff_right [simp]: "wrap64 (x - wrap64 y) = wrap64 (x - y)"
  unfolding wrap64_eq_iff by (metis mod_diff_right_eq wrap64_mod)

lemma go_div_eq_Ok_iff: "go_div a b = Ok q \<longleftrightarrow> b \<noteq> 0 \<and> q = wrap64 (a sdiv b)"
  by (auto simp: go_div_def)

lemma sdiv_nonneg: "0 \<le> a \<Longrightarrow> 0 < b \<Longrightarrow> a sdiv b = a div (b :: int)"
  by (cases "a = 0") (auto simp: signed_divide_int_def)

lemma int64_div: "0 \<le> a \<Longrightarrow> int64 a \<Longrightarrow> 0 < b \<Longrightarrow> int64 (a div b)"
proof -
  assume a: "0 \<le> a" "int64 a" "0 < b"
  then have "a div b \<le> a" "0 \<le> a div b"
    using zdiv_mono2 [of a 1 b] by (auto simp: pos_imp_zdiv_nonneg_iff)
  with a show ?thesis by (auto simp: int64_def)
qed

lemma go_div_nonneg:
  "0 \<le> a \<Longrightarrow> int64 a \<Longrightarrow> 0 < b \<Longrightarrow> go_div a b = Ok (a div b)"
  by (auto simp: go_div_def sdiv_nonneg int64_div)

subsection \<open>Splitting and joining strings\<close>

lemma go_split_not_Nil [simp]: "go_split c s \<noteq> []"
  by (cases s) (auto split: list.splits)

lemma go_split_no_sep: "c \<notin> set s \<Longrightarrow> go_split c s = [s]"
  by (induction s) auto

lemma go_split_append: "c \<notin> set a \<Longrightarrow> go_split c (a @ c # b) = a # go_split c b"
  by (induction a) auto

lemma go_split_pair:
  "c \<notin> set a \<Longrightarrow> c \<notin> set b \<Longrightarrow> go_split c (a @ c # b) = [a, b]"
  by (simp add: go_split_append go_split_no_sep)

lemma go_split_join:
  "ps \<noteq> [] \<Longrightarrow> \<forall>p \<in> set ps. c \<notin> set p \<Longrightarrow> go_split c (go_join c ps) = ps"
  by (induction c ps rule: go_join.induct) (auto simp: go_split_no_sep go_split_append)

lemma go_join_Cons: "xs \<noteq> [] \<Longrightarrow> go_join c (x # xs) = x @ c # go_join c xs"
  by (cases xs) auto

lemma go_join_split [simp]: "go_join c (go_split c s) = s"
proof (induction s)
  case (Cons x xs)
  obtain y ys where "go_split c xs = y # ys"
    by (meson go_split_not_Nil neq_Nil_conv)
  with Cons show ?case by (cases ys) auto
qed simp

lemma go_split_pieces: "p \<in> set (go_split c s) \<Longrightarrow> c \<notin> set p"
  by (induction s arbitrary: p) (auto split: list.splits if_splits)

lemma length_go_split: "length (go_split c s) = Suc (count_list s c)"
  by (induction s) (auto split: list.splits)

lemma has_prefix_append [simp]: "has_prefix (p @ s) p"
  by (simp add: has_prefix_def)

lemma trim_prefix_append [simp]: "trim_prefix (p @ s) p = s"
  by (simp add: trim_prefix_def)

lemma has_prefix_iff: "has_prefix s p \<longleftrightarrow> (\<exists>r. s = p @ r)"
  by (metis append_take_drop_id has_prefix_append has_prefix_def)

end
