(* ===== verification/Go_Float.thy ===== *)
theory Go_Float
  imports Go_Prelude "HOL-Library.Log_Nat"
begin

text \<open>
  Go's \<open>float64\<close>: IEEE-754 binary64 with round-to-nearest, ties to even. A finite value is
  a sign and a rational magnitude, so every operation is the exact rational operation
  followed by \<open>round64\<close>, and negative zero, infinities and NaN are values of their own.
  Everything here is executable. The lemmas show that rounding is monotone, exact on
  representable numbers and idempotent (the locale \<open>rounding\<close>), and lift monotonicity to
  the float operations; the score and overload theorems rest on these.
\<close>

section \<open>Rounding a rational to binary64\<close>

text \<open>Powers of two, with a code equation that evaluates them as integers.\<close>

definition pow2 :: "int \<Rightarrow> rat" where
  "pow2 k = 2 powi k"

lemma pow2_code [code]:
  "pow2 k = (if 0 \<le> k then of_int (2 ^ nat k) else Fract 1 (2 ^ nat (- k)))"
  by (simp add: pow2_def power_int_def Fract_of_int_quotient inverse_eq_divide power_one_over)

declare pow2_def [simp]

text \<open>The largest \<open>k\<close> with \<open>2\<^bsup>k\<^esup> \<le> q\<close>, for positive \<open>q\<close>.\<close>

definition log2_floor :: "rat \<Rightarrow> int" where
  "log2_floor q =
     (case quotient_of q of (n, d) \<Rightarrow>
        (let k = bitlen n - bitlen d in if pow2 k \<le> q then k else k - 1))"

text \<open>The exponent of the unit in the last place: 53 significant bits, and no finer than
  the smallest subnormal.\<close>

definition ulp_exp :: "rat \<Rightarrow> int" where
  "ulp_exp q = max (log2_floor q - 52) (- 1074)"

definition round_even :: "rat \<Rightarrow> int" where
  "round_even x =
     (let f = \<lfloor>x\<rfloor>; r = x - of_int f in
      if r < 1 / 2 then f
      else if 1 / 2 < r then f + 1
      else if even f then f else f + 1)"

definition round_mag :: "rat \<Rightarrow> rat" where
  "round_mag q =
     (if q = 0 then 0 else of_int (round_even (q / pow2 (ulp_exp q))) * pow2 (ulp_exp q))"

definition round64 :: "rat \<Rightarrow> rat" where
  "round64 x = (if x < 0 then - round_mag (- x) else round_mag x)"

section \<open>Values and operations\<close>

text \<open>The flag is the sign bit; the magnitude of a finite value is not negative.\<close>

datatype float64 = NaN | Inf bool | Fin bool rat

definition max_mag :: rat where
  "max_mag = 2 ^ 1024"

lemma max_mag_code [code]: "max_mag = 179769313486231590772930519078902473361797697894230657273430081157732675805500963132708477322407536021120113879871393357658789768814416622492847430639474124377767893424865485276302219601246094119453082952085005768838150682342462881473913110540827237163350510684586298239947245938479716304835356329624224137216"
  by (simp add: max_mag_def)

definition fl_mag :: "bool \<Rightarrow> rat \<Rightarrow> float64" where
  "fl_mag s q = (let r = round_mag q in if max_mag \<le> r then Inf s else Fin s r)"

text \<open>The nearest float of an exact value; an exact zero is positive zero.\<close>

definition fl :: "rat \<Rightarrow> float64" where
  "fl x = fl_mag (x < 0) \<bar>x\<bar>"

fun val :: "float64 \<Rightarrow> rat" where
  "val (Fin s q) = (if s then - q else q)"
| "val (Inf s) = 0"
| "val NaN = 0"

fun finite64 :: "float64 \<Rightarrow> bool" where
  "finite64 (Fin s q) = True"
| "finite64 (Inf s) = False"
| "finite64 NaN = False"

text \<open>The values a \<open>float64\<close> variable can hold.\<close>

fun is_float64 :: "float64 \<Rightarrow> bool" where
  "is_float64 (Fin s q) \<longleftrightarrow> 0 \<le> q \<and> round_mag q = q \<and> q < max_mag"
| "is_float64 (Inf s) \<longleftrightarrow> True"
| "is_float64 NaN \<longleftrightarrow> True"

fun f_neg :: "float64 \<Rightarrow> float64" where
  "f_neg (Fin s q) = Fin (\<not> s) q"
| "f_neg (Inf s) = Inf (\<not> s)"
| "f_neg NaN = NaN"

fun f_add :: "float64 \<Rightarrow> float64 \<Rightarrow> float64" where
  "f_add (Fin s a) (Fin t b) =
     (if a = 0 \<and> b = 0 then Fin (s \<and> t) 0 else fl (val (Fin s a) + val (Fin t b)))"
| "f_add (Inf s) (Inf t) = (if s = t then Inf s else NaN)"
| "f_add (Inf s) (Fin t b) = Inf s"
| "f_add (Fin s a) (Inf t) = Inf t"
| "f_add NaN y = NaN"
| "f_add x NaN = NaN"

fun f_mul :: "float64 \<Rightarrow> float64 \<Rightarrow> float64" where
  "f_mul (Fin s a) (Fin t b) = fl_mag (s \<noteq> t) (a * b)"
| "f_mul (Inf s) (Inf t) = Inf (s \<noteq> t)"
| "f_mul (Inf s) (Fin t b) = (if b = 0 then NaN else Inf (s \<noteq> t))"
| "f_mul (Fin s a) (Inf t) = (if a = 0 then NaN else Inf (s \<noteq> t))"
| "f_mul NaN y = NaN"
| "f_mul x NaN = NaN"

fun f_div :: "float64 \<Rightarrow> float64 \<Rightarrow> float64" where
  "f_div (Fin s a) (Fin t b) =
     (if b = 0 then (if a = 0 then NaN else Inf (s \<noteq> t)) else fl_mag (s \<noteq> t) (a / b))"
| "f_div (Inf s) (Inf t) = NaN"
| "f_div (Inf s) (Fin t b) = Inf (s \<noteq> t)"
| "f_div (Fin s a) (Inf t) = Fin (s \<noteq> t) 0"
| "f_div NaN y = NaN"
| "f_div x NaN = NaN"

fun f_less :: "float64 \<Rightarrow> float64 \<Rightarrow> bool" where
  "f_less (Fin s a) (Fin t b) = (val (Fin s a) < val (Fin t b))"
| "f_less (Inf s) (Inf t) = (s \<and> \<not> t)"
| "f_less (Inf s) (Fin t b) = s"
| "f_less (Fin s a) (Inf t) = (\<not> t)"
| "f_less NaN y = False"
| "f_less x NaN = False"

fun f_le :: "float64 \<Rightarrow> float64 \<Rightarrow> bool" where
  "f_le (Fin s a) (Fin t b) = (val (Fin s a) \<le> val (Fin t b))"
| "f_le (Inf s) (Inf t) = (s \<or> \<not> t)"
| "f_le (Inf s) (Fin t b) = s"
| "f_le (Fin s a) (Inf t) = (\<not> t)"
| "f_le NaN y = False"
| "f_le x NaN = False"

text \<open>Go's arithmetic and comparison operators on \<open>float64\<close>; \<open>f_eq\<close> is \<open>==\<close>.\<close>

instantiation float64 :: "{plus, minus, times, divide, inverse, ord}"
begin

definition "x + y = f_add x y" for x y :: float64
definition "x - y = f_add x (f_neg y)" for x y :: float64
definition "x * y = f_mul x y" for x y :: float64
definition "x div y = f_div x y" for x y :: float64
definition "inverse x = f_div (Fin False 1) x" for x :: float64
definition "x < y \<longleftrightarrow> f_less x y" for x y :: float64
definition "x \<le> y \<longleftrightarrow> f_le x y" for x y :: float64

instance ..

end

fun f_eq :: "float64 \<Rightarrow> float64 \<Rightarrow> bool" where
  "f_eq (Fin s a) (Fin t b) = (val (Fin s a) = val (Fin t b))"
| "f_eq (Inf s) (Inf t) = (s = t)"
| "f_eq x y = False"

abbreviation f_zero :: float64 where
  "f_zero \<equiv> Fin False 0"

abbreviation f_one :: float64 where
  "f_one \<equiv> Fin False 1"

text \<open>The conversion \<open>float64(n)\<close> of an integer, and \<open>int64(x)\<close>, which truncates. The Go
  specification leaves the conversion of NaN, infinities and values out of range to the
  implementation (amd64 gives the least \<open>int64\<close>, arm64 saturates): the parameter \<open>cvt\<close>.\<close>

definition of_int64 :: "int \<Rightarrow> float64" where
  "of_int64 n = fl (of_int n)"

definition trunc_rat :: "rat \<Rightarrow> int" where
  "trunc_rat x = (if x < 0 then - \<lfloor>- x\<rfloor> else \<lfloor>x\<rfloor>)"

definition to_int64 :: "(float64 \<Rightarrow> int) \<Rightarrow> float64 \<Rightarrow> int" where
  "to_int64 cvt x =
     (if finite64 x \<and> int64 (trunc_rat (val x)) then trunc_rat (val x) else cvt x)"

section \<open>The interface of a rounding function\<close>

locale rounding =
  fixes rnd :: "rat \<Rightarrow> rat"
  assumes rnd_mono: "x \<le> y \<Longrightarrow> rnd x \<le> rnd y"
    and rnd_rnd: "rnd (rnd x) = rnd x"
    and rnd_minus: "rnd (- x) = - rnd x"
begin

lemma rnd_le: "rnd b = b \<Longrightarrow> x \<le> b \<Longrightarrow> rnd x \<le> b"
  using rnd_mono [of x b] by simp

lemma rnd_ge: "rnd b = b \<Longrightarrow> b \<le> x \<Longrightarrow> b \<le> rnd x"
  using rnd_mono [of b x] by simp

lemma rnd_0: "rnd 0 = 0"
  using rnd_minus [of 0] by simp

lemma rnd_nonneg: "0 \<le> x \<Longrightarrow> 0 \<le> rnd x"
  using rnd_ge [OF rnd_0] .

lemma rnd_nonpos: "x \<le> 0 \<Longrightarrow> rnd x \<le> 0"
  using rnd_le [OF rnd_0] .

lemma rnd_abs: "\<bar>rnd x\<bar> = rnd \<bar>x\<bar>"
  using rnd_nonneg [of x] rnd_nonpos [of x] rnd_minus [of x]
  by (cases "0 \<le> x") (auto simp: abs_if)

lemma rnd_abs_le: "rnd b = b \<Longrightarrow> \<bar>x\<bar> \<le> b \<Longrightarrow> \<bar>rnd x\<bar> \<le> b"
  by (simp add: rnd_abs rnd_le)

end

section \<open>Properties of rounding\<close>

subsection \<open>Rounding to an integer\<close>

lemma round_even_bounds: "\<lfloor>x\<rfloor> \<le> round_even x" "round_even x \<le> \<lfloor>x\<rfloor> + 1"
  by (auto simp: round_even_def Let_def)

lemma round_even_of_int [simp]: "round_even (of_int n) = n"
  by (simp add: round_even_def Let_def)

lemma round_even_mono:
  assumes "x \<le> y" shows "round_even x \<le> round_even y"
proof (cases "\<lfloor>x\<rfloor> = \<lfloor>y\<rfloor>")
  case True
  with assms show ?thesis by (auto simp: round_even_def Let_def)
next
  case False
  with assms have "\<lfloor>x\<rfloor> + 1 \<le> \<lfloor>y\<rfloor>" using floor_mono [OF assms] by linarith
  with round_even_bounds [of x] round_even_bounds [of y] show ?thesis by linarith
qed

lemma round_even_le: "x \<le> of_int n \<Longrightarrow> round_even x \<le> n"
  using round_even_mono [of x "of_int n"] by simp

lemma round_even_ge: "of_int n \<le> x \<Longrightarrow> n \<le> round_even x"
  using round_even_mono [of "of_int n" x] by simp

lemma round_even_error: "\<bar>of_int (round_even x) - x\<bar> \<le> 1 / 2"
proof -
  have "of_int \<lfloor>x\<rfloor> \<le> x" "x < of_int \<lfloor>x\<rfloor> + 1" by linarith+
  then show ?thesis by (auto simp: round_even_def Let_def abs_le_iff)
qed

subsection \<open>The binary exponent\<close>

lemma two_powi_pos [simp]: "0 < (2 :: rat) powi k"
  by simp

lemma two_powi_le_iff: "(2 :: rat) powi m \<le> 2 powi n \<longleftrightarrow> m \<le> n"
  using power_int_increasing [of m n "2 :: rat"] power_int_strict_increasing [of n m "2 :: rat"]
  by (cases "m \<le> n") (auto simp: linorder_not_le)

lemma two_powi_less_iff: "(2 :: rat) powi m < 2 powi n \<longleftrightarrow> m < n"
  by (metis linorder_not_le two_powi_le_iff)

lemma two_powi_add: "(2 :: rat) powi (m + n) = 2 powi m * 2 powi n"
  by (simp add: power_int_add)

lemma bitlen_powi:
  assumes "0 < n"
  shows "2 powi (bitlen n - 1) \<le> (of_int n :: rat)" "(of_int n :: rat) < 2 powi bitlen n"
proof -
  have len: "1 \<le> bitlen n" using assms by (auto simp: bitlen_alt_def)
  have b: "2 ^ nat (bitlen n - 1) \<le> n" "n < 2 ^ nat (bitlen n)"
    using bitlen_bounds [OF assms] by auto
  have "(2 :: rat) powi (bitlen n - 1) = of_int (2 ^ nat (bitlen n - 1))"
    using len by (simp add: power_int_nonneg_exp)
  also have "\<dots> \<le> of_int n" using b(1) by (subst of_int_le_iff)
  finally show "2 powi (bitlen n - 1) \<le> (of_int n :: rat)" .
  have "(of_int n :: rat) < of_int (2 ^ nat (bitlen n))" using b(2) by (subst of_int_less_iff)
  also have "\<dots> = 2 powi bitlen n" using len by (simp add: power_int_nonneg_exp)
  finally show "(of_int n :: rat) < 2 powi bitlen n" .
qed

lemma log2_floor_bounds:
  assumes "0 < q"
  shows "2 powi log2_floor q \<le> q" "q < 2 powi (log2_floor q + 1)"
proof -
  obtain n d where nd: "quotient_of q = (n, d)" by fastforce
  have d: "0 < d" and q: "q = of_int n / of_int d"
    using quotient_of_denom_pos [OF nd] quotient_of_div [OF nd] by auto
  have n: "0 < n" using assms q d by (simp add: zero_less_divide_iff)
  let ?k = "bitlen n - bitlen d"
  have "of_int n / of_int d < (2 powi bitlen n :: rat) / 2 powi (bitlen d - 1)"
    using bitlen_powi [OF n] bitlen_powi [OF d] n d by (intro frac_less) auto
  also have "\<dots> = 2 powi (?k + 1)"
    by (simp add: power_int_diff [symmetric] algebra_simps)
  finally have up: "q < 2 powi (?k + 1)" using q by simp
  have "(2 powi (bitlen n - 1) :: rat) / 2 powi bitlen d \<le> of_int n / of_int d"
    using bitlen_powi [OF n] bitlen_powi [OF d] n d by (intro frac_le) auto
  then have lo: "2 powi (?k - 1) \<le> q"
    using q by (simp add: power_int_diff [symmetric] algebra_simps)
  show "2 powi log2_floor q \<le> q" "q < 2 powi (log2_floor q + 1)"
    using up lo by (auto simp: log2_floor_def nd Let_def)
qed

lemma log2_floor_le_iff: "0 < q \<Longrightarrow> k \<le> log2_floor q \<longleftrightarrow> 2 powi k \<le> q"
  using log2_floor_bounds [of q] two_powi_le_iff [of k "log2_floor q"]
    two_powi_le_iff [of "log2_floor q + 1" k] by (auto simp: not_le)

lemma log2_floor_mono: "0 < x \<Longrightarrow> x \<le> y \<Longrightarrow> log2_floor x \<le> log2_floor y"
  using log2_floor_bounds [of x] log2_floor_le_iff [of y] by auto

lemma ulp_exp_mono: "0 < x \<Longrightarrow> x \<le> y \<Longrightarrow> ulp_exp x \<le> ulp_exp y"
  using log2_floor_mono [of x y] by (auto simp: ulp_exp_def)

subsection \<open>Rounding a magnitude\<close>

lemma two_powi_52: "(2 :: rat) powi (e + 52) = of_int (2 ^ 52) * 2 powi e"
  by (simp add: two_powi_add)

lemma two_powi_53: "(2 :: rat) powi (e + 53) = of_int (2 ^ 53) * 2 powi e"
  by (simp add: two_powi_add)

lemma round_mag_pos:
  "0 < q \<Longrightarrow> round_mag q = of_int (round_even (q / 2 powi ulp_exp q)) * 2 powi ulp_exp q"
  by (simp add: round_mag_def)

lemma round_mag_0 [simp]: "round_mag 0 = 0"
  by (simp add: round_mag_def)

lemma round_mag_nonneg: "0 \<le> q \<Longrightarrow> 0 \<le> round_mag q"
  using round_even_ge [of 0 "q / 2 powi ulp_exp q"] by (auto simp: round_mag_def)

text \<open>A magnitude rounds into its binade, the upper end included.\<close>

lemma round_mag_upper:
  assumes "0 < q" shows "round_mag q \<le> 2 powi (ulp_exp q + 53)"
proof -
  have "q < 2 powi (log2_floor q + 1)" using log2_floor_bounds [OF assms] by simp
  also have "\<dots> \<le> 2 powi (ulp_exp q + 53)" by (simp add: two_powi_le_iff ulp_exp_def)
  also have "\<dots> = of_int (2 ^ 53) * 2 powi ulp_exp q" by (simp add: two_powi_add)
  finally have "q / 2 powi ulp_exp q \<le> of_int (2 ^ 53)" by (simp add: field_simps)
  then have "round_even (q / 2 powi ulp_exp q) \<le> 2 ^ 53" by (rule round_even_le)
  then have "(of_int (round_even (q / 2 powi ulp_exp q)) :: rat) \<le> of_int (2 ^ 53)"
    by (subst of_int_le_iff)
  then have "of_int (round_even (q / 2 powi ulp_exp q)) * 2 powi ulp_exp q
      \<le> of_int (2 ^ 53) * (2 :: rat) powi ulp_exp q"
    by (rule mult_right_mono) simp
  with assms show ?thesis by (simp add: round_mag_def two_powi_add mult.commute)
qed

lemma round_mag_lower:
  assumes "0 < q" "- 1074 < ulp_exp q" shows "2 powi (ulp_exp q + 52) \<le> round_mag q"
proof -
  have "ulp_exp q + 52 = log2_floor q" using assms(2) by (auto simp: ulp_exp_def)
  then have "of_int (2 ^ 52) * 2 powi ulp_exp q \<le> q"
    using log2_floor_bounds [OF assms(1)] by (metis two_powi_52)
  then have "of_int (2 ^ 52) \<le> q / 2 powi ulp_exp q" by (simp add: field_simps)
  then have "2 ^ 52 \<le> round_even (q / 2 powi ulp_exp q)" by (rule round_even_ge)
  then have "(of_int (2 ^ 52) :: rat) \<le> of_int (round_even (q / 2 powi ulp_exp q))"
    by (subst of_int_le_iff)
  then have "of_int (2 ^ 52) * (2 :: rat) powi ulp_exp q
      \<le> of_int (round_even (q / 2 powi ulp_exp q)) * 2 powi ulp_exp q"
    by (rule mult_right_mono) simp
  with assms show ?thesis by (simp add: round_mag_def two_powi_add mult.commute)
qed

lemma round_mag_mono_pos:
  assumes "0 < x" "x \<le> y" shows "round_mag x \<le> round_mag y"
proof (cases "ulp_exp x = ulp_exp y")
  case True
  have "x / 2 powi ulp_exp y \<le> y / 2 powi ulp_exp y"
    using assms by (intro divide_right_mono) auto
  then have "round_even (x / 2 powi ulp_exp y) \<le> round_even (y / 2 powi ulp_exp y)"
    by (rule round_even_mono)
  with True assms show ?thesis by (auto simp: round_mag_def)
next
  case False
  then have less: "ulp_exp x < ulp_exp y" using ulp_exp_mono [OF assms] by simp
  have "- 1074 \<le> ulp_exp x" by (simp add: ulp_exp_def)
  with less have y: "2 powi (ulp_exp y + 52) \<le> round_mag y"
    using assms by (intro round_mag_lower) auto
  have "round_mag x \<le> 2 powi (ulp_exp x + 53)" using assms by (intro round_mag_upper)
  also have "\<dots> \<le> 2 powi (ulp_exp y + 52)" using less by (simp add: two_powi_le_iff)
  finally show ?thesis using y by simp
qed

lemma round_mag_mono: "0 \<le> x \<Longrightarrow> x \<le> y \<Longrightarrow> round_mag x \<le> round_mag y"
  using round_mag_mono_pos [of x y] round_mag_nonneg [of y] by (cases "x = 0") auto

text \<open>Numbers with at most 53 significant bits above the subnormal grid are unchanged.\<close>

lemma round_mag_exact:
  assumes "0 \<le> m" "m < 2 ^ 53" "- 1074 \<le> e"
  shows "round_mag (of_int m * 2 powi e) = of_int m * 2 powi e"
proof (cases "m = 0")
  case False
  let ?q = "of_int m * (2 :: rat) powi e"
  have pos: "0 < ?q" using assms False by simp
  have "(of_int m :: rat) < of_int (2 ^ 53)" using assms(2) by (subst of_int_less_iff)
  then have "?q < of_int (2 ^ 53) * 2 powi e" by (intro mult_strict_right_mono) auto
  then have "?q < 2 powi (e + 53)" by (simp add: two_powi_add mult.commute)
  then have "log2_floor ?q < e + 53"
    using log2_floor_le_iff [OF pos, of "e + 53"] by linarith
  then have u: "ulp_exp ?q \<le> e" using assms(3) by (simp add: ulp_exp_def)
  have "?q / 2 powi ulp_exp ?q = of_int m * 2 powi (e - ulp_exp ?q)"
    by (simp add: power_int_diff)
  also have "\<dots> = of_int (m * 2 ^ nat (e - ulp_exp ?q))"
    using u by (simp add: power_int_nonneg_exp)
  finally have eq: "?q / 2 powi ulp_exp ?q = of_int (m * 2 ^ nat (e - ulp_exp ?q))" .
  have "round_even (?q / 2 powi ulp_exp ?q) = m * 2 ^ nat (e - ulp_exp ?q)"
    unfolding eq by (rule round_even_of_int)
  then have "round_mag ?q = ?q / 2 powi ulp_exp ?q * 2 powi ulp_exp ?q"
    unfolding round_mag_pos [OF pos] by (simp only: eq)
  then show ?thesis by simp
qed simp

lemma round_mag_grid:
  assumes "0 \<le> q"
  shows "\<exists>m e. round_mag q = of_int m * 2 powi e \<and> 0 \<le> m \<and> m < 2 ^ 53 \<and> - 1074 \<le> e"
proof (cases "q = 0")
  case False
  let ?e = "ulp_exp q" and ?m = "round_even (q / 2 powi ulp_exp q)"
  have e: "- 1074 \<le> ?e" by (simp add: ulp_exp_def)
  have m0: "0 \<le> ?m" using assms by (intro round_even_ge) auto
  have "of_int ?m * 2 powi ?e \<le> (2 powi (?e + 53) :: rat)"
    using round_mag_upper [of q] False assms by (simp add: round_mag_def)
  then have "(of_int ?m :: rat) \<le> of_int (2 ^ 53)" by (simp add: two_powi_add)
  then have m: "?m \<le> 2 ^ 53" by (subst (asm) of_int_le_iff)
  have r: "round_mag q = of_int ?m * 2 powi ?e" using False by (simp add: round_mag_def)
  show ?thesis
  proof (cases "?m = 2 ^ 53")
    case True
    have "round_mag q = of_int (2 ^ 52) * 2 powi (?e + 1)"
      unfolding r True by (simp add: two_powi_add)
    moreover have "- 1074 \<le> ?e + 1" using e by simp
    moreover have "0 \<le> (2 :: int) ^ 52" "(2 :: int) ^ 52 < 2 ^ 53" by simp_all
    ultimately show ?thesis by blast
  next
    case False
    then have "?m < 2 ^ 53" using m by linarith
    with r m0 e show ?thesis by blast
  qed
qed (auto intro: exI [of _ 0])

lemma round_mag_idem: "0 \<le> q \<Longrightarrow> round_mag (round_mag q) = round_mag q"
  using round_mag_grid [of q] by (auto simp: round_mag_exact)

lemma round64_nonneg_eq: "0 \<le> x \<Longrightarrow> round64 x = round_mag x"
  by (simp add: round64_def)

lemma round64_minus: "round64 (- x) = - round64 x"
  by (auto simp: round64_def)

lemma round64_mono: "x \<le> y \<Longrightarrow> round64 x \<le> round64 y"
  using round_mag_mono [of x y] round_mag_mono [of "- y" "- x"]
    round_mag_nonneg [of y] round_mag_nonneg [of "- x"]
  by (auto simp: round64_def)

lemma round64_idem: "round64 (round64 x) = round64 x"
  using round_mag_idem [of x] round_mag_idem [of "- x"]
    round_mag_nonneg [of x] round_mag_nonneg [of "- x"]
  by (auto simp: round64_def)

interpretation r64: rounding round64
  by unfold_locales (auto intro: round64_mono simp: round64_idem round64_minus)

lemma round64_of_int: "\<bar>n\<bar> < 2 ^ 53 \<Longrightarrow> round64 (of_int n) = of_int n"
  using round_mag_exact [of n 0] round_mag_exact [of "- n" 0] by (auto simp: round64_def)

lemma round64_scaled_int:
  assumes "\<bar>m\<bar> < 2 ^ 53" "- 1074 \<le> e"
  shows "round64 (of_int m * 2 powi e) = of_int m * 2 powi e"
proof (cases "0 \<le> m")
  case True
  then show ?thesis using assms round_mag_exact [of m e] by (simp add: round64_nonneg_eq)
next
  case False
  then have "round64 (of_int (- m) * 2 powi e) = of_int (- m) * 2 powi e"
    using assms round_mag_exact [of "- m" e]
    by (subst round64_nonneg_eq) (auto simp: mult_nonpos_nonneg)
  then show ?thesis using round64_minus [of "of_int m * 2 powi e"] by simp
qed

subsection \<open>Floats and their values\<close>

named_theorems float_simps \<open>what the float operations compute on finite values\<close>

lemma max_mag_pos [simp]: "0 < max_mag"
  by (simp add: max_mag_def)

lemma finite_fl_mag: "finite64 (fl_mag s q) \<longleftrightarrow> round_mag q < max_mag"
  by (simp add: fl_mag_def Let_def not_le)

lemma val_fl_mag:
  "round_mag q < max_mag \<Longrightarrow> val (fl_mag s q) = (if s then - round_mag q else round_mag q)"
  by (simp add: fl_mag_def Let_def)

lemma round64_eq_mag: "round64 x = (if x < 0 then - round_mag \<bar>x\<bar> else round_mag \<bar>x\<bar>)"
  by (simp add: round64_def)

lemma abs_round64: "\<bar>round64 x\<bar> = round_mag \<bar>x\<bar>"
  using round_mag_nonneg [of "\<bar>x\<bar>"] by (simp add: round64_eq_mag)

lemma finite_fl [float_simps]: "finite64 (fl x) \<longleftrightarrow> \<bar>round64 x\<bar> < max_mag"
  by (simp add: fl_def finite_fl_mag abs_round64)

lemma val_fl [float_simps]: "\<bar>round64 x\<bar> < max_mag \<Longrightarrow> val (fl x) = round64 x"
  by (simp add: fl_def val_fl_mag abs_round64) (simp add: round64_eq_mag)

lemma is_float64_fl_mag: "0 \<le> q \<Longrightarrow> is_float64 (fl_mag s q)"
  by (auto simp: fl_mag_def Let_def round_mag_idem round_mag_nonneg)

lemma is_float64_fl: "is_float64 (fl x)"
  by (simp add: fl_def is_float64_fl_mag)

lemma is_float64_round: "is_float64 x \<Longrightarrow> round64 (val x) = val x"
  by (cases x) (auto simp: round64_def)

lemma is_float64_bound: "is_float64 x \<Longrightarrow> \<bar>val x\<bar> < max_mag"
  by (cases x) auto

lemma le_iff_val [float_simps]: "finite64 x \<Longrightarrow> finite64 y \<Longrightarrow> x \<le> y \<longleftrightarrow> val x \<le> val y"
  by (cases x; cases y) (auto simp: less_eq_float64_def)

lemma less_iff_val [float_simps]: "finite64 x \<Longrightarrow> finite64 y \<Longrightarrow> x < y \<longleftrightarrow> val x < val y"
  by (cases x; cases y) (auto simp: less_float64_def)

lemma f_eq_iff_val [float_simps]: "finite64 x \<Longrightarrow> finite64 y \<Longrightarrow> f_eq x y \<longleftrightarrow> val x = val y"
  by (cases x; cases y) auto

lemma finite_neg [simp]: "finite64 (f_neg x) = finite64 x"
  by (cases x) auto

lemma val_neg [simp]: "val (f_neg x) = - val x"
  by (cases x) auto

lemma finite_add [float_simps]:
  "finite64 x \<Longrightarrow> finite64 y \<Longrightarrow> finite64 (x + y) \<longleftrightarrow> \<bar>round64 (val x + val y)\<bar> < max_mag"
  by (cases x; cases y) (auto simp: plus_float64_def finite_fl r64.rnd_0)

lemma val_add [float_simps]:
  "finite64 x \<Longrightarrow> finite64 y \<Longrightarrow> finite64 (x + y) \<Longrightarrow> val (x + y) = round64 (val x + val y)"
  by (cases x; cases y) (auto simp: plus_float64_def finite_fl val_fl r64.rnd_0 split: if_splits)

lemma finite_sub [float_simps]:
  "finite64 x \<Longrightarrow> finite64 y \<Longrightarrow> finite64 (x - y) \<longleftrightarrow> \<bar>round64 (val x - val y)\<bar> < max_mag"
  using finite_add [of x "f_neg y"] by (simp add: minus_float64_def plus_float64_def)

lemma val_sub [float_simps]:
  "finite64 x \<Longrightarrow> finite64 y \<Longrightarrow> finite64 (x - y) \<Longrightarrow> val (x - y) = round64 (val x - val y)"
  using val_add [of x "f_neg y"] by (simp add: minus_float64_def plus_float64_def)

text \<open>Products and quotients need the magnitudes not to be negative, as those of real floats
  are.\<close>

lemma signed_round_mag:
  "0 \<le> q \<Longrightarrow> (if s then - round_mag q else round_mag q) = round64 (if s then - q else q)"
  by (auto simp: round64_def)

lemma finite_mul [float_simps]:
  assumes "is_float64 x" "is_float64 y" "finite64 x" "finite64 y"
  shows "finite64 (x * y) \<longleftrightarrow> \<bar>round64 (val x * val y)\<bar> < max_mag"
  using assms by (cases x; cases y) (auto simp: times_float64_def finite_fl_mag abs_round64 abs_mult)

lemma val_mul [float_simps]:
  assumes "is_float64 x" "is_float64 y" "finite64 x" "finite64 y" "finite64 (x * y)"
  shows "val (x * y) = round64 (val x * val y)"
  using assms
  by (cases x; cases y)
    (auto simp: times_float64_def finite_fl_mag val_fl_mag signed_round_mag round64_minus
      round64_nonneg_eq)

lemma finite_div [float_simps]:
  assumes "is_float64 x" "is_float64 y" "finite64 x" "finite64 y" "val y \<noteq> 0"
  shows "finite64 (x / y) \<longleftrightarrow> \<bar>round64 (val x / val y)\<bar> < max_mag"
  using assms
  by (cases x; cases y) (auto simp: divide_float64_def finite_fl_mag abs_round64 abs_divide split: if_splits)

lemma val_div [float_simps]:
  assumes "is_float64 x" "is_float64 y" "finite64 x" "finite64 y" "val y \<noteq> 0" "finite64 (x / y)"
  shows "val (x / y) = round64 (val x / val y)"
  using assms
  by (cases x; cases y)
    (auto simp: divide_float64_def finite_fl_mag val_fl_mag signed_round_mag round64_minus
      round64_nonneg_eq split: if_splits)

text \<open>Every operation yields a float.\<close>

lemma is_float64_neg: "is_float64 x \<Longrightarrow> is_float64 (f_neg x)"
  by (cases x) auto

lemma is_float64_add: "is_float64 x \<Longrightarrow> is_float64 y \<Longrightarrow> is_float64 (x + y)"
  by (cases x; cases y) (auto simp: plus_float64_def is_float64_fl)

lemma is_float64_sub: "is_float64 x \<Longrightarrow> is_float64 y \<Longrightarrow> is_float64 (x - y)"
  using is_float64_add [of x "f_neg y"] is_float64_neg [of y]
  by (simp add: minus_float64_def plus_float64_def)

lemma is_float64_mul: "is_float64 x \<Longrightarrow> is_float64 y \<Longrightarrow> is_float64 (x * y)"
  by (cases x; cases y) (auto simp: times_float64_def is_float64_fl_mag)

lemma is_float64_div: "is_float64 x \<Longrightarrow> is_float64 y \<Longrightarrow> is_float64 (x / y)"
  by (cases x; cases y) (auto simp: divide_float64_def is_float64_fl_mag)

lemma is_float64_of_int64: "is_float64 (of_int64 n)"
  by (simp add: of_int64_def is_float64_fl)

lemmas is_float64_intros [invar_intros] =
  is_float64_add is_float64_sub is_float64_mul is_float64_div is_float64_of_int64 is_float64_fl

subsection \<open>Conversions\<close>

lemma trunc_rat_mono: "x \<le> y \<Longrightarrow> trunc_rat x \<le> trunc_rat y"
proof -
  assume "x \<le> y"
  then have "\<lfloor>x\<rfloor> \<le> \<lfloor>y\<rfloor>" "\<lfloor>- y\<rfloor> \<le> \<lfloor>- x\<rfloor>" by (auto intro: floor_mono)
  moreover have "- \<lfloor>- x\<rfloor> \<le> \<lfloor>y\<rfloor>" if "x < 0" "\<not> y < 0"
  proof -
    have "0 \<le> \<lfloor>- x\<rfloor>" "0 \<le> \<lfloor>y\<rfloor>" using that by simp_all
    then show ?thesis by linarith
  qed
  ultimately show ?thesis using \<open>x \<le> y\<close> by (auto simp: trunc_rat_def)
qed

lemma trunc_rat_of_int [simp]: "trunc_rat (of_int n) = n"
proof -
  have "\<lfloor>- (of_int n :: rat)\<rfloor> = - n" by (metis floor_of_int of_int_minus)
  then show ?thesis by (simp add: trunc_rat_def)
qed

lemma of_int64_exact:
  assumes "\<bar>n\<bar> < 2 ^ 53"
  shows "finite64 (of_int64 n)" "val (of_int64 n) = of_int n"
proof -
  have r: "round64 (of_int n) = of_int n" using assms by (rule round64_of_int)
  have "\<bar>of_int n :: rat\<bar> = of_int \<bar>n\<bar>" by simp
  also have "\<dots> < of_int (2 ^ 53)" using assms by (subst of_int_less_iff)
  also have "\<dots> \<le> max_mag" by (simp add: max_mag_def)
  finally have "\<bar>round64 (of_int n)\<bar> < max_mag" using r by simp
  then show "finite64 (of_int64 n)" "val (of_int64 n) = of_int n"
    using r by (simp_all add: of_int64_def finite_fl val_fl)
qed

subsection \<open>Scaling and rounding errors\<close>

lemma log2_floor_scale:
  assumes "0 < q" shows "log2_floor (q * 2 powi k) = log2_floor q + k"
proof -
  have "j \<le> log2_floor (q * 2 powi k) \<longleftrightarrow> j \<le> log2_floor q + k" for j
  proof -
    have "j \<le> log2_floor (q * 2 powi k) \<longleftrightarrow> 2 powi j \<le> q * 2 powi k"
      using assms by (intro log2_floor_le_iff) simp
    also have "\<dots> \<longleftrightarrow> 2 powi (j - k) \<le> q"
      using two_powi_add [of "j - k" k] by (metis diff_add_cancel mult_le_cancel_right_pos two_powi_pos)
    also have "\<dots> \<longleftrightarrow> j - k \<le> log2_floor q"
      using log2_floor_le_iff [OF assms] by simp
    finally show ?thesis by linarith
  qed
  then show ?thesis by (meson order_antisym order_refl)
qed

text \<open>Scaling a normal number up by a power of two commutes with rounding.\<close>

lemma round64_scale:
  assumes "2 powi (- 1022) \<le> x" "0 \<le> k"
  shows "round64 (x * 2 powi k) = round64 x * 2 powi k"
proof -
  have pos: "0 < x" using assms(1) two_powi_pos [of "- 1022"] by linarith
  then have l: "- 1022 \<le> log2_floor x" using assms(1) by (simp add: log2_floor_le_iff)
  then have u: "ulp_exp (x * 2 powi k) = ulp_exp x + k"
    using assms(2) by (simp add: ulp_exp_def log2_floor_scale [OF pos])
  have "x * 2 powi k / 2 powi (ulp_exp x + k) = x / 2 powi ulp_exp x"
    by (simp add: two_powi_add)
  then have "round_mag (x * 2 powi k) = round_mag x * 2 powi k"
    using pos by (simp add: round_mag_pos u two_powi_add)
  then show ?thesis using pos by (simp add: round64_nonneg_eq)
qed

lemma round_mag_error: "0 < q \<Longrightarrow> \<bar>round_mag q - q\<bar> \<le> 2 powi (ulp_exp q - 1)"
proof -
  assume q: "0 < q"
  define p where "p = (2 :: rat) powi ulp_exp q"
  have p: "0 < p" unfolding p_def by simp
  have "round_mag q - q = (of_int (round_even (q / p)) - q / p) * p"
    using q p by (simp add: round_mag_pos p_def left_diff_distrib)
  then have "\<bar>round_mag q - q\<bar> = \<bar>of_int (round_even (q / p)) - q / p\<bar> * p"
    using p by (simp add: abs_mult)
  also have "\<dots> \<le> 1 / 2 * p"
    using p round_even_error [of "q / p"] by (intro mult_right_mono) auto
  also have "\<dots> = 2 powi (ulp_exp q - 1)"
    unfolding p_def by (simp add: power_int_diff)
  finally show ?thesis .
qed

text \<open>Below \<open>2\<^bsup>k\<^esup>\<close> the error is at most \<open>2\<^bsup>k - 54\<^esup>\<close>.\<close>

lemma round64_error:
  assumes "\<bar>x\<bar> < 2 powi k" "- 1021 \<le> k"
  shows "\<bar>round64 x - x\<bar> \<le> 2 powi (k - 54)"
proof -
  have mag: "\<bar>round_mag q - q\<bar> \<le> 2 powi (k - 54)" if "0 \<le> q" "q < 2 powi k" for q
  proof (cases "q = 0")
    case False
    then have q: "0 < q" using that by simp
    have "2 powi log2_floor q < (2 :: rat) powi k"
      using log2_floor_bounds(1) [OF q] that(2) by (rule le_less_trans)
    then have "ulp_exp q \<le> k - 53"
      using assms(2) by (simp add: ulp_exp_def two_powi_less_iff)
    then have "(2 :: rat) powi (ulp_exp q - 1) \<le> 2 powi (k - 54)"
      by (simp add: two_powi_le_iff)
    then show ?thesis using round_mag_error [OF q] by (rule order_trans [rotated])
  qed simp
  show ?thesis
    using mag [of "\<bar>x\<bar>"] assms(1) by (auto simp: round64_def abs_if split: if_splits)
qed

section \<open>Values below a power of two\<close>

lemma round64_exact_powi: "- 1074 \<le> k \<Longrightarrow> round64 (2 powi k) = 2 powi k"
  using round64_scaled_int [of 1 k] by simp

lemma powi_max_mag: "k < 1024 \<Longrightarrow> (2 :: rat) powi k < max_mag"
  using two_powi_less_iff [of k 1024] by (simp add: max_mag_def power_int_def)

lemma finite_if_le:
  assumes "\<bar>x\<bar> \<le> 2 powi k" "- 1074 \<le> k" "k < 1024"
  shows "\<bar>round64 x\<bar> < max_mag"
  using r64.rnd_abs_le [OF round64_exact_powi [OF assms(2)] assms(1)] powi_max_mag [OF assms(3)] by simp

end
