(* ===== verification/Go_Heap.thy ===== *)
theory Go_Heap
  imports Go_Prelude
begin

text \<open>
  Go's \<open>container/heap\<close> on a slice, generic in the \<open>Less\<close> method: \<open>up\<close>, \<open>down\<close>,
  \<open>Init\<close>, \<open>Push\<close> and \<open>Pop\<close> as the library writes them. The locale \<open>heap_order\<close>
  assumes of \<open>Less\<close> what the library's documentation asks (a strict weak order) and proves
  that the operations keep the heap invariant and the multiset of elements and that \<open>Pop\<close>
  returns a minimum; \<open>prio_queue\<close> is the contract clients use, which every \<open>heap_order\<close>
  provides.
\<close>

section \<open>The library\<close>

definition swap :: "'a list \<Rightarrow> nat \<Rightarrow> nat \<Rightarrow> 'a list" where
  "swap xs i j = xs[i := xs ! j, j := xs ! i]"

definition parent :: "nat \<Rightarrow> nat" where
  "parent j = (j - 1) div 2"

lemma parent_less [termination_simp]: "0 < j \<Longrightarrow> parent j < j"
  by (simp add: parent_def)

lemma parent_less' [termination_simp]: "j \<noteq> 0 \<Longrightarrow> parent j < j"
  by (simp add: parent_def)

fun heap_up :: "('a \<Rightarrow> 'a \<Rightarrow> bool) \<Rightarrow> 'a list \<Rightarrow> nat \<Rightarrow> 'a list" where
  "heap_up lt xs j =
     (if j = 0 \<or> \<not> lt (xs ! j) (xs ! parent j) then xs
      else heap_up lt (swap xs (parent j) j) (parent j))"

definition min_child :: "('a \<Rightarrow> 'a \<Rightarrow> bool) \<Rightarrow> 'a list \<Rightarrow> nat \<Rightarrow> nat \<Rightarrow> nat" where
  "min_child lt xs i n =
     (if 2 * i + 2 < n \<and> lt (xs ! (2 * i + 2)) (xs ! (2 * i + 1)) then 2 * i + 2
      else 2 * i + 1)"

function heap_down :: "('a \<Rightarrow> 'a \<Rightarrow> bool) \<Rightarrow> 'a list \<Rightarrow> nat \<Rightarrow> nat \<Rightarrow> 'a list" where
  "heap_down lt xs i n =
     (if n \<le> 2 * i + 1 \<or> \<not> lt (xs ! min_child lt xs i n) (xs ! i) then xs
      else heap_down lt (swap xs i (min_child lt xs i n)) (min_child lt xs i n) n)"
  by pat_completeness auto
termination
  by (relation "measure (\<lambda>(lt, xs, i, n). n - i)") (auto simp: min_child_def)

declare heap_up.simps [simp del] heap_down.simps [simp del]

definition heap_init :: "('a \<Rightarrow> 'a \<Rightarrow> bool) \<Rightarrow> 'a list \<Rightarrow> 'a list" where
  "heap_init lt xs =
     foldl (\<lambda>ys i. heap_down lt ys i (length ys)) xs (rev [0..<length xs div 2])"

definition heap_push :: "('a \<Rightarrow> 'a \<Rightarrow> bool) \<Rightarrow> 'a \<Rightarrow> 'a list \<Rightarrow> 'a list" where
  "heap_push lt x xs = heap_up lt (xs @ [x]) (length xs)"

text \<open>On an empty slice \<open>Pop\<close> swaps index 0 with index -1, which panics.\<close>

definition heap_pop :: "('a \<Rightarrow> 'a \<Rightarrow> bool) \<Rightarrow> 'a list \<Rightarrow> ('a \<times> 'a list) outcome" where
  "heap_pop lt xs =
     (if xs = [] then Panic IndexOutOfRange
      else let n = length xs - 1; ys = heap_down lt (swap xs 0 n) 0 n
           in Ok (ys ! n, take n ys))"

text \<open>No element is less than its parent; \<open>heap_from\<close> says so for the parents from \<open>m\<close>
  on among the first \<open>n\<close> elements.\<close>

definition heap_from :: "('a \<Rightarrow> 'a \<Rightarrow> bool) \<Rightarrow> 'a list \<Rightarrow> nat \<Rightarrow> nat \<Rightarrow> bool" where
  "heap_from lt xs m n \<longleftrightarrow>
     (\<forall>k<n. 0 < k \<longrightarrow> m \<le> parent k \<longrightarrow> \<not> lt (xs ! k) (xs ! parent k))"

abbreviation is_heap :: "('a \<Rightarrow> 'a \<Rightarrow> bool) \<Rightarrow> 'a list \<Rightarrow> bool" where
  "is_heap lt xs \<equiv> heap_from lt xs 0 (length xs)"

text \<open>The two weakened invariants: everywhere but between \<open>i\<close> and its parent, or but
  between \<open>i\<close> and its children, the children of \<open>i\<close> still bounded by its parent.\<close>

definition heap_but_up :: "('a \<Rightarrow> 'a \<Rightarrow> bool) \<Rightarrow> 'a list \<Rightarrow> nat \<Rightarrow> bool" where
  "heap_but_up lt xs i \<longleftrightarrow>
     (\<forall>k<length xs. 0 < k \<longrightarrow> k \<noteq> i \<longrightarrow> \<not> lt (xs ! k) (xs ! parent k)) \<and>
     (\<forall>k<length xs. 0 < k \<longrightarrow> parent k = i \<longrightarrow> 0 < i \<longrightarrow> \<not> lt (xs ! k) (xs ! parent i))"

definition heap_but_down ::
  "('a \<Rightarrow> 'a \<Rightarrow> bool) \<Rightarrow> 'a list \<Rightarrow> nat \<Rightarrow> nat \<Rightarrow> nat \<Rightarrow> bool" where
  "heap_but_down lt xs i m n \<longleftrightarrow>
     (\<forall>k<n. 0 < k \<longrightarrow> m \<le> parent k \<longrightarrow> parent k \<noteq> i \<longrightarrow> \<not> lt (xs ! k) (xs ! parent k)) \<and>
     (\<forall>k<n. 0 < k \<longrightarrow> parent k = i \<longrightarrow> 0 < i \<longrightarrow> m \<le> parent i \<longrightarrow>
        \<not> lt (xs ! k) (xs ! parent i))"

section \<open>Swaps, lengths and multisets\<close>

lemma length_swap [simp]: "length (swap xs i j) = length xs"
  by (simp add: swap_def)

lemma mset_swap_eq [simp]:
  "i < length xs \<Longrightarrow> j < length xs \<Longrightarrow> mset (swap xs i j) = mset xs"
  by (simp add: swap_def mset_swap)

lemma nth_swap:
  "i < length xs \<Longrightarrow> j < length xs \<Longrightarrow>
    swap xs i j ! k = (if k = j then xs ! i else if k = i then xs ! j else xs ! k)"
  by (auto simp: swap_def nth_list_update)

lemma length_heap_up [simp]: "length (heap_up lt xs j) = length xs"
proof (induction lt xs j rule: heap_up.induct)
  case (1 lt xs j)
  then show ?case by (subst heap_up.simps) simp
qed

lemma mset_heap_up: "j < length xs \<Longrightarrow> mset (heap_up lt xs j) = mset xs"
proof (induction lt xs j rule: heap_up.induct)
  case (1 lt xs j)
  have "parent j < length xs" using "1.prems" by (simp add: parent_def)
  with 1 show ?case by (subst heap_up.simps) simp
qed

lemma min_child_cases:
  "2 * i + 1 < n \<Longrightarrow> min_child lt xs i n \<in> {2 * i + 1, 2 * i + 2} \<and> min_child lt xs i n < n"
  by (auto simp: min_child_def)

lemma length_heap_down [simp]: "length (heap_down lt xs i n) = length xs"
proof (induction lt xs i n rule: heap_down.induct)
  case (1 lt xs i n)
  then show ?case by (subst heap_down.simps) simp
qed

lemma mset_heap_down: "n \<le> length xs \<Longrightarrow> mset (heap_down lt xs i n) = mset xs"
proof (induction lt xs i n rule: heap_down.induct)
  case (1 lt xs i n)
  show ?case
  proof (cases "n \<le> 2 * i + 1 \<or> \<not> lt (xs ! min_child lt xs i n) (xs ! i)")
    case False
    then have "min_child lt xs i n < length xs" "i < length xs"
      using min_child_cases [of i n lt xs] "1.prems" by auto
    with False 1 show ?thesis by (subst heap_down.simps) simp
  qed (simp add: heap_down.simps)
qed

text \<open>\<open>down\<close> leaves everything from \<open>n\<close> on alone.\<close>

lemma nth_heap_down_beyond:
  "n \<le> length xs \<Longrightarrow> n \<le> k \<Longrightarrow> heap_down lt xs i n ! k = xs ! k"
proof (induction lt xs i n rule: heap_down.induct)
  case (1 lt xs i n)
  show ?case
  proof (cases "n \<le> 2 * i + 1 \<or> \<not> lt (xs ! min_child lt xs i n) (xs ! i)")
    case False
    then have c: "min_child lt xs i n < n" "i < n"
      using min_child_cases [of i n lt xs] by auto
    then have "swap xs i (min_child lt xs i n) ! k = xs ! k"
      using "1.prems" by (simp add: nth_swap)
    with False 1 show ?thesis by (subst heap_down.simps) simp
  qed (simp add: heap_down.simps)
qed

lemma parent_children: "0 < k \<Longrightarrow> parent k = i \<longleftrightarrow> k = 2 * i + 1 \<or> k = 2 * i + 2"
  by (auto simp: parent_def)

section \<open>The contract of a priority queue\<close>

text \<open>What a client of \<open>heap.Push\<close> and \<open>heap.Pop\<close> relies on: the elements are a
  multiset, and \<open>pop\<close> takes one out that no other element is less than.\<close>

locale prio_queue =
  fixes lt :: "'a \<Rightarrow> 'a \<Rightarrow> bool"
    and empty :: 'q
    and push :: "'a \<Rightarrow> 'q \<Rightarrow> 'q"
    and pop :: "'q \<Rightarrow> ('a \<times> 'q) outcome"
    and invar :: "'q \<Rightarrow> bool"
    and elems :: "'q \<Rightarrow> 'a multiset"
  assumes invar_empty: "invar empty"
    and elems_empty: "elems empty = {#}"
    and invar_push: "invar q \<Longrightarrow> invar (push x q)"
    and elems_push: "invar q \<Longrightarrow> elems (push x q) = add_mset x (elems q)"
    and pop_empty: "invar q \<Longrightarrow> elems q = {#} \<Longrightarrow> pop q = Panic IndexOutOfRange"
    and pop_min: "invar q \<Longrightarrow> elems q \<noteq> {#} \<Longrightarrow>
      \<exists>x q'. pop q = Ok (x, q') \<and> invar q' \<and> elems q = add_mset x (elems q') \<and>
        (\<forall>y \<in># elems q'. \<not> lt y x)"
begin

lemma pop_OkD:
  assumes "invar q" "pop q = Ok (x, q')"
  shows "invar q'" "elems q = add_mset x (elems q')" "\<And>y. y \<in># elems q' \<Longrightarrow> \<not> lt y x"
  using assms pop_min [OF assms(1)] pop_empty [OF assms(1)] by (cases "elems q = {#}"; force)+

lemma pop_returns_iff: "invar q \<Longrightarrow> returns (pop q) \<longleftrightarrow> elems q \<noteq> {#}"
  using pop_min [of q] pop_empty [of q] by (auto simp: returns_iff)

text \<open>Popping an element and pushing it back changes nothing a client can see.\<close>

lemma pop_push_elems: "invar q \<Longrightarrow> pop q = Ok (x, q') \<Longrightarrow> elems (push x q') = elems q"
  using pop_OkD [of q x q'] by (simp add: elems_push)

end

section \<open>Heaps over a strict weak order\<close>

locale heap_order =
  fixes lt :: "'a \<Rightarrow> 'a \<Rightarrow> bool"
  assumes asym: "lt a b \<Longrightarrow> \<not> lt b a"
    and not_trans: "\<not> lt a b \<Longrightarrow> \<not> lt b c \<Longrightarrow> \<not> lt a c"
begin

lemma irrefl: "\<not> lt a a"
  using asym by blast

lemma up_step:
  assumes but: "heap_but_up lt xs j" and j: "j < length xs" "0 < j"
    and lt: "lt (xs ! j) (xs ! parent j)"
  shows "heap_but_up lt (swap xs (parent j) j) (parent j)"
proof -
  let ?i = "parent j" and ?ys = "swap xs (parent j) j"
  have i: "?i < j" "?i < length xs" using j parent_less [of j] by auto
  have nth: "?ys ! k = (if k = j then xs ! ?i else if k = ?i then xs ! j else xs ! k)" for k
    using i j by (simp add: nth_swap)
  have ord: "\<not> lt (xs ! k) (xs ! parent k)" if "k < length xs" "0 < k" "k \<noteq> j" for k
    using but that by (auto simp: heap_but_up_def)
  have child: "\<not> lt (xs ! k) (xs ! ?i)" if "k < length xs" "0 < k" "parent k = j" for k
    using but that j by (auto simp: heap_but_up_def)
  have ne: "parent k \<noteq> k" if "0 < k" for k using parent_less [of k] that by simp
  show ?thesis unfolding heap_but_up_def
  proof (intro conjI allI impI)
    fix k assume k: "k < length ?ys" "0 < k" "k \<noteq> ?i"
    show "\<not> lt (?ys ! k) (?ys ! parent k)"
    proof (cases "k = j")
      case True
      then show ?thesis using asym [OF lt] i by (simp add: nth)
    next
      case False
      have "\<not> lt (xs ! k) (xs ! j)" if "parent k = ?i"
        using ord [of k] k False that asym [OF lt] not_trans by auto
      then show ?thesis using k False ord [of k] child [of k] by (auto simp: nth)
    qed
  next
    fix k assume k: "k < length ?ys" "0 < k" "parent k = ?i" "0 < ?i"
    have pi: "parent ?i \<noteq> j" "parent ?i \<noteq> ?i" using parent_less [OF k(4)] i by auto
    have "\<not> lt (xs ! ?i) (xs ! parent ?i)" using ord [of ?i] i k by auto
    then show "\<not> lt (?ys ! k) (?ys ! parent ?i)"
      using ord [of k] k pi ne [OF k(2)] not_trans by (auto simp: nth)
  qed
qed

lemma heap_up_heap:
  "heap_but_up lt xs j \<Longrightarrow> j < length xs \<Longrightarrow> is_heap lt (heap_up lt xs j)"
proof (induction j arbitrary: xs rule: less_induct)
  case (less j)
  show ?case
  proof (cases "j = 0 \<or> \<not> lt (xs ! j) (xs ! parent j)")
    case True
    with less.prems have "is_heap lt xs"
      unfolding heap_but_up_def heap_from_def by (metis less_nat_zero_code)
    with True show ?thesis by (simp add: heap_up.simps)
  next
    case False
    then have "heap_but_up lt (swap xs (parent j) j) (parent j)" "parent j < j"
      using up_step [of xs j] less.prems parent_less [of j] by auto
    then have "is_heap lt (heap_up lt (swap xs (parent j) j) (parent j))"
      using less.prems by (intro less.IH) auto
    with False show ?thesis by (simp add: heap_up.simps [of lt xs])
  qed
qed

lemma sibling:
  assumes "k < n" "0 < k" "parent k = i" shows "\<not> lt (xs ! k) (xs ! min_child lt xs i n)"
  using assms parent_children [of k i] asym irrefl by (auto simp: min_child_def)

lemma down_step:
  assumes but: "heap_but_down lt xs i m n" and n: "2 * i + 1 < n" "n \<le> length xs"
    and lt: "lt (xs ! min_child lt xs i n) (xs ! i)" and m: "m \<le> i"
  shows "heap_but_down lt (swap xs i (min_child lt xs i n)) (min_child lt xs i n) m n"
proof -
  let ?j = "min_child lt xs i n" and ?ys = "swap xs i (min_child lt xs i n)"
  have j: "?j = 2 * i + 1 \<or> ?j = 2 * i + 2" "?j < n" "0 < ?j"
    using min_child_cases [OF n(1), of lt xs] by auto
  have pj: "parent ?j = i" using j parent_children [of ?j i] by simp
  have nth: "?ys ! k = (if k = ?j then xs ! i else if k = i then xs ! ?j else xs ! k)" for k
    using j n by (simp add: nth_swap)
  have ord: "\<not> lt (xs ! k) (xs ! parent k)"
    if "k < n" "0 < k" "m \<le> parent k" "parent k \<noteq> i" for k
    using but that by (auto simp: heap_but_down_def)
  have child: "\<not> lt (xs ! k) (xs ! parent i)"
    if "k < n" "0 < k" "parent k = i" "0 < i" "m \<le> parent i" for k
    using but that by (auto simp: heap_but_down_def)
  show ?thesis unfolding heap_but_down_def
  proof (intro conjI allI impI)
    fix k assume k: "k < n" "0 < k" "m \<le> parent k" "parent k \<noteq> ?j"
    have kp: "parent k < k" using k by (intro parent_less)
    show "\<not> lt (?ys ! k) (?ys ! parent k)"
    proof (cases "parent k = i")
      case True
      then show ?thesis using sibling [of k] asym [OF lt] k kp by (auto simp: nth)
    next
      case False
      then have "k \<noteq> ?j" using pj by auto
      then show ?thesis using False k ord [of k] child [OF j(2,3) pj] by (auto simp: nth)
    qed
  next
    fix k assume k: "k < n" "0 < k" "parent k = ?j" "0 < ?j" "m \<le> parent ?j"
    have "?j < k" "i < ?j" using k parent_less [of k] parent_less [of ?j] pj by auto
    then show "\<not> lt (?ys ! k) (?ys ! parent ?j)"
      using ord [of k] k m pj j by (auto simp: nth)
  qed
qed

lemma heap_down_heap:
  "heap_but_down lt xs i m n \<Longrightarrow> m \<le> i \<Longrightarrow> n \<le> length xs \<Longrightarrow>
    heap_from lt (heap_down lt xs i n) m n"
proof (induction "n - i" arbitrary: xs i rule: less_induct)
  case less
  show ?case
  proof (cases "n \<le> 2 * i + 1 \<or> \<not> lt (xs ! min_child lt xs i n) (xs ! i)")
    case True
    have "\<not> lt (xs ! k) (xs ! i)" if k: "k < n" "0 < k" "parent k = i" for k
    proof -
      have "2 * i + 1 < n" using k parent_children [of k i] by auto
      then have "\<not> lt (xs ! min_child lt xs i n) (xs ! i)" using True by auto
      then show ?thesis using sibling [OF k] not_trans by blast
    qed
    with less.prems have "heap_from lt xs m n"
      unfolding heap_but_down_def heap_from_def by blast
    with True show ?thesis by (simp add: heap_down.simps [of lt xs])
  next
    case False
    let ?j = "min_child lt xs i n"
    have j: "i < ?j" "?j < n" using False min_child_cases [of i n lt xs] by auto
    have "heap_but_down lt (swap xs i ?j) ?j m n"
      using False less.prems by (intro down_step) auto
    then have "heap_from lt (heap_down lt (swap xs i ?j) ?j n) m n"
      using less.prems j by (intro less.hyps) auto
    with False show ?thesis by (subst heap_down.simps) simp
  qed
qed

lemma heap_root:
  assumes "is_heap lt xs" "k < length xs" shows "\<not> lt (xs ! k) (xs ! 0)"
  using assms(2)
proof (induction k rule: less_induct)
  case (less k)
  show ?case
  proof (cases "k = 0")
    case False
    then have "\<not> lt (xs ! parent k) (xs ! 0)"
      using less parent_less [of k] by auto
    moreover have "\<not> lt (xs ! k) (xs ! parent k)"
      using assms(1) less.prems False by (auto simp: heap_from_def)
    ultimately show ?thesis using not_trans by blast
  qed (simp add: irrefl)
qed

lemma heap_push_heap: "is_heap lt xs \<Longrightarrow> is_heap lt (heap_push lt x xs)"
  unfolding heap_push_def
proof (rule heap_up_heap)
  assume heap: "is_heap lt xs"
  have "parent k < length xs" if "k < length xs" for k
    using that by (simp add: parent_def)
  moreover have "length xs < k" if "parent k = length xs" "0 < length xs" for k
  proof -
    have "0 < k" using that by (cases k) (auto simp: parent_def)
    then show ?thesis using that parent_less [of k] by simp
  qed
  ultimately show "heap_but_up lt (xs @ [x]) (length xs)"
    using heap by (fastforce simp: heap_but_up_def heap_from_def nth_append)
qed simp

lemma heap_pop_spec:
  assumes "is_heap lt xs" "xs \<noteq> []"
  shows "\<exists>ys. heap_pop lt xs = Ok (xs ! 0, ys) \<and> is_heap lt ys \<and>
    mset xs = add_mset (xs ! 0) (mset ys)"
proof -
  let ?n = "length xs - 1" and ?s = "swap xs 0 (length xs - 1)"
  let ?d = "heap_down lt ?s 0 ?n"
  have len: "Suc ?n = length xs" using assms(2) by (cases xs) auto
  have nth: "?s ! k = (if k = ?n then xs ! 0 else if k = 0 then xs ! ?n else xs ! k)" for k
    using assms(2) by (intro nth_swap) auto
  have p: "parent k < ?n" if "k < ?n" for k using that by (simp add: parent_def)
  have "\<not> lt (?s ! k) (?s ! parent k)" if k: "k < ?n" "0 < k" "0 < parent k" for k
  proof -
    have "?s ! k = xs ! k" "?s ! parent k = xs ! parent k"
      using p [OF k(1)] k nth [of k] nth [of "parent k"] by auto
    then show ?thesis using assms(1) k by (auto simp: heap_from_def)
  qed
  then have "heap_but_down lt ?s 0 0 ?n" by (auto simp: heap_but_down_def)
  then have d: "heap_from lt ?d 0 ?n" using len by (intro heap_down_heap) auto
  have last: "?d ! ?n = xs ! 0"
    using nth_heap_down_beyond [of ?n ?s ?n lt 0] nth [of ?n] by simp
  have take: "is_heap lt (take ?n ?d)" using d p len by (auto simp: heap_from_def)
  have "?d = take ?n ?d @ [?d ! ?n]"
    using len by (metis length_heap_down length_swap lessI take_Suc_conv_app_nth take_all
        order_refl)
  then have "mset ?d = add_mset (xs ! 0) (mset (take ?n ?d))"
    using last by (metis add_mset_add_single mset.simps mset_append)
  moreover have "mset ?d = mset xs"
    using mset_heap_down [of ?n ?s lt 0] mset_swap_eq [of 0 xs ?n] assms(2) by simp
  ultimately show ?thesis using take last assms(2)
    by (auto simp: heap_pop_def Let_def)
qed

lemma heap_init_heap: "is_heap lt (heap_init lt xs)"
proof -
  have step: "length zs = length xs \<and> heap_from lt zs 0 (length xs)"
    if "length ys = length xs" "heap_from lt ys m (length xs)"
      "zs = foldl (\<lambda>zs i. heap_down lt zs i (length zs)) ys (rev [0..<m])" for m ys zs
    using that
  proof (induction m arbitrary: ys)
    case (Suc m)
    have "\<not> m \<le> parent m" if "0 < m" using parent_less [OF that] by simp
    then have "heap_but_down lt ys m m (length xs)"
      using Suc.prems by (auto simp: heap_but_down_def heap_from_def Suc_le_eq)
    then have "heap_from lt (heap_down lt ys m (length ys)) m (length xs)"
      using heap_down_heap [of ys m m "length xs"] Suc.prems by simp
    with Suc.prems show ?case by (intro Suc.IH) auto
  qed simp
  have "heap_from lt xs (length xs div 2) (length xs)"
    by (auto simp: heap_from_def parent_def)
  from step [OF refl this refl] show ?thesis unfolding heap_init_def by simp
qed

end

text \<open>Every heap over a strict weak order is a priority queue.\<close>

sublocale heap_order \<subseteq> pq: prio_queue lt "[]" "heap_push lt" "heap_pop lt" "is_heap lt" mset
proof unfold_locales
  show "is_heap lt []" by (simp add: heap_from_def)
  show "mset (heap_push lt x q) = add_mset x (mset q)" if "is_heap lt q" for q x
    by (simp add: heap_push_def mset_heap_up)
  show "heap_pop lt q = Panic IndexOutOfRange" if "mset q = {#}" for q
    using that by (simp add: heap_pop_def)
  show "\<exists>x q'. heap_pop lt q = Ok (x, q') \<and> is_heap lt q' \<and> mset q = add_mset x (mset q') \<and>
      (\<forall>y \<in># mset q'. \<not> lt y x)" if heap: "is_heap lt q" and ne: "mset q \<noteq> {#}" for q
  proof -
    have "q \<noteq> []" using ne by auto
    then obtain ys where ys: "heap_pop lt q = Ok (q ! 0, ys)" "is_heap lt ys"
        "mset q = add_mset (q ! 0) (mset ys)"
      using heap_pop_spec [OF heap] by blast
    then have "\<not> lt y (q ! 0)" if "y \<in># mset ys" for y
      using heap_root [OF heap] that
      by (metis in_set_conv_nth set_mset_mset union_single_eq_member insert_iff
          set_mset_add_mset_insert)
    with ys show ?thesis by blast
  qed
qed (auto simp: heap_push_heap)

end
