(* ===== verification/Go_Strconv.thy ===== *)
theory Go_Strconv
  imports Go_Float
begin

text \<open>
  The functions of Go's \<open>strconv\<close> the sources call: \<open>Itoa\<close>, \<open>ParseBool\<close>,
  \<open>FormatFloat(x, 'f', 5, 64)\<close> (also what \<open>fmt.Sprintf("%.5f", x)\<close> prints) and
  \<open>ParseFloat(s, 64)\<close> with its whole grammar: decimal and hexadecimal literals, exponents,
  digit-separating underscores, infinities and NaN. The lemmas give the round trip: what
  \<open>FormatFloat\<close> writes \<open>ParseFloat\<close> reads back, rounded to five decimals.
\<close>

section \<open>Digits\<close>

definition digit_char :: "int \<Rightarrow> char" where
  "digit_char d = char_of (48 + d)"

text \<open>The value of a digit of base 10, or of base 16 with \<open>hex\<close>.\<close>

definition digit_val :: "bool \<Rightarrow> char \<Rightarrow> int option" where
  "digit_val hex c =
     (let n = of_char c :: int in
      if 48 \<le> n \<and> n \<le> 57 then Some (n - 48)
      else if hex \<and> 65 \<le> n \<and> n \<le> 70 then Some (n - 55)
      else if hex \<and> 97 \<le> n \<and> n \<le> 102 then Some (n - 87)
      else None)"

abbreviation is_digit :: "char \<Rightarrow> bool" where
  "is_digit c \<equiv> digit_val False c \<noteq> None"

definition to_lower :: "char \<Rightarrow> char" where
  "to_lower c =
     (let n = of_char c :: int in if 65 \<le> n \<and> n \<le> 90 then char_of (n + 32) else c)"

text \<open>The decimal digits of a number that is not negative.\<close>

function show_nat :: "int \<Rightarrow> string" where
  "show_nat n =
     (if n < 10 then [digit_char n] else show_nat (n div 10) @ [digit_char (n mod 10)])"
  by pat_completeness auto
termination
  by (relation "measure nat") auto

declare show_nat.simps [simp del]

text \<open>\<open>strconv.Itoa\<close>.\<close>

definition itoa :: "int \<Rightarrow> string" where
  "itoa i = (if i < 0 then ''-'' @ show_nat (- i) else show_nat i)"

text \<open>The low \<open>k\<close> digits, with leading zeros.\<close>

fun show_width :: "nat \<Rightarrow> int \<Rightarrow> string" where
  "show_width 0 n = []"
| "show_width (Suc k) n = show_width k (n div 10) @ [digit_char (n mod 10)]"

text \<open>The number a list of digits denotes.\<close>

definition digits_value :: "int \<Rightarrow> int list \<Rightarrow> int" where
  "digits_value base ds = foldl (\<lambda>a d. base * a + d) 0 ds"

section \<open>FormatFloat\<close>

definition show_fixed5 :: "int \<Rightarrow> string" where
  "show_fixed5 n = show_nat (n div 100000) @ ''.'' @ show_width 5 (n mod 100000)"

fun format_float5 :: "float64 \<Rightarrow> string" where
  "format_float5 NaN = ''NaN''"
| "format_float5 (Inf s) = (if s then ''-Inf'' else ''+Inf'')"
| "format_float5 (Fin s q) =
     (if s then ''-'' else '''') @ show_fixed5 (round_even (q * 100000))"

section \<open>ParseBool\<close>

definition parse_bool :: "string \<Rightarrow> bool option" where
  "parse_bool s =
     (if s \<in> {''1'', ''t'', ''T'', ''TRUE'', ''true'', ''True''} then Some True
      else if s \<in> {''0'', ''f'', ''F'', ''FALSE'', ''false'', ''False''} then Some False
      else None)"

section \<open>ParseFloat\<close>

text \<open>\<open>special\<close>: infinities, optionally signed, and NaN, in any case.\<close>

definition parse_special :: "string \<Rightarrow> float64 option" where
  "parse_special s =
     (let l = map to_lower s in
      if l \<in> {''inf'', ''+inf'', ''infinity'', ''+infinity''} then Some (Inf False)
      else if l \<in> {''-inf'', ''-infinity''} then Some (Inf True)
      else if l = ''nan'' then Some NaN
      else None)"

text \<open>The mantissa: its digits, how many of them follow the point, and what is left.\<close>

fun scan_mantissa :: "bool \<Rightarrow> bool \<Rightarrow> string \<Rightarrow> int list \<times> nat \<times> string" where
  "scan_mantissa hex dot [] = ([], 0, [])"
| "scan_mantissa hex dot (c # cs) =
     (if c = CHR ''_'' then scan_mantissa hex dot cs
      else if c = CHR ''.'' then
        (if dot then ([], 0, c # cs) else scan_mantissa hex True cs)
      else (case digit_val hex c of
              None \<Rightarrow> ([], 0, c # cs)
            | Some d \<Rightarrow> (case scan_mantissa hex dot cs of (ds, n, r) \<Rightarrow>
                          (d # ds, (if dot then Suc n else n), r))))"

text \<open>The digits of an exponent, which stops growing once it reaches 10000.\<close>

fun scan_exp_digits :: "int \<Rightarrow> string \<Rightarrow> int \<times> string" where
  "scan_exp_digits e [] = (e, [])"
| "scan_exp_digits e (c # cs) =
     (if c = CHR ''_'' then scan_exp_digits e cs
      else (case digit_val False c of
              None \<Rightarrow> (e, c # cs)
            | Some d \<Rightarrow> scan_exp_digits (if e < 10000 then e * 10 + d else e) cs))"

definition scan_exp_number :: "string \<Rightarrow> (int \<times> string) option" where
  "scan_exp_number s =
     (case s of [] \<Rightarrow> None
      | c # cs \<Rightarrow> if is_digit c then Some (scan_exp_digits 0 s) else None)"

definition scan_exponent :: "string \<Rightarrow> (int \<times> string) option" where
  "scan_exponent s =
     (case s of [] \<Rightarrow> None
      | c # cs \<Rightarrow>
          if c = CHR ''+'' then scan_exp_number cs
          else if c = CHR ''-'' then map_option (\<lambda>(e, r). (- e, r)) (scan_exp_number cs)
          else scan_exp_number s)"

text \<open>\<open>underscoreOK\<close>: an underscore stands between digits, or after the base prefix.
  \<open>saw_digit\<close> and \<open>saw_us\<close> say what the last character was.\<close>

fun underscores_from :: "bool \<Rightarrow> bool \<Rightarrow> bool \<Rightarrow> string \<Rightarrow> bool" where
  "underscores_from hex saw_digit saw_us [] = (\<not> saw_us)"
| "underscores_from hex saw_digit saw_us (c # cs) =
     (if digit_val hex c \<noteq> None then underscores_from hex True False cs
      else if c = CHR ''_'' then saw_digit \<and> underscores_from hex False True cs
      else \<not> saw_us \<and> underscores_from hex False False cs)"

definition strip_sign :: "string \<Rightarrow> bool \<times> string" where
  "strip_sign s =
     (case s of [] \<Rightarrow> (False, [])
      | c # cs \<Rightarrow> if c = CHR ''+'' then (False, cs)
                  else if c = CHR ''-'' then (True, cs) else (False, s))"

definition underscore_ok :: "string \<Rightarrow> bool" where
  "underscore_ok s =
     (case snd (strip_sign s) of
        z # p # cs \<Rightarrow>
          if z = CHR ''0'' \<and> to_lower p \<in> {CHR ''b'', CHR ''o'', CHR ''x''}
          then underscores_from (to_lower p = CHR ''x'') True False cs
          else underscores_from False False False (z # p # cs)
      | cs \<Rightarrow> underscores_from False False False cs)"

text \<open>\<open>readFloat\<close>: the sign, the digits and the exponent of the base (ten, or two for a
  hexadecimal literal), if the whole string is a number.\<close>

definition read_float :: "string \<Rightarrow> (bool \<times> int \<times> int \<times> bool) option" where
  "read_float s =
     (case strip_sign s of (neg, t) \<Rightarrow>
      (let hex = (case t of z # x # _ # _ \<Rightarrow> z = CHR ''0'' \<and> to_lower x = CHR ''x'' | _ \<Rightarrow> False)
       in case scan_mantissa hex False (if hex then drop 2 t else t) of (ds, n, r) \<Rightarrow>
          (let exp = (case r of
                        [] \<Rightarrow> if hex then None else Some (0, [])
                      | c # cs \<Rightarrow>
                          if to_lower c = (if hex then CHR ''p'' else CHR ''e'')
                          then scan_exponent cs
                          else None)
           in case exp of
                None \<Rightarrow> None
              | Some (e, rest) \<Rightarrow>
                  if ds \<noteq> [] \<and> rest = [] \<and> (CHR ''_'' \<in> set s \<longrightarrow> underscore_ok s)
                  then Some (neg, digits_value (if hex then 16 else 10) ds,
                             (if hex then e - 4 * int n else e - int n), hex)
                  else None)))"

text \<open>The magnitude of such a number.\<close>

definition scaled :: "int \<Rightarrow> int \<Rightarrow> bool \<Rightarrow> rat" where
  "scaled m e hex =
     (let b = (if hex then 2 else 10) :: int in
      if 0 \<le> e then of_int (m * b ^ nat e) else of_int m / of_int (b ^ nat (- e)))"

text \<open>\<open>None\<close> is an error: a syntax error, or a value too large for a finite float.\<close>

definition parse_float64 :: "string \<Rightarrow> float64 option" where
  "parse_float64 s =
     (case parse_special s of
        Some f \<Rightarrow> Some f
      | None \<Rightarrow>
          (case read_float s of
             None \<Rightarrow> None
           | Some (neg, m, e, hex) \<Rightarrow>
               (let f = fl_mag neg (scaled m e hex) in if finite64 f then Some f else None)))"

section \<open>Lemmas\<close>

subsection \<open>Digits\<close>

definition digit_vals :: "string \<Rightarrow> int list" where
  "digit_vals s = map (\<lambda>c. the (digit_val False c)) s"

abbreviation all_digits :: "string \<Rightarrow> bool" where
  "all_digits s \<equiv> (\<forall>c \<in> set s. is_digit c)"

lemma digit_val_digit_char: "0 \<le> d \<Longrightarrow> d < 10 \<Longrightarrow> digit_val False (digit_char d) = Some d"
  by (auto simp: digit_val_def digit_char_def Let_def of_char_of)

lemma digit_val_punctuation [simp]:
  "digit_val False CHR '','' = None" "digit_val False CHR ''|'' = None"
  "digit_val False CHR ''.'' = None" "digit_val False CHR ''_'' = None"
  "digit_val False CHR ''-'' = None" "digit_val False CHR ''+'' = None"
  "digit_val False CHR ''/'' = None" "digit_val False CHR ''T'' = None"
  "digit_val False CHR '':'' = None" "digit_val False CHR ''Z'' = None"
  "digit_val False CHR 0x22 = None"
  by code_simp+

lemma to_lower_digit: "is_digit c \<Longrightarrow> to_lower c = c"
  by (auto simp: digit_val_def to_lower_def Let_def split: if_splits)

lemma to_lower_point [simp]: "to_lower CHR ''.'' = CHR ''.''"
  by code_simp

lemma digit_vals_append [simp]: "digit_vals (s @ t) = digit_vals s @ digit_vals t"
  by (simp add: digit_vals_def)

lemma digit_vals_Nil [simp]: "digit_vals [] = []"
  by (simp add: digit_vals_def)

lemma length_digit_vals [simp]: "length (digit_vals s) = length s"
  by (simp add: digit_vals_def)

lemma digit_vals_eq_Nil_iff [simp]: "digit_vals s = [] \<longleftrightarrow> s = []"
  by (simp add: digit_vals_def)

lemma digits_value_snoc [simp]: "digits_value b (ds @ [d]) = b * digits_value b ds + d"
  by (simp add: digits_value_def)

lemma digits_value_Nil [simp]: "digits_value b [] = 0"
  by (simp add: digits_value_def)

lemma digits_value_append:
  "digits_value b (xs @ ys) = digits_value b xs * b ^ length ys + digits_value b ys"
proof (induction ys rule: rev_induct)
  case (snoc y ys)
  have "digits_value b (xs @ ys @ [y]) = b * digits_value b (xs @ ys) + y"
    using digits_value_snoc [of b "xs @ ys" y] by simp
  with snoc show ?case by (simp add: algebra_simps)
qed simp

lemma show_nat_digits: "0 \<le> n \<Longrightarrow> all_digits (show_nat n)"
proof (induction n rule: show_nat.induct)
  case (1 n)
  then show ?case by (subst show_nat.simps) (auto simp: digit_val_digit_char)
qed

lemma show_nat_value: "0 \<le> n \<Longrightarrow> digits_value 10 (digit_vals (show_nat n)) = n"
proof (induction n rule: show_nat.induct)
  case (1 n)
  then show ?case
    by (subst show_nat.simps)
      (auto simp: digit_vals_def digit_val_digit_char digits_value_def)
qed

lemma show_nat_not_Nil [simp]: "show_nat n \<noteq> []"
  by (subst show_nat.simps) simp

lemma length_show_width [simp]: "length (show_width k n) = k"
  by (induction k n rule: show_width.induct) auto

lemma show_width_digits: "all_digits (show_width k n)"
  by (induction k n rule: show_width.induct) (auto simp: digit_val_digit_char)

lemma show_width_value: "0 \<le> n \<Longrightarrow> digits_value 10 (digit_vals (show_width k n)) = n mod 10 ^ k"
proof (induction k n rule: show_width.induct)
  case (2 k n)
  then show ?case
    using mod_mult2_eq' [of n 10 "10 ^ k"]
    by (simp add: digit_vals_def digit_val_digit_char zmod_zmult2_eq [of "10 ^ k" n 10] mult.commute)
qed simp

subsection \<open>Reading back a decimal number\<close>

lemma scan_mantissa_digits:
  assumes "all_digits ds" "scan_mantissa False dot r = (xs, n, q)"
  shows "scan_mantissa False dot (ds @ r)
    = (digit_vals ds @ xs, n + (if dot then length ds else 0), q)"
  using assms
proof (induction ds)
  case (Cons c cs)
  then obtain d where d: "digit_val False c = Some d" by auto
  then have "c \<noteq> CHR ''_''" "c \<noteq> CHR ''.''" by auto
  with Cons d show ?case by (auto simp: digit_vals_def)
qed auto

lemma scan_mantissa_fixed:
  assumes "all_digits ds" "all_digits fs"
  shows "scan_mantissa False False (ds @ CHR ''.'' # fs) = (digit_vals ds @ digit_vals fs, length fs, [])"
proof -
  have "scan_mantissa False True fs = (digit_vals fs, length fs, [])"
    using scan_mantissa_digits [OF assms(2), of True "[]" "[]" 0 "[]"] by simp
  then have "scan_mantissa False False (CHR ''.'' # fs) = (digit_vals fs, length fs, [])"
    by simp
  from scan_mantissa_digits [OF assms(1) this] show ?thesis by simp
qed

lemma show_fixed5_parts:
  "show_fixed5 n = show_nat (n div 100000) @ CHR ''.'' # show_width 5 (n mod 100000)"
  by (simp add: show_fixed5_def)

lemma show_fixed5_chars:
  assumes "0 \<le> n" "c \<in> set (show_fixed5 n)"
  shows "is_digit c \<or> c = CHR ''.''"
  using assms show_nat_digits [of "n div 100000"] show_width_digits [of 5 "n mod 100000"]
  by (auto simp: show_fixed5_parts pos_imp_zdiv_nonneg_iff)

lemma show_fixed5_head:
  assumes "0 \<le> n" shows "\<exists>c cs. show_fixed5 n = c # cs \<and> is_digit c"
proof -
  have "0 \<le> n div 100000" using assms by (simp add: pos_imp_zdiv_nonneg_iff)
  then show ?thesis
    using show_nat_digits [of "n div 100000"] unfolding show_fixed5_parts
    by (cases "show_nat (n div 100000)") auto
qed

lemma strip_sign_fixed5:
  assumes "0 \<le> n"
  shows "strip_sign ((if s then ''-'' else '''') @ show_fixed5 n) = (s, show_fixed5 n)"
proof -
  obtain c cs where "show_fixed5 n = c # cs" "is_digit c" using show_fixed5_head [OF assms] by auto
  then show ?thesis by (auto simp: strip_sign_def split: if_splits)
qed

lemma scan_fixed5:
  assumes "0 \<le> n"
  shows "\<exists>ds. scan_mantissa False False (show_fixed5 n) = (ds, 5, []) \<and> ds \<noteq> [] \<and>
    digits_value 10 ds = n"
proof -
  let ?i = "n div 100000" and ?f = "n mod 100000"
  have i: "0 \<le> ?i" using assms by (simp add: pos_imp_zdiv_nonneg_iff)
  have "digits_value 10 (digit_vals (show_nat ?i) @ digit_vals (show_width 5 ?f))
      = ?i * 10 ^ 5 + ?f mod 10 ^ 5"
    using i show_width_value [of ?f 5]
    by (simp add: digits_value_append show_nat_value)
  also have "\<dots> = n" by simp
  finally show ?thesis
    using scan_mantissa_fixed [OF show_nat_digits [OF i] show_width_digits [of 5 ?f]]
    by (auto simp: show_fixed5_parts)
qed

lemma parse_special_point: "CHR ''.'' \<in> set s \<Longrightarrow> parse_special s = None"
proof -
  assume "CHR ''.'' \<in> set s"
  then have "CHR ''.'' \<in> set (map to_lower s)" using imageI [of "CHR ''.''" "set s" to_lower] by simp
  then show ?thesis by (auto simp: parse_special_def Let_def)
qed

lemma read_float_fixed5:
  assumes "0 \<le> n"
  shows "read_float ((if s then ''-'' else '''') @ show_fixed5 n) = Some (s, n, - 5, False)"
proof -
  obtain c cs where c: "show_fixed5 n = c # cs" "is_digit c" using show_fixed5_head [OF assms] by auto
  obtain ds where ds: "scan_mantissa False False (show_fixed5 n) = (ds, 5, [])" "ds \<noteq> []"
      "digits_value 10 ds = n"
    using scan_fixed5 [OF assms] by auto
  have us: "CHR ''_'' \<notin> set ((if s then ''-'' else '''') @ show_fixed5 n)"
    using show_fixed5_chars [OF assms, of "CHR ''_''"] by auto
  have "to_lower x \<noteq> CHR ''x''" if "x \<in> set (show_fixed5 n)" for x
    using show_fixed5_chars [OF assms that] to_lower_digit [of x] by (auto simp: digit_val_def)
  then have "\<not> (case show_fixed5 n of z # x # _ # _ \<Rightarrow> z = CHR ''0'' \<and> to_lower x = CHR ''x'' | _ \<Rightarrow> False)"
    by (auto split: list.splits)
  then show ?thesis
    using us ds unfolding read_float_def strip_sign_fixed5 [OF assms]
    by (simp add: Let_def)
qed

lemma scaled_5: "scaled n (- 5) False = of_int n / 100000"
  by (simp add: scaled_def)

lemma parse_fixed5:
  assumes "0 \<le> n"
  shows "parse_float64 ((if s then ''-'' else '''') @ show_fixed5 n)
    = (let f = fl_mag s (of_int n / 100000) in if finite64 f then Some f else None)"
proof -
  have "CHR ''.'' \<in> set ((if s then ''-'' else '''') @ show_fixed5 n)"
    by (simp add: show_fixed5_parts)
  then have "parse_special ((if s then ''-'' else '''') @ show_fixed5 n) = None"
    by (rule parse_special_point)
  then show ?thesis
    unfolding parse_float64_def by (simp add: read_float_fixed5 [OF assms] scaled_5)
qed

text \<open>A float large enough to have no fractional bits is an integer, so rounding to five
  decimals cannot push a finite float out of range.\<close>

lemma large_float_integral:
  assumes "is_float64 (Fin s q)" "2 ^ 53 \<le> q"
  shows "\<exists>n. q = of_int n"
proof -
  have q: "0 \<le> q" "round_mag q = q" using assms by auto
  then obtain m e where me: "q = of_int m * 2 powi e" "0 \<le> m" "m < 2 ^ 53"
    using round_mag_grid [of q] by auto
  have "0 \<le> e"
  proof (rule ccontr)
    assume "\<not> 0 \<le> e"
    then have "(2 :: rat) powi e \<le> 2 powi 0" by (subst two_powi_le_iff) simp
    then have "q \<le> of_int m * 1" unfolding me(1) using me(2) by (intro mult_left_mono) auto
    also have "(of_int m * 1 :: rat) < of_int (2 ^ 53)" using me(3) by (simp only: mult_1_right of_int_less_iff)
    finally show False using assms(2) by simp
  qed
  then have "q = of_int (m * 2 ^ nat e)" using me by (simp add: power_int_nonneg_exp)
  then show ?thesis by blast
qed

lemma round5_finite:
  assumes "is_float64 (Fin s q)"
  shows "round_mag (of_int (round_even (q * 100000)) / 100000) < max_mag"
proof (cases "2 ^ 53 \<le> q")
  case True
  then obtain n where n: "q = of_int n" using large_float_integral [OF assms] by blast
  then have "round_even (q * 100000) = n * 100000"
    using round_even_of_int [of "n * 100000"] by simp
  with n assms show ?thesis by simp
next
  case False
  have "0 \<le> q" using assms by simp
  have "q * 100000 \<le> of_int (2 ^ 53 * 100000)" using False by simp
  then have "round_even (q * 100000) \<le> 2 ^ 53 * 100000" by (rule round_even_le)
  then have "(of_int (round_even (q * 100000)) :: rat) \<le> of_int (2 ^ 53 * 100000)"
    by (simp only: of_int_le_iff)
  then have le: "of_int (round_even (q * 100000)) / 100000 \<le> (of_int (2 ^ 52) * 2 powi 1 :: rat)"
    by simp
  have "0 \<le> round_even (q * 100000)" using \<open>0 \<le> q\<close> by (intro round_even_ge) simp
  then have "round_mag (of_int (round_even (q * 100000)) / 100000)
      \<le> round_mag (of_int (2 ^ 52) * 2 powi 1)"
    using le by (intro round_mag_mono) auto
  also have "\<dots> = of_int (2 ^ 52) * 2 powi 1" by (rule round_mag_exact) auto
  also have "\<dots> < max_mag" by (simp add: max_mag_def)
  finally show ?thesis .
qed

text \<open>\<open>round5 x\<close> is the float that reading back \<open>x\<close> printed with five decimals gives.\<close>

definition round5 :: "float64 \<Rightarrow> float64" where
  "round5 x = (case x of Fin s q \<Rightarrow> fl_mag s (of_int (round_even (q * 100000)) / 100000)
                       | _ \<Rightarrow> x)"

lemma parse_format_float5:
  assumes "is_float64 x"
  shows "parse_float64 (format_float5 x) = Some (round5 x)"
proof (cases x)
  case (Fin s q)
  have "0 \<le> round_even (q * 100000)" using assms Fin by (intro round_even_ge) simp
  from parse_fixed5 [OF this, of s] round5_finite [of s q] show ?thesis
    using Fin assms by (simp add: round5_def finite_fl_mag Let_def)
next
  case (Inf s)
  have "parse_float64 ''-Inf'' = Some (Inf True)" "parse_float64 ''+Inf'' = Some (Inf False)"
    by code_simp+
  with Inf show ?thesis by (simp add: round5_def)
next
  case NaN
  have "parse_float64 ''NaN'' = Some NaN" by code_simp
  with NaN show ?thesis by (simp add: round5_def)
qed

lemma is_float64_round5: "is_float64 x \<Longrightarrow> is_float64 (round5 x)"
  by (cases x) (auto simp: round5_def intro!: is_float64_fl_mag round_even_ge)

text \<open>Printed numbers hold none of the separators the annotations use.\<close>

lemma format_float5_chars:
  assumes "is_float64 x" "c \<in> set (format_float5 x)"
  shows "c \<notin> {CHR '','', CHR ''|'', CHR ''/'', CHR '':'', CHR 0x22}"
proof (cases x)
  case (Fin s q)
  have "0 \<le> round_even (q * 100000)" using assms Fin by (intro round_even_ge) simp
  from show_fixed5_chars [OF this, of c] show ?thesis
    using assms Fin by (auto split: if_splits)
qed (use assms in \<open>auto split: if_splits\<close>)

lemma itoa_chars:
  assumes "c \<in> set (itoa i)" shows "is_digit c \<or> c = CHR ''-''"
  using assms show_nat_digits [of "- i"] show_nat_digits [of i]
  by (auto simp: itoa_def split: if_splits)

subsection \<open>Reading an integer\<close>

lemma digits_not_special:
  assumes "all_digits s" "s \<noteq> []" shows "parse_special s = None"
proof -
  obtain c cs where c: "s = c # cs" "is_digit c" using assms by (cases s) auto
  then have "to_lower c \<noteq> CHR ''i''" "to_lower c \<noteq> CHR ''n''" "to_lower c \<noteq> CHR ''+''" "to_lower c \<noteq> CHR ''-''"
    using to_lower_digit [OF c(2)] by (auto simp: digit_val_def)
  then show ?thesis using c(1) by (simp add: parse_special_def Let_def)
qed

lemma parse_show_nat:
  assumes "0 \<le> n"
  shows "parse_float64 (show_nat n) = (let f = fl_mag False (of_int n) in if finite64 f then Some f else None)"
proof -
  have ds: "all_digits (show_nat n)" by (rule show_nat_digits [OF assms])
  obtain c cs where c: "show_nat n = c # cs" "is_digit c" using ds by (cases "show_nat n") auto
  have sign: "strip_sign (show_nat n) = (False, show_nat n)" using c by (auto simp: strip_sign_def split: if_splits)
  have scan: "scan_mantissa False False (show_nat n) = (digit_vals (show_nat n), 0, [])"
    using scan_mantissa_digits [OF ds, of False "[]" "[]" 0 "[]"] by simp
  have "to_lower x \<noteq> CHR ''x''" if "x \<in> set (show_nat n)" for x
    using ds that to_lower_digit [of x] by (auto simp: digit_val_def)
  then have hex: "\<not> (case show_nat n of z # x # _ # _ \<Rightarrow> z = CHR ''0'' \<and> to_lower x = CHR ''x'' | _ \<Rightarrow> False)"
    by (auto split: list.splits)
  have "CHR ''_'' \<notin> set (show_nat n)" using ds by auto
  then have "read_float (show_nat n) = Some (False, n, 0, False)"
    using hex scan show_nat_value [OF assms] unfolding read_float_def sign by (simp add: Let_def)
  then show ?thesis
    using digits_not_special [OF ds] by (simp add: parse_float64_def scaled_def)
qed

end
