(* ===== verification/Go_Time.thy ===== *)
theory Go_Time
  imports Go_Strconv "HOL-Library.Monad_Syntax"
begin

text \<open>
  The part of Go's \<open>time\<close> package the sources call: the proleptic Gregorian calendar,
  \<open>Time.Format\<close> and \<open>time.ParseInLocation\<close> for the one layout the sources use,
  \<open>time.Date\<close>'s choice of a zone offset, \<open>Time.Add\<close>, \<open>Time.Before\<close>, \<open>Time.Unix\<close>
  and \<open>Duration.Seconds\<close>.

  An instant is the number of nanoseconds since 1970-01-01T00:00:00 UTC, a duration a number
  of nanoseconds. A location answers, for a number of seconds since that epoch, which offset
  from UTC is in force and from when until when: the content of the time zone database is a
  parameter of everything that uses a location. A nil \<open>*time.Location\<close> is \<open>None\<close>.
\<close>

section \<open>Instants, durations, locations\<close>

type_synonym instant = int
type_synonym duration = int
type_synonym location = "int \<Rightarrow> int \<times> int \<times> int"

abbreviation second :: duration where "second \<equiv> 1000000000"
abbreviation minute :: duration where "minute \<equiv> 60000000000"

definition time_unix :: "instant \<Rightarrow> int" where
  "time_unix t = t div second"

definition time_add :: "instant \<Rightarrow> duration \<Rightarrow> instant" where
  "time_add t d = t + d"

definition time_before :: "instant \<Rightarrow> instant \<Rightarrow> bool" where
  "time_before t u \<longleftrightarrow> t < u"

text \<open>\<open>Duration.Seconds\<close>: the whole seconds and the rest, both truncated towards zero, added
  as floating-point numbers.\<close>

definition duration_seconds :: "duration \<Rightarrow> float64" where
  "duration_seconds d = of_int64 (d sdiv second) + of_int64 (d smod second) / of_int64 1000000000"

definition fixed_location :: "int \<Rightarrow> location" where
  "fixed_location off = (\<lambda>_. (off, - (2 ^ 63), 2 ^ 63 - 1))"

section \<open>The calendar\<close>

definition is_leap :: "int \<Rightarrow> bool" where
  "is_leap y \<longleftrightarrow> y mod 4 = 0 \<and> (y mod 100 \<noteq> 0 \<or> y mod 400 = 0)"

text \<open>The number of days of a common year before the month with index \<open>m\<close>, from 0.\<close>

definition days_before :: "int \<Rightarrow> int" where
  "days_before m =
     (if m \<le> 0 then 0 else if m = 1 then 31 else if m = 2 then 59 else if m = 3 then 90
      else if m = 4 then 120 else if m = 5 then 151 else if m = 6 then 181
      else if m = 7 then 212 else if m = 8 then 243 else if m = 9 then 273
      else if m = 10 then 304 else if m = 11 then 334 else 365)"

definition days_in :: "int \<Rightarrow> int \<Rightarrow> int" where
  "days_in m y = (if m = 2 \<and> is_leap y then 29 else days_before m - days_before (m - 1))"

text \<open>Days from 0001-01-01 to the first day of a year, by cycles of 400, 100, 4 and 1 years.\<close>

definition days_since_epoch :: "int \<Rightarrow> int" where
  "days_since_epoch year =
     (let y = year - 1; n = y div 400; y1 = y - 400 * n;
          m = y1 div 100; y2 = y1 - 100 * m; k = y2 div 4; y3 = y2 - 4 * k
      in 146097 * n + 36524 * m + 1461 * k + 365 * y3)"

text \<open>The year and the day of the year (from 0) of a day counted from 0001-01-01.\<close>

definition year_yday :: "int \<Rightarrow> int \<times> int" where
  "year_yday d =
     (let n = d div 146097; d1 = d - 146097 * n;
          m0 = d1 div 36524; m = m0 - m0 div 4; d2 = d1 - 36524 * m;
          k = d2 div 1461; d3 = d2 - 1461 * k;
          j0 = d3 div 365; j = j0 - j0 div 4; d4 = d3 - 365 * j
      in (400 * n + 100 * m + 4 * k + j + 1, d4))"

text \<open>The month (from 1) and the day of the month of a day of the year.\<close>

definition month_day :: "bool \<Rightarrow> int \<Rightarrow> int \<times> int" where
  "month_day leap yday =
     (if leap \<and> yday = 59 then (2, 29)
      else
        (let day = (if leap \<and> yday > 59 then yday - 1 else yday);
             m = day div 31; next = days_before (m + 1)
         in if day \<ge> next then (m + 2, day - next + 1)
            else (m + 1, day - days_before m + 1)))"

text \<open>\<open>time.Date\<close>'s day number.\<close>

definition date_days :: "int \<Rightarrow> int \<Rightarrow> int \<Rightarrow> int" where
  "date_days y m d =
     days_since_epoch y + days_before (m - 1) + (if is_leap y \<and> m \<ge> 3 then 1 else 0) + d - 1"

text \<open>The day number of 1970-01-01.\<close>

abbreviation unix_days :: int where "unix_days \<equiv> 719162"

section \<open>Format with the layout 2006-01-02T15:04:05Z\<close>

definition show_padded :: "nat \<Rightarrow> int \<Rightarrow> string" where
  "show_padded k i =
     (if i < 0 then ''-'' else '''') @
     (if \<bar>i\<bar> < 10 ^ k then show_width k \<bar>i\<bar> else show_nat \<bar>i\<bar>)"

text \<open>The wall clock of a location, in seconds since 1970-01-01T00:00:00.\<close>

definition wall_seconds :: "location \<Rightarrow> instant \<Rightarrow> int" where
  "wall_seconds loc t = time_unix t + fst (loc (time_unix t))"

definition format_wall :: "int \<Rightarrow> string" where
  "format_wall w =
     (case year_yday (w div 86400 + unix_days) of (y, yd) \<Rightarrow>
      case month_day (is_leap y) yd of (mo, d) \<Rightarrow>
      let s = w mod 86400
      in show_padded 4 y @ ''-'' @ show_padded 2 mo @ ''-'' @ show_padded 2 d @ ''T'' @
         show_padded 2 (s div 3600) @ '':'' @ show_padded 2 (s div 60 mod 60) @ '':'' @
         show_padded 2 (s mod 60) @ ''Z'')"

definition format_time :: "location \<Rightarrow> instant \<Rightarrow> string" where
  "format_time loc t = format_wall (wall_seconds loc t)"

section \<open>ParseInLocation with the layout 2006-01-02T15:04:05Z\<close>

definition skip_char :: "char \<Rightarrow> string \<Rightarrow> string option" where
  "skip_char c s = (case s of [] \<Rightarrow> None | d # ds \<Rightarrow> if d = c then Some ds else None)"

text \<open>\<open>getnum\<close>: two digits, or one when the layout's field is not fixed.\<close>

definition get_num :: "bool \<Rightarrow> string \<Rightarrow> (int \<times> string) option" where
  "get_num fixed s =
     (case s of [] \<Rightarrow> None
      | c # cs \<Rightarrow>
         (case digit_val False c of None \<Rightarrow> None
          | Some a \<Rightarrow>
             (case cs of [] \<Rightarrow> if fixed then None else Some (a, [])
              | d # ds \<Rightarrow>
                 (case digit_val False d of
                    None \<Rightarrow> if fixed then None else Some (a, cs)
                  | Some b \<Rightarrow> Some (10 * a + b, ds)))))"

definition get_year :: "string \<Rightarrow> (int \<times> string) option" where
  "get_year s =
     (if length s < 4 \<or> \<not> all_digits (take 4 s) then None
      else Some (digits_value 10 (digit_vals (take 4 s)), drop 4 s))"

definition check_range :: "int \<Rightarrow> int \<Rightarrow> int \<Rightarrow> unit option" where
  "check_range lo hi x = (if lo \<le> x \<and> x \<le> hi then Some () else None)"

text \<open>A fraction of a second is accepted after the seconds although the layout has none:
  a comma or a period and digits, scaled to nanoseconds when there are at most nine.\<close>

definition get_fraction :: "string \<Rightarrow> (int \<times> string) option" where
  "get_fraction s =
     (case s of
        c # d # ds \<Rightarrow>
          if (c = CHR ''.'' \<or> c = CHR '','') \<and> is_digit d then
            (let ps = takeWhile is_digit (d # ds); n = digits_value 10 (digit_vals ps)
             in if 1000000000 \<le> n then None
                else Some (n * 10 ^ (9 - length ps), dropWhile is_digit (d # ds)))
          else Some (0, s)
      | _ \<Rightarrow> Some (0, s))"

text \<open>The wall clock a string denotes: seconds since 1970-01-01T00:00:00 and nanoseconds.\<close>

definition parse_wall :: "string \<Rightarrow> (int \<times> int) option" where
  "parse_wall s = do {
     (y, s) \<leftarrow> get_year s;
     s \<leftarrow> skip_char CHR ''-'' s;
     (mo, s) \<leftarrow> get_num True s;
     check_range 1 12 mo;
     s \<leftarrow> skip_char CHR ''-'' s;
     (d, s) \<leftarrow> get_num True s;
     s \<leftarrow> skip_char CHR ''T'' s;
     (h, s) \<leftarrow> get_num False s;
     check_range 0 23 h;
     s \<leftarrow> skip_char CHR '':'' s;
     (mi, s) \<leftarrow> get_num True s;
     check_range 0 59 mi;
     s \<leftarrow> skip_char CHR '':'' s;
     (sec, s) \<leftarrow> get_num True s;
     check_range 0 59 sec;
     (ns, s) \<leftarrow> get_fraction s;
     s \<leftarrow> skip_char CHR ''Z'' s;
     (if s = [] then Some () else None);
     check_range 1 (days_in mo y) d;
     Some ((date_days y mo d - unix_days) * 86400 + h * 3600 + mi * 60 + sec, ns) }"

text \<open>\<open>time.Date\<close>: the instant a wall clock stands for. The offset is looked up as if the wall
  clock were UTC and looked up again when that leaves the interval it is valid in.\<close>

definition date_unix :: "location \<Rightarrow> int \<Rightarrow> int" where
  "date_unix loc w =
     (case loc w of (off, start, stop) \<Rightarrow>
        if off = 0 then w
        else if start \<le> w - off \<and> w - off < stop then w - off
        else w - fst (loc (w - off)))"

text \<open>\<open>time.ParseInLocation\<close>: \<open>Ok None\<close> is the error. A string that does not parse is
  rejected before the location is looked at; a nil location then panics.\<close>

definition parse_in_location :: "string \<Rightarrow> location option \<Rightarrow> instant option outcome" where
  "parse_in_location s loc =
     (case parse_wall s of
        None \<Rightarrow> Ok None
      | Some (w, ns) \<Rightarrow>
         (case loc of None \<Rightarrow> Panic MissingLocation
          | Some l \<Rightarrow> Ok (Some (date_unix l w * second + ns))))"

section \<open>The calendar is a bijection\<close>

lemma div_bounds: "0 < b \<Longrightarrow> b * (a div b) \<le> a" "0 < b \<Longrightarrow> a < b * (a div b) + b" for a b :: int
  using mult_div_mod_eq [of b a] pos_mod_sign [of b a] pos_mod_bound [of b a] by linarith+

lemma last_cycle: "0 \<le> q \<Longrightarrow> q \<le> 4 \<Longrightarrow> q - q div 4 = (if q = 4 then 3 else q)" for q :: int
  by auto

lemma year_yday_correct:
  assumes "year_yday d = (y, yd)"
  shows "days_since_epoch y + yd = d" "0 \<le> yd" "yd \<le> 364 + (if is_leap y then 1 else 0)"
proof -
  define n d1 where "n = d div 146097" and "d1 = d - 146097 * n"
  have d1: "0 \<le> d1" "d1 < 146097" unfolding d1_def n_def using div_bounds [of 146097 d] by simp_all
  define m0 m d2 where "m0 = d1 div 36524" and "m = m0 - m0 div 4" and "d2 = d1 - 36524 * m"
  have m0: "36524 * m0 \<le> d1" "d1 < 36524 * m0 + 36524"
    unfolding m0_def by (simp_all add: div_bounds)
  then have m0': "0 \<le> m0" "m0 \<le> 4" using d1 by linarith+
  have m: "0 \<le> m" "m \<le> 3" "0 \<le> d2" "d2 \<le> 36524" "m \<noteq> 3 \<Longrightarrow> d2 < 36524"
    using d1 m0 m0' unfolding d2_def m_def last_cycle [OF m0'] by (auto split: if_splits)
  define k d3 where "k = d2 div 1461" and "d3 = d2 - 1461 * k"
  have k: "0 \<le> k" "k \<le> 24" "0 \<le> d3" "d3 < 1461" "k = 24 \<Longrightarrow> m \<noteq> 3 \<Longrightarrow> d3 < 1460"
  proof -
    have kk: "1461 * k \<le> d2" "d2 < 1461 * k + 1461" unfolding k_def by (simp_all add: div_bounds)
    show "0 \<le> k" "k \<le> 24" "0 \<le> d3" "d3 < 1461" "k = 24 \<Longrightarrow> m \<noteq> 3 \<Longrightarrow> d3 < 1460"
      using kk m unfolding d3_def by linarith+
  qed
  define j0 j d4 where "j0 = d3 div 365" and "j = j0 - j0 div 4" and "d4 = d3 - 365 * j"
  have j0: "365 * j0 \<le> d3" "d3 < 365 * j0 + 365"
    unfolding j0_def by (simp_all add: div_bounds)
  then have j0': "0 \<le> j0" "j0 \<le> 4" using k by linarith+
  have j: "0 \<le> j" "j \<le> 3" "0 \<le> d4" "d4 \<le> 365" "d4 = 365 \<Longrightarrow> j = 3 \<and> d3 = 1460"
    using k j0 j0' unfolding d4_def j_def last_cycle [OF j0'] by (auto split: if_splits)
  have y: "y = 400 * n + 100 * m + 4 * k + j + 1" and yd: "yd = d4"
    using assms
    by (simp_all only: year_yday_def Let_def prod.inject
        n_def [symmetric] d1_def [symmetric] m0_def [symmetric] m_def [symmetric] d2_def [symmetric]
        k_def [symmetric] d3_def [symmetric] j0_def [symmetric] j_def [symmetric] d4_def [symmetric])
  have quot: "(y - 1) div 400 = n" "(100 * m + 4 * k + j) div 100 = m" "(4 * k + j) div 4 = k"
    using m k j unfolding y
    by (auto intro!: int_div_pos_eq [where r = "100 * m + 4 * k + j"]
        int_div_pos_eq [where r = "4 * k + j"] int_div_pos_eq [where r = j])
  have "days_since_epoch y = 146097 * n + 36524 * m + 1461 * k + 365 * j"
  proof -
    have "y - 1 - 400 * n = 100 * m + 4 * k + j" "100 * m + 4 * k + j - 100 * m = 4 * k + j"
      unfolding y by simp_all
    then show ?thesis
      unfolding days_since_epoch_def Let_def quot(1) by (simp add: quot)
  qed
  then show "days_since_epoch y + yd = d"
    unfolding yd d4_def d3_def d2_def d1_def by simp
  show "0 \<le> yd" using j yd by simp
  have "is_leap y" if "d4 = 365"
  proof -
    have "j = 3" "k = 24 \<Longrightarrow> m = 3" using j(5) [OF that] k(5) by auto
    then have y4: "y = 4 * (100 * n + 25 * m + k + 1)"
      "k \<noteq> 24 \<Longrightarrow> y = 100 * (4 * n + m) + (4 * k + 4)" "k = 24 \<Longrightarrow> y = 400 * (n + 1)"
      unfolding y by auto
    have "y mod 4 = 0" unfolding y4(1) by simp
    moreover have "y mod 100 \<noteq> 0" if "k \<noteq> 24"
    proof -
      have "y mod 100 = (4 * k + 4) mod 100"
        unfolding y4(2) [OF that] by (rule mod_mult_self4)
      then show ?thesis using k(1,2) that by simp
    qed
    moreover have "y mod 400 = 0" if "k = 24"
      unfolding y4(3) [OF that] by simp
    ultimately show ?thesis unfolding is_leap_def by (cases "k = 24") simp_all
  qed
  then show "yd \<le> 364 + (if is_leap y then 1 else 0)"
    using j(4) yd by (cases "d4 = 365") simp_all
qed

lemma month_day_correct:
  assumes "month_day leap yd = (m, d)" "0 \<le> yd" "yd \<le> 364 + (if leap then 1 else 0)"
  shows "1 \<le> m" "m \<le> 12" "1 \<le> d"
    "d \<le> (if m = 2 \<and> leap then 29 else days_before m - days_before (m - 1))"
    "days_before (m - 1) + (if leap \<and> m \<ge> 3 then 1 else 0) + d - 1 = yd"
proof -
  define ok where "ok = (\<lambda>l x. case month_day l x of (m, d) \<Rightarrow>
     1 \<le> m \<and> m \<le> 12 \<and> 1 \<le> d \<and>
     d \<le> (if m = 2 \<and> l then 29 else days_before m - days_before (m - 1)) \<and>
     days_before (m - 1) + (if l \<and> m \<ge> 3 then 1 else 0) + d - 1 = x)"
  have all: "list_all (ok False) [0..364]" "list_all (ok True) [0..365]"
    unfolding ok_def by code_simp+
  have "ok leap yd"
    using all assms(2,3) by (cases leap) (auto simp: list_all_iff)
  then show "1 \<le> m" "m \<le> 12" "1 \<le> d"
    "d \<le> (if m = 2 \<and> leap then 29 else days_before m - days_before (m - 1))"
    "days_before (m - 1) + (if leap \<and> m \<ge> 3 then 1 else 0) + d - 1 = yd"
    using assms(1) unfolding ok_def by auto
qed

section \<open>What Format writes ParseInLocation reads\<close>

lemma show_width_2: "show_width 2 n = [digit_char (n div 10 mod 10), digit_char (n mod 10)]"
  by (simp add: numeral_2_eq_2)

lemma show_padded_2: "0 \<le> n \<Longrightarrow> n < 100 \<Longrightarrow> show_padded 2 n = [digit_char (n div 10), digit_char (n mod 10)]"
  by (simp add: show_padded_def show_width_2)

lemma get_num_padded:
  assumes "0 \<le> n" "n < 100"
  shows "get_num fixed (show_padded 2 n @ s) = Some (n, s)"
proof -
  have "digit_val False (digit_char (n div 10)) = Some (n div 10)"
    "digit_val False (digit_char (n mod 10)) = Some (n mod 10)"
    using assms by (auto intro!: digit_val_digit_char)
  then show ?thesis
    using assms by (simp add: show_padded_2 get_num_def)
qed

lemma get_year_padded:
  assumes "0 \<le> n" "n \<le> 9999"
  shows "get_year (show_padded 4 n @ s) = Some (n, s)"
proof -
  have "show_padded 4 n = show_width 4 n"
    using assms by (simp add: show_padded_def)
  then show ?thesis
    using assms by (simp add: get_year_def show_width_digits show_width_value)
qed

lemma skip_char_Cons [simp]: "skip_char c (c # s) = Some s"
  by (simp add: skip_char_def)

lemma check_range_Some [simp]: "check_range lo hi x = Some () \<longleftrightarrow> lo \<le> x \<and> x \<le> hi"
  by (simp add: check_range_def)

lemma check_range_bind: "lo \<le> x \<Longrightarrow> x \<le> hi \<Longrightarrow> (check_range lo hi x \<bind> f) = f ()"
  by (simp add: check_range_def)

lemma get_fraction_Z [simp]: "get_fraction ''Z'' = Some (0, ''Z'')"
  by (simp add: get_fraction_def)

lemma parse_wall_fields:
  assumes "0 \<le> y" "y \<le> 9999" "1 \<le> mo" "mo \<le> 12" "1 \<le> d" "d \<le> days_in mo y" "d < 100"
    "0 \<le> h" "h \<le> 23" "0 \<le> mi" "mi \<le> 59" "0 \<le> sec" "sec \<le> 59"
  shows "parse_wall
      (show_padded 4 y @ ''-'' @ show_padded 2 mo @ ''-'' @ show_padded 2 d @ ''T'' @
       show_padded 2 h @ '':'' @ show_padded 2 mi @ '':'' @ show_padded 2 sec @ ''Z'') =
    Some ((date_days y mo d - unix_days) * 86400 + h * 3600 + mi * 60 + sec, 0)"
  using assms
  by (simp add: parse_wall_def get_num_padded get_year_padded check_range_bind del: check_range_Some)

lemma hms_split: "s div 3600 * 3600 + s div 60 mod 60 * 60 + s mod 60 = s" for s :: int
proof -
  define a e where "a = s div 60" and "e = s mod 60"
  define b c where "b = a div 60" and "c = a mod 60"
  have "60 * b + c = a" "60 * a + e = s" unfolding b_def c_def a_def e_def by simp_all
  then have "b * 3600 + c * 60 + e = s" by linarith
  moreover have "s div 3600 = b" using zdiv_zmult2_eq [of 60 s 60] unfolding a_def b_def by simp
  ultimately show ?thesis unfolding a_def c_def e_def by simp
qed

lemma parse_format_wall:
  assumes year: "fst (year_yday (w div 86400 + unix_days)) \<in> {0..9999}"
  shows "parse_wall (format_wall w) = Some (w, 0)"
proof -
  obtain y yd where yyd: "year_yday (w div 86400 + unix_days) = (y, yd)" by force
  obtain mo d where md: "month_day (is_leap y) yd = (mo, d)" by force
  note yc = year_yday_correct [OF yyd]
  note mc = month_day_correct [OF md yc(2,3)]
  define s where "s = w mod 86400"
  have y: "0 \<le> y" "y \<le> 9999" using year yyd by auto
  have d: "d \<le> days_in mo y" using mc(4) by (simp add: days_in_def)
  have d31: "d < 100"
  proof -
    have "days_in mo y \<le> 31" unfolding days_in_def days_before_def by simp
    then show ?thesis using d by simp
  qed
  have s: "0 \<le> s" "s < 86400" unfolding s_def by simp_all
  have h: "0 \<le> s div 3600" "s div 3600 \<le> 23" using s by (simp_all add: pos_imp_zdiv_nonneg_iff)
  have mi: "0 \<le> s div 60 mod 60" "s div 60 mod 60 \<le> 59" by simp_all
  have se: "0 \<le> s mod 60" "s mod 60 \<le> 59" by simp_all
  note split = hms_split [of s]
  have days: "date_days y mo d = w div 86400 + unix_days"
    using yc(1) mc(5) unfolding date_days_def by simp
  have "(date_days y mo d - unix_days) * 86400 + s div 3600 * 3600 + s div 60 mod 60 * 60 + s mod 60 = w"
  proof -
    have "(date_days y mo d - unix_days) * 86400 + s = w"
      unfolding days s_def by simp
    then show ?thesis by (simp only: add.assoc split [unfolded add.assoc])
  qed
  then show ?thesis
    using parse_wall_fields [OF y mc(1-3) d d31 h mi se]
    by (simp only: format_wall_def yyd md Let_def s_def prod.case)
qed

text \<open>A lookup is coherent when the interval it answers contains the second it was asked for
  and every second of the interval has the same answer.\<close>

definition coherent_location :: "location \<Rightarrow> bool" where
  "coherent_location loc \<longleftrightarrow>
     (\<forall>u. case loc u of (off, start, stop) \<Rightarrow>
        start \<le> u \<and> u < stop \<and> (\<forall>v. start \<le> v \<and> v < stop \<longrightarrow> loc v = loc u))"

text \<open>The wall clock of an instant is unambiguous when reading it as UTC stays in the interval
  of the same offset: no change of offset lies within one offset of the instant.\<close>

definition stable_at :: "location \<Rightarrow> instant \<Rightarrow> bool" where
  "stable_at loc t \<longleftrightarrow>
     (case loc (time_unix t) of (off, start, stop) \<Rightarrow>
        start \<le> time_unix t \<and> time_unix t < stop \<and>
        loc (time_unix t + off) = loc (time_unix t))"

text \<open>The local calendar year of an instant is written with four digits.\<close>

definition four_digit_year :: "location \<Rightarrow> instant \<Rightarrow> bool" where
  "four_digit_year loc t \<longleftrightarrow>
     fst (year_yday (wall_seconds loc t div 86400 + unix_days)) \<in> {0..9999}"

lemma coherent_stable_at:
  assumes "coherent_location loc" "loc (time_unix t) = (off, start, stop)"
    "start \<le> time_unix t + off" "time_unix t + off < stop"
  shows "stable_at loc t"
  using assms unfolding coherent_location_def stable_at_def
  by (metis (mono_tags, lifting) case_prod_conv)

lemma stable_at_fixed: "\<bar>time_unix t\<bar> < 2 ^ 62 \<Longrightarrow> stable_at (fixed_location off) t"
  unfolding stable_at_def fixed_location_def by (simp add: abs_less_iff)

lemma date_unix_wall: "stable_at loc t \<Longrightarrow> date_unix loc (wall_seconds loc t) = time_unix t"
  unfolding stable_at_def date_unix_def wall_seconds_def by (auto split: prod.splits)

lemma parse_format_time:
  assumes "stable_at loc t" "four_digit_year loc t"
  shows "parse_in_location (format_time loc t) (Some loc) = Ok (Some (time_unix t * second))"
proof -
  have "parse_wall (format_time loc t) = Some (wall_seconds loc t, 0)"
    using assms(2) unfolding format_time_def four_digit_year_def by (rule parse_format_wall)
  then show ?thesis
    by (simp add: parse_in_location_def date_unix_wall [OF assms(1)])
qed

lemma digit_not_punct: "is_digit c \<Longrightarrow> c \<noteq> CHR '','' \<and> c \<noteq> CHR ''|''"
  by (auto simp: digit_val_def)

lemma show_padded_chars:
  assumes "c \<in> set (show_padded k i)"
  shows "c = CHR ''-'' \<or> is_digit c"
  using assms show_width_digits [of k "\<bar>i\<bar>"] show_nat_digits [of "\<bar>i\<bar>"]
  by (auto simp: show_padded_def list_all_iff split: if_splits)

lemma format_time_chars: "CHR '','' \<notin> set (format_time loc t)" "CHR ''|'' \<notin> set (format_time loc t)"
  unfolding format_time_def format_wall_def
  by (auto simp: Let_def dest!: show_padded_chars split: prod.splits)

lemma length_show_padded: "k \<le> length (show_padded k i)"
proof (cases "\<bar>i\<bar> < 10 ^ k")
  case False
  have "10 ^ k \<le> n \<Longrightarrow> k \<le> length (show_nat n)" for k n
  proof (induction k arbitrary: n)
    case (Suc k)
    have pos: "(1::int) \<le> 10 ^ k" by simp
    then have "10 \<le> n" "10 ^ k \<le> n div 10" using Suc.prems by (simp, linarith, simp)
    then show ?case using Suc.IH [of "n div 10"] by (subst show_nat.simps) simp
  qed simp
  then show ?thesis using False by (simp add: show_padded_def trans_le_add2)
qed (simp add: show_padded_def)

lemma length_format_time: "20 \<le> length (format_time loc t)"
proof -
  obtain y yd where 1: "year_yday (wall_seconds loc t div 86400 + unix_days) = (y, yd)" by force
  obtain mo d where 2: "month_day (is_leap y) yd = (mo, d)" by force
  define s where "s = wall_seconds loc t mod 86400"
  have "4 + 2 + 2 + 2 + 2 + 2 \<le>
      length (show_padded 4 y) + length (show_padded 2 mo) + length (show_padded 2 d) +
      length (show_padded 2 (s div 3600)) + length (show_padded 2 (s div 60 mod 60)) +
      length (show_padded 2 (s mod 60))"
    by (intro add_mono length_show_padded)
  then show ?thesis
    by (simp only: format_time_def format_wall_def 1 2 Let_def prod.case s_def [symmetric]
        length_append list.size)
qed

section \<open>Durations\<close>

lemma of_int64_0: "of_int64 0 = Fin False 0"
  by (simp add: of_int64_def fl_def fl_mag_def round_mag_def max_mag_def)

text \<open>A whole number of seconds is counted exactly.\<close>

lemma to_int64_duration_seconds:
  assumes "\<bar>s\<bar> < 2 ^ 53"
  shows "to_int64 cvt (duration_seconds (s * second)) = s"
proof -
  have "duration_seconds (s * second) = of_int64 s + Fin False 0 / of_int64 1000000000"
    by (simp add: duration_seconds_def of_int64_0 signed_divide_int_def
        signed_modulo_int_def abs_mult sgn_mult mult_sgn_abs)
  moreover have "Fin False 0 / of_int64 1000000000 = Fin False 0"
    by code_simp
  ultimately have d: "duration_seconds (s * second) = of_int64 s + Fin False 0"
    by simp
  have r: "round64 (of_int s) = of_int s" using assms by (rule round64_of_int)
  note e = of_int64_exact [OF assms]
  have "\<bar>rat_of_int s\<bar> < max_mag"
    using e r finite_fl [of "of_int s"] by (simp add: of_int64_def)
  then have "finite64 (of_int64 s + Fin False 0)" "val (of_int64 s + Fin False 0) = of_int s"
    using e r by (simp_all add: val_add finite_add)
  then show ?thesis
    using assms unfolding d to_int64_def by (auto simp: trunc_rat_of_int int64_def)
qed

text \<open>\<open>int64(d.Seconds())\<close>, as the sources truncate a duration.\<close>

definition whole_seconds :: "(float64 \<Rightarrow> int) \<Rightarrow> duration \<Rightarrow> int" where
  "whole_seconds cvt d = to_int64 cvt (duration_seconds d)"

lemma whole_seconds_exact [simp]: "\<bar>s\<bar> < 2 ^ 53 \<Longrightarrow> whole_seconds cvt (s * second) = s"
  by (simp add: whole_seconds_def to_int64_duration_seconds)

lemma max_mag_large: "rat_of_int n < 2 ^ 100 \<Longrightarrow> rat_of_int n < max_mag"
  by (erule less_le_trans) (simp add: max_mag_def)

text \<open>The fraction of a second, after its two roundings, is between 0 and 1.\<close>

lemma fraction_val:
  assumes "0 \<le> n" "n < second"
  defines "y \<equiv> of_int64 n / of_int64 1000000000"
  shows "finite64 y" "val y = round64 (of_int n / of_int second)" "0 \<le> val y" "val y \<le> 1"
proof -
  note e = of_int64_exact [of n] of_int64_exact [of 1000000000]
  have ex: "finite64 (of_int64 n)" "val (of_int64 n) = of_int n"
    "finite64 (of_int64 1000000000)" "val (of_int64 1000000000) = 1000000000"
    using e assms(1,2) by simp_all
  have "round64 1 = (1 :: rat)" using round64_of_int [of 1] by simp
  then have r: "0 \<le> round64 (of_int n / 1000000000)" "round64 (of_int n / 1000000000) \<le> 1"
    using assms(1,2) by (auto intro!: r64.rnd_nonneg r64.rnd_le)
  then have "\<bar>round64 (of_int n / 1000000000)\<bar> < max_mag" by (simp add: max_mag_def)
  then show fin: "finite64 y"
    unfolding y_def by (subst finite_div) (simp_all add: ex is_float64_of_int64)
  show v: "val y = round64 (of_int n / of_int second)"
    using fin unfolding y_def by (subst val_div) (simp_all add: ex is_float64_of_int64)
  show "0 \<le> val y" "val y \<le> 1" using r unfolding v by simp_all
qed

lemma duration_seconds_val:
  assumes "0 \<le> d" "d < 2 ^ 63"
  shows "finite64 (duration_seconds d)"
    and "val (duration_seconds d) =
      round64 (of_int (d div second) + round64 (of_int (d mod second) / of_int second))"
    and "of_int (d div second) \<le> val (duration_seconds d)"
    and "val (duration_seconds d) \<le> of_int (d div second + 1)"
proof -
  define s n where "s = d div second" and "n = d mod second"
  have n: "0 \<le> n" "n < second" unfolding n_def by simp_all
  have s: "0 \<le> s" "s < 2 ^ 34" unfolding s_def using assms by simp_all
  define x y where "x = of_int64 s" and "y = of_int64 n / of_int64 1000000000"
  have "d smod second = n"
    using assms unfolding n_def by (cases "d = 0") (simp_all add: signed_modulo_int_def)
  then have eq: "duration_seconds d = x + y"
    using assms unfolding x_def y_def s_def by (simp add: duration_seconds_def sdiv_nonneg)
  note f = fraction_val [OF n, folded y_def]
  have x: "finite64 x" "val x = of_int s"
    using of_int64_exact [of s] s unfolding x_def by simp_all
  have i: "round64 (of_int s) = of_int s" "round64 (of_int (s + 1)) = of_int (s + 1)"
    using s round64_of_int [of s] round64_of_int [of "s + 1"] by simp_all
  have b: "of_int s \<le> round64 (val x + val y)" "round64 (val x + val y) \<le> of_int (s + 1)"
    using f x i by (auto intro!: r64.rnd_ge r64.rnd_le)
  have "\<bar>round64 (val x + val y)\<bar> < max_mag"
  proof -
    have "rat_of_int (s + 1) < rat_of_int (2 ^ 100)" using s by (subst of_int_less_iff) simp
    then have "rat_of_int (s + 1) < max_mag" by (intro max_mag_large) simp
    moreover have "0 \<le> round64 (val x + val y)" using s(1) b(1) by (metis of_int_0_le_iff order_trans)
    ultimately show ?thesis using b(2) by simp
  qed
  then show fin: "finite64 (duration_seconds d)"
    unfolding eq using finite_add [OF x(1) f(1)] by simp
  have v: "val (duration_seconds d) = round64 (val x + val y)"
    using val_add [OF x(1) f(1)] fin unfolding eq by simp
  show "val (duration_seconds d) =
      round64 (of_int (d div second) + round64 (of_int (d mod second) / of_int second))"
    using v x(2) f(2) unfolding s_def n_def by simp
  show "of_int (d div second) \<le> val (duration_seconds d)"
    "val (duration_seconds d) \<le> of_int (d div second + 1)"
    using b unfolding v s_def by simp_all
qed

lemma duration_seconds_mono:
  assumes "0 \<le> d" "d \<le> e" "e < 2 ^ 63"
  shows "val (duration_seconds d) \<le> val (duration_seconds e)"
proof (cases "d div second = e div second")
  case True
  then have "d mod second \<le> e mod second"
    using assms mult_div_mod_eq [of second d] mult_div_mod_eq [of second e] by linarith
  then have "of_int (d mod second) / of_int second \<le> (of_int (e mod second) / of_int second :: rat)"
    by (simp add: divide_right_mono)
  then show ?thesis
    using assms True duration_seconds_val(2) [of d] duration_seconds_val(2) [of e]
    by (auto intro!: r64.rnd_mono)
next
  case False
  then have "d div second + 1 \<le> e div second"
    using zdiv_mono1 [OF assms(2), of second] by simp
  then have "rat_of_int (d div second + 1) \<le> rat_of_int (e div second)" by (subst of_int_le_iff)
  then show ?thesis
    using assms duration_seconds_val(4) [of d] duration_seconds_val(3) [of e] by simp
qed

lemma whole_seconds_trunc:
  assumes "0 \<le> d" "d < 2 ^ 63"
  shows "whole_seconds cvt d = trunc_rat (val (duration_seconds d))"
    and "d div second \<le> whole_seconds cvt d" "whole_seconds cvt d \<le> d div second + 1"
proof -
  have b: "d div second \<le> trunc_rat (val (duration_seconds d))"
    "trunc_rat (val (duration_seconds d)) \<le> d div second + 1"
    using trunc_rat_mono [OF duration_seconds_val(3) [OF assms]]
      trunc_rat_mono [OF duration_seconds_val(4) [OF assms]] trunc_rat_of_int by metis+
  have q: "0 \<le> d div second" "d div second < 2 ^ 34" using assms by simp_all
  have "int64 (trunc_rat (val (duration_seconds d)))"
    using b q unfolding int64_def by simp
  then show t: "whole_seconds cvt d = trunc_rat (val (duration_seconds d))"
    using duration_seconds_val(1) [OF assms] by (simp add: whole_seconds_def to_int64_def)
  show "d div second \<le> whole_seconds cvt d" "whole_seconds cvt d \<le> d div second + 1"
    using b unfolding t by simp_all
qed

lemma whole_seconds_mono:
  "0 \<le> d \<Longrightarrow> d \<le> e \<Longrightarrow> e < 2 ^ 63 \<Longrightarrow> whole_seconds cvt d \<le> whole_seconds cvt e"
  by (simp add: whole_seconds_trunc duration_seconds_mono trunc_rat_mono)

end
