(* ===== verification/Kube_Types.thy ===== *)
theory Kube_Types
  imports Go_Time
begin

text \<open>
  The Kubernetes objects the sources read, reduced to the fields they read, and the two ways a
  scheduler plugin answers the framework. A Go map of strings is an association list in the
  order an iteration visits it, \<open>None\<close> the nil map; a nil pointer is \<open>None\<close>.

  The process environment a function can see is a record: the environment variables, the time
  zone database, the local zone and one reading of the clock. Two readings of the clock within
  one call are taken to be equal.
\<close>

section \<open>Maps of strings\<close>

type_synonym annotations = "(string \<times> string) list option"

definition anno_entries :: "annotations \<Rightarrow> (string \<times> string) list" where
  "anno_entries a = (case a of None \<Rightarrow> [] | Some m \<Rightarrow> m)"

definition anno_get :: "annotations \<Rightarrow> string \<Rightarrow> string option" where
  "anno_get a k = map_of (anno_entries a) k"

text \<open>A write to a map that is not nil.\<close>

definition anno_put :: "annotations \<Rightarrow> string \<Rightarrow> string \<Rightarrow> annotations" where
  "anno_put a k v = Some ((k, v) # filter (\<lambda>e. fst e \<noteq> k) (anno_entries a))"

definition anno_remove :: "annotations \<Rightarrow> string \<Rightarrow> annotations" where
  "anno_remove a k = map_option (filter (\<lambda>e. fst e \<noteq> k)) a"

lemma anno_get_None [simp]: "anno_get None k = None"
  by (simp add: anno_get_def anno_entries_def)

lemma map_of_filter_neq: "map_of (filter (\<lambda>e. fst e \<noteq> k) xs) j = (if j = k then None else map_of xs j)"
  by (induction xs) auto

lemma anno_get_put [simp]: "anno_get (anno_put a k v) j = (if j = k then Some v else anno_get a j)"
  by (simp add: anno_get_def anno_put_def anno_entries_def map_of_filter_neq)

lemma anno_get_remove [simp]: "anno_get (anno_remove a k) j = (if j = k then None else anno_get a j)"
  by (cases a) (simp_all add: anno_get_def anno_remove_def anno_entries_def map_of_filter_neq)

section \<open>Objects\<close>

record OwnerReference =
  ref_Kind :: string
  ref_Name :: string

record Pod =
  pod_Namespace :: string
  pod_Name :: string
  pod_OwnerReferences :: "OwnerReference list"
  pod_Annotations :: annotations
  pod_NodeName :: string
  pod_DeletionTimestamp :: "instant option"

record NodeAddress =
  addr_Type :: string
  addr_Address :: string

text \<open>\<open>node_CpuCapacity\<close> and \<open>node_MemoryCapacity\<close> are what \<open>Status.Capacity.Cpu().Value()\<close> and
  \<open>Status.Capacity.Memory().Value()\<close> return.\<close>

record Node =
  node_Name :: string
  node_Annotations :: annotations
  node_Addresses :: "NodeAddress list"
  node_CpuCapacity :: int
  node_MemoryCapacity :: int

record ReplicaSet =
  rs_OwnerReferences :: "OwnerReference list"

record Deployment =
  deploy_Namespace :: string
  deploy_Name :: string
  deploy_Annotations :: annotations
  deploy_Replicas :: "int option"

section \<open>The scheduling framework\<close>

abbreviation (input) MaxNodeScore :: int where "MaxNodeScore \<equiv> 100"
abbreviation (input) MinNodeScore :: int where "MinNodeScore \<equiv> 0"

datatype StatusCode = Success | Error | Unschedulable

text \<open>A \<open>*framework.Status\<close>; the nil status counts as success.\<close>

datatype Status = NilStatus | NewStatus StatusCode string | AsStatus go_error

fun is_success :: "Status \<Rightarrow> bool" where
  "is_success NilStatus = True"
| "is_success (NewStatus c msg) = (c = Success)"
| "is_success (AsStatus e) = False"

section \<open>What a process sees\<close>

record sys =
  sys_getenv :: "string \<Rightarrow> string"
  sys_zoneinfo :: "string \<Rightarrow> location option"
  sys_local :: location
  sys_now :: instant

text \<open>\<open>time.LoadLocation\<close>: \<open>None\<close> when it returns an error.\<close>

definition load_location :: "sys \<Rightarrow> string \<Rightarrow> location option" where
  "load_location sys name =
     (if name = '''' \<or> name = ''UTC'' then Some (fixed_location 0)
      else if name = ''Local'' then Some (sys_local sys)
      else if sublist ''..'' name \<or> hd name = CHR ''/'' \<or> hd name = CHR 0x5C then None
      else sys_zoneinfo sys name)"

section \<open>Requests to the API server\<close>

datatype patch_target = PatchNode string | PatchDeployment string string | PatchPod string string

datatype patch_type = JSONPatchType | MergePatchType

record patch_request =
  patch_target :: patch_target
  patch_kind :: patch_type
  patch_data :: string

text \<open>A handler returns the patches it sends, in order, and its result; the client, a parameter,
  answers each patch with an error or none.\<close>

type_synonym client = "patch_request \<Rightarrow> go_error option"
type_synonym 'a handled = "(patch_request list \<times> 'a) outcome"

end
