(* ===== verification/Policy_Api.thy ===== *)
theory Policy_Api
  imports Kube_Types
begin

text \<open>
  The scheduler policy: the internal types of \<open>pkg/plugins/apis/policy/types.go\<close>, the versioned
  types of \<open>v1alpha1/types.go\<close>, the generated conversions between them, and
  \<open>LoadPolicyFromFile\<close> of \<open>pkg/utils/policyfile.go\<close>. A slice is a list: the sources only take
  the length of a slice and range over it, so nil and empty slices behave alike. Reading a file
  and the Kubernetes codec are parameters.
\<close>

section \<open>Internal types\<close>

record SyncPolicy =
  sync_Name :: string
  sync_Period :: duration

record PredicatePolicy =
  predicate_Name :: string
  predicate_MaxLimitPecent :: float64

record PriorityPolicy =
  priority_Name :: string
  priority_Weight :: float64

record HotValuePolicy =
  hot_TimeRange :: duration
  hot_Count :: int

record PolicySpec =
  spec_SyncPeriod :: "SyncPolicy list"
  spec_SyncAppPeriod :: "SyncPolicy list"
  spec_Predicate :: "PredicatePolicy list"
  spec_Priority :: "PriorityPolicy list"
  spec_HotValue :: "HotValuePolicy list"

record TypeMeta =
  meta_Kind :: string
  meta_APIVersion :: string

record DynamicSchedulerPolicy =
  policy_TypeMeta :: TypeMeta
  policy_Spec :: PolicySpec

section \<open>Versioned types\<close>

record SyncPolicyV1alpha1 =
  sync1_Name :: string
  sync1_Period :: duration

record PredicatePolicyV1alpha1 =
  predicate1_Name :: string
  predicate1_MaxLimitPecent :: float64

record PriorityPolicyV1alpha1 =
  priority1_Name :: string
  priority1_Weight :: float64

record HotValuePolicyV1alpha1 =
  hot1_TimeRange :: duration
  hot1_Count :: int

record PolicySpecV1alpha1 =
  spec1_SyncPeriod :: "SyncPolicyV1alpha1 list"
  spec1_SyncAppPeriod :: "SyncPolicyV1alpha1 list"
  spec1_Predicate :: "PredicatePolicyV1alpha1 list"
  spec1_Priority :: "PriorityPolicyV1alpha1 list"
  spec1_HotValue :: "HotValuePolicyV1alpha1 list"

record DynamicSchedulerPolicyV1alpha1 =
  policy1_TypeMeta :: TypeMeta
  policy1_Spec :: PolicySpecV1alpha1

section \<open>Generated conversions\<close>

text \<open>A conversion writes into an object its caller allocated; the second argument is the content
  of that object before the call. Every conversion returns a nil error. Slices are converted by
  reinterpreting their memory, so element \<open>i\<close> of the result has the fields of element \<open>i\<close>.\<close>

definition Convert_v1alpha1_SyncPolicy_To_policy_SyncPolicy ::
  "SyncPolicyV1alpha1 \<Rightarrow> SyncPolicy \<Rightarrow> SyncPolicy" where
  "Convert_v1alpha1_SyncPolicy_To_policy_SyncPolicy i out =
     out\<lparr>sync_Name := sync1_Name i, sync_Period := sync1_Period i\<rparr>"

definition Convert_policy_SyncPolicy_To_v1alpha1_SyncPolicy ::
  "SyncPolicy \<Rightarrow> SyncPolicyV1alpha1 \<Rightarrow> SyncPolicyV1alpha1" where
  "Convert_policy_SyncPolicy_To_v1alpha1_SyncPolicy i out =
     out\<lparr>sync1_Name := sync_Name i, sync1_Period := sync_Period i\<rparr>"

definition Convert_v1alpha1_PredicatePolicy_To_policy_PredicatePolicy ::
  "PredicatePolicyV1alpha1 \<Rightarrow> PredicatePolicy \<Rightarrow> PredicatePolicy" where
  "Convert_v1alpha1_PredicatePolicy_To_policy_PredicatePolicy i out =
     out\<lparr>predicate_Name := predicate1_Name i,
         predicate_MaxLimitPecent := predicate1_MaxLimitPecent i\<rparr>"

definition Convert_policy_PredicatePolicy_To_v1alpha1_PredicatePolicy ::
  "PredicatePolicy \<Rightarrow> PredicatePolicyV1alpha1 \<Rightarrow> PredicatePolicyV1alpha1" where
  "Convert_policy_PredicatePolicy_To_v1alpha1_PredicatePolicy i out =
     out\<lparr>predicate1_Name := predicate_Name i,
         predicate1_MaxLimitPecent := predicate_MaxLimitPecent i\<rparr>"

definition Convert_v1alpha1_PriorityPolicy_To_policy_PriorityPolicy ::
  "PriorityPolicyV1alpha1 \<Rightarrow> PriorityPolicy \<Rightarrow> PriorityPolicy" where
  "Convert_v1alpha1_PriorityPolicy_To_policy_PriorityPolicy i out =
     out\<lparr>priority_Name := priority1_Name i, priority_Weight := priority1_Weight i\<rparr>"

definition Convert_policy_PriorityPolicy_To_v1alpha1_PriorityPolicy ::
  "PriorityPolicy \<Rightarrow> PriorityPolicyV1alpha1 \<Rightarrow> PriorityPolicyV1alpha1" where
  "Convert_policy_PriorityPolicy_To_v1alpha1_PriorityPolicy i out =
     out\<lparr>priority1_Name := priority_Name i, priority1_Weight := priority_Weight i\<rparr>"

definition Convert_v1alpha1_HotValuePolicy_To_policy_HotValuePolicy ::
  "HotValuePolicyV1alpha1 \<Rightarrow> HotValuePolicy \<Rightarrow> HotValuePolicy" where
  "Convert_v1alpha1_HotValuePolicy_To_policy_HotValuePolicy i out =
     out\<lparr>hot_TimeRange := hot1_TimeRange i, hot_Count := hot1_Count i\<rparr>"

definition Convert_policy_HotValuePolicy_To_v1alpha1_HotValuePolicy ::
  "HotValuePolicy \<Rightarrow> HotValuePolicyV1alpha1 \<Rightarrow> HotValuePolicyV1alpha1" where
  "Convert_policy_HotValuePolicy_To_v1alpha1_HotValuePolicy i out =
     out\<lparr>hot1_TimeRange := hot_TimeRange i, hot1_Count := hot_Count i\<rparr>"

text \<open>The elements of a reinterpreted slice.\<close>

definition sync_of_v1alpha1 :: "SyncPolicyV1alpha1 \<Rightarrow> SyncPolicy" where
  "sync_of_v1alpha1 i = \<lparr>sync_Name = sync1_Name i, sync_Period = sync1_Period i\<rparr>"

definition sync_to_v1alpha1 :: "SyncPolicy \<Rightarrow> SyncPolicyV1alpha1" where
  "sync_to_v1alpha1 i = \<lparr>sync1_Name = sync_Name i, sync1_Period = sync_Period i\<rparr>"

definition predicate_of_v1alpha1 :: "PredicatePolicyV1alpha1 \<Rightarrow> PredicatePolicy" where
  "predicate_of_v1alpha1 i =
     \<lparr>predicate_Name = predicate1_Name i, predicate_MaxLimitPecent = predicate1_MaxLimitPecent i\<rparr>"

definition predicate_to_v1alpha1 :: "PredicatePolicy \<Rightarrow> PredicatePolicyV1alpha1" where
  "predicate_to_v1alpha1 i =
     \<lparr>predicate1_Name = predicate_Name i, predicate1_MaxLimitPecent = predicate_MaxLimitPecent i\<rparr>"

definition priority_of_v1alpha1 :: "PriorityPolicyV1alpha1 \<Rightarrow> PriorityPolicy" where
  "priority_of_v1alpha1 i =
     \<lparr>priority_Name = priority1_Name i, priority_Weight = priority1_Weight i\<rparr>"

definition priority_to_v1alpha1 :: "PriorityPolicy \<Rightarrow> PriorityPolicyV1alpha1" where
  "priority_to_v1alpha1 i =
     \<lparr>priority1_Name = priority_Name i, priority1_Weight = priority_Weight i\<rparr>"

definition hot_of_v1alpha1 :: "HotValuePolicyV1alpha1 \<Rightarrow> HotValuePolicy" where
  "hot_of_v1alpha1 i = \<lparr>hot_TimeRange = hot1_TimeRange i, hot_Count = hot1_Count i\<rparr>"

definition hot_to_v1alpha1 :: "HotValuePolicy \<Rightarrow> HotValuePolicyV1alpha1" where
  "hot_to_v1alpha1 i = \<lparr>hot1_TimeRange = hot_TimeRange i, hot1_Count = hot_Count i\<rparr>"

definition Convert_v1alpha1_PolicySpec_To_policy_PolicySpec ::
  "PolicySpecV1alpha1 \<Rightarrow> PolicySpec \<Rightarrow> PolicySpec" where
  "Convert_v1alpha1_PolicySpec_To_policy_PolicySpec i out =
     out\<lparr>spec_SyncPeriod := map sync_of_v1alpha1 (spec1_SyncPeriod i),
         spec_SyncAppPeriod := map sync_of_v1alpha1 (spec1_SyncAppPeriod i),
         spec_Predicate := map predicate_of_v1alpha1 (spec1_Predicate i),
         spec_Priority := map priority_of_v1alpha1 (spec1_Priority i),
         spec_HotValue := map hot_of_v1alpha1 (spec1_HotValue i)\<rparr>"

definition Convert_policy_PolicySpec_To_v1alpha1_PolicySpec ::
  "PolicySpec \<Rightarrow> PolicySpecV1alpha1 \<Rightarrow> PolicySpecV1alpha1" where
  "Convert_policy_PolicySpec_To_v1alpha1_PolicySpec i out =
     out\<lparr>spec1_SyncPeriod := map sync_to_v1alpha1 (spec_SyncPeriod i),
         spec1_SyncAppPeriod := map sync_to_v1alpha1 (spec_SyncAppPeriod i),
         spec1_Predicate := map predicate_to_v1alpha1 (spec_Predicate i),
         spec1_Priority := map priority_to_v1alpha1 (spec_Priority i),
         spec1_HotValue := map hot_to_v1alpha1 (spec_HotValue i)\<rparr>"

text \<open>Only \<open>Spec\<close> is converted: the type meta of the target is left as the caller made it.\<close>

definition Convert_v1alpha1_DynamicSchedulerPolicy_To_policy_DynamicSchedulerPolicy ::
  "DynamicSchedulerPolicyV1alpha1 \<Rightarrow> DynamicSchedulerPolicy \<Rightarrow> DynamicSchedulerPolicy" where
  "Convert_v1alpha1_DynamicSchedulerPolicy_To_policy_DynamicSchedulerPolicy i out =
     out\<lparr>policy_Spec :=
           Convert_v1alpha1_PolicySpec_To_policy_PolicySpec (policy1_Spec i) (policy_Spec out)\<rparr>"

definition Convert_policy_DynamicSchedulerPolicy_To_v1alpha1_DynamicSchedulerPolicy ::
  "DynamicSchedulerPolicy \<Rightarrow> DynamicSchedulerPolicyV1alpha1 \<Rightarrow> DynamicSchedulerPolicyV1alpha1" where
  "Convert_policy_DynamicSchedulerPolicy_To_v1alpha1_DynamicSchedulerPolicy i out =
     out\<lparr>policy1_Spec :=
           Convert_policy_PolicySpec_To_v1alpha1_PolicySpec (policy_Spec i) (policy1_Spec out)\<rparr>"

section \<open>Loading a policy\<close>

text \<open>The object a codec decodes, with its group, version and kind.\<close>

datatype decoded = PolicyObject DynamicSchedulerPolicy | OtherObject

record GroupVersionKind =
  gvk_Group :: string
  gvk_Version :: string
  gvk_Kind :: string

text \<open>\<open>gvk.GroupVersion().String()\<close> and \<open>gvk.String()\<close> are parameters of what uses them.\<close>

definition loadPolicy ::
  "(string \<Rightarrow> (decoded \<times> GroupVersionKind) fallible) \<Rightarrow>
   (GroupVersionKind \<Rightarrow> string) \<Rightarrow> (GroupVersionKind \<Rightarrow> string) \<Rightarrow>
   string \<Rightarrow> DynamicSchedulerPolicy fallible" where
  "loadPolicy decode group_version show_gvk data =
     (case decode data of
        Inl err \<Rightarrow> Inl err
      | Inr (obj, gvk) \<Rightarrow>
         (case obj of
            PolicyObject p \<Rightarrow>
              Inr (p\<lparr>policy_TypeMeta := (policy_TypeMeta p)\<lparr>meta_APIVersion := group_version gvk\<rparr>\<rparr>)
          | OtherObject \<Rightarrow>
              Inl (Plain (''couldn't decode as DynamicSchedulerPolicy, got '' @ show_gvk gvk @ '': ''))))"

definition LoadPolicyFromFile ::
  "(string \<Rightarrow> string fallible) \<Rightarrow>
   (string \<Rightarrow> (decoded \<times> GroupVersionKind) fallible) \<Rightarrow>
   (GroupVersionKind \<Rightarrow> string) \<Rightarrow> (GroupVersionKind \<Rightarrow> string) \<Rightarrow>
   string \<Rightarrow> DynamicSchedulerPolicy fallible" where
  "LoadPolicyFromFile read_file decode group_version show_gvk file =
     (case read_file file of
        Inl err \<Rightarrow> Inl err
      | Inr data \<Rightarrow> loadPolicy decode group_version show_gvk data)"

section \<open>Lemmas\<close>

named_theorems conversion_defs \<open>definitions of the generated conversions\<close>

declare
  sync_of_v1alpha1_def [conversion_defs] sync_to_v1alpha1_def [conversion_defs]
  predicate_of_v1alpha1_def [conversion_defs] predicate_to_v1alpha1_def [conversion_defs]
  priority_of_v1alpha1_def [conversion_defs] priority_to_v1alpha1_def [conversion_defs]
  hot_of_v1alpha1_def [conversion_defs] hot_to_v1alpha1_def [conversion_defs]
  Convert_v1alpha1_PolicySpec_To_policy_PolicySpec_def [conversion_defs]
  Convert_policy_PolicySpec_To_v1alpha1_PolicySpec_def [conversion_defs]
  Convert_v1alpha1_DynamicSchedulerPolicy_To_policy_DynamicSchedulerPolicy_def [conversion_defs]
  Convert_policy_DynamicSchedulerPolicy_To_v1alpha1_DynamicSchedulerPolicy_def [conversion_defs]
  Convert_v1alpha1_SyncPolicy_To_policy_SyncPolicy_def [conversion_defs]
  Convert_policy_SyncPolicy_To_v1alpha1_SyncPolicy_def [conversion_defs]
  Convert_v1alpha1_PredicatePolicy_To_policy_PredicatePolicy_def [conversion_defs]
  Convert_policy_PredicatePolicy_To_v1alpha1_PredicatePolicy_def [conversion_defs]
  Convert_v1alpha1_PriorityPolicy_To_policy_PriorityPolicy_def [conversion_defs]
  Convert_policy_PriorityPolicy_To_v1alpha1_PriorityPolicy_def [conversion_defs]
  Convert_v1alpha1_HotValuePolicy_To_policy_HotValuePolicy_def [conversion_defs]
  Convert_policy_HotValuePolicy_To_v1alpha1_HotValuePolicy_def [conversion_defs]

text \<open>Reinterpreting a slice agrees with converting its elements one by one.\<close>

lemma reinterpret_is_convert:
  "sync_of_v1alpha1 a = Convert_v1alpha1_SyncPolicy_To_policy_SyncPolicy a a'"
  "predicate_of_v1alpha1 b = Convert_v1alpha1_PredicatePolicy_To_policy_PredicatePolicy b b'"
  "priority_of_v1alpha1 c = Convert_v1alpha1_PriorityPolicy_To_policy_PriorityPolicy c c'"
  "hot_of_v1alpha1 d = Convert_v1alpha1_HotValuePolicy_To_policy_HotValuePolicy d d'"
  "sync_to_v1alpha1 e = Convert_policy_SyncPolicy_To_v1alpha1_SyncPolicy e e'"
  "predicate_to_v1alpha1 f = Convert_policy_PredicatePolicy_To_v1alpha1_PredicatePolicy f f'"
  "priority_to_v1alpha1 g = Convert_policy_PriorityPolicy_To_v1alpha1_PriorityPolicy g g'"
  "hot_to_v1alpha1 h = Convert_policy_HotValuePolicy_To_v1alpha1_HotValuePolicy h h'"
  by (simp_all add: conversion_defs)

lemma element_round_trip [simp]:
  "sync_of_v1alpha1 (sync_to_v1alpha1 a) = a" "sync_to_v1alpha1 (sync_of_v1alpha1 a') = a'"
  "predicate_of_v1alpha1 (predicate_to_v1alpha1 b) = b"
  "predicate_to_v1alpha1 (predicate_of_v1alpha1 b') = b'"
  "priority_of_v1alpha1 (priority_to_v1alpha1 c) = c"
  "priority_to_v1alpha1 (priority_of_v1alpha1 c') = c'"
  "hot_of_v1alpha1 (hot_to_v1alpha1 d) = d" "hot_to_v1alpha1 (hot_of_v1alpha1 d') = d'"
  by (simp_all add: conversion_defs)

lemma spec_round_trip:
  "Convert_v1alpha1_PolicySpec_To_policy_PolicySpec
     (Convert_policy_PolicySpec_To_v1alpha1_PolicySpec s t) u = s"
  "Convert_policy_PolicySpec_To_v1alpha1_PolicySpec
     (Convert_v1alpha1_PolicySpec_To_policy_PolicySpec s' u') t' = s'"
  by (simp_all add: Convert_v1alpha1_PolicySpec_To_policy_PolicySpec_def
      Convert_policy_PolicySpec_To_v1alpha1_PolicySpec_def comp_def)

end
