(* ===== verification/Plugin_Args.thy ===== *)
theory Plugin_Args
  imports Policy_Api
begin

text \<open>
  The arguments of the three scheduler plugins: the internal types of
  \<open>pkg/plugins/apis/config/types.go\<close>, the versioned types of \<open>v1beta2\<close> and \<open>v1beta3\<close>, their
  defaults and the generated conversions. In \<open>v1beta3\<close> a path is a pointer, so that an empty path
  and a missing one differ. The two pointer conversions of \<open>k8s.io/apimachinery\<close> that \<open>v1beta3\<close>
  calls are parameters.
\<close>

section \<open>Types\<close>

record DynamicArgs =
  dyn_TypeMeta :: TypeMeta
  dyn_PolicyConfigPath :: string

record NodeResourceTopologyMatchArgs =
  nrt_TypeMeta :: TypeMeta
  nrt_TopologyAwareResources :: "string list"

record ApplicationResourceAwareArgs =
  ara_TypeMeta :: TypeMeta
  ara_PolicyConfigPath :: string

record DynamicArgsV1beta2 =
  dyn2_TypeMeta :: TypeMeta
  dyn2_PolicyConfigPath :: string

record NodeResourceTopologyMatchArgsV1beta2 =
  nrt2_TypeMeta :: TypeMeta
  nrt2_TopologyAwareResources :: "string list"

record ApplicationResourceAwareArgsV1beta2 =
  ara2_TypeMeta :: TypeMeta
  ara2_PolicyConfigPath :: string

record DynamicArgsV1beta3 =
  dyn3_TypeMeta :: TypeMeta
  dyn3_PolicyConfigPath :: "string option"

record NodeResourceTopologyMatchArgsV1beta3 =
  nrt3_TypeMeta :: TypeMeta
  nrt3_TopologyAwareResources :: "string list"

record ApplicationResourceAwareArgsV1beta3 =
  ara3_TypeMeta :: TypeMeta
  ara3_PolicyConfigPath :: "string option"

text \<open>The object a plugin's constructor receives; \<open>%T\<close> prints the name of its type.\<close>

datatype runtime_object =
    DynamicArgsObject DynamicArgs
  | TopologyArgsObject NodeResourceTopologyMatchArgs
  | AraArgsObject ApplicationResourceAwareArgs
  | OtherArgsObject string

fun type_name :: "runtime_object \<Rightarrow> string" where
  "type_name (DynamicArgsObject a) = ''*config.DynamicArgs''"
| "type_name (TopologyArgsObject a) = ''*config.NodeResourceTopologyMatchArgs''"
| "type_name (AraArgsObject a) = ''*config.ApplicationResourceAwareArgs''"
| "type_name (OtherArgsObject t) = t"

section \<open>Defaults\<close>

abbreviation default_policy_path :: string where
  "default_policy_path \<equiv> ''/etc/kubernetes/dynamic-scheduler-policy.yaml''"

abbreviation defaultNodeResource :: "string list" where
  "defaultNodeResource \<equiv> [''cpu'']"

definition SetDefaults_DynamicArgs_v1beta2 :: "DynamicArgsV1beta2 \<Rightarrow> DynamicArgsV1beta2" where
  "SetDefaults_DynamicArgs_v1beta2 obj =
     (if dyn2_PolicyConfigPath obj = '''' then obj\<lparr>dyn2_PolicyConfigPath := default_policy_path\<rparr>
      else obj)"

definition SetDefaults_NodeResourceTopologyMatchArgs_v1beta2 ::
  "NodeResourceTopologyMatchArgsV1beta2 \<Rightarrow> NodeResourceTopologyMatchArgsV1beta2" where
  "SetDefaults_NodeResourceTopologyMatchArgs_v1beta2 obj =
     (if nrt2_TopologyAwareResources obj = []
      then obj\<lparr>nrt2_TopologyAwareResources := defaultNodeResource\<rparr> else obj)"

definition SetDefaults_ApplicationResourceAwareArgs_v1beta2 ::
  "ApplicationResourceAwareArgsV1beta2 \<Rightarrow> ApplicationResourceAwareArgsV1beta2" where
  "SetDefaults_ApplicationResourceAwareArgs_v1beta2 obj =
     (if ara2_PolicyConfigPath obj = '''' then obj\<lparr>ara2_PolicyConfigPath := default_policy_path\<rparr>
      else obj)"

definition SetDefaults_DynamicArgs_v1beta3 :: "DynamicArgsV1beta3 \<Rightarrow> DynamicArgsV1beta3" where
  "SetDefaults_DynamicArgs_v1beta3 obj =
     (if dyn3_PolicyConfigPath obj = None
      then obj\<lparr>dyn3_PolicyConfigPath := Some default_policy_path\<rparr> else obj)"

definition SetDefaults_NodeResourceTopologyMatchArgs_v1beta3 ::
  "NodeResourceTopologyMatchArgsV1beta3 \<Rightarrow> NodeResourceTopologyMatchArgsV1beta3" where
  "SetDefaults_NodeResourceTopologyMatchArgs_v1beta3 obj =
     (if nrt3_TopologyAwareResources obj = []
      then obj\<lparr>nrt3_TopologyAwareResources := defaultNodeResource\<rparr> else obj)"

definition SetDefaults_ApplicationResourceAwareArgs_v1beta3 ::
  "ApplicationResourceAwareArgsV1beta3 \<Rightarrow> ApplicationResourceAwareArgsV1beta3" where
  "SetDefaults_ApplicationResourceAwareArgs_v1beta3 obj =
     (if ara3_PolicyConfigPath obj = None
      then obj\<lparr>ara3_PolicyConfigPath := Some default_policy_path\<rparr> else obj)"

section \<open>Conversions\<close>

definition Convert_v1beta2_DynamicArgs_To_config_DynamicArgs ::
  "DynamicArgsV1beta2 \<Rightarrow> DynamicArgs \<Rightarrow> DynamicArgs" where
  "Convert_v1beta2_DynamicArgs_To_config_DynamicArgs i out =
     out\<lparr>dyn_PolicyConfigPath := dyn2_PolicyConfigPath i\<rparr>"

definition Convert_config_DynamicArgs_To_v1beta2_DynamicArgs ::
  "DynamicArgs \<Rightarrow> DynamicArgsV1beta2 \<Rightarrow> DynamicArgsV1beta2" where
  "Convert_config_DynamicArgs_To_v1beta2_DynamicArgs i out =
     out\<lparr>dyn2_PolicyConfigPath := dyn_PolicyConfigPath i\<rparr>"

definition Convert_v1beta2_NodeResourceTopologyMatchArgs_To_config ::
  "NodeResourceTopologyMatchArgsV1beta2 \<Rightarrow> NodeResourceTopologyMatchArgs \<Rightarrow> NodeResourceTopologyMatchArgs"
  where
  "Convert_v1beta2_NodeResourceTopologyMatchArgs_To_config i out =
     out\<lparr>nrt_TopologyAwareResources := nrt2_TopologyAwareResources i\<rparr>"

definition Convert_config_NodeResourceTopologyMatchArgs_To_v1beta2 ::
  "NodeResourceTopologyMatchArgs \<Rightarrow> NodeResourceTopologyMatchArgsV1beta2 \<Rightarrow>
   NodeResourceTopologyMatchArgsV1beta2" where
  "Convert_config_NodeResourceTopologyMatchArgs_To_v1beta2 i out =
     out\<lparr>nrt2_TopologyAwareResources := nrt_TopologyAwareResources i\<rparr>"

definition Convert_v1beta2_ApplicationResourceAwareArgs_To_config ::
  "ApplicationResourceAwareArgsV1beta2 \<Rightarrow> ApplicationResourceAwareArgs \<Rightarrow> ApplicationResourceAwareArgs"
  where
  "Convert_v1beta2_ApplicationResourceAwareArgs_To_config i out =
     out\<lparr>ara_PolicyConfigPath := ara2_PolicyConfigPath i\<rparr>"

definition Convert_config_ApplicationResourceAwareArgs_To_v1beta2 ::
  "ApplicationResourceAwareArgs \<Rightarrow> ApplicationResourceAwareArgsV1beta2 \<Rightarrow>
   ApplicationResourceAwareArgsV1beta2" where
  "Convert_config_ApplicationResourceAwareArgs_To_v1beta2 i out =
     out\<lparr>ara2_PolicyConfigPath := ara_PolicyConfigPath i\<rparr>"

text \<open>The conversions of \<open>v1beta3\<close>, over \<open>Convert_Pointer_string_To_string\<close> (\<open>from_ptr\<close>, given the
  old target) and \<open>Convert_string_To_Pointer_string\<close> (\<open>to_ptr\<close>), which can fail.\<close>

definition Convert_v1beta3_DynamicArgs_To_config_DynamicArgs ::
  "(string option \<Rightarrow> string \<Rightarrow> string fallible) \<Rightarrow> DynamicArgsV1beta3 \<Rightarrow> DynamicArgs \<Rightarrow>
   DynamicArgs fallible" where
  "Convert_v1beta3_DynamicArgs_To_config_DynamicArgs from_ptr i out =
     map_sum id (\<lambda>p. out\<lparr>dyn_PolicyConfigPath := p\<rparr>)
       (from_ptr (dyn3_PolicyConfigPath i) (dyn_PolicyConfigPath out))"

definition Convert_config_DynamicArgs_To_v1beta3_DynamicArgs ::
  "(string \<Rightarrow> string option \<Rightarrow> string option fallible) \<Rightarrow> DynamicArgs \<Rightarrow> DynamicArgsV1beta3 \<Rightarrow>
   DynamicArgsV1beta3 fallible" where
  "Convert_config_DynamicArgs_To_v1beta3_DynamicArgs to_ptr i out =
     map_sum id (\<lambda>p. out\<lparr>dyn3_PolicyConfigPath := p\<rparr>)
       (to_ptr (dyn_PolicyConfigPath i) (dyn3_PolicyConfigPath out))"

definition Convert_v1beta3_NodeResourceTopologyMatchArgs_To_config ::
  "NodeResourceTopologyMatchArgsV1beta3 \<Rightarrow> NodeResourceTopologyMatchArgs \<Rightarrow> NodeResourceTopologyMatchArgs"
  where
  "Convert_v1beta3_NodeResourceTopologyMatchArgs_To_config i out =
     out\<lparr>nrt_TopologyAwareResources := nrt3_TopologyAwareResources i\<rparr>"

definition Convert_config_NodeResourceTopologyMatchArgs_To_v1beta3 ::
  "NodeResourceTopologyMatchArgs \<Rightarrow> NodeResourceTopologyMatchArgsV1beta3 \<Rightarrow>
   NodeResourceTopologyMatchArgsV1beta3" where
  "Convert_config_NodeResourceTopologyMatchArgs_To_v1beta3 i out =
     out\<lparr>nrt3_TopologyAwareResources := nrt_TopologyAwareResources i\<rparr>"

definition Convert_v1beta3_ApplicationResourceAwareArgs_To_config ::
  "(string option \<Rightarrow> string \<Rightarrow> string fallible) \<Rightarrow> ApplicationResourceAwareArgsV1beta3 \<Rightarrow>
   ApplicationResourceAwareArgs \<Rightarrow> ApplicationResourceAwareArgs fallible" where
  "Convert_v1beta3_ApplicationResourceAwareArgs_To_config from_ptr i out =
     map_sum id (\<lambda>p. out\<lparr>ara_PolicyConfigPath := p\<rparr>)
       (from_ptr (ara3_PolicyConfigPath i) (ara_PolicyConfigPath out))"

definition Convert_config_ApplicationResourceAwareArgs_To_v1beta3 ::
  "(string \<Rightarrow> string option \<Rightarrow> string option fallible) \<Rightarrow> ApplicationResourceAwareArgs \<Rightarrow>
   ApplicationResourceAwareArgsV1beta3 \<Rightarrow> ApplicationResourceAwareArgsV1beta3 fallible" where
  "Convert_config_ApplicationResourceAwareArgs_To_v1beta3 to_ptr i out =
     map_sum id (\<lambda>p. out\<lparr>ara3_PolicyConfigPath := p\<rparr>)
       (to_ptr (ara_PolicyConfigPath i) (ara3_PolicyConfigPath out))"

section \<open>Lemmas\<close>

text \<open>The contract of a defaulting function: it leaves no unset field, touches only unset fields
  and so does nothing the second time.\<close>

locale defaulting =
  fixes set_defaults :: "'a \<Rightarrow> 'a" and unset :: "'a \<Rightarrow> bool"
  assumes sets: "\<not> unset (set_defaults x)"
    and keeps: "\<not> unset x \<Longrightarrow> set_defaults x = x"
begin

lemma idempotent: "set_defaults (set_defaults x) = set_defaults x"
  using sets keeps by blast

end

interpretation dyn2: defaulting SetDefaults_DynamicArgs_v1beta2 "\<lambda>x. dyn2_PolicyConfigPath x = ''''"
  by unfold_locales (auto simp: SetDefaults_DynamicArgs_v1beta2_def)

interpretation nrt2: defaulting SetDefaults_NodeResourceTopologyMatchArgs_v1beta2
  "\<lambda>x. nrt2_TopologyAwareResources x = []"
  by unfold_locales (auto simp: SetDefaults_NodeResourceTopologyMatchArgs_v1beta2_def)

interpretation ara2: defaulting SetDefaults_ApplicationResourceAwareArgs_v1beta2
  "\<lambda>x. ara2_PolicyConfigPath x = ''''"
  by unfold_locales (auto simp: SetDefaults_ApplicationResourceAwareArgs_v1beta2_def)

interpretation dyn3: defaulting SetDefaults_DynamicArgs_v1beta3 "\<lambda>x. dyn3_PolicyConfigPath x = None"
  by unfold_locales (auto simp: SetDefaults_DynamicArgs_v1beta3_def)

interpretation nrt3: defaulting SetDefaults_NodeResourceTopologyMatchArgs_v1beta3
  "\<lambda>x. nrt3_TopologyAwareResources x = []"
  by unfold_locales (auto simp: SetDefaults_NodeResourceTopologyMatchArgs_v1beta3_def)

interpretation ara3: defaulting SetDefaults_ApplicationResourceAwareArgs_v1beta3
  "\<lambda>x. ara3_PolicyConfigPath x = None"
  by unfold_locales (auto simp: SetDefaults_ApplicationResourceAwareArgs_v1beta3_def)

lemmas args_conversion_defs =
  Convert_v1beta2_DynamicArgs_To_config_DynamicArgs_def
  Convert_config_DynamicArgs_To_v1beta2_DynamicArgs_def
  Convert_v1beta2_NodeResourceTopologyMatchArgs_To_config_def
  Convert_config_NodeResourceTopologyMatchArgs_To_v1beta2_def
  Convert_v1beta2_ApplicationResourceAwareArgs_To_config_def
  Convert_config_ApplicationResourceAwareArgs_To_v1beta2_def
  Convert_v1beta3_DynamicArgs_To_config_DynamicArgs_def
  Convert_config_DynamicArgs_To_v1beta3_DynamicArgs_def
  Convert_v1beta3_NodeResourceTopologyMatchArgs_To_config_def
  Convert_config_NodeResourceTopologyMatchArgs_To_v1beta3_def
  Convert_v1beta3_ApplicationResourceAwareArgs_To_config_def
  Convert_config_ApplicationResourceAwareArgs_To_v1beta3_def

end
