(* ===== verification/Crane_Utils.thy ===== *)
theory Crane_Utils
  imports Policy_Api
begin

text \<open>
  \<open>pkg/utils/utils.go\<close>: the helpers the scheduler plugins and the annotator share. They fix the
  format of an annotation, \<open>value,timestamp\<close>: \<open>PatchNodeAnnotation\<close> writes it and
  \<open>GetResourceUsage\<close>, \<open>GetResourceUsageRange\<close> and \<open>GetDeltaUsageRange\<close> read it. A range of
  usages is a list of numbers separated by bars.
\<close>

abbreviation DefaultTimeZone :: string where "DefaultTimeZone \<equiv> ''Asia/Shanghai''"
abbreviation DefaultNamespace :: string where "DefaultNamespace \<equiv> ''crane-system''"
abbreviation DeltaPrefixName :: string where "DeltaPrefixName \<equiv> ''delta_''"
abbreviation RangePrefix :: string where "RangePrefix \<equiv> ''range''"
abbreviation MergeTypeAdd :: string where "MergeTypeAdd \<equiv> ''addition''"
abbreviation MergeTypeSub :: string where "MergeTypeSub \<equiv> ''subtraction''"
abbreviation MinTimestampStrLength :: nat where "MinTimestampStrLength \<equiv> 5"
abbreviation ExtraActivePeriod :: duration where "ExtraActivePeriod \<equiv> 5 * minute"

section \<open>Definitions\<close>

fun owned_by_kind :: "string \<Rightarrow> OwnerReference list \<Rightarrow> bool" where
  "owned_by_kind kind [] = False"
| "owned_by_kind kind (r # rs) = (if ref_Kind r = kind then True else owned_by_kind kind rs)"

definition IsDaemonsetPod :: "'a Pod_scheme \<Rightarrow> bool" where
  "IsDaemonsetPod pod = owned_by_kind ''DaemonSet'' (pod_OwnerReferences pod)"

definition GetLocation :: "sys \<Rightarrow> location option" where
  "GetLocation sys =
     (let zone = sys_getenv sys ''TZ'';
          zone = (if zone = '''' then DefaultTimeZone else zone)
      in load_location sys zone)"

text \<open>The branch for a nil location formats the time and drops the result; \<open>Time.In\<close> then panics.\<close>

definition GetLocalTime :: "sys \<Rightarrow> string outcome" where
  "GetLocalTime sys =
     (case GetLocation sys of
        None \<Rightarrow> Panic MissingLocation
      | Some loc \<Rightarrow> Ok (format_time loc (sys_now sys)))"

definition GetSystemNamespace :: "sys \<Rightarrow> string" where
  "GetSystemNamespace sys =
     (let ns = sys_getenv sys ''CRANE_SYSTEM_NAMESPACE''
      in if ns = '''' then DefaultNamespace else ns)"

definition NormalizeScore :: "int \<Rightarrow> int \<Rightarrow> int \<Rightarrow> int" where
  "NormalizeScore value mx mn =
     (let value = (if value < mn then mn else value);
          value = (if value > mx then mx else value)
      in value)"

text \<open>The inner loop of \<open>GetDeploymentByPod\<close>: \<open>None\<close> when no owner of the replica set is a
  deployment, so that the outer loop goes on.\<close>

fun deployment_of_owners ::
  "(string \<Rightarrow> string \<Rightarrow> Deployment fallible) \<Rightarrow> string \<Rightarrow> OwnerReference list \<Rightarrow>
   Deployment fallible option" where
  "deployment_of_owners get_deploy ns [] = None"
| "deployment_of_owners get_deploy ns (r # rs) =
     (if ref_Kind r = ''Deployment'' then
        (case get_deploy ns (ref_Name r) of
           Inl err \<Rightarrow> Some (Inl (Wrap ''get deployment by replicaSet failed: '' err))
         | Inr d \<Rightarrow> Some (Inr d))
      else deployment_of_owners get_deploy ns rs)"

fun deployment_of_pod_owners ::
  "(string \<Rightarrow> string \<Rightarrow> ReplicaSet fallible) \<Rightarrow> (string \<Rightarrow> string \<Rightarrow> Deployment fallible) \<Rightarrow>
   string \<Rightarrow> string \<Rightarrow> OwnerReference list \<Rightarrow> Deployment fallible" where
  "deployment_of_pod_owners get_rs get_deploy ns name [] =
     Inl (Plain (''could not find Deployment for pod '' @ name))"
| "deployment_of_pod_owners get_rs get_deploy ns name (r # rs) =
     (if ref_Kind r = ''ReplicaSet'' then
        (case get_rs ns (ref_Name r) of
           Inl err \<Rightarrow> Inl (Wrap ''get replicaSet by pod failed: '' err)
         | Inr s \<Rightarrow>
            (case deployment_of_owners get_deploy ns (rs_OwnerReferences s) of
               Some res \<Rightarrow> res
             | None \<Rightarrow> deployment_of_pod_owners get_rs get_deploy ns name rs))
      else deployment_of_pod_owners get_rs get_deploy ns name rs)"

definition GetDeploymentByPod ::
  "(string \<Rightarrow> string \<Rightarrow> ReplicaSet fallible) \<Rightarrow> (string \<Rightarrow> string \<Rightarrow> Deployment fallible) \<Rightarrow>
   'a Pod_scheme \<Rightarrow> Deployment fallible" where
  "GetDeploymentByPod get_rs get_deploy pod =
     deployment_of_pod_owners get_rs get_deploy (pod_Namespace pod) (pod_Name pod)
       (pod_OwnerReferences pod)"

definition InActivePeriod :: "sys \<Rightarrow> string \<Rightarrow> duration \<Rightarrow> bool outcome" where
  "InActivePeriod sys updatetimeStr activeDuration =
     (if length updatetimeStr < MinTimestampStrLength then Ok False
      else obind (parse_in_location updatetimeStr (GetLocation sys)) (\<lambda>r.
        case r of
          None \<Rightarrow> Ok False
        | Some originUpdateTime \<Rightarrow>
            Ok (time_before (sys_now sys) (time_add originUpdateTime activeDuration))))"

definition GetResourceUsage ::
  "sys \<Rightarrow> annotations \<Rightarrow> string \<Rightarrow> duration \<Rightarrow> float64 fallible outcome" where
  "GetResourceUsage sys anno key activeDuration =
     (case anno_get anno key of
        None \<Rightarrow> Ok (Inl (Plain ''key[] not found''))
      | Some usedstr \<Rightarrow>
         (let usedSlice = go_split CHR '','' usedstr in
          if length usedSlice \<noteq> 2 then Ok (Inl (Plain (''illegel value: '' @ usedstr)))
          else obind (InActivePeriod sys (usedSlice ! 1) activeDuration) (\<lambda>active.
            if \<not> active then Ok (Inl (Plain (''timestamp['' @ usedstr @ ''] is expired'')))
            else
              (case parse_float64 (usedSlice ! 0) of
                 None \<Rightarrow> Ok (Inl (Plain (''failed to parse float['' @ usedSlice ! 0 @ '']'')))
               | Some usedValue \<Rightarrow>
                   if usedValue < f_zero then Ok (Inl (Plain (''illegel value: '' @ usedstr)))
                   else Ok (Inr usedValue)))))"

definition GetResourceUsageRange ::
  "sys \<Rightarrow> annotations \<Rightarrow> string \<Rightarrow> duration \<Rightarrow> string fallible outcome" where
  "GetResourceUsageRange sys anno key activeDuration =
     (case anno_get anno key of
        None \<Rightarrow> Ok (Inr '''')
      | Some usedstr \<Rightarrow>
         (let usedSlice = go_split CHR '','' usedstr in
          if length usedSlice \<noteq> 2 then Ok (Inl (Plain (''illegel value: '' @ usedstr)))
          else obind (InActivePeriod sys (usedSlice ! 1) activeDuration) (\<lambda>active.
            if \<not> active then Ok (Inl (Plain (''timestamp['' @ usedstr @ ''] is expired'')))
            else Ok (Inr (usedSlice ! 0)))))"

fun GetActiveDuration :: "SyncPolicy list \<Rightarrow> string \<Rightarrow> duration fallible" where
  "GetActiveDuration [] name = Inl (Plain ''failed to get the active duration'')"
| "GetActiveDuration (period # ps) name =
     (if sync_Name period = name \<and> sync_Period period \<noteq> 0
      then Inr (wrap64 (sync_Period period + ExtraActivePeriod))
      else GetActiveDuration ps name)"

definition GetDeltaUsageRange :: "annotations \<Rightarrow> string \<Rightarrow> string fallible" where
  "GetDeltaUsageRange anno key =
     (case anno_get anno key of
        None \<Rightarrow> Inr ''''
      | Some deltaStr \<Rightarrow>
         (let usedSlice = go_split CHR '','' deltaStr in
          if length usedSlice \<noteq> 2 then Inl (Plain (''illegel value: '' @ deltaStr))
          else Inr (usedSlice ! 0)))"

fun parse_all :: "string list \<Rightarrow> float64 list fallible" where
  "parse_all [] = Inr []"
| "parse_all (v # vs) =
     (case parse_float64 v of
        None \<Rightarrow> Inl (NumError v)
      | Some fv \<Rightarrow> (case parse_all vs of Inl err \<Rightarrow> Inl err | Inr fvs \<Rightarrow> Inr (fv # fvs)))"

definition ParseRangeMetricsByString :: "string \<Rightarrow> float64 list fallible" where
  "ParseRangeMetricsByString str = parse_all (go_split CHR ''|'' str)"

text \<open>The two loops that print a merged range: every usage with five decimals, a bar after each
  but the last.\<close>

definition render_range :: "float64 list \<Rightarrow> string" where
  "render_range us = go_join CHR ''|'' (map format_float5 us)"

text \<open>The delta usages a merge starts from. A delta shorter than the deployment's usages is
  replaced by zeros, and so is the empty one.\<close>

definition merge_base :: "string \<Rightarrow> float64 list \<Rightarrow> float64 list fallible" where
  "merge_base deltaStr deployUsages =
     (if deltaStr = '''' then Inr (replicate (length deployUsages) f_zero)
      else
        (case ParseRangeMetricsByString deltaStr of
           Inl err \<Rightarrow> Inl (Wrap (''parse node delta range metrics '' @ deltaStr @ '' failed: '') err)
         | Inr deltaUsages \<Rightarrow>
             if length deltaUsages > length deployUsages then
               Inl (Plain (''delta usages length '' @ itoa (int (length deltaUsages)) @
                 '' more than the deployment usages length '' @ itoa (int (length deployUsages))))
             else if length deltaUsages = length deployUsages then Inr deltaUsages
             else Inr (replicate (length deployUsages) f_zero)))"

definition MergeUsageRange :: "string \<Rightarrow> string \<Rightarrow> string \<Rightarrow> string fallible" where
  "MergeUsageRange deltaStr deployStr mergeType =
     (if deltaStr = '''' \<and> mergeType = MergeTypeAdd then Inr deployStr
      else
        (case ParseRangeMetricsByString deployStr of
           Inl err \<Rightarrow> Inl (Wrap (''parse deployment range metrics '' @ deployStr @ '' failed: '') err)
         | Inr deployUsages \<Rightarrow>
            (case merge_base deltaStr deployUsages of
               Inl err \<Rightarrow> Inl err
             | Inr deltaUsages \<Rightarrow>
                 if mergeType = MergeTypeAdd then
                   Inr (render_range (map2 (\<lambda>v u. v + u) deltaUsages deployUsages))
                 else if mergeType = MergeTypeSub then
                   Inr (render_range (map2 (\<lambda>v u. v - u) deltaUsages deployUsages))
                 else Inr '''')))"

section \<open>Annotation patches\<close>

definition quoted :: "string \<Rightarrow> string" where
  "quoted s = CHR 0x22 # s @ [CHR 0x22]"

text \<open>The JSON patch of one operation with a value, and of one without, as the two templates
  print them.\<close>

definition patch_with_value :: "string \<Rightarrow> string \<Rightarrow> string \<Rightarrow> string" where
  "patch_with_value operator key value =
     ''[{'' @ [CHR 0x0A, CHR 0x09, CHR 0x09] @ quoted ''op'' @ '': '' @ quoted operator @ '','' @
     [CHR 0x0A, CHR 0x09, CHR 0x09] @ quoted ''path'' @ '': '' @
     quoted (''/metadata/annotations/'' @ key) @ '','' @
     [CHR 0x0A, CHR 0x09, CHR 0x09] @ quoted ''value'' @ '': '' @ quoted value @
     [CHR 0x0A, CHR 0x09] @ ''}]''"

definition patch_without_value :: "string \<Rightarrow> string \<Rightarrow> string" where
  "patch_without_value operator key =
     ''[{'' @ [CHR 0x0A, CHR 0x09, CHR 0x09] @ quoted ''op'' @ '': '' @ quoted operator @ '','' @
     [CHR 0x0A, CHR 0x09, CHR 0x09] @ quoted ''path'' @ '': '' @
     quoted (''/metadata/annotations/'' @ key) @
     [CHR 0x0A, CHR 0x09] @ ''}]''"

definition patch_operator :: "annotations \<Rightarrow> string \<Rightarrow> string" where
  "patch_operator anno key = (if anno_get anno key \<noteq> None then ''replace'' else ''add'')"

definition send_patch :: "client \<Rightarrow> patch_request \<Rightarrow> patch_request list \<times> go_error option" where
  "send_patch client req =
     ([req], map_option (Wrap ''patch node failed: '') (client req))"

definition PatchNodeAnnotation ::
  "sys \<Rightarrow> client \<Rightarrow> Node \<Rightarrow> string \<Rightarrow> string \<Rightarrow> go_error option handled" where
  "PatchNodeAnnotation sys client node key value =
     obind (GetLocalTime sys) (\<lambda>time.
       Ok (send_patch client
         \<lparr>patch_target = PatchNode (node_Name node), patch_kind = JSONPatchType,
          patch_data = patch_with_value (patch_operator (node_Annotations node) key) key
            (value @ '','' @ time)\<rparr>))"

definition DeleteNodeAnnotation ::
  "client \<Rightarrow> Node \<Rightarrow> string \<Rightarrow> patch_request list \<times> go_error option" where
  "DeleteNodeAnnotation client node key =
     send_patch client
       \<lparr>patch_target = PatchNode (node_Name node), patch_kind = JSONPatchType,
        patch_data = patch_without_value ''remove'' key\<rparr>"

section \<open>Freshness of a timestamp\<close>

lemma InActivePeriod_written:
  assumes "GetLocation sys = Some loc" "stable_at loc t" "four_digit_year loc t"
  shows "InActivePeriod sys (format_time loc t) d = Ok (sys_now sys < time_unix t * second + d)"
  using length_format_time [of loc t] assms
  by (simp add: InActivePeriod_def parse_format_time time_before_def time_add_def)

lemma InActivePeriod_returns: "GetLocation sys \<noteq> None \<Longrightarrow> \<exists>b. InActivePeriod sys s d = Ok b"
  by (auto simp: InActivePeriod_def parse_in_location_def split: option.splits prod.splits)

lemma InActivePeriod_no_location:
  "GetLocation sys = None \<Longrightarrow>
   InActivePeriod sys s d =
     (if length s < MinTimestampStrLength \<or> parse_wall s = None then Ok False else Panic MissingLocation)"
  by (auto simp: InActivePeriod_def parse_in_location_def split: option.splits)

text \<open>A timestamp that is in its active period stays so at every earlier clock reading and for
  every longer period.\<close>

lemma InActivePeriod_mono:
  assumes "InActivePeriod sys s d = Ok True" "now' \<le> sys_now sys" "d \<le> d'"
  shows "InActivePeriod (sys\<lparr>sys_now := now'\<rparr>) s d' = Ok True"
proof -
  have "GetLocation (sys\<lparr>sys_now := now'\<rparr>) = GetLocation sys"
    by (simp add: GetLocation_def load_location_def Let_def)
  then show ?thesis
    using assms
    by (auto simp: InActivePeriod_def time_before_def time_add_def go_simps split: if_splits option.splits)
qed

section \<open>Readers of annotations\<close>

text \<open>What \<open>PatchNodeAnnotation\<close> stores under a key.\<close>

definition stamped :: "location \<Rightarrow> string \<Rightarrow> instant \<Rightarrow> string" where
  "stamped loc value t = value @ '','' @ format_time loc t"

text \<open>The contract the readers share: a missing key, an expired timestamp, and the payload of a
  well-formed value.\<close>

locale annotation_reader =
  fixes read :: "sys \<Rightarrow> annotations \<Rightarrow> string \<Rightarrow> duration \<Rightarrow> 'a fallible outcome"
    and missing :: "'a fallible"
    and payload :: "string \<Rightarrow> string \<Rightarrow> 'a fallible"
  assumes read_missing: "anno_get anno key = None \<Longrightarrow> read sys anno key d = Ok missing"
    and read_malformed: "anno_get anno key = Some s \<Longrightarrow> length (go_split CHR '','' s) \<noteq> 2 \<Longrightarrow>
      read sys anno key d = Ok (Inl (Plain (''illegel value: '' @ s)))"
    and read_pair: "anno_get anno key = Some s \<Longrightarrow> go_split CHR '','' s = [v, ts] \<Longrightarrow>
      read sys anno key d =
        obind (InActivePeriod sys ts d) (\<lambda>active.
          Ok (if active then payload s v else Inl (Plain (''timestamp['' @ s @ ''] is expired''))))"
begin

lemma read_stamped:
  assumes "anno_get anno key = Some (stamped loc v t)" "CHR '','' \<notin> set v"
    and "GetLocation sys = Some loc" "stable_at loc t" "four_digit_year loc t"
  shows "read sys anno key d =
    Ok (if sys_now sys < time_unix t * second + d then payload (stamped loc v t) v
        else Inl (Plain (''timestamp['' @ stamped loc v t @ ''] is expired'')))"
proof -
  have "go_split CHR '','' (stamped loc v t) = [v, format_time loc t]"
    unfolding stamped_def using go_split_pair [OF assms(2) format_time_chars(1)] by simp
  then show ?thesis
    using read_pair [OF assms(1)] InActivePeriod_written [OF assms(3-5)] by simp
qed

lemma read_Inr:
  assumes "read sys anno key d = Ok (Inr x)" "missing = Inl err"
  obtains s v ts where "anno_get anno key = Some s" "go_split CHR '','' s = [v, ts]"
    "InActivePeriod sys ts d = Ok True" "payload s v = Inr x"
proof (cases "anno_get anno key")
  case None
  then show ?thesis using assms read_missing [OF None] by simp
next
  case (Some s)
  show ?thesis
  proof (cases "length (go_split CHR '','' s) = 2")
    case False
    then show ?thesis using assms read_malformed [OF Some False] by simp
  next
    case True
    then obtain v ts where "go_split CHR '','' s = [v, ts]"
      by (auto simp: numeral_2_eq_2 length_Suc_conv)
    then show ?thesis
      using assms read_pair [OF Some] Some that by (auto simp: go_simps split: if_splits)
  qed
qed

lemma read_returns:
  assumes "GetLocation sys \<noteq> None"
  shows "\<exists>r. read sys anno key d = Ok r"
proof (cases "anno_get anno key")
  case (Some s)
  show ?thesis
  proof (cases "length (go_split CHR '','' s) = 2")
    case True
    then obtain v ts where "go_split CHR '','' s = [v, ts]"
      by (auto simp: numeral_2_eq_2 length_Suc_conv)
    then show ?thesis
      using read_pair [OF Some] InActivePeriod_returns [OF assms] by (metis obind.simps(1))
  qed (use read_malformed [OF Some] in blast)
qed (use read_missing in blast)

end

text \<open>The payload of a usage annotation.\<close>

definition usage_payload :: "string \<Rightarrow> string \<Rightarrow> float64 fallible" where
  "usage_payload s v =
     (case parse_float64 v of
        None \<Rightarrow> Inl (Plain (''failed to parse float['' @ v @ '']''))
      | Some x \<Rightarrow> if x < f_zero then Inl (Plain (''illegel value: '' @ s)) else Inr x)"

interpretation usage: annotation_reader GetResourceUsage "Inl (Plain ''key[] not found'')" usage_payload
  by unfold_locales
    (auto simp: GetResourceUsage_def usage_payload_def Let_def intro!: arg_cong2 [where f = obind]
      split: option.splits)

interpretation usage_range: annotation_reader GetResourceUsageRange "Inr ''''" "\<lambda>s v. Inr v"
  by unfold_locales
    (auto simp: GetResourceUsageRange_def Let_def intro!: arg_cong2 [where f = obind])

lemma GetDeltaUsageRange_stamped:
  assumes "anno_get anno key = Some (stamped loc v t)" "CHR '','' \<notin> set v"
  shows "GetDeltaUsageRange anno key = Inr v"
proof -
  have "go_split CHR '','' (stamped loc v t) = [v, format_time loc t]"
    unfolding stamped_def using go_split_pair [OF assms(2) format_time_chars(1)] by simp
  then show ?thesis using assms(1) by (simp add: GetDeltaUsageRange_def)
qed

lemma usage_nonneg: "GetResourceUsage sys anno key d = Ok (Inr x) \<Longrightarrow> \<not> x < f_zero"
  by (erule usage.read_Inr) (auto simp: usage_payload_def split: option.splits if_splits)

section \<open>Active durations\<close>

lemma GetActiveDuration_find:
  "GetActiveDuration ps name =
     (case find (\<lambda>p. sync_Name p = name \<and> sync_Period p \<noteq> 0) ps of
        None \<Rightarrow> Inl (Plain ''failed to get the active duration'')
      | Some p \<Rightarrow> Inr (wrap64 (sync_Period p + ExtraActivePeriod)))"
  by (induction ps) auto

section \<open>Ranges of usages\<close>

lemma parse_all_map:
  "(\<And>x. x \<in> set xs \<Longrightarrow> parse_float64 (f x) = Some (g x)) \<Longrightarrow> parse_all (map f xs) = Inr (map g xs)"
  by (induction xs) simp_all

lemma parse_all_Inr_length: "parse_all vs = Inr xs \<Longrightarrow> length xs = length vs"
  by (induction vs arbitrary: xs) (auto split: option.splits sum.splits)

lemma ParseRange_not_Nil: "ParseRangeMetricsByString s = Inr xs \<Longrightarrow> xs \<noteq> []"
  using parse_all_Inr_length [of "go_split CHR ''|'' s" xs] by (auto simp: ParseRangeMetricsByString_def)

lemma format_float5_no_sep:
  "is_float64 x \<Longrightarrow> CHR ''|'' \<notin> set (format_float5 x) \<and> CHR '','' \<notin> set (format_float5 x) \<and>
     CHR 0x22 \<notin> set (format_float5 x)"
  using format_float5_chars [of x] by auto

lemma go_join_chars: "c \<in> set (go_join s xs) \<Longrightarrow> c = s \<or> (\<exists>x \<in> set xs. c \<in> set x)"
  by (induction s xs rule: go_join.induct) auto

lemma render_range_no_comma:
  "\<forall>x \<in> set xs. is_float64 x \<Longrightarrow>
     CHR '','' \<notin> set (render_range xs) \<and> CHR 0x22 \<notin> set (render_range xs)"
  by (auto simp: render_range_def dest!: go_join_chars format_float5_no_sep)

lemma ParseRange_render:
  assumes "xs \<noteq> []" "\<forall>x \<in> set xs. is_float64 x"
  shows "ParseRangeMetricsByString (render_range xs) = Inr (map round5 xs)"
proof -
  have "go_split CHR ''|'' (render_range xs) = map format_float5 xs"
    unfolding render_range_def using assms by (intro go_split_join) (auto dest: format_float5_no_sep)
  then show ?thesis
    unfolding ParseRangeMetricsByString_def using assms parse_format_float5
    by (simp add: parse_all_map)
qed

lemma merge_base_length: "merge_base s us = Inr ds \<Longrightarrow> length ds = length us"
  by (auto simp: merge_base_def split: if_splits sum.splits)

section \<open>Deployments of pods\<close>

lemma deployment_of_owners_Inr:
  "deployment_of_owners get_deploy ns rs = Some (Inr d) \<Longrightarrow>
   \<exists>r \<in> set rs. ref_Kind r = ''Deployment'' \<and> get_deploy ns (ref_Name r) = Inr d"
  by (induction rs) (auto split: if_splits sum.splits)

lemma GetDeploymentByPod_Inr:
  assumes "GetDeploymentByPod get_rs get_deploy pod = Inr d"
  shows "\<exists>r \<in> set (pod_OwnerReferences pod). ref_Kind r = ''ReplicaSet'' \<and>
    (\<exists>s. get_rs (pod_Namespace pod) (ref_Name r) = Inr s \<and>
      (\<exists>q \<in> set (rs_OwnerReferences s). ref_Kind q = ''Deployment'' \<and>
         get_deploy (pod_Namespace pod) (ref_Name q) = Inr d))"
proof -
  have "deployment_of_pod_owners get_rs get_deploy ns name rs = Inr d \<Longrightarrow>
    \<exists>r \<in> set rs. ref_Kind r = ''ReplicaSet'' \<and> (\<exists>s. get_rs ns (ref_Name r) = Inr s \<and>
      (\<exists>q \<in> set (rs_OwnerReferences s). ref_Kind q = ''Deployment'' \<and> get_deploy ns (ref_Name q) = Inr d))"
    for ns name rs
    by (induction rs) (auto dest!: deployment_of_owners_Inr split: if_splits sum.splits option.splits)
  then show ?thesis using assms unfolding GetDeploymentByPod_def by blast
qed

lemma owned_by_kind_iff: "owned_by_kind kind rs \<longleftrightarrow> kind \<in> ref_Kind ` set rs"
  by (induction rs) auto

section \<open>Patches\<close>

text \<open>The text of a patch determines the operator, the key and the value, when none of them
  contains a quote.\<close>

lemma quoted_append_eq:
  "CHR 0x22 \<notin> set a \<Longrightarrow> CHR 0x22 \<notin> set b \<Longrightarrow> quoted a @ s = quoted b @ t \<longleftrightarrow> a = b \<and> s = t"
  unfolding quoted_def by (simp add: append_eq_append_conv2) (auto simp: Cons_eq_append_conv append_eq_Cons_conv)

lemma quoted_eq [simp]: "quoted a = quoted b \<longleftrightarrow> a = b"
  by (simp add: quoted_def)

lemma patch_with_value_inj:
  assumes "CHR 0x22 \<notin> set op \<union> set k \<union> set v" "CHR 0x22 \<notin> set op' \<union> set k' \<union> set v'"
  shows "patch_with_value op k v = patch_with_value op' k' v' \<longleftrightarrow> op = op' \<and> k = k' \<and> v = v'"
  using assms unfolding patch_with_value_def by (simp add: quoted_append_eq)

lemma PatchNodeAnnotation_request:
  assumes "GetLocation sys = Some loc"
  shows "PatchNodeAnnotation sys client node key value =
    Ok (send_patch client
      \<lparr>patch_target = PatchNode (node_Name node), patch_kind = JSONPatchType,
       patch_data = patch_with_value (patch_operator (node_Annotations node) key) key
         (stamped loc value (sys_now sys))\<rparr>)"
  using assms by (simp add: PatchNodeAnnotation_def GetLocalTime_def stamped_def)

lemma PatchNodeAnnotation_no_location:
  "GetLocation sys = None \<Longrightarrow> PatchNodeAnnotation sys client node key value = Panic MissingLocation"
  by (simp add: PatchNodeAnnotation_def GetLocalTime_def)

section \<open>A process in UTC, for examples\<close>

definition example_sys :: "instant \<Rightarrow> sys" where
  "example_sys now =
     \<lparr>sys_getenv = (\<lambda>_. ''UTC''), sys_zoneinfo = (\<lambda>_. None), sys_local = fixed_location 0, sys_now = now\<rparr>"

lemma example_location: "GetLocation (example_sys now) = Some (fixed_location 0)"
  by (simp add: GetLocation_def example_sys_def load_location_def)

lemma example_range_read:
  assumes "CHR '','' \<notin> set v" "100 * second < d"
  shows "GetResourceUsageRange (example_sys (100 * second)) (Some [(key, v @ '',1970-01-01T00:00:00Z'')]) key d = Ok (Inr v)"
    "GetDeltaUsageRange (Some [(key, v @ '',1970-01-01T00:00:00Z'')]) key = Inr v"
proof -
  have "format_time (fixed_location 0) 0 = ''1970-01-01T00:00:00Z''" by code_simp
  then have s: "anno_get (Some [(key, v @ '',1970-01-01T00:00:00Z'')]) key = Some (stamped (fixed_location 0) v 0)"
    by (simp add: stamped_def anno_get_def anno_entries_def)
  have "year_yday unix_days = (1970, 0)" by code_simp
  then have y: "four_digit_year (fixed_location 0) 0"
    by (simp add: four_digit_year_def wall_seconds_def fixed_location_def time_unix_def)
  have "stable_at (fixed_location 0) 0" by (rule stable_at_fixed) (simp add: time_unix_def)
  from usage_range.read_stamped [OF s assms(1) example_location this y, of "100 * second" d]
  show "GetResourceUsageRange (example_sys (100 * second)) (Some [(key, v @ '',1970-01-01T00:00:00Z'')]) key d = Ok (Inr v)"
    using assms(2) by (simp add: example_sys_def time_unix_def)
  show "GetDeltaUsageRange (Some [(key, v @ '',1970-01-01T00:00:00Z'')]) key = Inr v"
    by (rule GetDeltaUsageRange_stamped [OF s assms(1)])
qed

section \<open>Merging ranges is exact decimal arithmetic\<close>

text \<open>A number of five decimals, \<open>n / 100000\<close>, as it is printed and as a float, and a range of them.\<close>

definition show_dec5 :: "int \<Rightarrow> string" where
  "show_dec5 n = (if n < 0 then ''-'' else '''') @ show_fixed5 \<bar>n\<bar>"

definition dec5 :: "int \<Rightarrow> float64" where
  "dec5 n = fl (of_int n / 100000)"

definition decimal_range :: "int list \<Rightarrow> string" where
  "decimal_range ns = go_join CHR ''|'' (map show_dec5 ns)"

lemma dec5_error:
  assumes "\<bar>n\<bar> \<le> 2 ^ 41"
  shows "\<bar>of_int n / 100000 :: rat\<bar> < 2 powi 25" "\<bar>round64 (of_int n / 100000) - of_int n / 100000\<bar> \<le> 2 powi (- 29)"
proof -
  have "\<bar>rat_of_int n\<bar> \<le> 2 ^ 41" using assms by (metis of_int_abs of_int_le_iff of_int_numeral of_int_power)
  then show b: "\<bar>of_int n / 100000 :: rat\<bar> < 2 powi 25" by (simp add: power_int_def)
  from round64_error [OF b] show "\<bar>round64 (of_int n / 100000) - of_int n / 100000\<bar> \<le> 2 powi (- 29)" by simp
qed

lemma dec5_props:
  assumes "\<bar>n\<bar> \<le> 2 ^ 41"
  shows "finite64 (dec5 n)" "is_float64 (dec5 n)" "val (dec5 n) = round64 (of_int n / 100000)"
    "\<bar>val (dec5 n) - of_int n / 100000\<bar> \<le> 2 powi (- 29)" "\<bar>val (dec5 n)\<bar> \<le> 2 powi 25"
proof -
  have le: "\<bar>of_int n / 100000 :: rat\<bar> \<le> 2 powi 25" using dec5_error(1) [OF assms] by simp
  have f: "\<bar>round64 (of_int n / 100000)\<bar> < max_mag" by (rule finite_if_le [OF le]) simp_all
  show "finite64 (dec5 n)" "is_float64 (dec5 n)" and v: "val (dec5 n) = round64 (of_int n / 100000)"
    using f by (simp_all add: dec5_def finite_fl is_float64_fl val_fl)
  show "\<bar>val (dec5 n) - of_int n / 100000\<bar> \<le> 2 powi (- 29)" unfolding v by (rule dec5_error(2) [OF assms])
  show "\<bar>val (dec5 n)\<bar> \<le> 2 powi 25"
    unfolding v by (rule r64.rnd_abs_le [OF round64_exact_powi le]) simp
qed

lemma round_even_near:
  assumes "\<bar>x - of_int n\<bar> < 1 / 2" shows "round_even x = n"
proof (cases "of_int n \<le> x")
  case True
  then have "\<lfloor>x\<rfloor> = n" using assms by (intro floor_unique) auto
  then show ?thesis using assms True by (simp add: round_even_def Let_def)
next
  case False
  then have "\<lfloor>x\<rfloor> = n - 1" using assms by (intro floor_unique) auto
  then show ?thesis using assms False by (simp add: round_even_def Let_def)
qed

text \<open>A finite float close enough to a number of five decimals is printed as it.\<close>

lemma format_near:
  assumes "is_float64 x" "finite64 x" "\<bar>val x - of_int n / 100000\<bar> < 1 / 200000" "n = 0 \<Longrightarrow> x = f_zero"
  shows "format_float5 x = show_dec5 n"
proof (cases "n = 0")
  case True
  have "round_even (0 :: rat) = 0" using round_even_of_int [of 0] by simp
  then show ?thesis using assms(4) True by (simp add: show_dec5_def)
next
  case False
  obtain s q where x: "x = Fin s q" using assms(2) by (cases x) auto
  have q: "0 \<le> q" using assms(1) x by simp
  have near: "\<bar>val x * 100000 - of_int n\<bar> < 1 / 2"
  proof -
    have "val x * 100000 - of_int n = (val x - of_int n / 100000) * 100000" by (simp add: field_simps)
    then have "\<bar>val x * 100000 - of_int n\<bar> = \<bar>val x - of_int n / 100000\<bar> * 100000"
      by (metis abs_mult abs_numeral)
    then show ?thesis using assms(3) by simp
  qed
  show ?thesis
  proof (cases "n < 0")
    case True
    then have "rat_of_int n \<le> - 1" by simp
    then have "s" using near x q by (cases s) auto
    then have "\<bar>q * 100000 - of_int (- n)\<bar> < 1 / 2" using near x by (simp add: abs_minus_commute add.commute)
    then have "round_even (q * 100000) = - n" by (rule round_even_near)
    then show ?thesis using x \<open>s\<close> True by (simp add: show_dec5_def)
  next
    case nn: False
    then have "1 \<le> rat_of_int n" using False by simp
    then have "\<not> s" using near x q by (cases s) auto
    then have "\<bar>q * 100000 - of_int n\<bar> < 1 / 2" using near x by simp
    then have "round_even (q * 100000) = n" by (rule round_even_near)
    then show ?thesis using x \<open>\<not> s\<close> nn by (simp add: show_dec5_def)
  qed
qed

lemma fl_zero: "fl 0 = f_zero"
  by (simp add: fl_def fl_mag_def round_mag_def max_mag_def)

lemma dec5_zero [simp]: "dec5 0 = f_zero"
  by (simp add: dec5_def fl_zero)

lemma small_powi: "(2 :: rat) powi (- 29) = 1 / 536870912" "(2 :: rat) powi (- 27) = 1 / 134217728"
  by (simp_all add: power_int_def power_one_over)

lemma dec5_nonzero:
  assumes "\<bar>n\<bar> \<le> 2 ^ 41" "n \<noteq> 0" shows "val (dec5 n) \<noteq> 0"
proof
  assume "val (dec5 n) = 0"
  then have "\<bar>rat_of_int n / 100000\<bar> \<le> 1 / 536870912"
    using dec5_props(4) [OF assms(1)] unfolding small_powi by simp
  moreover have "1 \<le> \<bar>rat_of_int n\<bar>" using assms(2) by (cases "0 < n") auto
  ultimately show False by linarith
qed

lemma near_decimal: "\<bar>a - x\<bar> \<le> 2 powi (- 29) \<Longrightarrow> \<bar>b - y\<bar> \<le> 2 powi (- 29) \<Longrightarrow>
    \<bar>r - (a + b)\<bar> \<le> 2 powi (- 27) \<Longrightarrow> \<bar>r - (x + y)\<bar> < (1 / 200000 :: rat)"
  unfolding small_powi by linarith

lemma format_add:
  assumes "\<bar>n\<bar> \<le> 2 ^ 41" "\<bar>k\<bar> \<le> 2 ^ 41"
  shows "format_float5 (dec5 n + dec5 k) = show_dec5 (n + k)"
proof -
  note a = dec5_props [OF assms(1)] and b = dec5_props [OF assms(2)]
  have p: "(2 :: rat) powi 25 = 33554432" "(2 :: rat) powi 27 = 134217728" by (simp_all add: power_int_def)
  have le: "\<bar>val (dec5 n) + val (dec5 k)\<bar> < 2 powi 27" using a(5) b(5) unfolding p by linarith
  have f: "finite64 (dec5 n + dec5 k)"
    using a(1) b(1) finite_if_le [OF less_imp_le [OF le]] by (simp add: finite_add)
  have v: "val (dec5 n + dec5 k) = round64 (val (dec5 n) + val (dec5 k))" by (rule val_add [OF a(1) b(1) f])
  have e: "\<bar>val (dec5 n + dec5 k) - (val (dec5 n) + val (dec5 k))\<bar> \<le> 2 powi (- 27)"
    unfolding v using round64_error [OF le] by simp
  show ?thesis
  proof (rule format_near [OF is_float64_add [OF a(2) b(2)] f])
    show "\<bar>val (dec5 n + dec5 k) - of_int (n + k) / 100000\<bar> < 1 / 200000"
      using near_decimal [OF a(4) b(4) e] by (simp add: add_divide_distrib)
    assume z: "n + k = 0"
    show "dec5 n + dec5 k = f_zero"
    proof (cases "n = 0")
      case True
      then show ?thesis using z by (simp add: plus_float64_def)
    next
      case False
      have "round64 (- (rat_of_int n / 100000)) = - round64 (of_int n / 100000)" by (rule r64.rnd_minus)
      moreover have k: "k = - n" using z by simp
      ultimately have s: "val (dec5 n) + val (dec5 k) = 0" unfolding a(3) b(3) by simp
      show ?thesis
        using s dec5_nonzero [OF assms(1) False] a(1) b(1) by (cases "dec5 n"; cases "dec5 k") (auto simp: plus_float64_def fl_zero split: if_splits)
    qed
  qed
qed

text \<open>Negating a float of five decimals, and so subtracting one.\<close>

lemma f_sub_neg:
  assumes "\<bar>n\<bar> \<le> 2 ^ 41" "\<bar>k\<bar> \<le> 2 ^ 41" "k \<noteq> 0"
  shows "dec5 n - dec5 k = dec5 n + dec5 (- k)"
proof -
  have "f_neg (dec5 k) = dec5 (- k)"
    using assms(3) by (auto simp: dec5_def fl_def fl_mag_def Let_def divide_less_0_iff)
  then show ?thesis by (simp add: minus_float64_def plus_float64_def)
qed

lemma format_sub:
  assumes "\<bar>n\<bar> \<le> 2 ^ 41" "\<bar>k\<bar> \<le> 2 ^ 41"
  shows "format_float5 (dec5 n - dec5 k) = show_dec5 (n - k)"
proof (cases "k = 0")
  case True
  have "dec5 n - f_zero = dec5 n + f_zero"
  proof (cases "n = 0")
    case False
    then show ?thesis
      using dec5_props(1) [OF assms(1)] dec5_nonzero [OF assms(1) False]
      by (cases "dec5 n") (auto simp: minus_float64_def plus_float64_def)
  qed (simp add: minus_float64_def plus_float64_def)
  then show ?thesis using format_add [OF assms(1), of 0] True by simp
next
  case False
  then show ?thesis using f_sub_neg [OF assms False] format_add [OF assms(1), of "- k"] assms(2) by simp
qed

lemma show_dec5_no_bar: "CHR ''|'' \<notin> set (show_dec5 n)"
  by (auto simp: show_dec5_def dest: show_fixed5_chars [rotated])

lemma parse_dec5:
  assumes "\<bar>n\<bar> \<le> 2 ^ 41" shows "parse_float64 (show_dec5 n) = Some (dec5 n)"
proof -
  have "fl_mag (n < 0) (of_int \<bar>n\<bar> / 100000) = dec5 n"
    by (simp add: dec5_def fl_def divide_less_0_iff abs_divide)
  then show ?thesis
    using parse_fixed5 [of "\<bar>n\<bar>" "n < 0"] dec5_props(1) [OF assms] by (simp add: show_dec5_def Let_def)
qed

lemma parse_decimal_range:
  assumes "ns \<noteq> []" "\<forall>n \<in> set ns. \<bar>n\<bar> \<le> 2 ^ 41"
  shows "ParseRangeMetricsByString (decimal_range ns) = Inr (map dec5 ns)"
proof -
  have "go_split CHR ''|'' (decimal_range ns) = map show_dec5 ns"
    unfolding decimal_range_def using assms(1) show_dec5_no_bar by (intro go_split_join) auto
  then show ?thesis using assms(2) parse_dec5 by (simp add: ParseRangeMetricsByString_def parse_all_map)
qed

lemma decimal_range_not_Nil: "ns \<noteq> [] \<Longrightarrow> decimal_range ns \<noteq> ''''"
  using parse_dec5 [of 0] by (cases ns rule: list.exhaust; cases "tl ns") (auto simp: decimal_range_def show_dec5_def show_fixed5_def)

lemma merge_decimal:
  assumes "ns \<noteq> []" "length ns = length ks" "\<forall>n \<in> set ns. \<bar>n\<bar> \<le> 2 ^ 41" "\<forall>n \<in> set ks. \<bar>n\<bar> \<le> 2 ^ 41"
  shows "MergeUsageRange (decimal_range ns) (decimal_range ks) MergeTypeAdd = Inr (decimal_range (map2 (+) ns ks))"
    "MergeUsageRange (decimal_range ns) (decimal_range ks) MergeTypeSub = Inr (decimal_range (map2 (-) ns ks))"
proof -
  have ks: "ks \<noteq> []" using assms(1,2) by auto
  note p = parse_decimal_range [OF assms(1,3)] parse_decimal_range [OF ks assms(4)] decimal_range_not_Nil [OF assms(1)]
  have "map format_float5 (map2 (\<lambda>v u. v + u) (map dec5 ns) (map dec5 ks)) = map show_dec5 (map2 (+) ns ks)"
    "map format_float5 (map2 (\<lambda>v u. v - u) (map dec5 ns) (map dec5 ks)) = map show_dec5 (map2 (-) ns ks)"
    using assms(2-4) by (induction ns ks rule: list_induct2) (simp_all add: format_add format_sub)
  then show "MergeUsageRange (decimal_range ns) (decimal_range ks) MergeTypeAdd = Inr (decimal_range (map2 (+) ns ks))"
    "MergeUsageRange (decimal_range ns) (decimal_range ks) MergeTypeSub = Inr (decimal_range (map2 (-) ns ks))"
    using p assms(2) by (simp_all add: MergeUsageRange_def merge_base_def render_range_def decimal_range_def)
qed

text \<open>C17. Merging usage ranges is exact on the printed numbers: for ranges of the same length, given with five
  decimals and below twenty million, adding a deployment's range to a node's delta gives the exact decimal sums
  although the code computes with floats, and subtracting the same range again gives back the delta, character by
  character.\<close>

theorem merge_usage_exact:
  assumes "ns \<noteq> []" "length ns = length ks" "\<forall>n \<in> set ns. \<bar>n\<bar> \<le> 2 ^ 40" "\<forall>n \<in> set ks. \<bar>n\<bar> \<le> 2 ^ 40"
  shows "MergeUsageRange (decimal_range ns) (decimal_range ks) MergeTypeAdd = Inr (decimal_range (map2 (+) ns ks)) \<and>
    MergeUsageRange (decimal_range (map2 (+) ns ks)) (decimal_range ks) MergeTypeSub = Inr (decimal_range ns)"
proof -
  have b: "\<forall>n \<in> set ns. \<bar>n\<bar> \<le> 2 ^ 41" "\<forall>n \<in> set ks. \<bar>n\<bar> \<le> 2 ^ 41" using assms(3,4) by fastforce+
  have "\<bar>n + k\<bar> \<le> 2 ^ 41" if "(n, k) \<in> set (zip ns ks)" for n k
  proof -
    have "\<bar>n\<bar> \<le> 2 ^ 40" "\<bar>k\<bar> \<le> 2 ^ 40" using that assms(3,4) by (auto dest: set_zip_leftD set_zip_rightD)
    then show ?thesis by simp
  qed
  then have s: "\<forall>n \<in> set (map2 (+) ns ks). \<bar>n\<bar> \<le> 2 ^ 41" by auto
  have ks: "ks \<noteq> []" using assms(1,2) by auto
  have undo: "map2 (-) (map2 (+) ns ks) ks = ns" using assms(2) by (induction ns ks rule: list_induct2) simp_all
  show ?thesis
    using merge_decimal(1) [OF assms(1,2) b] merge_decimal(2) [of "map2 (+) ns ks" ks, OF _ _ s b(2)] assms(1,2) ks undo by auto
qed

theorem merge_usage_exact_witness:
  "MergeUsageRange ''0.10000|1.25000'' ''0.20000|0.75000'' MergeTypeAdd = Inr ''0.30000|2.00000''"
proof -
  have "decimal_range [10000, 125000] = ''0.10000|1.25000''" "decimal_range [20000, 75000] = ''0.20000|0.75000''"
    "decimal_range (map2 (+) [10000, 125000] [20000, 75000]) = ''0.30000|2.00000''"
    by code_simp+
  then show ?thesis using merge_usage_exact [of "[10000, 125000]" "[20000, 75000]"] by simp
qed

end
