(* ===== verification/Binding_Records.thy ===== *)
theory Binding_Records
  imports Kube_Types Go_Heap
begin

text \<open>
  \<open>pkg/controller/annotator/binding.go\<close>: the bounded log of recent pod bindings, a binary heap
  ordered by timestamp. A read-write mutex makes each operation atomic, so every interleaving of
  callers is a sequence of operations. The locale \<open>binding_log\<close> is the contract the scheduler
  plugin and the annotator rely on; it speaks of the multiset of bindings only.
\<close>

section \<open>Definitions\<close>

record Binding =
  bind_Node :: string
  bind_Namespace :: string
  bind_PodName :: string
  bind_Timestamp :: int

definition Less :: "Binding \<Rightarrow> Binding \<Rightarrow> bool" where
  "Less a b \<longleftrightarrow> bind_Timestamp a < bind_Timestamp b"

text \<open>The other methods that \<open>container/heap\<close> calls, on the slice of the heap. An index out of range panics.\<close>

definition BindingHeap_Len :: "Binding list \<Rightarrow> int" where
  "BindingHeap_Len b = int (length b)"

definition BindingHeap_Swap :: "Binding list \<Rightarrow> int \<Rightarrow> int \<Rightarrow> Binding list outcome" where
  "BindingHeap_Swap b i j =
     (if 0 \<le> i \<and> i < BindingHeap_Len b \<and> 0 \<le> j \<and> j < BindingHeap_Len b
      then Ok (b[nat i := b ! nat j, nat j := b ! nat i]) else Panic IndexOutOfRange)"

definition BindingHeap_Pop :: "Binding list \<Rightarrow> (Binding \<times> Binding list) outcome" where
  "BindingHeap_Pop old =
     (let n = length old in if n = 0 then Panic IndexOutOfRange else Ok (old ! (n - 1), take (n - 1) old))"

definition BindingHeap_Push :: "Binding list \<Rightarrow> Binding \<Rightarrow> Binding list" where
  "BindingHeap_Push b x = b @ [x]"

text \<open>The library's \<open>Push\<close> and \<open>Pop\<close>, written with the methods it is given, are the operations of the model.\<close>

lemma heap_push_methods:
  "heap_push Less x b = (let b' = BindingHeap_Push b x in heap_up Less b' (nat (BindingHeap_Len b' - 1)))"
  by (simp add: heap_push_def BindingHeap_Push_def BindingHeap_Len_def nat_diff_distrib)

lemma heap_pop_methods:
  "heap_pop Less b =
     (let n = BindingHeap_Len b - 1 in
      obind (BindingHeap_Swap b 0 n) (\<lambda>b'. BindingHeap_Pop (heap_down Less b' 0 (nat n))))"
proof (cases "b = []")
  case False
  then have n: "BindingHeap_Len b - 1 = int (length b - 1)" "length b - 1 < length b"
    by (simp_all add: BindingHeap_Len_def of_nat_diff Suc_leI)
  have "BindingHeap_Swap b 0 (int k) = Ok (swap b 0 k)" if "k < length b" for k
    using that by (auto simp: BindingHeap_Swap_def BindingHeap_Len_def swap_def)
  then have "BindingHeap_Swap b 0 (int (length b - 1)) = Ok (swap b 0 (length b - 1))" using n(2) .
  moreover have "length (heap_down Less (swap b 0 (length b - 1)) 0 (length b - 1)) = length b" by simp
  ultimately show ?thesis
    unfolding n(1) Let_def nat_int heap_pop_def BindingHeap_Pop_def using False by (auto simp del: length_heap_down)
qed (simp add: heap_pop_def BindingHeap_Swap_def BindingHeap_Len_def)

record BindingRecords =
  br_size :: int
  br_bindings :: "Binding list"
  br_gcTimeRange :: duration

definition NewBindingRecords :: "int \<Rightarrow> duration \<Rightarrow> BindingRecords" where
  "NewBindingRecords sz tr =
     \<lparr>br_size = sz, br_bindings = heap_init Less [], br_gcTimeRange = tr\<rparr>"

definition AddBinding :: "BindingRecords \<Rightarrow> Binding \<Rightarrow> BindingRecords outcome" where
  "AddBinding br b =
     obind
       (if int (length (br_bindings br)) = br_size br
        then omap snd (heap_pop Less (br_bindings br))
        else Ok (br_bindings br))
       (\<lambda>h. Ok (br\<lparr>br_bindings := heap_push Less b h\<rparr>))"

text \<open>Both readers of the clock subtract a duration from the current second; the subtraction is on
  \<open>int64\<close>.\<close>

definition timeline :: "(float64 \<Rightarrow> int) \<Rightarrow> instant \<Rightarrow> duration \<Rightarrow> int" where
  "timeline cvt now timeRange = wrap64 (time_unix now - whole_seconds cvt timeRange)"

fun count_bindings :: "string \<Rightarrow> int \<Rightarrow> Binding list \<Rightarrow> int \<Rightarrow> int" where
  "count_bindings node since [] cnt = cnt"
| "count_bindings node since (b # bs) cnt =
     count_bindings node since bs
       (if bind_Timestamp b > since \<and> bind_Node b = node then cnt + 1 else cnt)"

definition GetLastNodeBindingCount ::
  "(float64 \<Rightarrow> int) \<Rightarrow> instant \<Rightarrow> BindingRecords \<Rightarrow> string \<Rightarrow> duration \<Rightarrow> int" where
  "GetLastNodeBindingCount cvt now br node timeRange =
     count_bindings node (timeline cvt now timeRange) (br_bindings br) 0"

lemma heap_pop_length: "heap_pop lt h = Ok (x, h') \<Longrightarrow> length h = Suc (length h')"
  by (auto simp: heap_pop_def Let_def split: if_splits)

function gc_loop :: "int \<Rightarrow> Binding list \<Rightarrow> Binding list outcome" where
  "gc_loop since h =
     (if h = [] then Ok h
      else
        (case heap_pop Less h of
           Panic p \<Rightarrow> Panic p
         | Ok (b, h') \<Rightarrow>
             if bind_Timestamp b > since then Ok (heap_push Less b h') else gc_loop since h'))"
  by pat_completeness auto
termination
  by (relation "measure (\<lambda>(since, h). length h)") (auto dest: heap_pop_length)

declare gc_loop.simps [simp del]

definition BindingsGC ::
  "(float64 \<Rightarrow> int) \<Rightarrow> instant \<Rightarrow> BindingRecords \<Rightarrow> BindingRecords outcome" where
  "BindingsGC cvt now br =
     (if br_gcTimeRange br = 0 then Ok br
      else omap (\<lambda>h. br\<lparr>br_bindings := h\<rparr>)
        (gc_loop (timeline cvt now (br_gcTimeRange br)) (br_bindings br)))"

section \<open>The heap order of bindings\<close>

interpretation by_time: heap_order Less
  by unfold_locales (auto simp: Less_def)

section \<open>Invariant\<close>

text \<open>The slice is a heap and holds at most \<open>size\<close> bindings, which is positive.\<close>

definition br_wf :: "BindingRecords \<Rightarrow> bool" where
  "br_wf br \<longleftrightarrow> is_heap Less (br_bindings br) \<and> 0 < br_size br \<and>
     int (length (br_bindings br)) \<le> br_size br"

abbreviation contents :: "BindingRecords \<Rightarrow> Binding multiset" where
  "contents br \<equiv> mset (br_bindings br)"

lemma length_heap_push [simp]: "length (heap_push lt x h) = Suc (length h)"
  by (simp add: heap_push_def)

lemma NewBindingRecords_wf: "0 < sz \<Longrightarrow> br_wf (NewBindingRecords sz tr)"
  using by_time.heap_init_heap [of "[]"] by (simp add: br_wf_def NewBindingRecords_def heap_init_def)

lemma contents_New [simp]: "contents (NewBindingRecords sz tr) = {#}"
  by (simp add: NewBindingRecords_def heap_init_def)

lemma contents_full:
  assumes "br_wf br" "int (length (br_bindings br)) = br_size br"
  shows "contents br \<noteq> {#}"
  using assms by (auto simp: br_wf_def)

text \<open>Adding: the log grows by the new binding, and at capacity first loses a binding than which
  no other is older.\<close>

lemma AddBinding_not_full:
  assumes "br_wf br" "int (length (br_bindings br)) \<noteq> br_size br"
  shows "\<exists>br'. AddBinding br b = Ok br' \<and> br_wf br' \<and> contents br' = add_mset b (contents br) \<and>
    br_size br' = br_size br \<and> br_gcTimeRange br' = br_gcTimeRange br"
  using assms by_time.heap_push_heap [of "br_bindings br" b] by_time.pq.elems_push [of "br_bindings br" b]
  by (simp add: AddBinding_def br_wf_def)

lemma AddBinding_full:
  assumes wf: "br_wf br" and full: "int (length (br_bindings br)) = br_size br"
  shows "\<exists>br' old rest. AddBinding br b = Ok br' \<and> br_wf br' \<and>
    contents br = add_mset old rest \<and> contents br' = add_mset b rest \<and>
    (\<forall>x \<in># rest. bind_Timestamp old \<le> bind_Timestamp x) \<and>
    br_size br' = br_size br \<and> br_gcTimeRange br' = br_gcTimeRange br"
proof -
  have heap: "is_heap Less (br_bindings br)" using wf by (simp add: br_wf_def)
  have "contents br \<noteq> {#}" using contents_full [OF wf full] .
  then obtain old h where pop: "heap_pop Less (br_bindings br) = Ok (old, h)"
    using by_time.pq.pop_returns_iff [OF heap] by (auto simp: returns_iff)
  note h = by_time.pq.pop_OkD [OF heap pop]
  have len: "length (br_bindings br) = Suc (length h)" using heap_pop_length [OF pop] .
  have "AddBinding br b = Ok (br\<lparr>br_bindings := heap_push Less b h\<rparr>)"
    using full pop by (simp add: AddBinding_def)
  moreover have "br_wf (br\<lparr>br_bindings := heap_push Less b h\<rparr>)"
    using wf len h(1) by_time.heap_push_heap by (simp add: br_wf_def)
  moreover have "\<forall>x \<in># mset h. bind_Timestamp old \<le> bind_Timestamp x"
    using h(3) by (auto simp: Less_def not_less)
  ultimately show ?thesis
    using h(1,2) by_time.pq.elems_push [OF h(1)] by (intro exI [of _ "br\<lparr>br_bindings := _\<rparr>"] exI) auto
qed

lemma AddBinding_size_zero:
  "AddBinding (NewBindingRecords 0 tr) b = Panic IndexOutOfRange"
  by (simp add: AddBinding_def NewBindingRecords_def heap_init_def heap_pop_def)

section \<open>Counting\<close>

lemma count_bindings_eq:
  "count_bindings node since bs cnt =
     cnt + int (size {#b \<in># mset bs. since < bind_Timestamp b \<and> bind_Node b = node#})"
  by (induction bs arbitrary: cnt) auto

text \<open>The bindings of a node that are newer than a point in time.\<close>

definition recent :: "string \<Rightarrow> int \<Rightarrow> Binding multiset \<Rightarrow> Binding multiset" where
  "recent node since B = {#b \<in># B. since < bind_Timestamp b \<and> bind_Node b = node#}"

lemma GetLastNodeBindingCount_eq:
  "GetLastNodeBindingCount cvt now br node timeRange =
     int (size (recent node (timeline cvt now timeRange) (contents br)))"
  by (simp add: GetLastNodeBindingCount_def count_bindings_eq recent_def)

section \<open>Recycling\<close>

lemma filter_mset_all: "(\<And>x. x \<in># M \<Longrightarrow> P x) \<Longrightarrow> filter_mset P M = M"
  by (induction M) auto

lemma gc_loop_spec:
  "is_heap Less h \<Longrightarrow>
   \<exists>h'. gc_loop since h = Ok h' \<and> is_heap Less h' \<and> mset h' = {#b \<in># mset h. since < bind_Timestamp b#}"
proof (induction "length h" arbitrary: h rule: less_induct)
  case less
  show ?case
  proof (cases "h = []")
    case True
    then show ?thesis by (simp add: gc_loop.simps heap_from_def)
  next
    case False
    then obtain b g where pop: "heap_pop Less h = Ok (b, g)"
      using by_time.pq.pop_returns_iff [OF less.prems] by (auto simp: returns_iff)
    note g = by_time.pq.pop_OkD [OF less.prems pop]
    show ?thesis
    proof (cases "since < bind_Timestamp b")
      case True
      have "{#x \<in># mset g. since < bind_Timestamp x#} = mset g"
        using g(3) True by (intro filter_mset_all) (force simp: Less_def not_less)
      then show ?thesis
        using False pop True g(1,2) by_time.heap_push_heap [OF g(1)] by_time.pq.elems_push [OF g(1), of b]
        by (subst gc_loop.simps) simp
    next
      case False': False
      have "length g < length h" using heap_pop_length [OF pop] by simp
      from less.hyps [OF this g(1)] show ?thesis
        using False False' pop g(2) by (subst gc_loop.simps) simp
    qed
  qed
qed

lemma BindingsGC_spec:
  assumes "br_wf br" "br_gcTimeRange br \<noteq> 0"
  shows "\<exists>br'. BindingsGC cvt now br = Ok br' \<and> br_wf br' \<and>
    contents br' = {#b \<in># contents br. timeline cvt now (br_gcTimeRange br) < bind_Timestamp b#} \<and>
    br_size br' = br_size br \<and> br_gcTimeRange br' = br_gcTimeRange br"
proof -
  have "is_heap Less (br_bindings br)" using assms by (simp add: br_wf_def)
  from gc_loop_spec [OF this] obtain h where h:
    "gc_loop (timeline cvt now (br_gcTimeRange br)) (br_bindings br) = Ok h" "is_heap Less h"
    "mset h = {#b \<in># contents br. timeline cvt now (br_gcTimeRange br) < bind_Timestamp b#}"
    by blast
  have "size (mset h) \<le> size (contents br)" unfolding h(3) by (rule size_filter_mset_lesseq)
  then have "br_wf (br\<lparr>br_bindings := h\<rparr>)" using assms h(2) by (simp add: br_wf_def)
  then show ?thesis using assms h(1,3) by (simp add: BindingsGC_def)
qed

lemma BindingsGC_disabled: "br_gcTimeRange br = 0 \<Longrightarrow> BindingsGC cvt now br = Ok br"
  by (simp add: BindingsGC_def)

section \<open>Sequences of operations\<close>

datatype log_event = Add Binding | GC instant

fun run_log ::
  "('s \<Rightarrow> Binding \<Rightarrow> 's outcome) \<Rightarrow> (instant \<Rightarrow> 's \<Rightarrow> 's outcome) \<Rightarrow> 's \<Rightarrow> log_event list \<Rightarrow> 's outcome"
where
  "run_log add gc s [] = Ok s"
| "run_log add gc s (Add b # es) = obind (add s b) (\<lambda>s'. run_log add gc s' es)"
| "run_log add gc s (GC now # es) = obind (gc now s) (\<lambda>s'. run_log add gc s' es)"

fun added :: "log_event list \<Rightarrow> Binding list" where
  "added [] = []"
| "added (Add b # es) = b # added es"
| "added (GC now # es) = added es"

fun gc_times :: "log_event list \<Rightarrow> instant list" where
  "gc_times [] = []"
| "gc_times (Add b # es) = gc_times es"
| "gc_times (GC now # es) = now # gc_times es"

text \<open>Instants between 1970 and 2262, which \<open>Time.UnixNano\<close> can represent.\<close>

abbreviation valid_instant :: "instant \<Rightarrow> bool" where
  "valid_instant t \<equiv> 0 \<le> t \<and> t < 2 ^ 63"

section \<open>The contract of the log\<close>

locale binding_log =
  fixes add :: "'s \<Rightarrow> Binding \<Rightarrow> 's outcome"
    and gc :: "instant \<Rightarrow> 's \<Rightarrow> 's outcome"
    and count :: "instant \<Rightarrow> 's \<Rightarrow> string \<Rightarrow> duration \<Rightarrow> int"
    and invar :: "'s \<Rightarrow> bool"
    and bindings :: "'s \<Rightarrow> Binding multiset"
    and capacity :: "'s \<Rightarrow> int"
    and gc_range :: "'s \<Rightarrow> duration"
    and cutoff :: "instant \<Rightarrow> duration \<Rightarrow> int"
  assumes size_le: "invar s \<Longrightarrow> int (size (bindings s)) \<le> capacity s"
    and add_below: "invar s \<Longrightarrow> int (size (bindings s)) \<noteq> capacity s \<Longrightarrow>
      \<exists>s'. add s b = Ok s' \<and> invar s' \<and> bindings s' = add_mset b (bindings s) \<and>
        capacity s' = capacity s \<and> gc_range s' = gc_range s"
    and add_at: "invar s \<Longrightarrow> int (size (bindings s)) = capacity s \<Longrightarrow>
      \<exists>s' old rest. add s b = Ok s' \<and> invar s' \<and> bindings s = add_mset old rest \<and>
        bindings s' = add_mset b rest \<and>
        (\<forall>x \<in># rest. bind_Timestamp old \<le> bind_Timestamp x) \<and>
        capacity s' = capacity s \<and> gc_range s' = gc_range s"
    and gc_off: "gc_range s = 0 \<Longrightarrow> gc now s = Ok s"
    and gc_on: "invar s \<Longrightarrow> gc_range s \<noteq> 0 \<Longrightarrow>
      \<exists>s'. gc now s = Ok s' \<and> invar s' \<and>
        bindings s' = {#b \<in># bindings s. cutoff now (gc_range s) < bind_Timestamp b#} \<and>
        capacity s' = capacity s \<and> gc_range s' = gc_range s"
    and count_eq: "count now s node r = int (size (recent node (cutoff now r) (bindings s)))"
    and cutoff_mono: "valid_instant now \<Longrightarrow> valid_instant now' \<Longrightarrow> now \<le> now' \<Longrightarrow>
      0 \<le> r \<Longrightarrow> r \<le> r' \<Longrightarrow> r' < 2 ^ 63 \<Longrightarrow> cutoff now r' \<le> cutoff now' r"
begin

lemma add_returns:
  assumes "invar s"
  obtains s' where "add s b = Ok s'" "invar s'" "capacity s' = capacity s" "gc_range s' = gc_range s"
    "b \<in># bindings s'" "bindings s' \<subseteq># add_mset b (bindings s)"
proof (cases "int (size (bindings s)) = capacity s")
  case True
  from add_at [OF assms True] obtain s' old rest where s':
    "add s b = Ok s'" "invar s'" "bindings s = add_mset old rest" "bindings s' = add_mset b rest"
    "capacity s' = capacity s" "gc_range s' = gc_range s" by blast
  have "rest \<subseteq># bindings s" using s'(3) by simp
  then show ?thesis using that s' by simp
next
  case False
  from add_below [OF assms False] show ?thesis using that by fastforce
qed

lemma gc_returns:
  assumes "invar s"
  obtains s' where "gc now s = Ok s'" "invar s'" "capacity s' = capacity s" "gc_range s' = gc_range s"
    "bindings s' \<subseteq># bindings s"
    "\<And>node since. gc_range s \<noteq> 0 \<Longrightarrow> cutoff now (gc_range s) \<le> since \<Longrightarrow>
       recent node since (bindings s') = recent node since (bindings s)"
    "gc_range s = 0 \<Longrightarrow> s' = s"
proof (cases "gc_range s = 0")
  case True
  then show ?thesis using that [of s] gc_off assms by simp
next
  case False
  from gc_on [OF assms False] obtain s' where s': "gc now s = Ok s'" "invar s'"
    "bindings s' = {#b \<in># bindings s. cutoff now (gc_range s) < bind_Timestamp b#}"
    "capacity s' = capacity s" "gc_range s' = gc_range s" by blast
  have "recent node since (bindings s') = recent node since (bindings s)"
    if "cutoff now (gc_range s) \<le> since" for node since
    unfolding recent_def s'(3) filter_filter_mset using that by (intro filter_mset_cong) auto
  then show ?thesis using that [of s'] s' False by simp
qed

text \<open>No sequence of operations fails, and the log never exceeds its capacity.\<close>

lemma run_returns:
  "invar s \<Longrightarrow> \<exists>s'. run_log add gc s es = Ok s' \<and> invar s' \<and> capacity s' = capacity s \<and>
     gc_range s' = gc_range s \<and> bindings s' \<subseteq># bindings s + mset (added es)"
proof (induction es arbitrary: s)
  case (Cons e es)
  show ?case
  proof (cases e)
    case (Add b)
    obtain s1 where s1: "add s b = Ok s1" "invar s1" "capacity s1 = capacity s"
      "gc_range s1 = gc_range s" "bindings s1 \<subseteq># add_mset b (bindings s)"
      using add_returns [OF Cons.prems] by metis
    obtain s2 where s2: "run_log add gc s1 es = Ok s2" "invar s2" "capacity s2 = capacity s1"
      "gc_range s2 = gc_range s1" "bindings s2 \<subseteq># bindings s1 + mset (added es)"
      using Cons.IH [OF s1(2)] by blast
    have "bindings s2 \<subseteq># add_mset b (bindings s) + mset (added es)"
      using s2(5) subset_mset.add_right_mono [OF s1(5)] by (rule subset_mset.order_trans)
    then show ?thesis using Add s1 s2 by simp
  next
    case (GC now)
    obtain s1 where s1: "gc now s = Ok s1" "invar s1" "capacity s1 = capacity s"
      "gc_range s1 = gc_range s" "bindings s1 \<subseteq># bindings s"
      using gc_returns [OF Cons.prems] by metis
    obtain s2 where s2: "run_log add gc s1 es = Ok s2" "invar s2" "capacity s2 = capacity s1"
      "gc_range s2 = gc_range s1" "bindings s2 \<subseteq># bindings s1 + mset (added es)"
      using Cons.IH [OF s1(2)] by blast
    have "bindings s2 \<subseteq># bindings s + mset (added es)"
      using s2(5) subset_mset.add_right_mono [OF s1(5)] by (rule subset_mset.order_trans)
    then show ?thesis using GC s1 s2 by simp
  qed
qed simp

text \<open>As long as nothing is evicted, recycling is invisible to a reader who asks for at most the
  recycling range: the log answers like a full history.\<close>

lemma run_recent:
  assumes "invar s" "run_log add gc s es = Ok s'"
    and "int (size (bindings s) + length (added es)) \<le> capacity s"
    and "\<And>t. t \<in> set (gc_times es) \<Longrightarrow> cutoff t (gc_range s) \<le> since"
  shows "recent node since (bindings s') = recent node since (bindings s + mset (added es))"
  using assms
proof (induction es arbitrary: s)
  case (Cons e es)
  show ?case
  proof (cases e)
    case (Add b)
    have "int (size (bindings s)) \<noteq> capacity s" using Cons.prems(3) Add by simp
    from add_below [OF Cons.prems(1) this, of b] obtain s1 where s1: "add s b = Ok s1" "invar s1"
      "bindings s1 = add_mset b (bindings s)" "capacity s1 = capacity s" "gc_range s1 = gc_range s" by blast
    have "recent node since (bindings s') = recent node since (bindings s1 + mset (added es))"
      using Cons.prems Add s1 by (intro Cons.IH) auto
    then show ?thesis using Add s1 by simp
  next
    case (GC now)
    obtain s1 where s1: "gc now s = Ok s1" "invar s1" "capacity s1 = capacity s"
      "gc_range s1 = gc_range s" "bindings s1 \<subseteq># bindings s"
      "\<And>node since. gc_range s \<noteq> 0 \<Longrightarrow> cutoff now (gc_range s) \<le> since \<Longrightarrow>
         recent node since (bindings s1) = recent node since (bindings s)"
      "gc_range s = 0 \<Longrightarrow> s1 = s"
      using gc_returns [OF Cons.prems(1), of now] by metis
    have "size (bindings s1) \<le> size (bindings s)" using s1(5) by (rule size_mset_mono)
    then have "recent node since (bindings s') = recent node since (bindings s1 + mset (added es))"
      using Cons.prems GC s1 by (intro Cons.IH) auto
    moreover have "recent node since (bindings s1) = recent node since (bindings s)"
      using s1(6,7) Cons.prems(4) GC by (cases "gc_range s = 0") auto
    ultimately show ?thesis using GC by (simp add: recent_def)
  qed
qed simp

lemma count_history:
  assumes "invar s" "bindings s = {#}" "run_log add gc s es = Ok s'"
    and "int (length (added es)) \<le> capacity s"
    and "\<And>t. t \<in> set (gc_times es) \<Longrightarrow> valid_instant t \<and> t \<le> now"
    and "valid_instant now" "0 \<le> r" "r \<le> gc_range s" "gc_range s < 2 ^ 63"
  shows "count now s' node r = int (size (recent node (cutoff now r) (mset (added es))))"
proof -
  have "cutoff t (gc_range s) \<le> cutoff now r" if "t \<in> set (gc_times es)" for t
    using assms(5) [OF that] assms(6-9) by (intro cutoff_mono) auto
  then show ?thesis
    using run_recent [OF assms(1,3)] assms(2,4) by (simp add: count_eq)
qed

lemma count_le_capacity:
  assumes "invar s"
  shows "0 \<le> count now s node r" "count now s node r \<le> capacity s"
proof -
  have "size (recent node (cutoff now r) (bindings s)) \<le> size (bindings s)"
    unfolding recent_def by (rule size_filter_mset_lesseq)
  then show "0 \<le> count now s node r" "count now s node r \<le> capacity s"
    using size_le [OF assms] by (simp_all add: count_eq)
qed

end

section \<open>BindingRecords keeps the contract\<close>

lemma time_unix_bounds: "valid_instant t \<Longrightarrow> 0 \<le> time_unix t \<and> time_unix t < 2 ^ 34"
  by (auto simp: time_unix_def)

lemma whole_seconds_bounds:
  assumes "0 \<le> r" "r < 2 ^ 63"
  shows "0 \<le> whole_seconds cvt r \<and> whole_seconds cvt r \<le> 2 ^ 34"
proof -
  have "0 \<le> r div second" "r div second < 2 ^ 34" using assms by simp_all
  then show ?thesis using whole_seconds_trunc(2,3) [OF assms, of cvt] by linarith
qed

lemma timeline_eq:
  assumes "valid_instant now" "0 \<le> r" "r < 2 ^ 63"
  shows "timeline cvt now r = time_unix now - whole_seconds cvt r"
  using time_unix_bounds [OF assms(1)] whole_seconds_bounds [OF assms(2,3), of cvt]
  unfolding timeline_def by (intro wrap64_id) (auto simp: int64_def)

lemma timeline_mono:
  assumes "valid_instant now" "valid_instant now'" "now \<le> now'" "0 \<le> r" "r \<le> r'" "r' < 2 ^ 63"
  shows "timeline cvt now r' \<le> timeline cvt now' r"
proof -
  have "time_unix now \<le> time_unix now'" using assms(3) by (simp add: time_unix_def zdiv_mono1)
  then show ?thesis
    using assms whole_seconds_mono [of r r' cvt] by (simp add: timeline_eq)
qed

interpretation records: binding_log AddBinding "BindingsGC cvt" "GetLastNodeBindingCount cvt"
  br_wf contents br_size br_gcTimeRange "timeline cvt" for cvt
proof unfold_locales
  fix s :: BindingRecords and b now node r
  show "br_wf s \<Longrightarrow> int (size (contents s)) \<le> br_size s" by (simp add: br_wf_def)
  show "br_wf s \<Longrightarrow> int (size (contents s)) \<noteq> br_size s \<Longrightarrow>
      \<exists>s'. AddBinding s b = Ok s' \<and> br_wf s' \<and> contents s' = add_mset b (contents s) \<and>
        br_size s' = br_size s \<and> br_gcTimeRange s' = br_gcTimeRange s"
    using AddBinding_not_full [of s b] by simp
  show "br_wf s \<Longrightarrow> int (size (contents s)) = br_size s \<Longrightarrow>
      \<exists>s' old rest. AddBinding s b = Ok s' \<and> br_wf s' \<and> contents s = add_mset old rest \<and>
        contents s' = add_mset b rest \<and> (\<forall>x \<in># rest. bind_Timestamp old \<le> bind_Timestamp x) \<and>
        br_size s' = br_size s \<and> br_gcTimeRange s' = br_gcTimeRange s"
    using AddBinding_full [of s b] by simp
  show "br_gcTimeRange s = 0 \<Longrightarrow> BindingsGC cvt now s = Ok s" by (rule BindingsGC_disabled)
  show "br_wf s \<Longrightarrow> br_gcTimeRange s \<noteq> 0 \<Longrightarrow>
      \<exists>s'. BindingsGC cvt now s = Ok s' \<and> br_wf s' \<and>
        contents s' = {#b \<in># contents s. timeline cvt now (br_gcTimeRange s) < bind_Timestamp b#} \<and>
        br_size s' = br_size s \<and> br_gcTimeRange s' = br_gcTimeRange s"
    by (rule BindingsGC_spec)
  show "GetLastNodeBindingCount cvt now s node r =
      int (size (recent node (timeline cvt now r) (contents s)))"
    by (rule GetLastNodeBindingCount_eq)
qed (rule timeline_mono)

section \<open>Properties\<close>

text \<open>C11. Whatever sequence of \<open>AddBinding\<close> and \<open>BindingsGC\<close> calls is made on a log created with a
  positive size, no call panics, the slice is a heap ordered by timestamp, and the log never holds more
  than \<open>size\<close> bindings, all of them bindings that were added.\<close>

theorem binding_log_safe:
  assumes "0 < sz"
  shows "\<exists>br. run_log AddBinding (BindingsGC cvt) (NewBindingRecords sz tr) es = Ok br \<and>
    is_heap Less (br_bindings br) \<and> int (length (br_bindings br)) \<le> sz \<and>
    contents br \<subseteq># mset (added es)"
proof -
  have sz: "br_size (NewBindingRecords sz tr) = sz" by (simp add: NewBindingRecords_def)
  show ?thesis
    using records.run_returns [OF NewBindingRecords_wf [OF assms], of cvt tr es]
    by (auto simp: br_wf_def sz)
qed

definition example_binding :: "string \<Rightarrow> int \<Rightarrow> Binding" where
  "example_binding node t =
     \<lparr>bind_Node = node, bind_Namespace = ''default'', bind_PodName = ''web'', bind_Timestamp = t\<rparr>"

theorem binding_log_safe_witness:
  "\<exists>br. run_log AddBinding (BindingsGC (\<lambda>_. 0)) (NewBindingRecords 2 (60 * second))
      [Add (example_binding ''a'' 5), Add (example_binding ''b'' 3), GC (64 * second),
       Add (example_binding ''a'' 9), Add (example_binding ''c'' 7)] = Ok br \<and>
    is_heap Less (br_bindings br) \<and> int (length (br_bindings br)) \<le> 2 \<and>
    contents br \<subseteq># mset (added
      [Add (example_binding ''a'' 5), Add (example_binding ''b'' 3), GC (64 * second),
       Add (example_binding ''a'' 9), Add (example_binding ''c'' 7)])"
  by (rule binding_log_safe) simp

text \<open>C7. \<open>BindingsGC\<close> on a well-formed log keeps exactly the bindings that are younger than the
  recycling range, with their multiplicities, and keeps the log well-formed; with range zero it does
  nothing.\<close>

theorem bindings_gc_exact:
  assumes "br_wf br"
  shows "\<exists>br'. BindingsGC cvt now br = Ok br' \<and> br_wf br' \<and>
    contents br' =
      (if br_gcTimeRange br = 0 then contents br
       else {#b \<in># contents br.
              wrap64 (time_unix now - whole_seconds cvt (br_gcTimeRange br)) < bind_Timestamp b#})"
  using assms BindingsGC_spec [OF assms, of cvt now] BindingsGC_disabled [of br cvt now]
  by (cases "br_gcTimeRange br = 0") (auto simp: timeline_def)

definition example_log :: BindingRecords where
  "example_log =
     \<lparr>br_size = 2, br_bindings = [example_binding ''a'' 5, example_binding ''b'' 100],
      br_gcTimeRange = 60 * second\<rparr>"

lemma example_log_wf: "br_wf example_log"
  by (simp add: br_wf_def example_log_def heap_from_def Less_def example_binding_def less_Suc_eq
      parent_def numeral_2_eq_2)

theorem bindings_gc_exact_witness:
  "\<exists>br'. BindingsGC (\<lambda>_. 0) (70 * second) example_log = Ok br' \<and> br_wf br' \<and>
    contents br' =
      (if br_gcTimeRange example_log = 0 then contents example_log
       else {#b \<in># contents example_log.
              wrap64 (time_unix (70 * second) - whole_seconds (\<lambda>_. 0) (br_gcTimeRange example_log))
                < bind_Timestamp b#})"
  by (rule bindings_gc_exact [OF example_log_wf])

text \<open>\<open>AddBinding\<close> on a well-formed log returns a well-formed log with the new binding. Below
  capacity nothing else changes; at capacity exactly one binding is dropped, and no binding that
  stays is older than it.\<close>

lemma add_binding_evicts_oldest:
  assumes "br_wf br"
  shows "\<exists>br'. AddBinding br b = Ok br' \<and> br_wf br' \<and>
    (if int (length (br_bindings br)) = br_size br
     then \<exists>old. old \<in># contents br \<and> contents br' = add_mset b (contents br - {#old#}) \<and>
       (\<forall>x \<in># contents br - {#old#}. bind_Timestamp old \<le> bind_Timestamp x)
     else contents br' = add_mset b (contents br))"
proof (cases "int (length (br_bindings br)) = br_size br")
  case True
  from AddBinding_full [OF assms True, of b] show ?thesis using True by force
next
  case False
  from AddBinding_not_full [OF assms False, of b] show ?thesis using False by auto
qed

lemma add_binding_evicts_oldest_witness:
  "\<exists>br'. AddBinding example_log (example_binding ''c'' 50) = Ok br' \<and> br_wf br' \<and>
    (if int (length (br_bindings example_log)) = br_size example_log
     then \<exists>old. old \<in># contents example_log \<and>
       contents br' = add_mset (example_binding ''c'' 50) (contents example_log - {#old#}) \<and>
       (\<forall>x \<in># contents example_log - {#old#}. bind_Timestamp old \<le> bind_Timestamp x)
     else contents br' = add_mset (example_binding ''c'' 50) (contents example_log))"
  by (rule add_binding_evicts_oldest [OF example_log_wf])

text \<open>The abstract log: a multiset of bindings. Adding below capacity inserts, adding at capacity
  replaces some binding than which none is older, recycling drops what is not newer than the cut-off
  of the range, and a range of zero recycles nothing.\<close>

inductive log_step ::
  "(instant \<Rightarrow> duration \<Rightarrow> int) \<Rightarrow> int \<Rightarrow> duration \<Rightarrow> log_event \<Rightarrow> Binding multiset \<Rightarrow> Binding multiset \<Rightarrow> bool"
  for cutoff capacity gc_range where
  add_free: "int (size B) < capacity \<Longrightarrow> log_step cutoff capacity gc_range (Add b) B (add_mset b B)"
| add_full: "int (size (add_mset old B)) = capacity \<Longrightarrow>
    \<forall>x \<in># B. bind_Timestamp old \<le> bind_Timestamp x \<Longrightarrow>
    log_step cutoff capacity gc_range (Add b) (add_mset old B) (add_mset b B)"
| recycle: "gc_range \<noteq> 0 \<Longrightarrow>
    log_step cutoff capacity gc_range (GC now) B {#b \<in># B. cutoff now gc_range < bind_Timestamp b#}"
| recycle_off: "gc_range = 0 \<Longrightarrow> log_step cutoff capacity gc_range (GC now) B B"

inductive log_steps ::
  "(instant \<Rightarrow> duration \<Rightarrow> int) \<Rightarrow> int \<Rightarrow> duration \<Rightarrow> log_event list \<Rightarrow> Binding multiset \<Rightarrow> Binding multiset \<Rightarrow> bool"
  for cutoff capacity gc_range where
  stop: "log_steps cutoff capacity gc_range [] B B"
| step: "log_step cutoff capacity gc_range e B B' \<Longrightarrow> log_steps cutoff capacity gc_range es B' B'' \<Longrightarrow>
    log_steps cutoff capacity gc_range (e # es) B B''"

lemma log_step_size: "log_step cutoff capacity gc_range e B B' \<Longrightarrow> int (size B) \<le> capacity \<Longrightarrow> int (size B') \<le> capacity"
proof (induction rule: log_step.induct)
  case (recycle now B)
  then show ?case using size_filter_mset_lesseq [of "\<lambda>b. cutoff now gc_range < bind_Timestamp b" B] by linarith
qed auto

context binding_log
begin

text \<open>Every implementation of the contract refines the abstract log.\<close>

lemma add_refines:
  assumes "invar s" "add s b = Ok s'"
  shows "log_step cutoff (capacity s) (gc_range s) (Add b) (bindings s) (bindings s')"
proof (cases "int (size (bindings s)) = capacity s")
  case True
  from add_at [OF assms(1) True, of b] obtain old rest where
    "bindings s = add_mset old rest" "bindings s' = add_mset b rest"
    "\<forall>x \<in># rest. bind_Timestamp old \<le> bind_Timestamp x" using assms(2) by auto
  then show ?thesis using True by (auto intro: log_step.add_full)
next
  case False
  then have "int (size (bindings s)) < capacity s" using size_le [OF assms(1)] by simp
  moreover have "bindings s' = add_mset b (bindings s)"
    using add_below [OF assms(1) False, of b] assms(2) by auto
  ultimately show ?thesis by (auto intro: log_step.add_free)
qed

lemma gc_refines:
  assumes "invar s" "gc now s = Ok s'"
  shows "log_step cutoff (capacity s) (gc_range s) (GC now) (bindings s) (bindings s')"
proof (cases "gc_range s = 0")
  case True
  then show ?thesis using gc_off [OF True, of now] assms(2) by (auto intro: log_step.recycle_off)
next
  case False
  then show ?thesis
    using gc_on [OF assms(1) False, of now] assms(2) log_step.recycle [OF False, of cutoff "capacity s" now]
    by auto
qed

lemma run_refines:
  "invar s \<Longrightarrow> run_log add gc s es = Ok s' \<Longrightarrow>
   log_steps cutoff (capacity s) (gc_range s) es (bindings s) (bindings s')"
proof (induction es arbitrary: s)
  case (Cons e es)
  show ?case
  proof (cases e)
    case (Add b)
    obtain s1 where s1: "add s b = Ok s1" "invar s1" "capacity s1 = capacity s" "gc_range s1 = gc_range s"
      using add_returns [OF Cons.prems(1), of b] by metis
    then show ?thesis
      using Cons.IH [OF s1(2)] Cons.prems Add add_refines [OF Cons.prems(1) s1(1)]
      by (auto intro: log_steps.step)
  next
    case (GC now)
    obtain s1 where s1: "gc now s = Ok s1" "invar s1" "capacity s1 = capacity s" "gc_range s1 = gc_range s"
      using gc_returns [OF Cons.prems(1), of now] by metis
    then show ?thesis
      using Cons.IH [OF s1(2)] Cons.prems GC gc_refines [OF Cons.prems(1) s1(1)]
      by (auto intro: log_steps.step)
  qed
qed (auto intro: log_steps.stop)

end

text \<open>C10. The heap implements the abstract log: every run of \<open>AddBinding\<close> and \<open>BindingsGC\<close> calls on a
  well-formed log is a run of the abstract log on the multisets of bindings.\<close>

theorem binding_records_refine_log:
  assumes "br_wf br" "run_log AddBinding (BindingsGC cvt) br es = Ok br'"
  shows "log_steps (timeline cvt) (br_size br) (br_gcTimeRange br) es (contents br) (contents br')"
  using records.run_refines [OF assms] .

theorem binding_records_refine_log_witness:
  "\<exists>br'. run_log AddBinding (BindingsGC (\<lambda>_. 0)) example_log [Add (example_binding ''c'' 50)] = Ok br' \<and>
    log_steps (timeline (\<lambda>_. 0)) 2 (60 * second) [Add (example_binding ''c'' 50)]
      (contents example_log) (contents br')"
proof -
  obtain br' where "run_log AddBinding (BindingsGC (\<lambda>_. 0)) example_log [Add (example_binding ''c'' 50)] = Ok br'"
    using records.run_returns [OF example_log_wf] by blast
  then show ?thesis
    using binding_records_refine_log [OF example_log_wf, of "\<lambda>_. 0"] by (auto simp: example_log_def)
qed

text \<open>C12. Counting is exact. On a log created with size \<open>sz\<close> and recycling range \<open>g\<close>, after any
  sequence of operations that adds at most \<open>sz\<close> bindings and recycles at times up to now,
  \<open>GetLastNodeBindingCount\<close> for a range of at most \<open>g\<close> returns the number of all bindings ever added
  for the node that are younger than the range: neither the heap nor recycling is visible.\<close>

theorem binding_count_exact:
  assumes "0 < sz" "0 \<le> r" "r \<le> g" "g < 2 ^ 63" "valid_instant now"
    and "run_log AddBinding (BindingsGC cvt) (NewBindingRecords sz g) es = Ok br"
    and "int (length (added es)) \<le> sz" "\<forall>t \<in> set (gc_times es). valid_instant t \<and> t \<le> now"
  shows "GetLastNodeBindingCount cvt now br node r =
    int (length (filter (\<lambda>b. bind_Node b = node \<and> time_unix now - whole_seconds cvt r < bind_Timestamp b)
                   (added es)))"
proof -
  have new: "br_size (NewBindingRecords sz g) = sz" "br_gcTimeRange (NewBindingRecords sz g) = g"
    by (simp_all add: NewBindingRecords_def)
  have "GetLastNodeBindingCount cvt now br node r =
      int (size (recent node (timeline cvt now r) (mset (added es))))"
    using assms by (intro records.count_history [OF NewBindingRecords_wf]) (auto simp: new)
  also have "timeline cvt now r = time_unix now - whole_seconds cvt r"
    using assms by (intro timeline_eq) auto
  finally show ?thesis by (simp add: recent_def conj_commute flip: mset_filter)
qed

lemma example_run:
  "\<exists>br. run_log AddBinding (BindingsGC (\<lambda>_. 0)) (NewBindingRecords 3 (60 * second))
      [Add (example_binding ''a'' 5), Add (example_binding ''a'' 99), GC (100 * second)] = Ok br"
  using records.run_returns [OF NewBindingRecords_wf [of 3]] by fastforce

theorem binding_count_exact_witness:
  "\<exists>br. run_log AddBinding (BindingsGC (\<lambda>_. 0)) (NewBindingRecords 3 (60 * second))
      [Add (example_binding ''a'' 5), Add (example_binding ''a'' 99), GC (100 * second)] = Ok br \<and>
    GetLastNodeBindingCount (\<lambda>_. 0) (101 * second) br ''a'' (30 * second) = 1"
proof -
  obtain br where br: "run_log AddBinding (BindingsGC (\<lambda>_. 0)) (NewBindingRecords 3 (60 * second))
      [Add (example_binding ''a'' 5), Add (example_binding ''a'' 99), GC (100 * second)] = Ok br"
    using example_run by blast
  have w: "whole_seconds (\<lambda>_. 0) (30 * second) = 30" using whole_seconds_exact [of 30] by simp
  have "GetLastNodeBindingCount (\<lambda>_. 0) (101 * second) br ''a'' (30 * second) = 1"
    using binding_count_exact [OF _ _ _ _ _ br, of "30 * second" "101 * second" "''a''"]
    unfolding w by (simp add: example_binding_def time_unix_def)
  then show ?thesis using br by blast
qed

text \<open>\<open>AddBinding\<close> makes room before it looks at the new binding, so a stale binding replaces a
  newer one: on a full log whose oldest binding is newer than the one added, the log loses a binding
  newer than one it keeps.\<close>

lemma AddBinding_stale:
  assumes "br_wf br" "int (length (br_bindings br)) = br_size br"
    and "\<forall>x \<in># contents br. bind_Timestamp b < bind_Timestamp x"
  shows "\<exists>br' lost. AddBinding br b = Ok br' \<and> b \<in># contents br' \<and>
    contents br = add_mset lost (contents br' - {#b#}) \<and> bind_Timestamp b < bind_Timestamp lost"
proof -
  obtain br' old rest where r: "AddBinding br b = Ok br'" "contents br = add_mset old rest"
    "contents br' = add_mset b rest"
    using AddBinding_full [OF assms(1,2), of b] by blast
  then have "bind_Timestamp b < bind_Timestamp old" using assms(3) by (metis union_single_eq_member)
  then show ?thesis using r by (intro exI [of _ br'] exI [of _ old]) simp
qed

end
