(* ===== verification/Dynamic_Plugin.thy ===== *)
theory Dynamic_Plugin
  imports Crane_Utils Binding_Records Plugin_Args
begin

text \<open>
  \<open>pkg/plugins/dynamic\<close>: the load-aware scheduler plugin. \<open>Filter\<close> rejects a node whose
  annotated load exceeds a limit, \<open>Score\<close> prefers nodes with little load and few recent bindings,
  \<open>PostBind\<close> records a binding. Logging and metrics are not modelled. The snapshot of the
  scheduling framework is a parameter \<open>get_info\<close>; \<open>cvt\<close> is the implementation-defined conversion
  of a float that no \<open>int64\<close> represents.
\<close>

abbreviation NodeHotValue :: string where "NodeHotValue \<equiv> ''node_hot_value''"
abbreviation DefautlHotVauleActivePeriod :: duration where
  "DefautlHotVauleActivePeriod \<equiv> 5 * minute"

section \<open>stats.go\<close>

definition getScore ::
  "sys \<Rightarrow> annotations \<Rightarrow> PriorityPolicy \<Rightarrow> SyncPolicy list \<Rightarrow> float64 fallible outcome" where
  "getScore sys anno priorityPolicy syncPeriod =
     (case GetActiveDuration syncPeriod (priority_Name priorityPolicy) of
        Inl err \<Rightarrow>
          Ok (Inl (WrapIn (''failed to get the active duration of resource['' @
            priority_Name priorityPolicy @ '']: '') err '', while the actual value is 0s''))
      | Inr activeDuration \<Rightarrow>
          if activeDuration = 0 then
            Ok (Inl (Plain (''failed to get the active duration of resource['' @
              priority_Name priorityPolicy @ '']: <nil>, while the actual value is 0s'')))
          else
            obind (GetResourceUsage sys anno (priority_Name priorityPolicy) activeDuration) (\<lambda>r.
              case r of
                Inl err \<Rightarrow> Ok (Inl err)
              | Inr usage \<Rightarrow>
                  Ok (Inr ((f_one - usage) * priority_Weight priorityPolicy * of_int64 MaxNodeScore))))"

definition isOverLoad :: "sys \<Rightarrow> annotations \<Rightarrow> PredicatePolicy \<Rightarrow> duration \<Rightarrow> bool outcome" where
  "isOverLoad sys anno predicatePolicy activeDuration =
     obind (GetResourceUsage sys anno (predicate_Name predicatePolicy) activeDuration) (\<lambda>r.
       case r of
         Inl err \<Rightarrow> Ok False
       | Inr usage \<Rightarrow>
           if f_eq (predicate_MaxLimitPecent predicatePolicy) f_zero then Ok False
           else Ok (predicate_MaxLimitPecent predicatePolicy < usage))"

text \<open>The loop of \<open>getNodeScore\<close>: the accumulated score and weight. A priority whose usage cannot
  be read adds its weight and a score of zero.\<close>

fun sum_priorities ::
  "sys \<Rightarrow> annotations \<Rightarrow> SyncPolicy list \<Rightarrow> PriorityPolicy list \<Rightarrow> float64 \<Rightarrow> float64 \<Rightarrow>
   (float64 \<times> float64) outcome" where
  "sum_priorities sys anno syncPeriod [] score weight = Ok (score, weight)"
| "sum_priorities sys anno syncPeriod (p # ps) score weight =
     obind (getScore sys anno p syncPeriod) (\<lambda>r.
       let priorityScore = (case r of Inl err \<Rightarrow> f_zero | Inr s \<Rightarrow> s)
       in sum_priorities sys anno syncPeriod ps (score + priorityScore) (weight + priority_Weight p))"

definition getNodeScore ::
  "(float64 \<Rightarrow> int) \<Rightarrow> sys \<Rightarrow> annotations \<Rightarrow> PolicySpec \<Rightarrow> int outcome" where
  "getNodeScore cvt sys anno policySpec =
     (if spec_Priority policySpec = [] then Ok 0
      else
        obind (sum_priorities sys anno (spec_SyncPeriod policySpec) (spec_Priority policySpec)
                 f_zero f_zero)
          (\<lambda>(score, weight). Ok (to_int64 cvt (score / weight))))"

definition getNodeHotValue :: "sys \<Rightarrow> Node \<Rightarrow> float64 outcome" where
  "getNodeHotValue sys node =
     (if node_Annotations node = None then Ok f_zero
      else obind (GetResourceUsage sys (node_Annotations node) NodeHotValue DefautlHotVauleActivePeriod)
        (\<lambda>r. Ok (case r of Inl err \<Rightarrow> f_zero | Inr hotvalue \<Rightarrow> hotvalue)))"

section \<open>plugins.go\<close>

abbreviation Dynamic_Name :: string where "Dynamic_Name \<equiv> ''Dynamic''"

record DynamicScheduler =
  ds_schedulerPolicy :: DynamicSchedulerPolicy
  ds_bindingRecords :: BindingRecords

fun filter_predicates ::
  "sys \<Rightarrow> string \<Rightarrow> annotations \<Rightarrow> SyncPolicy list \<Rightarrow> PredicatePolicy list \<Rightarrow> Status outcome" where
  "filter_predicates sys nodeName anno syncPeriod [] = Ok (NewStatus Success '''')"
| "filter_predicates sys nodeName anno syncPeriod (p # ps) =
     (if has_prefix (predicate_Name p) RangePrefix then
        filter_predicates sys nodeName anno syncPeriod ps
      else
        (case GetActiveDuration syncPeriod (predicate_Name p) of
           Inl err \<Rightarrow> filter_predicates sys nodeName anno syncPeriod ps
         | Inr activeDuration \<Rightarrow>
             if activeDuration = 0 then filter_predicates sys nodeName anno syncPeriod ps
             else
               obind (isOverLoad sys anno p activeDuration) (\<lambda>over.
                 if over then
                   Ok (NewStatus Unschedulable
                     (''Load['' @ predicate_Name p @ ''] of node['' @ nodeName @ ''] is too high''))
                 else filter_predicates sys nodeName anno syncPeriod ps)))"

definition Dynamic_Filter ::
  "sys \<Rightarrow> DynamicScheduler \<Rightarrow> 'a Pod_scheme \<Rightarrow> Node option \<Rightarrow> Status outcome" where
  "Dynamic_Filter sys ds pod nodeInfo =
     (if IsDaemonsetPod pod then Ok (NewStatus Success '''')
      else
        (case nodeInfo of
           None \<Rightarrow> Ok (NewStatus Error ''node not found'')
         | Some node \<Rightarrow>
             let nodeAnnotations =
                   (case node_Annotations node of None \<Rightarrow> Some [] | Some m \<Rightarrow> Some m);
                 spec = policy_Spec (ds_schedulerPolicy ds)
             in filter_predicates sys (node_Name node) nodeAnnotations
                  (spec_SyncPeriod spec) (spec_Predicate spec)))"

definition Dynamic_PreScore :: "DynamicScheduler \<Rightarrow> 'a Pod_scheme \<Rightarrow> Node list \<Rightarrow> Status" where
  "Dynamic_PreScore ds pod nodes = NewStatus Success ''''"

text \<open>The loop over the hot value policies, shared word for word by the plugin's \<open>Score\<close> and the
  annotator's \<open>annotateNodeHotValue\<close>: an integer division that panics when a count is zero.\<close>

fun hot_value_loop ::
  "(float64 \<Rightarrow> int) \<Rightarrow> instant \<Rightarrow> BindingRecords \<Rightarrow> string \<Rightarrow> HotValuePolicy list \<Rightarrow> int \<Rightarrow> int outcome"
where
  "hot_value_loop cvt now br nodeName [] hotValue = Ok hotValue"
| "hot_value_loop cvt now br nodeName (hv # hvs) hotValue =
     obind (go_div (GetLastNodeBindingCount cvt now br nodeName (hot_TimeRange hv)) (hot_Count hv))
       (\<lambda>q. hot_value_loop cvt now br nodeName hvs (wrap64 (hotValue + q)))"

definition Dynamic_Score ::
  "(float64 \<Rightarrow> int) \<Rightarrow> sys \<Rightarrow> (string \<Rightarrow> Node option fallible) \<Rightarrow> DynamicScheduler \<Rightarrow>
   'a Pod_scheme \<Rightarrow> string \<Rightarrow> (int \<times> Status) outcome" where
  "Dynamic_Score cvt sys get_info ds p nodeName =
     (case get_info nodeName of
        Inl err \<Rightarrow>
          Ok (0, NewStatus Error (''getting node '' @ quoted nodeName @ '' from Snapshot: '' @ err_text err))
      | Inr nodeInfo \<Rightarrow>
         (case nodeInfo of
            None \<Rightarrow> Ok (0, NewStatus Error ''node not found'')
          | Some node \<Rightarrow>
              let nodeAnnotations =
                    (case node_Annotations node of None \<Rightarrow> Some [] | Some m \<Rightarrow> Some m);
                  spec = policy_Spec (ds_schedulerPolicy ds)
              in obind (hot_value_loop cvt (sys_now sys) (ds_bindingRecords ds) nodeName
                          (spec_HotValue spec) 0) (\<lambda>hotValue.
                 obind (getNodeScore cvt sys nodeAnnotations spec) (\<lambda>score.
                   Ok (NormalizeScore (wrap64 (score - wrap64 (hotValue * 10)))
                         MaxNodeScore MinNodeScore, NilStatus)))))"


text \<open>The goroutine started by the constructor, \<open>BindingsGC\<close> every minute, as one tick.\<close>

definition Dynamic_gc_tick ::
  "(float64 \<Rightarrow> int) \<Rightarrow> sys \<Rightarrow> DynamicScheduler \<Rightarrow> DynamicScheduler outcome" where
  "Dynamic_gc_tick cvt sys ds =
     omap (\<lambda>br. ds\<lparr>ds_bindingRecords := br\<rparr>) (BindingsGC cvt (sys_now sys) (ds_bindingRecords ds))"

definition NewDynamicScheduler ::
  "(string \<Rightarrow> DynamicSchedulerPolicy fallible) \<Rightarrow> runtime_object \<Rightarrow> DynamicScheduler fallible" where
  "NewDynamicScheduler load plArgs =
     (case plArgs of
        DynamicArgsObject args \<Rightarrow>
          (case load (dyn_PolicyConfigPath args) of
             Inl err \<Rightarrow> Inl (Wrap ''failed to get scheduler policy from config file: '' err)
           | Inr schedulerPolicy \<Rightarrow>
               Inr \<lparr>ds_schedulerPolicy = schedulerPolicy,
                    ds_bindingRecords = NewBindingRecords 1024 (5 * minute)\<rparr>)
      | _ \<Rightarrow>
          Inl (Plain (''want args to be of type DynamicArgs, got '' @ type_name plArgs @ ''.'')))"

section \<open>Filter\<close>

text \<open>When a predicate rejects a node: the policy is not one of the application plugin, the metric
  has an active duration, the annotation is readable and fresh, the limit is set, and the usage is
  above it.\<close>

definition load_exceeds :: "sys \<Rightarrow> annotations \<Rightarrow> SyncPolicy list \<Rightarrow> PredicatePolicy \<Rightarrow> bool" where
  "load_exceeds sys anno syncPeriod p \<longleftrightarrow>
     \<not> has_prefix (predicate_Name p) RangePrefix \<and>
     (\<exists>d u. GetActiveDuration syncPeriod (predicate_Name p) = Inr d \<and> d \<noteq> 0 \<and>
        GetResourceUsage sys anno (predicate_Name p) d = Ok (Inr u) \<and>
        \<not> f_eq (predicate_MaxLimitPecent p) f_zero \<and> predicate_MaxLimitPecent p < u)"

definition too_high :: "string \<Rightarrow> PredicatePolicy \<Rightarrow> Status" where
  "too_high nodeName p =
     NewStatus Unschedulable
       (''Load['' @ predicate_Name p @ ''] of node['' @ nodeName @ ''] is too high'')"

lemma isOverLoad_returns: "GetLocation sys \<noteq> None \<Longrightarrow> \<exists>b. isOverLoad sys anno p d = Ok b"
  using usage.read_returns [of sys anno "predicate_Name p" d]
  by (auto simp: isOverLoad_def split: sum.splits)

lemma filter_predicates_find:
  assumes "\<And>p d. p \<in> set ps \<Longrightarrow> \<exists>b. isOverLoad sys anno p d = Ok b"
  shows "filter_predicates sys nodeName anno syncPeriod ps =
    Ok (case find (load_exceeds sys anno syncPeriod) ps of
          None \<Rightarrow> NewStatus Success '''' | Some p \<Rightarrow> too_high nodeName p)"
  using assms
proof (induction ps)
  case (Cons p ps)
  show ?case
  proof (cases "has_prefix (predicate_Name p) RangePrefix")
    case True
    then show ?thesis using Cons by (simp add: load_exceeds_def)
  next
    case np: False
    show ?thesis
    proof (cases "GetActiveDuration syncPeriod (predicate_Name p)")
      case (Inl err)
      then show ?thesis using Cons np by (simp add: load_exceeds_def)
    next
      case (Inr d)
      show ?thesis
      proof (cases "d = 0")
        case True
        then show ?thesis using Cons np Inr by (simp add: load_exceeds_def)
      next
        case False
        obtain b where b: "isOverLoad sys anno p d = Ok b" using Cons.prems [of p d] by auto
        then obtain r where r: "GetResourceUsage sys anno (predicate_Name p) d = Ok r"
          by (auto simp: isOverLoad_def go_simps)
        have "load_exceeds sys anno syncPeriod p \<longleftrightarrow> b"
          using b np Inr False r by (cases r) (auto simp: load_exceeds_def isOverLoad_def split: if_splits)
        then show ?thesis
          using Cons np Inr False b by (auto simp: too_high_def)
      qed
    qed
  qed
qed simp

text \<open>A node with no usable annotation is not rejected, whatever the time zone.\<close>

lemma isOverLoad_missing: "anno_get anno (predicate_Name p) = None \<Longrightarrow> isOverLoad sys anno p d = Ok False"
  by (simp add: isOverLoad_def usage.read_missing)

lemma filter_predicates_missing:
  assumes "\<And>p. p \<in> set ps \<Longrightarrow> anno_get anno (predicate_Name p) = None"
  shows "filter_predicates sys nodeName anno syncPeriod ps = Ok (NewStatus Success '''')"
  using assms
  by (induction ps) (auto simp: isOverLoad_missing split: sum.splits)

text \<open>The whole filter: it finds the first predicate that rejects.\<close>

lemma Dynamic_Filter_find:
  assumes "GetLocation sys \<noteq> None"
  shows "Dynamic_Filter sys ds pod nodeInfo =
    Ok (if IsDaemonsetPod pod then NewStatus Success ''''
        else case nodeInfo of None \<Rightarrow> NewStatus Error ''node not found''
        | Some node \<Rightarrow>
            (case find (load_exceeds sys (node_Annotations node)
                    (spec_SyncPeriod (policy_Spec (ds_schedulerPolicy ds))))
                  (spec_Predicate (policy_Spec (ds_schedulerPolicy ds))) of
               None \<Rightarrow> NewStatus Success '''' | Some p \<Rightarrow> too_high (node_Name node) p))"
proof -
  have nil: "load_exceeds sys (Some []) = load_exceeds sys None"
    by (simp add: fun_eq_iff load_exceeds_def GetResourceUsage_def anno_get_def anno_entries_def)
  show ?thesis
    using filter_predicates_find [OF isOverLoad_returns [OF assms]] nil
    by (auto simp: Dynamic_Filter_def Let_def split: option.splits)
qed

section \<open>The hot value\<close>

lemma hot_value_loop_returns:
  "(\<And>hv. hv \<in> set hvs \<Longrightarrow> hot_Count hv \<noteq> 0) \<Longrightarrow> \<exists>h. hot_value_loop cvt now br node hvs h0 = Ok h"
  by (induction hvs arbitrary: h0) (auto simp: go_div_def)

lemma hot_value_loop_zero_count:
  assumes "\<And>hv. hv \<in> set hvs \<Longrightarrow> hot_Count hv \<noteq> 0" "hot_Count hv0 = 0"
  shows "hot_value_loop cvt now br node (hvs @ hv0 # rest) h0 = Panic IntegerDivideByZero"
  using assms by (induction hvs arbitrary: h0) (auto simp: go_div_def)

text \<open>The hot value as a sum of integers.\<close>

definition hot_value :: "(float64 \<Rightarrow> int) \<Rightarrow> instant \<Rightarrow> BindingRecords \<Rightarrow> string \<Rightarrow> HotValuePolicy list \<Rightarrow> int"
where
  "hot_value cvt now br node hvs =
     (\<Sum>hv\<leftarrow>hvs. GetLastNodeBindingCount cvt now br node (hot_TimeRange hv) div hot_Count hv)"

lemma hot_value_term:
  assumes "br_wf br" "0 < hot_Count hv"
  shows "0 \<le> GetLastNodeBindingCount cvt now br node r div hot_Count hv"
    "GetLastNodeBindingCount cvt now br node r div hot_Count hv \<le> br_size br"
proof -
  define c where "c = GetLastNodeBindingCount cvt now br node r"
  have c: "0 \<le> c" "c \<le> br_size br"
    unfolding c_def using records.count_le_capacity [OF assms(1)] by simp_all
  then have "c div hot_Count hv \<le> c"
    using assms(2) zdiv_mono2 [of c 1 "hot_Count hv"] by simp
  then show "0 \<le> c div hot_Count hv" "c div hot_Count hv \<le> br_size br"
    using c assms(2) by (auto simp: pos_imp_zdiv_nonneg_iff)
qed

lemma hot_value_bounds:
  assumes "br_wf br" "\<And>hv. hv \<in> set hvs \<Longrightarrow> 0 < hot_Count hv"
  shows "0 \<le> hot_value cvt now br node hvs"
    "hot_value cvt now br node hvs \<le> int (length hvs) * br_size br"
  using assms(2)
proof (induction hvs)
  case (Cons hv hvs)
  {
    case 1
    then show ?case using Cons hot_value_term(1) [OF assms(1), of hv] by (simp add: hot_value_def)
  next
    case 2
    then show ?case
      using Cons hot_value_term(2) [OF assms(1), of hv cvt now node "hot_TimeRange hv"]
      by (simp add: hot_value_def algebra_simps)
  }
qed (simp_all add: hot_value_def)

text \<open>The loop computes this sum when the log and the policy are of a realistic size.\<close>

lemma hot_value_loop_eq:
  assumes "br_wf br" "br_size br < 2 ^ 31" "\<And>hv. hv \<in> set hvs \<Longrightarrow> 0 < hot_Count hv"
    and "0 \<le> h0" "h0 + int (length hvs) * br_size br < 2 ^ 59"
  shows "hot_value_loop cvt now br node hvs h0 = Ok (h0 + hot_value cvt now br node hvs)"
  using assms(3-5)
proof (induction hvs arbitrary: h0)
  case (Cons hv hvs)
  define c where "c = GetLastNodeBindingCount cvt now br node (hot_TimeRange hv)"
  have c: "0 \<le> c" "c \<le> br_size br"
    unfolding c_def using records.count_le_capacity [OF assms(1)] by simp_all
  have t: "0 \<le> c div hot_Count hv" "c div hot_Count hv \<le> br_size br"
    using hot_value_term [OF assms(1), of hv cvt now node "hot_TimeRange hv"] Cons.prems(1)
    by (auto simp: c_def)
  define L where "L = int (length hvs) * br_size br"
  have L: "0 \<le> L" "h0 + (br_size br + L) < 2 ^ 59"
    using assms(1) Cons.prems(3) unfolding L_def by (simp_all add: br_wf_def algebra_simps)
  have d: "go_div c (hot_Count hv) = Ok (c div hot_Count hv)"
    using c assms(2) Cons.prems(1) by (intro go_div_nonneg) (auto simp: int64_def)
  have w: "wrap64 (h0 + c div hot_Count hv) = h0 + c div hot_Count hv"
    using t Cons.prems(2) L by (intro wrap64_id) (auto simp: int64_def)
  have "hot_value_loop cvt now br node hvs (h0 + c div hot_Count hv) =
      Ok (h0 + c div hot_Count hv + hot_value cvt now br node hvs)"
    using t Cons.prems(1,2) L by (intro Cons.IH) (auto simp: L_def [symmetric])
  then show ?case using d w by (simp add: c_def [symmetric] hot_value_def)
qed (simp add: hot_value_def)

section \<open>Score\<close>

lemma NormalizeScore_bounds: "mn \<le> mx \<Longrightarrow> mn \<le> NormalizeScore v mx mn \<and> NormalizeScore v mx mn \<le> mx"
  by (simp add: NormalizeScore_def Let_def)

lemma NormalizeScore_mono: "v \<le> w \<Longrightarrow> NormalizeScore v mx mn \<le> NormalizeScore w mx mn"
  by (simp add: NormalizeScore_def Let_def)

lemma getScore_returns: "GetLocation sys \<noteq> None \<Longrightarrow> \<exists>r. getScore sys anno p syncPeriod = Ok r"
proof (cases "GetActiveDuration syncPeriod (priority_Name p)")
  case (Inr d)
  assume "GetLocation sys \<noteq> None"
  then obtain r where "GetResourceUsage sys anno (priority_Name p) d = Ok r"
    using usage.read_returns by blast
  then show ?thesis using Inr by (cases r) (simp_all add: getScore_def)
qed (simp add: getScore_def)

lemma sum_priorities_returns:
  "GetLocation sys \<noteq> None \<Longrightarrow> \<exists>r. sum_priorities sys anno syncPeriod ps s w = Ok r"
proof (induction ps arbitrary: s w)
  case (Cons p ps)
  then show ?case using getScore_returns [of sys anno p syncPeriod] by (auto simp: Let_def)
qed simp

lemma getNodeScore_returns: "GetLocation sys \<noteq> None \<Longrightarrow> \<exists>s. getNodeScore cvt sys anno spec = Ok s"
  using sum_priorities_returns [of sys anno "spec_SyncPeriod spec" "spec_Priority spec" f_zero f_zero]
  by (auto simp: getNodeScore_def)

lemma Dynamic_Score_range:
  assumes "Dynamic_Score cvt sys get_info ds p nodeName = Ok (s, st)"
  shows "MinNodeScore \<le> s \<and> s \<le> MaxNodeScore"
  using assms NormalizeScore_bounds [of 0 100]
  by (auto simp: Dynamic_Score_def go_simps Let_def split: sum.splits option.splits)

lemma Dynamic_Score_returns:
  assumes "GetLocation sys \<noteq> None"
    and "\<And>hv. hv \<in> set (spec_HotValue (policy_Spec (ds_schedulerPolicy ds))) \<Longrightarrow> hot_Count hv \<noteq> 0"
  shows "\<exists>s st. Dynamic_Score cvt sys get_info ds p nodeName = Ok (s, st)"
proof -
  obtain h where h: "hot_value_loop cvt (sys_now sys) (ds_bindingRecords ds) nodeName
      (spec_HotValue (policy_Spec (ds_schedulerPolicy ds))) 0 = Ok h"
    using hot_value_loop_returns [OF assms(2)] by blast
  have g: "\<exists>s. getNodeScore cvt sys a (policy_Spec (ds_schedulerPolicy ds)) = Ok s" for a
    using getNodeScore_returns [OF assms(1)] by blast
  show ?thesis
  proof (cases "get_info nodeName")
    case (Inr info)
    show ?thesis
    proof (cases info)
      case (Some node)
      then show ?thesis
        using Inr h g [of "case node_Annotations node of None \<Rightarrow> Some [] | Some m \<Rightarrow> Some m"]
        by (auto simp: Dynamic_Score_def Let_def)
    qed (simp add: Dynamic_Score_def Inr)
  qed (simp add: Dynamic_Score_def)
qed

section \<open>Less load, higher score\<close>

text \<open>The usage a priority effectively scores: one, that is full load, when the annotation cannot be
  read.\<close>

definition eff_usage :: "sys \<Rightarrow> annotations \<Rightarrow> SyncPolicy list \<Rightarrow> string \<Rightarrow> float64 outcome" where
  "eff_usage sys anno syncPeriod name =
     (case GetActiveDuration syncPeriod name of
        Inl err \<Rightarrow> Ok f_one
      | Inr d \<Rightarrow>
          if d = 0 then Ok f_one
          else omap (case_sum (\<lambda>err. f_one) (\<lambda>u. u)) (GetResourceUsage sys anno name d))"

definition term_score :: "float64 \<Rightarrow> float64 \<Rightarrow> float64" where
  "term_score w u = (f_one - u) * w * of_int64 100"

text \<open>Weights and usages of a realistic size: nothing overflows and no weight is subnormal.\<close>

definition good_weight :: "float64 \<Rightarrow> bool" where
  "good_weight w \<longleftrightarrow> is_float64 w \<and> finite64 w \<and> pow2 (- 1000) \<le> val w \<and> val w \<le> pow2 200"

definition good_usage :: "float64 \<Rightarrow> bool" where
  "good_usage u \<longleftrightarrow> is_float64 u \<and> finite64 u \<and> 0 \<le> val u \<and> val u \<le> pow2 30"

lemma good_weight_pos: "good_weight w \<Longrightarrow> 0 < val w"
  unfolding good_weight_def pow2_def using two_powi_pos [of "- 1000"] by (meson less_le_trans)

lemma weight_scaled_exact:
  assumes "good_weight w" "0 \<le> k" shows "round64 (val w * 2 powi k) = val w * 2 powi k"
proof -
  have "(2 :: rat) powi (- 1022) \<le> 2 powi (- 1000)" by (simp add: two_powi_le_iff)
  then have "2 powi (- 1022) \<le> val w"
    using assms(1) unfolding good_weight_def pow2_def by (meson order_trans)
  then show ?thesis
    using round64_scale [OF _ assms(2)] assms(1) is_float64_round by (simp add: good_weight_def)
qed

lemma weight_scaled_finite:
  assumes "good_weight w" "0 \<le> k" "k < 800" "\<bar>x\<bar> \<le> val w * 2 powi k"
  shows "\<bar>round64 x\<bar> \<le> val w * 2 powi k" "\<bar>round64 x\<bar> < max_mag"
proof -
  show b: "\<bar>round64 x\<bar> \<le> val w * 2 powi k"
    using r64.rnd_abs_le [OF weight_scaled_exact [OF assms(1,2)] assms(4)] .
  have "val w * 2 powi k \<le> 2 powi 200 * 2 powi k"
    using assms(1) by (intro mult_right_mono) (auto simp: good_weight_def)
  also have "\<dots> = 2 powi (200 + k)" by (simp only: two_powi_add)
  also have "\<dots> < max_mag" using assms(3) by (intro powi_max_mag) simp
  finally show "\<bar>round64 x\<bar> < max_mag" using b by linarith
qed

lemma f_one_val: "finite64 f_one" "val f_one = 1" "is_float64 f_one"
  by code_simp+

lemma term_score_val:
  assumes "good_weight w" "good_usage u"
  shows "finite64 (term_score w u)" "is_float64 (term_score w u)"
    and "val (term_score w u) = round64 (round64 (round64 (1 - val u) * val w) * 100)"
    and "\<bar>val (term_score w u)\<bar> \<le> val w * 2 powi 37"
proof -
  have w: "is_float64 w" "finite64 w" "0 < val w"
    using assms(1) good_weight_pos by (auto simp: good_weight_def)
  have u: "is_float64 u" "finite64 u" "0 \<le> val u" "val u \<le> 2 powi 30"
    using assms(2) by (auto simp: good_usage_def)
  have p30: "(2 :: rat) powi 30 = 1073741824" by (simp add: power_int_def)
  have b1: "\<bar>1 - val u\<bar> \<le> 2 powi 30" using u(3,4) p30 by linarith
  have r1: "\<bar>round64 (1 - val u)\<bar> \<le> 2 powi 30"
    using r64.rnd_abs_le [OF round64_exact_powi b1] by simp
  have f1: "finite64 (f_one - u)" "val (f_one - u) = round64 (1 - val u)" "is_float64 (f_one - u)"
    using u finite_if_le [OF b1] is_float64_sub [OF f_one_val(3) u(1)]
    by (simp_all add: finite_sub val_sub)
  have b2: "\<bar>round64 (1 - val u) * val w\<bar> \<le> val w * 2 powi 30"
    using r1 w(3) by (simp add: abs_mult mult.commute mult_left_mono)
  note s2 = weight_scaled_finite [OF assms(1) _ _ b2, simplified]
  have f2: "finite64 ((f_one - u) * w)" "val ((f_one - u) * w) = round64 (round64 (1 - val u) * val w)"
    "is_float64 ((f_one - u) * w)"
    using f1 w s2 is_float64_mul by (simp_all add: finite_mul val_mul)
  have c: "finite64 (of_int64 100)" "val (of_int64 100) = 100"
    using of_int64_exact [of 100] by simp_all
  have "\<bar>round64 (round64 (1 - val u) * val w) * 100\<bar> \<le> val w * 2 powi 30 * 128"
    using s2(1) w(3) by (simp add: abs_mult)
  also have "\<dots> = val w * 2 powi 37" by (simp add: power_int_def)
  finally have b3: "\<bar>round64 (round64 (1 - val u) * val w) * 100\<bar> \<le> val w * 2 powi 37" .
  note s3 = weight_scaled_finite [OF assms(1) _ _ b3, simplified]
  show f: "finite64 (term_score w u)"
    unfolding term_score_def using f2 c s3(2) by (simp add: finite_mul is_float64_of_int64)
  show "is_float64 (term_score w u)"
    unfolding term_score_def using f2(3) by (simp add: is_float64_mul is_float64_of_int64)
  show v: "val (term_score w u) = round64 (round64 (round64 (1 - val u) * val w) * 100)"
    using f f2 c unfolding term_score_def by (simp add: val_mul is_float64_of_int64)
  show "\<bar>val (term_score w u)\<bar> \<le> val w * 2 powi 37" unfolding v using s3(1) by simp
qed

lemma term_score_antimono:
  assumes "good_weight w" "good_usage u" "good_usage u'" "val u \<le> val u'"
  shows "val (term_score w u') \<le> val (term_score w u)"
  unfolding term_score_val(3) [OF assms(1,2)] term_score_val(3) [OF assms(1,3)]
  using assms(4) good_weight_pos [OF assms(1)]
  by (intro r64.rnd_mono mult_right_mono) auto

text \<open>An unreadable usage scores zero, as full load does.\<close>

lemma term_score_one: "good_weight w \<Longrightarrow> term_score w f_one = f_zero"
proof -
  assume w: "good_weight w"
  then obtain q where q: "w = Fin False q"
    using good_weight_pos [OF w] by (cases w) (auto simp: good_weight_def split: if_splits)
  have "f_one - f_one = f_zero" "f_zero * of_int64 100 = f_zero" by code_simp+
  moreover have "f_zero * Fin False q = f_zero"
    by (simp add: times_float64_def fl_mag_def Let_def not_le)
  ultimately show ?thesis unfolding term_score_def q by simp
qed

lemma getScore_term:
  assumes "eff_usage sys anno syncPeriod (priority_Name p) = Ok u" "good_weight (priority_Weight p)"
  shows "\<exists>r. getScore sys anno p syncPeriod = Ok r \<and>
    (case r of Inl err \<Rightarrow> f_zero | Inr s \<Rightarrow> s) = term_score (priority_Weight p) u"
proof (cases "GetActiveDuration syncPeriod (priority_Name p)")
  case (Inl err)
  then show ?thesis using assms term_score_one by (auto simp: eff_usage_def getScore_def)
next
  case (Inr d)
  show ?thesis
  proof (cases "d = 0")
    case True
    then show ?thesis using Inr assms term_score_one by (auto simp: eff_usage_def getScore_def)
  next
    case False
    then obtain r where r: "GetResourceUsage sys anno (priority_Name p) d = Ok r"
      "u = case_sum (\<lambda>err. f_one) (\<lambda>u. u) r"
      using Inr assms(1) by (auto simp: eff_usage_def go_simps)
    then show ?thesis
      using Inr False assms(2) term_score_one
      by (cases r) (auto simp: getScore_def term_score_def)
  qed
qed

definition add_priority :: "(string \<Rightarrow> float64) \<Rightarrow> float64 \<times> float64 \<Rightarrow> PriorityPolicy \<Rightarrow> float64 \<times> float64"
where
  "add_priority u acc p =
     (fst acc + term_score (priority_Weight p) (u (priority_Name p)), snd acc + priority_Weight p)"

lemma sum_priorities_foldl:
  assumes "\<And>p. p \<in> set ps \<Longrightarrow> eff_usage sys anno syncPeriod (priority_Name p) = Ok (u (priority_Name p))"
    and "\<And>p. p \<in> set ps \<Longrightarrow> good_weight (priority_Weight p)"
  shows "sum_priorities sys anno syncPeriod ps s w = Ok (foldl (add_priority u) (s, w) ps)"
  using assms
proof (induction ps arbitrary: s w)
  case (Cons p ps)
  from getScore_term [of sys anno syncPeriod p] Cons.prems obtain r where
    "getScore sys anno p syncPeriod = Ok r"
    "(case r of Inl err \<Rightarrow> f_zero | Inr s \<Rightarrow> s) = term_score (priority_Weight p) (u (priority_Name p))"
    by force
  then show ?case using Cons by (simp add: add_priority_def Let_def)
qed simp

text \<open>What the accumulated score and weight satisfy after \<open>k\<close> priorities; the bound on the score is
  exact, because rounding commutes with scaling by a power of two.\<close>

definition acc_ok :: "int \<Rightarrow> float64 \<times> float64 \<Rightarrow> bool" where
  "acc_ok k acc \<longleftrightarrow> is_float64 (fst acc) \<and> is_float64 (snd acc) \<and> finite64 (fst acc) \<and>
     finite64 (snd acc) \<and> 0 \<le> val (snd acc) \<and> val (snd acc) \<le> of_int k * 2 powi 200 \<and>
     (0 < k \<longrightarrow> 2 powi (- 1000) \<le> val (snd acc)) \<and>
     \<bar>val (fst acc)\<bar> \<le> val (snd acc) * 2 powi 37"

lemma scaled_max_mag: "k < 2 ^ 53 \<Longrightarrow> e < 900 \<Longrightarrow> rat_of_int k * 2 powi e < max_mag"
proof -
  assume k: "k < 2 ^ 53" and e: "e < 900"
  have "rat_of_int k * 2 powi e \<le> 2 powi 53 * 2 powi e"
  proof (intro mult_right_mono)
    have "rat_of_int k \<le> rat_of_int (2 ^ 53)" using k by (subst of_int_le_iff) simp
    then show "rat_of_int k \<le> 2 powi 53" by (simp add: power_int_def)
  qed simp
  also have "\<dots> = 2 powi (53 + e)" by (simp only: two_powi_add)
  also have "\<dots> < max_mag" using e by (intro powi_max_mag) simp
  finally show ?thesis .
qed

lemma weight_step:
  assumes "finite64 w" "0 \<le> val w" "val w \<le> of_int k * 2 powi 200" "good_weight v" "0 \<le> k" "k + 1 < 2 ^ 53"
  shows "finite64 (w + v)" "val (w + v) = round64 (val w + val v)"
    "val (w + v) \<le> of_int (k + 1) * 2 powi 200" "2 powi (- 1000) \<le> val (w + v)"
proof -
  have v: "finite64 v" "2 powi (- 1000) \<le> val v" "val v \<le> 2 powi 200"
    using assms(4) by (auto simp: good_weight_def)
  have up: "round64 (val w + val v) \<le> of_int (k + 1) * 2 powi 200"
    using assms v round64_scaled_int [of "k + 1" 200]
    by (intro r64.rnd_le) (auto simp: distrib_right)
  have low: "2 powi (- 1000) \<le> round64 (val w + val v)"
    using assms(2) v by (intro r64.rnd_ge round64_exact_powi) auto
  have "\<bar>round64 (val w + val v)\<bar> < max_mag"
    using up low scaled_max_mag [OF assms(6), of 200] two_powi_pos [of "- 1000"] by linarith
  then show f: "finite64 (w + v)" using finite_add [OF assms(1) v(1)] by simp
  show e: "val (w + v) = round64 (val w + val v)" using val_add [OF assms(1) v(1) f] .
  show "val (w + v) \<le> of_int (k + 1) * 2 powi 200" "2 powi (- 1000) \<le> val (w + v)"
    unfolding e using up low .
qed

lemma score_step:
  assumes "finite64 s" "\<bar>val s\<bar> \<le> val w * 2 powi 37" "0 \<le> val w" "good_weight v" "good_usage u"
    and "finite64 (w + v)" "val (w + v) = round64 (val w + val v)"
    and "val (w + v) \<le> of_int k * 2 powi 200" "k < 2 ^ 53"
  shows "finite64 (s + term_score v u)" "val (s + term_score v u) = round64 (val s + val (term_score v u))"
    "\<bar>val (s + term_score v u)\<bar> \<le> val (w + v) * 2 powi 37"
proof -
  note t = term_score_val [OF assms(4,5)]
  have v: "2 powi (- 1000) \<le> val v" using assms(4) by (simp add: good_weight_def)
  have "(2 :: rat) powi (- 1022) \<le> 2 powi (- 1000)" by (simp add: two_powi_le_iff)
  then have n: "2 powi (- 1022) \<le> val w + val v" using v assms(3) by linarith
  have "\<bar>val s + val (term_score v u)\<bar> \<le> (val w + val v) * 2 powi 37"
    using assms(2) t(4) by (simp add: distrib_right)
  then have "\<bar>round64 (val s + val (term_score v u))\<bar> \<le> round64 ((val w + val v) * 2 powi 37)"
    unfolding r64.rnd_abs by (rule r64.rnd_mono)
  also have "\<dots> = val (w + v) * 2 powi 37"
    using round64_scale [OF n, of 37] assms(7) by simp
  finally have b: "\<bar>round64 (val s + val (term_score v u))\<bar> \<le> val (w + v) * 2 powi 37" .
  have "val (w + v) * 2 powi 37 \<le> of_int k * 2 powi 200 * 2 powi 37"
    using assms(8) by (intro mult_right_mono) auto
  also have "\<dots> = of_int k * 2 powi 237" by (simp add: power_int_def)
  also have "\<dots> < max_mag" using assms(9) by (intro scaled_max_mag) auto
  finally have "\<bar>round64 (val s + val (term_score v u))\<bar> < max_mag" using b by linarith
  then show f: "finite64 (s + term_score v u)" using finite_add [OF assms(1) t(1)] by simp
  show e: "val (s + term_score v u) = round64 (val s + val (term_score v u))"
    using val_add [OF assms(1) t(1) f] .
  show "\<bar>val (s + term_score v u)\<bar> \<le> val (w + v) * 2 powi 37" unfolding e using b .
qed

lemma acc_ok_step:
  assumes "acc_ok k acc" "0 \<le> k" "k + 1 < 2 ^ 53" "good_weight (priority_Weight p)"
    "good_usage (u (priority_Name p))"
  shows "acc_ok (k + 1) (add_priority u acc p)"
    "val (fst (add_priority u acc p)) =
       round64 (val (fst acc) + val (term_score (priority_Weight p) (u (priority_Name p))))"
proof -
  have a: "is_float64 (fst acc)" "is_float64 (snd acc)" "finite64 (fst acc)" "finite64 (snd acc)"
    "0 \<le> val (snd acc)" "val (snd acc) \<le> of_int k * 2 powi 200"
    "\<bar>val (fst acc)\<bar> \<le> val (snd acc) * 2 powi 37"
    using assms(1) by (auto simp: acc_ok_def)
  note w = weight_step [OF a(4-6) assms(4,2,3)]
  note s = score_step [OF a(3,7,5) assms(4,5) w(1,2) w(3) assms(3)]
  have fl: "is_float64 (fst acc + term_score (priority_Weight p) (u (priority_Name p)))"
    "is_float64 (snd acc + priority_Weight p)"
    using a(1,2) term_score_val(2) [OF assms(4,5)] assms(4)
    by (auto intro: is_float64_add simp: good_weight_def)
  have "0 \<le> val (snd acc + priority_Weight p)"
    using w(4) two_powi_pos [of "- 1000"] by linarith
  then show "acc_ok (k + 1) (add_priority u acc p)"
    using w s fl unfolding acc_ok_def add_priority_def by simp
  show "val (fst (add_priority u acc p)) =
      round64 (val (fst acc) + val (term_score (priority_Weight p) (u (priority_Name p))))"
    using s(2) by (simp add: add_priority_def)
qed

text \<open>Two runs of the loop over the same weights, the second with higher usages.\<close>

lemma foldl_antimono:
  assumes "acc_ok k acc" "acc_ok k acc'" "snd acc = snd acc'" "val (fst acc') \<le> val (fst acc)"
    and "0 \<le> k" "k + int (length ps) < 2 ^ 53"
    and "\<And>p. p \<in> set ps \<Longrightarrow> good_weight (priority_Weight p) \<and> good_usage (u (priority_Name p)) \<and>
      good_usage (u' (priority_Name p)) \<and> val (u (priority_Name p)) \<le> val (u' (priority_Name p))"
  shows "acc_ok (k + int (length ps)) (foldl (add_priority u) acc ps) \<and>
    acc_ok (k + int (length ps)) (foldl (add_priority u') acc' ps) \<and>
    snd (foldl (add_priority u) acc ps) = snd (foldl (add_priority u') acc' ps) \<and>
    val (fst (foldl (add_priority u') acc' ps)) \<le> val (fst (foldl (add_priority u) acc ps))"
  using assms
proof (induction ps arbitrary: k acc acc')
  case (Cons p ps)
  have k: "k + 1 < 2 ^ 53" using Cons.prems(6) by simp
  have p: "good_weight (priority_Weight p)" "good_usage (u (priority_Name p))"
    "good_usage (u' (priority_Name p))" "val (u (priority_Name p)) \<le> val (u' (priority_Name p))"
    using Cons.prems(7) by auto
  note a = acc_ok_step [where u = u, OF Cons.prems(1,5) k p(1,2)]
  note b = acc_ok_step [where u = u', OF Cons.prems(2,5) k p(1,3)]
  have "val (fst (add_priority u' acc' p)) \<le> val (fst (add_priority u acc p))"
    unfolding a(2) b(2) using Cons.prems(4) term_score_antimono [OF p]
    by (intro r64.rnd_mono add_mono)
  moreover have "snd (add_priority u acc p) = snd (add_priority u' acc' p)"
    using Cons.prems(3) by (simp add: add_priority_def)
  ultimately show ?case
    using Cons.IH [OF a(1) b(1)] Cons.prems(5-7) by (auto simp: algebra_simps)
qed simp

text \<open>The quotient of an accumulated score and weight is far from overflowing an \<open>int64\<close>.\<close>

lemma acc_quotient:
  assumes "acc_ok k acc" "0 < k"
  shows "to_int64 cvt (fst acc / snd acc) = trunc_rat (round64 (val (fst acc) / val (snd acc)))"
    and "\<bar>to_int64 cvt (fst acc / snd acc)\<bar> \<le> 2 ^ 37"
proof -
  have a: "is_float64 (fst acc)" "is_float64 (snd acc)" "finite64 (fst acc)" "finite64 (snd acc)"
    "2 powi (- 1000) \<le> val (snd acc)" "\<bar>val (fst acc)\<bar> \<le> val (snd acc) * 2 powi 37"
    using assms by (auto simp: acc_ok_def)
  have pos: "0 < val (snd acc)" using a(5) two_powi_pos [of "- 1000"] by linarith
  have p37: "(2 :: rat) powi 37 = of_int (2 ^ 37)" by (simp add: power_int_def)
  have "\<bar>val (fst acc) / val (snd acc)\<bar> \<le> 2 powi 37"
    using a(6) pos by (simp add: abs_divide divide_le_eq mult.commute)
  then have b: "\<bar>round64 (val (fst acc) / val (snd acc))\<bar> \<le> 2 powi 37"
    using r64.rnd_abs_le [OF round64_exact_powi [of 37]] by simp
  then have "\<bar>round64 (val (fst acc) / val (snd acc))\<bar> < max_mag"
    using powi_max_mag [of 37] by linarith
  then have f: "finite64 (fst acc / snd acc)"
    "val (fst acc / snd acc) = round64 (val (fst acc) / val (snd acc))"
    using a pos by (simp_all add: finite_div val_div)
  define q where "q = round64 (val (fst acc) / val (snd acc))"
  have "of_int (- (2 ^ 37)) \<le> q" "q \<le> of_int (2 ^ 37)" using b p37 unfolding q_def by auto
  then have t: "- (2 ^ 37) \<le> trunc_rat q" "trunc_rat q \<le> 2 ^ 37"
    using trunc_rat_mono [of "of_int (- (2 ^ 37))" q] trunc_rat_mono [of q "of_int (2 ^ 37)"]
    unfolding trunc_rat_of_int by auto
  then have "int64 (trunc_rat q)" by (simp add: int64_def)
  then show e: "to_int64 cvt (fst acc / snd acc) = trunc_rat (round64 (val (fst acc) / val (snd acc)))"
    using f unfolding to_int64_def q_def by simp
  show "\<bar>to_int64 cvt (fst acc / snd acc)\<bar> \<le> 2 ^ 37"
    using t unfolding e q_def by simp
qed

lemma acc_ok_0: "acc_ok 0 (f_zero, f_zero)"
  by (simp add: acc_ok_def)

lemma getNodeScore_antimono:
  assumes ps: "spec_Priority spec \<noteq> []" "int (length (spec_Priority spec)) < 2 ^ 53"
    and a: "\<And>p. p \<in> set (spec_Priority spec) \<Longrightarrow>
      eff_usage sys a (spec_SyncPeriod spec) (priority_Name p) = Ok (u (priority_Name p))"
    and b: "\<And>p. p \<in> set (spec_Priority spec) \<Longrightarrow>
      eff_usage sys b (spec_SyncPeriod spec) (priority_Name p) = Ok (u' (priority_Name p))"
    and good: "\<And>p. p \<in> set (spec_Priority spec) \<Longrightarrow> good_weight (priority_Weight p) \<and>
      good_usage (u (priority_Name p)) \<and> good_usage (u' (priority_Name p)) \<and>
      val (u (priority_Name p)) \<le> val (u' (priority_Name p))"
  shows "\<exists>s s'. getNodeScore cvt sys a spec = Ok s \<and> getNodeScore cvt sys b spec = Ok s' \<and>
    s' \<le> s \<and> \<bar>s\<bar> \<le> 2 ^ 37 \<and> \<bar>s'\<bar> \<le> 2 ^ 37"
proof -
  let ?n = "int (length (spec_Priority spec))"
  define x where "x = foldl (add_priority u) (f_zero, f_zero) (spec_Priority spec)"
  define y where "y = foldl (add_priority u') (f_zero, f_zero) (spec_Priority spec)"
  have xy: "acc_ok ?n x" "acc_ok ?n y" "snd x = snd y" "val (fst y) \<le> val (fst x)"
    using foldl_antimono [OF acc_ok_0 acc_ok_0, of "spec_Priority spec" u u'] ps(2) good
    by (simp_all add: x_def y_def)
  have n: "0 < ?n" using ps(1) by simp
  have gx: "getNodeScore cvt sys a spec = Ok (to_int64 cvt (fst x / snd x))"
    using sum_priorities_foldl [OF a, of "spec_Priority spec"] good ps(1)
    by (simp add: getNodeScore_def x_def case_prod_beta)
  have gy: "getNodeScore cvt sys b spec = Ok (to_int64 cvt (fst y / snd y))"
    using sum_priorities_foldl [OF b, of "spec_Priority spec"] good ps(1)
    by (simp add: getNodeScore_def y_def case_prod_beta)
  have "2 powi (- 1000) \<le> val (snd x)" using xy(1) n by (simp add: acc_ok_def)
  then have "0 < val (snd x)" using two_powi_pos [of "- 1000"] by linarith
  then have "val (fst y) / val (snd y) \<le> val (fst x) / val (snd x)"
    using xy(3,4) by (simp add: divide_right_mono)
  then have "to_int64 cvt (fst y / snd y) \<le> to_int64 cvt (fst x / snd x)"
    unfolding acc_quotient(1) [OF xy(1) n] acc_quotient(1) [OF xy(2) n]
    by (intro trunc_rat_mono r64.rnd_mono)
  then show ?thesis
    using gx gy acc_quotient(2) [OF xy(1) n] acc_quotient(2) [OF xy(2) n] by simp
qed

section \<open>The score as a formula\<close>

lemma Dynamic_Score_formula:
  assumes "get_info nodeName = Inr (Some node)"
    and "br_wf (ds_bindingRecords ds)" "br_size (ds_bindingRecords ds) < 2 ^ 31"
    and "\<And>hv. hv \<in> set (spec_HotValue (policy_Spec (ds_schedulerPolicy ds))) \<Longrightarrow> 0 < hot_Count hv"
    and "int (length (spec_HotValue (policy_Spec (ds_schedulerPolicy ds)))) \<le> 2 ^ 20"
    and "getNodeScore cvt sys (node_Annotations node) (policy_Spec (ds_schedulerPolicy ds)) = Ok s"
    and "\<bar>s\<bar> \<le> 2 ^ 37"
  shows "Dynamic_Score cvt sys get_info ds p nodeName =
    Ok (NormalizeScore
          (s - 10 * hot_value cvt (sys_now sys) (ds_bindingRecords ds) nodeName
             (spec_HotValue (policy_Spec (ds_schedulerPolicy ds)))) MaxNodeScore MinNodeScore, NilStatus)"
proof -
  let ?br = "ds_bindingRecords ds" and ?hvs = "spec_HotValue (policy_Spec (ds_schedulerPolicy ds))"
  define h where "h = hot_value cvt (sys_now sys) ?br nodeName ?hvs"
  have size: "0 < br_size ?br" using assms(2) by (simp add: br_wf_def)
  have "int (length ?hvs) * br_size ?br \<le> 2 ^ 20 * 2 ^ 31"
    using assms(3,5) size by (intro mult_mono) auto
  then have len: "int (length ?hvs) * br_size ?br \<le> 2 ^ 51" by simp
  then have loop: "hot_value_loop cvt (sys_now sys) ?br nodeName ?hvs 0 = Ok h"
    using hot_value_loop_eq [OF assms(2,3), of ?hvs 0] assms(4) by (simp add: h_def)
  have h: "0 \<le> h" "h \<le> 2 ^ 51"
    using hot_value_bounds [OF assms(2), of ?hvs cvt "sys_now sys" nodeName] assms(4) len
    unfolding h_def by auto
  have w: "wrap64 (h * 10) = h * 10" "wrap64 (s - h * 10) = s - 10 * h"
    using h assms(7) by (auto simp: int64_def abs_le_iff intro!: wrap64_id)
  have nil: "getNodeScore cvt sys
      (case node_Annotations node of None \<Rightarrow> Some [] | Some m \<Rightarrow> Some m) (policy_Spec (ds_schedulerPolicy ds)) = Ok s"
  proof -
    have "getScore sys (Some []) q sy = getScore sys None q sy" for q sy
      by (simp add: getScore_def GetResourceUsage_def anno_get_def anno_entries_def split: sum.split)
    then have "sum_priorities sys (Some []) sy ps x y = sum_priorities sys None sy ps x y" for sy ps x y
      by (induction ps arbitrary: x y) simp_all
    then have "getNodeScore cvt sys (Some []) sp = getNodeScore cvt sys None sp" for sp
      by (simp add: getNodeScore_def)
    then show ?thesis using assms(6) by (cases "node_Annotations node") simp_all
  qed
  show ?thesis
    using assms(1) loop nil w by (simp add: Dynamic_Score_def Let_def h_def)
qed

section \<open>Recording a binding\<close>





lemma NewDynamicScheduler_wf:
  assumes "NewDynamicScheduler load plArgs = Inr ds"
  shows "br_wf (ds_bindingRecords ds)" "br_size (ds_bindingRecords ds) = 1024"
    "br_gcTimeRange (ds_bindingRecords ds) = 5 * minute" "contents (ds_bindingRecords ds) = {#}"
  using assms NewBindingRecords_wf [of 1024 "5 * minute"]
  by (auto simp: NewDynamicScheduler_def NewBindingRecords_def heap_init_def
      split: runtime_object.splits sum.splits)

section \<open>Properties\<close>

text \<open>C6. \<open>Score\<close> is total and in range: with a time zone that loads and no hot value policy with a
  count of zero, scoring any node returns, and what it returns lies between 0 and 100, for every
  content of the annotations and every behaviour of out-of-range conversions.\<close>

theorem dynamic_score_total:
  assumes "GetLocation sys \<noteq> None"
    and "\<forall>hv \<in> set (spec_HotValue (policy_Spec (ds_schedulerPolicy ds))). hot_Count hv \<noteq> 0"
  shows "\<exists>s st. Dynamic_Score cvt sys get_info ds p nodeName = Ok (s, st) \<and> 0 \<le> s \<and> s \<le> 100"
proof -
  obtain s st where "Dynamic_Score cvt sys get_info ds p nodeName = Ok (s, st)"
    using Dynamic_Score_returns [OF assms(1)] assms(2) by blast
  then show ?thesis using Dynamic_Score_range by blast
qed

definition example_spec :: PolicySpec where
  "example_spec =
     \<lparr>spec_SyncPeriod = [\<lparr>sync_Name = ''cpu_usage_avg_5m'', sync_Period = 3 * minute\<rparr>],
      spec_SyncAppPeriod = [],
      spec_Predicate = [\<lparr>predicate_Name = ''cpu_usage_avg_5m'', predicate_MaxLimitPecent = Fin False (1 / 2)\<rparr>],
      spec_Priority = [\<lparr>priority_Name = ''cpu_usage_avg_5m'', priority_Weight = f_one\<rparr>],
      spec_HotValue = [\<lparr>hot_TimeRange = minute, hot_Count = 2\<rparr>]\<rparr>"

definition example_scheduler :: DynamicScheduler where
  "example_scheduler =
     \<lparr>ds_schedulerPolicy = \<lparr>policy_TypeMeta = \<lparr>meta_Kind = '''', meta_APIVersion = ''''\<rparr>, policy_Spec = example_spec\<rparr>,
      ds_bindingRecords = NewBindingRecords 1024 (5 * minute)\<rparr>"

definition example_node :: "annotations \<Rightarrow> Node" where
  "example_node anno =
     \<lparr>node_Name = ''n1'', node_Annotations = anno, node_Addresses = [], node_CpuCapacity = 4, node_MemoryCapacity = 8\<rparr>"

definition plain_pod :: Pod where
  "plain_pod =
     \<lparr>pod_Namespace = ''ns'', pod_Name = ''p'', pod_OwnerReferences = [], pod_Annotations = None, pod_NodeName = '''',
      pod_DeletionTimestamp = None\<rparr>"

theorem dynamic_score_total_witness:
  "\<exists>s st. Dynamic_Score (\<lambda>_. min_int64) (example_sys 0) (\<lambda>n. Inr (Some (example_node None))) example_scheduler
     plain_pod ''n1'' = Ok (s, st) \<and> 0 \<le> s \<and> s \<le> 100"
  by (rule dynamic_score_total) (simp_all add: example_location example_scheduler_def example_spec_def)

text \<open>A hot value policy whose count is zero makes \<open>Score\<close> panic with an integer division by zero on
  every node that the snapshot has, whatever the bindings are.\<close>

lemma dynamic_score_zero_count:
  assumes "get_info nodeName = Inr (Some node)"
    and "spec_HotValue (policy_Spec (ds_schedulerPolicy ds)) = hvs @ hv # rest" "hot_Count hv = 0"
    and "\<forall>h \<in> set hvs. hot_Count h \<noteq> 0"
  shows "Dynamic_Score cvt sys get_info ds p nodeName = Panic IntegerDivideByZero"
  using assms hot_value_loop_zero_count [of hvs hv] by (simp add: Dynamic_Score_def Let_def)

lemma dynamic_score_zero_count_witness:
  "Dynamic_Score (\<lambda>_. 0) (example_sys 0) (\<lambda>n. Inr (Some (example_node None)))
     \<lparr>ds_schedulerPolicy = \<lparr>policy_TypeMeta = \<lparr>meta_Kind = '''', meta_APIVersion = ''''\<rparr>,
        policy_Spec = example_spec\<lparr>spec_HotValue := [\<lparr>hot_TimeRange = minute, hot_Count = 0\<rparr>]\<rparr>\<rparr>,
      ds_bindingRecords = NewBindingRecords 1024 (5 * minute)\<rparr> plain_pod ''n1'' = Panic IntegerDivideByZero"
  by (rule dynamic_score_zero_count [where hvs = "[]" and hv = "\<lparr>hot_TimeRange = minute, hot_Count = 0\<rparr>"]) simp_all

text \<open>C9. Less load never scores less: for weights and usages of a realistic size, a node whose effective
  usage of every prioritised metric is at most that of the same node with other annotations gets at least its
  score. A metric that is missing, expired or unreadable counts as a usage of one.\<close>

theorem dynamic_score_antitone:
  assumes "get_info nodeName = Inr (Some (node\<lparr>node_Annotations := a\<rparr>))"
    and "get_info' nodeName = Inr (Some (node\<lparr>node_Annotations := b\<rparr>))"
    and br: "br_wf (ds_bindingRecords ds)" "br_size (ds_bindingRecords ds) < 2 ^ 31"
    and spec: "spec = policy_Spec (ds_schedulerPolicy ds)" "spec_Priority spec \<noteq> []"
      "length (spec_Priority spec) < 2 ^ 53" "length (spec_HotValue spec) \<le> 2 ^ 20"
      "\<forall>hv \<in> set (spec_HotValue spec). 0 < hot_Count hv"
    and load: "\<forall>p \<in> set (spec_Priority spec). good_weight (priority_Weight p) \<and>
      good_usage (u (priority_Name p)) \<and> good_usage (u' (priority_Name p)) \<and>
      val (u (priority_Name p)) \<le> val (u' (priority_Name p)) \<and>
      eff_usage sys a (spec_SyncPeriod spec) (priority_Name p) = Ok (u (priority_Name p)) \<and>
      eff_usage sys b (spec_SyncPeriod spec) (priority_Name p) = Ok (u' (priority_Name p))"
  shows "\<exists>s s'. Dynamic_Score cvt sys get_info ds p nodeName = Ok (s, NilStatus) \<and>
    Dynamic_Score cvt sys get_info' ds p nodeName = Ok (s', NilStatus) \<and> s' \<le> s"
proof -
  have "int (length (spec_Priority spec)) < 2 ^ 53" using spec(3) by simp
  then obtain s s' where s: "getNodeScore cvt sys a spec = Ok s" "getNodeScore cvt sys b spec = Ok s'"
      "s' \<le> s" "\<bar>s\<bar> \<le> 2 ^ 37" "\<bar>s'\<bar> \<le> 2 ^ 37"
    using getNodeScore_antimono [OF spec(2), of sys a u b u' cvt] load by blast
  have hv: "\<And>hv. hv \<in> set (spec_HotValue (policy_Spec (ds_schedulerPolicy ds))) \<Longrightarrow> 0 < hot_Count hv"
    "int (length (spec_HotValue (policy_Spec (ds_schedulerPolicy ds)))) \<le> 2 ^ 20"
    using spec(1,4,5) by auto
  let ?h = "hot_value cvt (sys_now sys) (ds_bindingRecords ds) nodeName (spec_HotValue spec)"
  have "Dynamic_Score cvt sys get_info ds p nodeName = Ok (NormalizeScore (s - 10 * ?h) 100 0, NilStatus)"
    "Dynamic_Score cvt sys get_info' ds p nodeName = Ok (NormalizeScore (s' - 10 * ?h) 100 0, NilStatus)"
    using Dynamic_Score_formula [where get_info = get_info and nodeName = nodeName, OF assms(1) br, of cvt sys s p] 
      Dynamic_Score_formula [where get_info = get_info' and nodeName = nodeName, OF assms(2) br, of cvt sys s' p]
      s hv spec(1) by simp_all
  moreover have "NormalizeScore (s' - 10 * ?h) 100 0 \<le> NormalizeScore (s - 10 * ?h) 100 0"
    using s(3) by (intro NormalizeScore_mono) simp
  ultimately show ?thesis by blast
qed

lemma example_usage:
  "GetResourceUsage (example_sys (100 * second)) (Some [(''cpu_usage_avg_5m'', ''0.25000,1970-01-01T00:00:00Z'')])
     ''cpu_usage_avg_5m'' (8 * minute) = Ok (Inr (Fin False (1 / 4)))"
  by code_simp

lemma example_good: "good_weight f_one" "good_usage (Fin False (1 / 4))" "good_usage f_one"
  unfolding good_weight_def good_usage_def by code_simp+

lemma example_fast:
  "length (spec_Priority example_spec) < 2 ^ 53" "length (spec_HotValue example_spec) \<le> 2 ^ 20"
  by (simp_all add: example_spec_def)

theorem dynamic_score_antitone_witness:
  "\<exists>s s'. Dynamic_Score (\<lambda>_. 0) (example_sys (100 * second))
       (\<lambda>n. Inr (Some (example_node (Some [(''cpu_usage_avg_5m'', ''0.25000,1970-01-01T00:00:00Z'')]))))
       example_scheduler plain_pod ''n1'' = Ok (s, NilStatus) \<and>
     Dynamic_Score (\<lambda>_. 0) (example_sys (100 * second)) (\<lambda>n. Inr (Some (example_node None)))
       example_scheduler plain_pod ''n1'' = Ok (s', NilStatus) \<and> s' \<le> s"
proof -
  let ?a = "Some [(''cpu_usage_avg_5m'', ''0.25000,1970-01-01T00:00:00Z'')]"
  have e: "eff_usage (example_sys (100 * second)) ?a (spec_SyncPeriod example_spec) ''cpu_usage_avg_5m'' = Ok (Fin False (1 / 4))"
    "eff_usage (example_sys (100 * second)) None (spec_SyncPeriod example_spec) ''cpu_usage_avg_5m'' = Ok f_one"
    using example_usage by (simp_all add: eff_usage_def example_spec_def int64_def usage.read_missing)
  show ?thesis
    by (rule dynamic_score_antitone [where a = ?a and b = None and node = "example_node None" and spec = example_spec
          and u = "\<lambda>_. Fin False (1 / 4)" and u' = "\<lambda>_. f_one"])
       (simp_all add: example_node_def example_scheduler_def NewBindingRecords_wf example_fast example_good,
        simp_all add: example_spec_def NewBindingRecords_def, use e example_good in \<open>simp_all add: example_spec_def\<close>)
qed



lemma timeline_antimono:
  assumes "valid_instant now" "0 \<le> r" "r \<le> r'" "r' < 2 ^ 63"
  shows "timeline cvt now r' \<le> timeline cvt now r"
  using timeline_eq [of now r cvt] timeline_eq [of now r' cvt] whole_seconds_mono [of r r' cvt] assms by simp

text \<open>After a recycling every count looks back no further than the recycling range.\<close>

lemma BindingsGC_counts:
  assumes "br_wf br" "br_gcTimeRange br \<noteq> 0" "0 \<le> br_gcTimeRange br" "br_gcTimeRange br < 2 ^ 63" "valid_instant now"
  shows "\<exists>br'. BindingsGC cvt now br = Ok br' \<and> br_wf br' \<and>
    (\<forall>n r. 0 \<le> r \<longrightarrow> r < 2 ^ 63 \<longrightarrow>
      GetLastNodeBindingCount cvt now br' n r = GetLastNodeBindingCount cvt now br n (min r (br_gcTimeRange br)))"
proof -
  let ?g = "br_gcTimeRange br"
  obtain br' where br': "BindingsGC cvt now br = Ok br'" "br_wf br'"
      "contents br' = {#b \<in># contents br. timeline cvt now ?g < bind_Timestamp b#}"
    using BindingsGC_spec [OF assms(1,2), of cvt now] by blast
  have "GetLastNodeBindingCount cvt now br' n r = GetLastNodeBindingCount cvt now br n (min r ?g)"
    if r: "0 \<le> r" "r < 2 ^ 63" for n r
  proof -
    have "timeline cvt now (min r ?g) = max (timeline cvt now r) (timeline cvt now ?g)"
      using timeline_antimono [OF assms(5), of r ?g cvt] timeline_antimono [OF assms(5), of ?g r cvt] r assms(3,4)
      by (auto simp: min_def max_def)
    then show ?thesis
      using br'(3)
      by (auto simp: GetLastNodeBindingCount_eq recent_def filter_filter_mset intro!: arg_cong [where f = size] filter_mset_cong)
  qed
  then show ?thesis using br'(1,2) by blast
qed

text \<open>So it leaves the hot values of every policy that looks back at most as far as that range.\<close>

lemma BindingsGC_keeps_hot_value:
  assumes "br_wf br" "br_gcTimeRange br < 2 ^ 63" "valid_instant now"
    and spec: "\<forall>hv \<in> set hvs. 0 \<le> hot_TimeRange hv \<and> hot_TimeRange hv \<le> br_gcTimeRange br"
  shows "\<exists>br'. BindingsGC cvt now br = Ok br' \<and> br_wf br' \<and>
    (\<forall>n h. hot_value_loop cvt now br' n hvs h = hot_value_loop cvt now br n hvs h)"
proof (cases "br_gcTimeRange br = 0 \<or> hvs = []")
  case True
  then show ?thesis
    using BindingsGC_disabled [of br cvt now] BindingsGC_spec [OF assms(1), of cvt now] assms(1) by fastforce
next
  case False
  then have "0 \<le> br_gcTimeRange br" using spec by (cases hvs) auto
  then obtain br' where br': "BindingsGC cvt now br = Ok br'" "br_wf br'"
      "\<And>n r. 0 \<le> r \<Longrightarrow> r < 2 ^ 63 \<Longrightarrow>
        GetLastNodeBindingCount cvt now br' n r = GetLastNodeBindingCount cvt now br n (min r (br_gcTimeRange br))"
    using BindingsGC_counts [OF assms(1) _ _ assms(2,3), of cvt] False by blast
  have count: "GetLastNodeBindingCount cvt now br' n (hot_TimeRange hv) =
      GetLastNodeBindingCount cvt now br n (hot_TimeRange hv)" if "hv \<in> set hvs" for hv n
    using br'(3) [of "hot_TimeRange hv" n] spec that assms(2) by (auto simp: min_def)
  have "hot_value_loop cvt now br' n hs h = hot_value_loop cvt now br n hs h" if "set hs \<subseteq> set hvs" for n hs h
    using that by (induction hs arbitrary: h) (simp_all add: count)
  then show ?thesis using br'(1,2) by blast
qed

text \<open>A log with one binding that is older than five minutes, and two that are not.\<close>

definition example_aged_scheduler :: DynamicScheduler where
  "example_aged_scheduler =
     example_scheduler\<lparr>ds_bindingRecords := \<lparr>br_size = 3,
        br_bindings = [example_binding ''n1'' 690, example_binding ''n1'' 950, example_binding ''n1'' 960],
        br_gcTimeRange = 5 * minute\<rparr>\<rparr>"

lemma example_aged_wf: "br_wf (ds_bindingRecords example_aged_scheduler)"
  by (simp add: br_wf_def example_aged_scheduler_def heap_from_def Less_def example_binding_def less_Suc_eq parent_def numeral_2_eq_2)

text \<open>C25. Recycling is invisible to scoring as long as every hot value policy looks back at most as far as the
  recycling range: a tick of the collector leaves every node's score at that clock reading as it was.\<close>

theorem gc_keeps_scores:
  assumes br: "br_wf (ds_bindingRecords ds)" "br_gcTimeRange (ds_bindingRecords ds) < 2 ^ 63"
    and now: "valid_instant (sys_now sys)"
    and spec: "\<forall>hv \<in> set (spec_HotValue (policy_Spec (ds_schedulerPolicy ds))).
      0 \<le> hot_TimeRange hv \<and> hot_TimeRange hv \<le> br_gcTimeRange (ds_bindingRecords ds)"
  shows "\<exists>ds'. Dynamic_gc_tick cvt sys ds = Ok ds' \<and>
    Dynamic_Score cvt sys get_info ds' p nodeName = Dynamic_Score cvt sys get_info ds p nodeName"
  using BindingsGC_keeps_hot_value [OF br now spec, of cvt]
  by (auto simp: Dynamic_gc_tick_def Dynamic_Score_def Let_def split: sum.split option.split)

theorem gc_keeps_scores_witness:
  "\<exists>ds'. Dynamic_gc_tick (\<lambda>_. 0) (example_sys (1000 * second)) example_aged_scheduler = Ok ds' \<and>
    Dynamic_Score (\<lambda>_. 0) (example_sys (1000 * second)) (\<lambda>n. Inr (Some (example_node (Some [])))) ds' plain_pod ''n1'' =
    Dynamic_Score (\<lambda>_. 0) (example_sys (1000 * second)) (\<lambda>n. Inr (Some (example_node (Some [])))) example_aged_scheduler plain_pod ''n1''"
  by (rule gc_keeps_scores [OF example_aged_wf])
     (simp_all add: example_aged_scheduler_def example_scheduler_def example_sys_def example_spec_def)

text \<open>C37. The scheduler recycles bindings older than five minutes whatever its policy says: after a tick, the count
  of a node over any longer range is its count over five minutes only, so that a hot value policy with a longer
  range counts no more than one with a range of five minutes.\<close>

theorem scheduler_gc_truncates:
  assumes "NewDynamicScheduler load plArgs = Inr ds0" "br_wf (ds_bindingRecords ds)"
    and "br_gcTimeRange (ds_bindingRecords ds) = br_gcTimeRange (ds_bindingRecords ds0)"
    and "valid_instant (sys_now sys)" "5 * minute \<le> r" "r < 2 ^ 63"
  shows "\<exists>ds'. Dynamic_gc_tick cvt sys ds = Ok ds' \<and>
    GetLastNodeBindingCount cvt (sys_now sys) (ds_bindingRecords ds') nodeName r =
    GetLastNodeBindingCount cvt (sys_now sys) (ds_bindingRecords ds) nodeName (5 * minute)"
proof -
  have g: "br_gcTimeRange (ds_bindingRecords ds) = 5 * minute"
    using NewDynamicScheduler_wf(3) [OF assms(1)] assms(3) by simp
  have "min r (5 * minute) = 5 * minute" using assms(5) by simp
  then show ?thesis
    using BindingsGC_counts [OF assms(2) _ _ _ assms(4), of cvt] g assms(5,6) by (fastforce simp: Dynamic_gc_tick_def)
qed

theorem scheduler_gc_truncates_witness:
  "GetLastNodeBindingCount (\<lambda>_. 0) (1000 * second) (ds_bindingRecords example_aged_scheduler) ''n1'' (60 * minute) = 3 \<and>
   (\<exists>ds'. Dynamic_gc_tick (\<lambda>_. 0) (example_sys (1000 * second)) example_aged_scheduler = Ok ds' \<and>
     GetLastNodeBindingCount (\<lambda>_. 0) (1000 * second) (ds_bindingRecords ds') ''n1'' (60 * minute) = 2)"
proof -
  have count: "GetLastNodeBindingCount (\<lambda>_. 0) (1000 * second) (ds_bindingRecords example_aged_scheduler) ''n1'' (60 * minute) = 3"
    "GetLastNodeBindingCount (\<lambda>_. 0) (1000 * second) (ds_bindingRecords example_aged_scheduler) ''n1'' (5 * minute) = 2"
    by code_simp+
  show ?thesis
    using scheduler_gc_truncates [where load = "\<lambda>_. Inr (ds_schedulerPolicy example_scheduler)"
        and plArgs = "DynamicArgsObject
          \<lparr>dyn_TypeMeta = \<lparr>meta_Kind = '''', meta_APIVersion = ''''\<rparr>, dyn_PolicyConfigPath = ''p''\<rparr>" and ds = example_aged_scheduler
        and sys = "example_sys (1000 * second)" and r = "60 * minute" and cvt = "\<lambda>_. 0" and nodeName = "''n1''", OF _ example_aged_wf]
      count
    by (simp add: NewDynamicScheduler_def example_sys_def) (simp add: example_aged_scheduler_def NewBindingRecords_def)
qed

text \<open>C34. The code does not treat an infinite usage as full load: where the conversion of minus infinity gives the
  least \<open>int64\<close>, a node with an infinite usage and at least one unit of hot value wraps around and gets the
  highest score.\<close>

theorem infinite_usage_wins:
  assumes "get_info nodeName = Inr (Some node)"
    and "policy_Spec (ds_schedulerPolicy ds) = spec" "spec_Priority spec = [pr]" "good_weight (priority_Weight pr)"
    and "GetActiveDuration (spec_SyncPeriod spec) (priority_Name pr) = Inr d" "d \<noteq> 0"
    and "GetResourceUsage sys (node_Annotations node) (priority_Name pr) d = Ok (Inr (Inf False))"
    and "cvt (Inf True) = min_int64"
    and "hot_value_loop cvt (sys_now sys) (ds_bindingRecords ds) nodeName (spec_HotValue spec) 0 = Ok h"
      "1 \<le> h" "h \<le> 2 ^ 59"
  shows "Dynamic_Score cvt sys get_info ds p nodeName = Ok (100, NilStatus)"
proof -
  have "anno_get (node_Annotations node) (priority_Name pr) \<noteq> None"
    using assms(7) usage.read_missing by fastforce
  then obtain m where m: "node_Annotations node = Some m" by (cases "node_Annotations node") auto
  obtain w where w: "priority_Weight pr = Fin False w" "0 < w"
    using assms(4) good_weight_pos [OF assms(4)] by (cases "priority_Weight pr") (auto simp: good_weight_def split: if_splits)
  have "of_int64 100 = Fin False 100" by code_simp
  then have inf: "(f_one - Inf False) * Fin False w * of_int64 100 = Inf True"
    using w(2) by (simp add: minus_float64_def times_float64_def)
  have "is_float64 (Fin False w)" using assms(4) w(1) by (simp add: good_weight_def)
  then have zw: "f_zero + Fin False w = Fin False w"
    using w(2) by (simp add: plus_float64_def fl_def fl_mag_def Let_def)
  have "getNodeScore cvt sys (Some m) spec = Ok min_int64"
    using assms(3,5,6,7,8) m w inf zw
    by (simp add: getNodeScore_def getScore_def plus_float64_def divide_float64_def to_int64_def)
  moreover have "wrap64 (h * 10) = h * 10" using assms(10,11) by (intro wrap64_id) (auto simp: int64_def)
  moreover have "100 < wrap64 (min_int64 - h * 10)"
  proof -
    have "wrap64 (min_int64 - h * 10) = wrap64 (2 ^ 63 - h * 10)"
      unfolding wrap64_eq_iff using mod_add_self2 [of "min_int64 - h * 10" "2 ^ 64"] by simp
    also have "\<dots> = 2 ^ 63 - h * 10" using assms(10,11) by (intro wrap64_id) (simp add: int64_def)
    finally show ?thesis using assms(11) by simp
  qed
  ultimately show ?thesis
    using assms(1,2,9) m by (simp add: Dynamic_Score_def Let_def NormalizeScore_def)
qed

lemma example_infinite:
  "GetResourceUsage (example_sys (100 * second)) (Some [(''cpu_usage_avg_5m'', ''+Inf,1970-01-01T00:00:00Z'')])
     ''cpu_usage_avg_5m'' (8 * minute) = Ok (Inr (Inf False))"
  by code_simp

definition example_hot_scheduler :: DynamicScheduler where
  "example_hot_scheduler =
     example_scheduler\<lparr>ds_bindingRecords := \<lparr>br_size = 2,
        br_bindings = [example_binding ''n1'' 90, example_binding ''n1'' 95], br_gcTimeRange = 5 * minute\<rparr>\<rparr>"

lemma example_hot_loop:
  "hot_value_loop (\<lambda>_. min_int64) (sys_now (example_sys (100 * second))) (ds_bindingRecords example_hot_scheduler) ''n1''
     (spec_HotValue example_spec) 0 = Ok 1"
  by code_simp

theorem infinite_usage_wins_witness:
  "Dynamic_Score (\<lambda>_. min_int64) (example_sys (100 * second))
     (\<lambda>n. Inr (Some (example_node (Some [(''cpu_usage_avg_5m'', ''+Inf,1970-01-01T00:00:00Z'')]))))
     example_hot_scheduler plain_pod ''n1'' = Ok (100, NilStatus)"
  by (rule infinite_usage_wins [OF _ _ _ _ _ _ _ _ example_hot_loop, where d = "8 * minute"
        and node = "example_node (Some [(''cpu_usage_avg_5m'', ''+Inf,1970-01-01T00:00:00Z'')])" and pr = "\<lparr>priority_Name = ''cpu_usage_avg_5m'', priority_Weight = f_one\<rparr>"])
     (use example_infinite example_good in \<open>simp_all add: example_hot_scheduler_def example_scheduler_def example_node_def
        example_spec_def int64_def\<close>)

text \<open>C8. The decision of \<open>Filter\<close>: a daemon set's pod passes, an unknown node is an error, and any other
  pod is rejected exactly when some predicate's load is readable, fresh and above its limit, with the first
  such predicate in the message. So a node without usable load data is never rejected.\<close>

theorem dynamic_filter_decision:
  assumes "GetLocation sys \<noteq> None"
  shows "Dynamic_Filter sys ds pod nodeInfo =
    Ok (if IsDaemonsetPod pod then NewStatus Success ''''
        else case nodeInfo of None \<Rightarrow> NewStatus Error ''node not found''
        | Some node \<Rightarrow>
            (case find (load_exceeds sys (node_Annotations node)
                    (spec_SyncPeriod (policy_Spec (ds_schedulerPolicy ds))))
                  (spec_Predicate (policy_Spec (ds_schedulerPolicy ds))) of
               None \<Rightarrow> NewStatus Success '''' | Some p \<Rightarrow> too_high (node_Name node) p))"
  using assms by (rule Dynamic_Filter_find)

theorem dynamic_filter_decision_witness:
  "Dynamic_Filter (example_sys (100 * second)) example_scheduler plain_pod
     (Some (example_node (Some [(''cpu_usage_avg_5m'', ''0.25000,1970-01-01T00:00:00Z'')]))) = Ok (NewStatus Success '''')"
proof -
  have "\<not> load_exceeds (example_sys (100 * second)) (Some [(''cpu_usage_avg_5m'', ''0.25000,1970-01-01T00:00:00Z'')])
      [\<lparr>sync_Name = ''cpu_usage_avg_5m'', sync_Period = 3 * minute\<rparr>]
      \<lparr>predicate_Name = ''cpu_usage_avg_5m'', predicate_MaxLimitPecent = Fin False (1 / 2)\<rparr>"
    using example_usage by (simp add: load_exceeds_def int64_def less_float64_def)
  then show ?thesis
    by (subst dynamic_filter_decision) (simp_all add: example_location IsDaemonsetPod_def plain_pod_def example_node_def
        example_scheduler_def example_spec_def)
qed

end
