(* ===== verification/Ara_Plugin.thy ===== *)
theory Ara_Plugin
  imports Crane_Utils Plugin_Args
begin

text \<open>
  \<open>pkg/plugins/applicationresourceaware\<close>: the filter plugin that predicts the load of a node over a
  day. For every policy named \<open>range:RESOURCE:APP_METRIC:NODE_METRIC\<close> it adds, for each slot of the
  day, the node's usage, the usage of the pod's deployment and the usage of pods scheduled or
  deleted since (the delta), and rejects the node when the sum exceeds the limit in some slot.
  The listers of replica sets and deployments are parameters; metrics are not modelled.
\<close>

section \<open>stats.go\<close>

text \<open>The loop over the slots. \<open>deltas\<close> and \<open>deploys\<close> are \<open>None\<close> when the source ignores them because
  their length does not match.\<close>

fun slot_exceeds ::
  "float64 \<Rightarrow> float64 \<Rightarrow> float64 list option \<Rightarrow> float64 list option \<Rightarrow> nat \<Rightarrow> float64 list \<Rightarrow> bool"
where
  "slot_exceeds limit capacity deltas deploys i [] = False"
| "slot_exceeds limit capacity deltas deploys i (nu # nus) =
     (let usage = nu * capacity;
          usage = (case deltas of None \<Rightarrow> usage | Some ds \<Rightarrow> usage + ds ! i);
          usage = (case deploys of None \<Rightarrow> usage | Some ds \<Rightarrow> usage + ds ! i);
          utilization = usage / capacity
      in if limit < utilization then True
         else slot_exceeds limit capacity deltas deploys (Suc i) nus)"

definition predictingOverLoad ::
  "string \<Rightarrow> string \<Rightarrow> string \<Rightarrow> PredicatePolicy \<Rightarrow> int \<Rightarrow> bool" where
  "predictingOverLoad nodeUsageStr deployUsageStr deltaUsageStr policy nodeCapacity =
     (if f_eq (predicate_MaxLimitPecent policy) f_zero then False
      else
        (case ParseRangeMetricsByString nodeUsageStr of
           Inl err \<Rightarrow> False
         | Inr nodeUsage \<Rightarrow>
            (case ParseRangeMetricsByString deployUsageStr of
               Inl err \<Rightarrow> False
             | Inr deployUsage \<Rightarrow>
                (case (if deltaUsageStr = '''' then Inr (replicate (length nodeUsage) f_zero)
                       else ParseRangeMetricsByString deltaUsageStr) of
                   Inl err \<Rightarrow> False
                 | Inr deltaUsage \<Rightarrow>
                     let deployInvalid = (length nodeUsage \<noteq> length deployUsage);
                         deltaInvalid = (length nodeUsage \<noteq> length deltaUsage)
                     in slot_exceeds (predicate_MaxLimitPecent policy) (of_int64 nodeCapacity)
                          (if deltaInvalid then None else Some deltaUsage)
                          (if deployInvalid then None else Some deployUsage) 0 nodeUsage))))"

definition parsePolicyName :: "string \<Rightarrow> string list fallible" where
  "parsePolicyName name =
     (let nameSlice = go_split CHR '':'' name in
      if length nameSlice \<noteq> 4 then Inl (Plain (''illegel value: '' @ name)) else Inr nameSlice)"

section \<open>filter.go\<close>

abbreviation Ara_Name :: string where "Ara_Name \<equiv> ''ApplicationResourceAware''"

record ApplicationResourceAware =
  ara_schedulerPolicy :: DynamicSchedulerPolicy

text \<open>One round of the loop over the policies: whether the policy rejects the node. Every \<open>continue\<close>
  of the source is \<open>Ok False\<close>.\<close>

definition ara_policy_rejects ::
  "sys \<Rightarrow> PolicySpec \<Rightarrow> Node \<Rightarrow> Deployment \<Rightarrow> PredicatePolicy \<Rightarrow> bool outcome" where
  "ara_policy_rejects sys spec node deploy policy =
     (if \<not> has_prefix (predicate_Name policy) RangePrefix then Ok False
      else
        (case parsePolicyName (predicate_Name policy) of
           Inl err \<Rightarrow> Ok False
         | Inr nameSlice \<Rightarrow>
             let resource = nameSlice ! 1; deployMetricName = nameSlice ! 2;
                 nodeMetricName = nameSlice ! 3
             in case GetActiveDuration (spec_SyncPeriod spec) nodeMetricName of
                  Inl err \<Rightarrow> Ok False
                | Inr nodeActive \<Rightarrow>
                    if nodeActive = 0 then Ok False
                    else obind (GetResourceUsageRange sys (node_Annotations node) nodeMetricName nodeActive) (\<lambda>r.
                      case r of
                        Inl err \<Rightarrow> Ok False
                      | Inr nodeUsages \<Rightarrow>
                         (case GetActiveDuration (spec_SyncAppPeriod spec) deployMetricName of
                            Inl err \<Rightarrow> Ok False
                          | Inr deployActive \<Rightarrow>
                              if deployActive = 0 then Ok False
                              else obind (GetResourceUsageRange sys (deploy_Annotations deploy)
                                            deployMetricName deployActive) (\<lambda>r.
                                case r of
                                  Inl err \<Rightarrow> Ok False
                                | Inr deployUsages \<Rightarrow>
                                   (case GetDeltaUsageRange (node_Annotations node)
                                           (DeltaPrefixName @ deployMetricName) of
                                      Inl err \<Rightarrow> Ok False
                                    | Inr deltaUsages \<Rightarrow>
                                        let nodeCapacity =
                                              (if resource = ''cpu'' then node_CpuCapacity node
                                               else if resource = ''memory'' then node_MemoryCapacity node
                                               else 0)
                                        in Ok (predictingOverLoad nodeUsages deployUsages deltaUsages
                                                 policy nodeCapacity)))))))"

fun ara_filter_policies ::
  "sys \<Rightarrow> PolicySpec \<Rightarrow> string \<Rightarrow> Node \<Rightarrow> Deployment \<Rightarrow> PredicatePolicy list \<Rightarrow> Status outcome" where
  "ara_filter_policies sys spec podName node deploy [] = Ok NilStatus"
| "ara_filter_policies sys spec podName node deploy (p # ps) =
     obind (ara_policy_rejects sys spec node deploy p) (\<lambda>rejects.
       if rejects then
         Ok (NewStatus Unschedulable
           (''Plugin['' @ Ara_Name @ ''] node['' @ node_Name node @ ''] policy['' @ predicate_Name p @
            ''] for pod['' @ podName @ ''] is too high''))
       else ara_filter_policies sys spec podName node deploy ps)"

definition Ara_Filter ::
  "sys \<Rightarrow> (string \<Rightarrow> string \<Rightarrow> ReplicaSet fallible) \<Rightarrow> (string \<Rightarrow> string \<Rightarrow> Deployment fallible) \<Rightarrow>
   ApplicationResourceAware \<Rightarrow> 'a Pod_scheme \<Rightarrow> Node option \<Rightarrow> Status outcome" where
  "Ara_Filter sys get_rs get_deploy ara pod nodeInfo =
     (case GetDeploymentByPod get_rs get_deploy pod of
        Inl err \<Rightarrow> Ok NilStatus
      | Inr deploy \<Rightarrow>
         (case nodeInfo of
            None \<Rightarrow> Ok (NewStatus Error ''node not found'')
          | Some node \<Rightarrow>
              if node_Annotations node = None then Ok NilStatus
              else
                ara_filter_policies sys (policy_Spec (ara_schedulerPolicy ara)) (pod_Name pod) node deploy
                  (spec_Predicate (policy_Spec (ara_schedulerPolicy ara)))))"

text \<open>\<open>New\<close>; starting informers and registering metrics have no result the plugin reads.\<close>

definition Ara_New ::
  "(string \<Rightarrow> DynamicSchedulerPolicy fallible) \<Rightarrow> runtime_object \<Rightarrow> ApplicationResourceAware fallible" where
  "Ara_New load plArgs =
     (case plArgs of
        AraArgsObject args \<Rightarrow>
          (case load (ara_PolicyConfigPath args) of
             Inl err \<Rightarrow> Inl (Wrap ''failed to get scheduler policy from config file: '' err)
           | Inr schedulerPolicy \<Rightarrow> Inr \<lparr>ara_schedulerPolicy = schedulerPolicy\<rparr>)
      | _ \<Rightarrow>
          Inl (Plain (''want args to be of type ApplicationResourceAwareArgs, got '' @
            type_name plArgs @ ''.'')))"

section \<open>Lemmas\<close>

lemma length_4_nth: "length xs = 4 \<Longrightarrow> xs = [xs ! 0, xs ! 1, xs ! 2, xs ! 3]"
  by (intro nth_equalityI) (auto simp: less_Suc_eq numeral_eq_Suc nth_Cons')

lemma parsePolicyName_Inr:
  "parsePolicyName name = Inr xs \<longleftrightarrow> go_split CHR '':'' name = xs \<and> length xs = 4"
  by (auto simp: parsePolicyName_def Let_def)

lemma parsePolicyName_join:
  assumes "CHR '':'' \<notin> set a \<union> set b \<union> set c \<union> set d"
  shows "parsePolicyName (a @ '':'' @ b @ '':'' @ c @ '':'' @ d) = Inr [a, b, c, d]"
proof -
  have "go_split CHR '':'' (a @ '':'' @ b @ '':'' @ c @ '':'' @ d) = [a, b, c, d]"
    using go_split_join [of "[a, b, c, d]" "CHR '':''"] assms by simp
  then show ?thesis by (simp add: parsePolicyName_def)
qed

text \<open>The predicted utilization of slot \<open>i\<close>.\<close>

definition predicted ::
  "float64 \<Rightarrow> float64 list option \<Rightarrow> float64 list option \<Rightarrow> nat \<Rightarrow> float64 \<Rightarrow> float64" where
  "predicted capacity deltas deploys i nu =
     (let u = nu * capacity;
          u = (case deltas of None \<Rightarrow> u | Some ds \<Rightarrow> u + ds ! i);
          u = (case deploys of None \<Rightarrow> u | Some ds \<Rightarrow> u + ds ! i)
      in u / capacity)"

lemma slot_exceeds_iff:
  "slot_exceeds limit capacity deltas deploys i nus \<longleftrightarrow>
     (\<exists>j < length nus. limit < predicted capacity deltas deploys (i + j) (nus ! j))"
proof (induction nus arbitrary: i)
  case (Cons nu nus)
  have "slot_exceeds limit capacity deltas deploys i (nu # nus) \<longleftrightarrow>
      limit < predicted capacity deltas deploys i nu \<or>
      slot_exceeds limit capacity deltas deploys (Suc i) nus"
    by (simp add: predicted_def Let_def)
  then show ?case unfolding Cons.IH by (simp add: Ex_less_Suc2)
qed simp

lemma ara_policy_returns:
  assumes "GetLocation sys \<noteq> None"
  shows "\<exists>b. ara_policy_rejects sys spec node deploy p = Ok b"
proof -
  have r: "returns (GetResourceUsageRange sys anno key d)" for anno key d
    using usage_range.read_returns [OF assms] by (simp add: returns_iff)
  have "returns (ara_policy_rejects sys spec node deploy p)"
    unfolding ara_policy_rejects_def Let_def
    by (intro returns_intros r)
  then show ?thesis by (simp add: returns_iff)
qed

lemma ara_filter_find:
  assumes "\<And>p. \<exists>b. ara_policy_rejects sys spec node deploy p = Ok b"
  shows "ara_filter_policies sys spec podName node deploy ps =
    Ok (case find (\<lambda>p. ara_policy_rejects sys spec node deploy p = Ok True) ps of
          None \<Rightarrow> NilStatus
        | Some p \<Rightarrow> NewStatus Unschedulable
           (''Plugin['' @ Ara_Name @ ''] node['' @ node_Name node @ ''] policy['' @ predicate_Name p @
            ''] for pod['' @ podName @ ''] is too high''))"
proof (induction ps)
  case (Cons p ps)
  obtain b where "ara_policy_rejects sys spec node deploy p = Ok b" using assms by blast
  then show ?case using Cons.IH by (cases b) simp_all
qed simp

section \<open>The decision of the filter\<close>

definition resource_capacity :: "Node \<Rightarrow> string \<Rightarrow> int" where
  "resource_capacity node resource =
     (if resource = ''cpu'' then node_CpuCapacity node
      else if resource = ''memory'' then node_MemoryCapacity node else 0)"

text \<open>The usages of a policy for a node and a deployment: the name of the policy has four parts, both metrics have an
  active duration, and the ranges of the node, the deployment and the delta are fresh and readable.\<close>

definition readable_usages ::
  "sys \<Rightarrow> PolicySpec \<Rightarrow> Node \<Rightarrow> Deployment \<Rightarrow> PredicatePolicy \<Rightarrow> string \<Rightarrow>
   float64 list \<Rightarrow> float64 list \<Rightarrow> float64 list \<Rightarrow> bool" where
  "readable_usages sys spec node deploy p resource nodes deploys deltas \<longleftrightarrow>
     has_prefix (predicate_Name p) RangePrefix \<and>
     (\<exists>pre app metric na da ns ds dl.
        go_split CHR '':'' (predicate_Name p) = [pre, resource, app, metric] \<and>
        GetActiveDuration (spec_SyncPeriod spec) metric = Inr na \<and> na \<noteq> 0 \<and>
        GetActiveDuration (spec_SyncAppPeriod spec) app = Inr da \<and> da \<noteq> 0 \<and>
        GetResourceUsageRange sys (node_Annotations node) metric na = Ok (Inr ns) \<and>
        GetResourceUsageRange sys (deploy_Annotations deploy) app da = Ok (Inr ds) \<and>
        GetDeltaUsageRange (node_Annotations node) (DeltaPrefixName @ app) = Inr dl \<and>
        ParseRangeMetricsByString ns = Inr nodes \<and> ParseRangeMetricsByString ds = Inr deploys \<and>
        (if dl = '''' then deltas = replicate (length nodes) f_zero else ParseRangeMetricsByString dl = Inr deltas))"

text \<open>In some slot of the day the predicted utilization is above the limit; a range of another length than the node's
  is left out of the prediction.\<close>

definition day_overloaded :: "sys \<Rightarrow> PolicySpec \<Rightarrow> Node \<Rightarrow> Deployment \<Rightarrow> PredicatePolicy \<Rightarrow> bool" where
  "day_overloaded sys spec node deploy p \<longleftrightarrow>
     \<not> f_eq (predicate_MaxLimitPecent p) f_zero \<and>
     (\<exists>resource nodes deploys deltas.
        readable_usages sys spec node deploy p resource nodes deploys deltas \<and>
        (\<exists>j < length nodes. predicate_MaxLimitPecent p <
           predicted (of_int64 (resource_capacity node resource))
             (if length nodes \<noteq> length deltas then None else Some deltas)
             (if length nodes \<noteq> length deploys then None else Some deploys) j (nodes ! j)))"

lemma predictingOverLoad_iff:
  "predictingOverLoad ns ds dl p cap \<longleftrightarrow>
     \<not> f_eq (predicate_MaxLimitPecent p) f_zero \<and>
     (\<exists>nodes deploys deltas. ParseRangeMetricsByString ns = Inr nodes \<and> ParseRangeMetricsByString ds = Inr deploys \<and>
        (if dl = '''' then deltas = replicate (length nodes) f_zero else ParseRangeMetricsByString dl = Inr deltas) \<and>
        (\<exists>j < length nodes. predicate_MaxLimitPecent p <
           predicted (of_int64 cap) (if length nodes \<noteq> length deltas then None else Some deltas)
             (if length nodes \<noteq> length deploys then None else Some deploys) j (nodes ! j)))"
  by (cases "ParseRangeMetricsByString ns"; cases "ParseRangeMetricsByString ds"; cases "dl = ''''";
      cases "ParseRangeMetricsByString dl"; simp add: predictingOverLoad_def slot_exceeds_iff Let_def)

lemma obind_InrE:
  assumes "obind m f = Ok True" "\<And>e. f (Inl e) = Ok False"
  obtains v where "m = Ok (Inr v)" "f (Inr v) = Ok True"
proof (cases m)
  case (Ok r)
  then show thesis using assms that by (cases r) auto
qed (use assms in auto)

lemma ara_policy_rejects_prediction:
  "ara_policy_rejects sys spec node deploy p = Ok True \<longleftrightarrow>
     has_prefix (predicate_Name p) RangePrefix \<and>
     (\<exists>pre resource app metric na da ns ds dl.
        go_split CHR '':'' (predicate_Name p) = [pre, resource, app, metric] \<and>
        GetActiveDuration (spec_SyncPeriod spec) metric = Inr na \<and> na \<noteq> 0 \<and>
        GetActiveDuration (spec_SyncAppPeriod spec) app = Inr da \<and> da \<noteq> 0 \<and>
        GetResourceUsageRange sys (node_Annotations node) metric na = Ok (Inr ns) \<and>
        GetResourceUsageRange sys (deploy_Annotations deploy) app da = Ok (Inr ds) \<and>
        GetDeltaUsageRange (node_Annotations node) (DeltaPrefixName @ app) = Inr dl \<and>
        predictingOverLoad ns ds dl p (resource_capacity node resource))"
  (is "?lhs \<longleftrightarrow> ?rhs")
proof
  assume ?lhs
  then obtain xs where xs: "has_prefix (predicate_Name p) RangePrefix" "parsePolicyName (predicate_Name p) = Inr xs"
    by (auto simp: ara_policy_rejects_def split: if_splits sum.splits)
  obtain pre resource app metric where parts: "xs = [pre, resource, app, metric]"
    using xs(2) length_4_nth by (metis parsePolicyName_Inr)
  have "go_split CHR '':'' (predicate_Name p) = [pre, resource, app, metric]" using xs(2) parts by (simp add: parsePolicyName_Inr)
  moreover obtain na where na: "GetActiveDuration (spec_SyncPeriod spec) metric = Inr na" "na \<noteq> 0"
    using \<open>?lhs\<close> xs parts by (cases "GetActiveDuration (spec_SyncPeriod spec) metric") (auto simp: ara_policy_rejects_def split: if_splits)
  moreover obtain ns where ns: "GetResourceUsageRange sys (node_Annotations node) metric na = Ok (Inr ns)"
    using \<open>?lhs\<close> xs parts na by (auto simp: ara_policy_rejects_def elim: obind_InrE)
  moreover obtain da where da: "GetActiveDuration (spec_SyncAppPeriod spec) app = Inr da" "da \<noteq> 0"
    using \<open>?lhs\<close> xs parts na ns by (cases "GetActiveDuration (spec_SyncAppPeriod spec) app") (auto simp: ara_policy_rejects_def split: if_splits)
  moreover obtain ds where ds: "GetResourceUsageRange sys (deploy_Annotations deploy) app da = Ok (Inr ds)"
    using \<open>?lhs\<close> xs parts na ns da by (auto simp: ara_policy_rejects_def elim: obind_InrE)
  moreover obtain dl where dl: "GetDeltaUsageRange (node_Annotations node) (DeltaPrefixName @ app) = Inr dl"
    using \<open>?lhs\<close> xs parts na ns da ds
    by (cases "GetDeltaUsageRange (node_Annotations node) (DeltaPrefixName @ app)") (auto simp: ara_policy_rejects_def)
  moreover have "predictingOverLoad ns ds dl p (resource_capacity node resource)"
    using \<open>?lhs\<close> xs parts na ns da ds dl by (simp add: ara_policy_rejects_def resource_capacity_def Let_def)
  ultimately show ?rhs using xs(1) by blast
next
  assume ?rhs
  then show ?lhs
    by (elim exE conjE) (simp add: ara_policy_rejects_def parsePolicyName_def resource_capacity_def Let_def)
qed

lemma ara_policy_rejects_iff:
  assumes "GetLocation sys \<noteq> None"
  shows "ara_policy_rejects sys spec node deploy p = Ok (day_overloaded sys spec node deploy p)"
proof -
  obtain b where b: "ara_policy_rejects sys spec node deploy p = Ok b" using ara_policy_returns [OF assms] by blast
  have "ara_policy_rejects sys spec node deploy p = Ok True \<longleftrightarrow> day_overloaded sys spec node deploy p"
    unfolding ara_policy_rejects_prediction predictingOverLoad_iff day_overloaded_def readable_usages_def by blast
  then show ?thesis using b by auto
qed

text \<open>C20. The filter looks a day ahead and rejects exactly the overloads it predicts: for a pod of a deployment and a
  node with annotations it returns a rejection that names the first policy for which, in some slot of the day,
  the node's usage plus the deltas plus the deployment's usage, relative to the capacity, is above the limit, and
  accepts the node when there is none; policies it cannot read never reject.\<close>

theorem ara_filter_decision:
  assumes "GetLocation sys \<noteq> None" "GetDeploymentByPod get_rs get_deploy pod = Inr deploy" "node_Annotations node \<noteq> None"
  shows "Ara_Filter sys get_rs get_deploy ara pod (Some node) =
    Ok (case find (day_overloaded sys (policy_Spec (ara_schedulerPolicy ara)) node deploy)
              (spec_Predicate (policy_Spec (ara_schedulerPolicy ara))) of
          None \<Rightarrow> NilStatus
        | Some p \<Rightarrow> NewStatus Unschedulable
           (''Plugin['' @ Ara_Name @ ''] node['' @ node_Name node @ ''] policy['' @ predicate_Name p @
            ''] for pod['' @ pod_Name pod @ ''] is too high''))"
  using assms(2,3) ara_filter_find [OF ara_policy_returns [OF assms(1)]]
  by (auto simp: Ara_Filter_def ara_policy_rejects_iff [OF assms(1)])

definition example_ara :: ApplicationResourceAware where
  "example_ara = \<lparr>ara_schedulerPolicy = \<lparr>policy_TypeMeta = \<lparr>meta_Kind = '''', meta_APIVersion = ''''\<rparr>,
     policy_Spec = \<lparr>spec_SyncPeriod = [\<lparr>sync_Name = ''node_cpu'', sync_Period = minute\<rparr>],
       spec_SyncAppPeriod = [\<lparr>sync_Name = ''app_cpu'', sync_Period = minute\<rparr>],
       spec_Predicate = [\<lparr>predicate_Name = ''range:gpu:app_cpu:node_cpu'', predicate_MaxLimitPecent = Fin False (3 / 4)\<rparr>],
       spec_Priority = [], spec_HotValue = []\<rparr>\<rparr>\<rparr>"

definition example_ara_node :: Node where
  "example_ara_node = \<lparr>node_Name = ''n1'', node_Annotations = Some [(''node_cpu'', ''0.25000,1970-01-01T00:00:00Z'')],
     node_Addresses = [], node_CpuCapacity = 4, node_MemoryCapacity = 8\<rparr>"

definition example_deployment :: Deployment where
  "example_deployment = \<lparr>deploy_Namespace = ''ns'', deploy_Name = ''d'',
     deploy_Annotations = Some [(''app_cpu'', ''0.50000,1970-01-01T00:00:00Z'')], deploy_Replicas = Some 1\<rparr>"

definition example_app_pod :: Pod where
  "example_app_pod = \<lparr>pod_Namespace = ''ns'', pod_Name = ''web'', pod_OwnerReferences = [\<lparr>ref_Kind = ''ReplicaSet'', ref_Name = ''r''\<rparr>],
     pod_Annotations = None, pod_NodeName = '''', pod_DeletionTimestamp = None\<rparr>"

definition example_rs :: ReplicaSet where
  "example_rs = \<lparr>rs_OwnerReferences = [\<lparr>ref_Kind = ''Deployment'', ref_Name = ''d''\<rparr>]\<rparr>"

theorem ara_filter_decision_witness:
  "Ara_Filter (example_sys (100 * second)) (\<lambda>_ _. Inr example_rs) (\<lambda>_ _. Inr example_deployment) example_ara example_app_pod
      (Some example_ara_node) =
    Ok (case find (day_overloaded (example_sys (100 * second)) (policy_Spec (ara_schedulerPolicy example_ara)) example_ara_node
              example_deployment) (spec_Predicate (policy_Spec (ara_schedulerPolicy example_ara))) of
          None \<Rightarrow> NilStatus
        | Some p \<Rightarrow> NewStatus Unschedulable
           (''Plugin['' @ Ara_Name @ ''] node['' @ node_Name example_ara_node @ ''] policy['' @ predicate_Name p @
            ''] for pod['' @ pod_Name example_app_pod @ ''] is too high''))"
  by (rule ara_filter_decision)
     (simp_all add: example_location GetDeploymentByPod_def example_app_pod_def example_rs_def example_deployment_def example_ara_node_def)

lemma float_plus_zero:
  assumes "is_float64 x" "finite64 x"
  shows "val (Fin s 0 + x) = val x" "finite64 (Fin s 0 + x)" "val (x + f_zero) = val x" "finite64 (x + f_zero)"
  using assms by (cases x; auto simp: plus_float64_def fl_def fl_mag_def Let_def split: if_splits)+

lemma positive_sum_cong:
  assumes "finite64 a" "finite64 b" "finite64 a'" "finite64 b'" "val a' = val a" "val b' = val b"
  shows "f_zero < a' + b' \<longleftrightarrow> f_zero < a + b"
proof -
  obtain s1 q1 s2 q2 s3 q3 s4 q4 where "a = Fin s1 q1" "b = Fin s2 q2" "a' = Fin s3 q3" "b' = Fin s4 q4"
    using assms(1-4) by (metis finite64.elims(2))
  moreover from this have "q3 = 0 \<longleftrightarrow> q1 = 0" "q4 = 0 \<longleftrightarrow> q2 = 0" using assms(5,6) by (auto split: if_splits)
  ultimately show ?thesis using assms(5,6) by (auto simp: plus_float64_def less_float64_def)
qed

lemma over_zero: "limit < x / f_zero \<longleftrightarrow> f_zero < x" if "finite64 limit" "is_float64 x"
  using that by (cases x; cases limit; auto simp: divide_float64_def less_float64_def split: if_splits)

text \<open>With a capacity of zero the node's usage drops out and the division blows up whatever is left.\<close>

definition matching_slot :: "float64 list \<Rightarrow> nat \<Rightarrow> nat \<Rightarrow> float64" where
  "matching_slot xs n j = (if length xs = n then xs ! j else f_zero)"

lemma predicted_zero_capacity:
  assumes "finite64 limit" "\<forall>x \<in> set nodes \<union> set deltas \<union> set deploys. is_float64 x \<and> finite64 x" "j < length nodes"
  shows "limit < predicted (of_int64 0) (if length nodes \<noteq> length deltas then None else Some deltas)
      (if length nodes \<noteq> length deploys then None else Some deploys) j (nodes ! j) \<longleftrightarrow>
    f_zero < matching_slot deltas (length nodes) j + matching_slot deploys (length nodes) j"
proof -
  let ?d = "matching_slot deltas (length nodes) j" and ?u = "matching_slot deploys (length nodes) j"
  have fl: "is_float64 ?d" "finite64 ?d" "is_float64 ?u" "finite64 ?u"
    using assms(2,3) nth_mem by (auto simp: matching_slot_def)
  obtain s a where "nodes ! j = Fin s a" using assms(2,3) by (metis UnI1 finite64.elims(2) nth_mem)
  then obtain s where z: "nodes ! j * f_zero = Fin s 0" by (simp add: times_float64_def fl_mag_def Let_def not_le)
  define t where "t = (if length nodes = length deploys
    then (if length nodes = length deltas then Fin s 0 + ?d else Fin s 0) + ?u
    else (if length nodes = length deltas then Fin s 0 + ?d else Fin s 0))"
  have "predicted (of_int64 0) (if length nodes \<noteq> length deltas then None else Some deltas)
      (if length nodes \<noteq> length deploys then None else Some deploys) j (nodes ! j) = t / f_zero"
    by (auto simp: predicted_def of_int64_0 z t_def matching_slot_def)
  moreover have "is_float64 t" using fl by (auto simp: t_def intro!: is_float64_add)
  moreover have "f_zero < t \<longleftrightarrow> f_zero < ?d + ?u"
  proof (cases "length nodes = length deploys")
    case True
    have "f_zero < (if length nodes = length deltas then Fin s 0 + ?d else Fin s 0) + ?u \<longleftrightarrow> f_zero < ?d + ?u"
      using fl float_plus_zero [OF fl(1,2)]
      by (intro positive_sum_cong) (auto simp: matching_slot_def)
    then show ?thesis using True by (simp add: t_def)
  next
    case False
    then have u: "?u = f_zero" by (simp add: matching_slot_def)
    have "val t = val ?d \<and> finite64 t" using False fl float_plus_zero [OF fl(1,2)] by (auto simp: t_def matching_slot_def)
    then show ?thesis
      using fl(1,2) float_plus_zero [OF fl(1,2)] by (simp add: u less_iff_val)
  qed
  ultimately show ?thesis using over_zero [OF assms(1)] by simp
qed

text \<open>C39. A policy for a resource other than CPU and memory judges without the node and without its limit: the capacity
  stays zero, the node's usage is multiplied away and the prediction is a division by zero. With finite usages it
  rejects the node exactly when in some slot of the day the delta and the deployment's usage add up to more than
  nothing, whatever the limit is and however large the node; the filter then returns a rejection.\<close>

theorem unknown_resource_rejects:
  assumes "GetLocation sys \<noteq> None" "resource \<noteq> ''cpu''" "resource \<noteq> ''memory''"
    and "readable_usages sys spec node deploy p resource nodes deploys deltas"
    and "\<forall>x \<in> set nodes \<union> set deltas \<union> set deploys. is_float64 x \<and> finite64 x"
    and "finite64 (predicate_MaxLimitPecent p)" "\<not> f_eq (predicate_MaxLimitPecent p) f_zero"
  shows "ara_policy_rejects sys spec node deploy p =
      Ok (\<exists>j < length nodes. f_zero < matching_slot deltas (length nodes) j + matching_slot deploys (length nodes) j) \<and>
    ((\<exists>j < length nodes. f_zero < matching_slot deltas (length nodes) j + matching_slot deploys (length nodes) j) \<longrightarrow>
      p \<in> set (spec_Predicate spec) \<longrightarrow> spec = policy_Spec (ara_schedulerPolicy ara) \<longrightarrow>
      GetDeploymentByPod get_rs get_deploy pod = Inr deploy \<longrightarrow> node_Annotations node \<noteq> None \<longrightarrow>
      (\<exists>msg. Ara_Filter sys get_rs get_deploy ara pod (Some node) = Ok (NewStatus Unschedulable msg)))"
    (is "_ = Ok ?over \<and> (?over \<longrightarrow> ?filter)")
proof -
  have unique: "r = resource \<and> ns = nodes \<and> us = deploys \<and> ds = deltas" if "readable_usages sys spec node deploy p r ns us ds"
    for r ns us ds
    using that assms(4) unfolding readable_usages_def by (auto split: if_splits)
  have cap: "resource_capacity node resource = 0" using assms(2,3) by (simp add: resource_capacity_def)
  have over: "day_overloaded sys spec node deploy p \<longleftrightarrow> ?over"
    unfolding day_overloaded_def using unique assms(4,7) predicted_zero_capacity [OF assms(6,5)] cap by metis
  moreover have ?filter if "day_overloaded sys spec node deploy p"
  proof (intro impI)
    assume p: "p \<in> set (spec_Predicate spec)" "spec = policy_Spec (ara_schedulerPolicy ara)"
      and "GetDeploymentByPod get_rs get_deploy pod = Inr deploy" "node_Annotations node \<noteq> None"
    moreover have "find (day_overloaded sys spec node deploy) (spec_Predicate spec) \<noteq> None"
      using that p(1) by (auto simp: find_None_iff)
    ultimately show "\<exists>msg. Ara_Filter sys get_rs get_deploy ara pod (Some node) = Ok (NewStatus Unschedulable msg)"
      using ara_policy_rejects_iff [OF assms(1)] ara_filter_find [OF ara_policy_returns [OF assms(1)]]
      by (auto simp: Ara_Filter_def)
  qed
  ultimately show ?thesis by (auto simp: ara_policy_rejects_iff [OF assms(1)])
qed

theorem unknown_resource_rejects_witness:
  "ara_policy_rejects (example_sys (100 * second)) (policy_Spec (ara_schedulerPolicy example_ara)) example_ara_node example_deployment
     \<lparr>predicate_Name = ''range:gpu:app_cpu:node_cpu'', predicate_MaxLimitPecent = Fin False (3 / 4)\<rparr> = Ok True \<and>
   (\<exists>msg. Ara_Filter (example_sys (100 * second)) (\<lambda>_ _. Inr example_rs) (\<lambda>_ _. Inr example_deployment) example_ara
      example_app_pod (Some example_ara_node) = Ok (NewStatus Unschedulable msg))"
proof -
  let ?sys = "example_sys (100 * second)" and ?spec = "policy_Spec (ara_schedulerPolicy example_ara)"
  let ?p = "\<lparr>predicate_Name = ''range:gpu:app_cpu:node_cpu'', predicate_MaxLimitPecent = Fin False (3 / 4)\<rparr>"
  have u: "GetResourceUsageRange ?sys (node_Annotations example_ara_node) ''node_cpu'' (6 * minute) = Ok (Inr ''0.25000'')"
    "GetResourceUsageRange ?sys (deploy_Annotations example_deployment) ''app_cpu'' (6 * minute) = Ok (Inr ''0.50000'')"
    using example_range_read(1) [of "''0.25000''" "6 * minute" "''node_cpu''"] example_range_read(1) [of "''0.50000''" "6 * minute" "''app_cpu''"]
    by (simp_all add: example_ara_node_def example_deployment_def)
  have d: "GetDeltaUsageRange (node_Annotations example_ara_node) (DeltaPrefixName @ ''app_cpu'') = Inr ''''"
    by (simp add: GetDeltaUsageRange_def example_ara_node_def anno_get_def anno_entries_def)
  have n: "go_split CHR '':'' ''range:gpu:app_cpu:node_cpu'' = [''range'', ''gpu'', ''app_cpu'', ''node_cpu'']"
    "has_prefix ''range:gpu:app_cpu:node_cpu'' RangePrefix" by code_simp+
  have r: "ParseRangeMetricsByString ''0.25000'' = Inr [Fin False (1 / 4)]" "ParseRangeMetricsByString ''0.50000'' = Inr [Fin False (1 / 2)]"
    by code_simp+
  have a: "GetActiveDuration (spec_SyncPeriod ?spec) ''node_cpu'' = Inr (6 * minute)"
    "GetActiveDuration (spec_SyncAppPeriod ?spec) ''app_cpu'' = Inr (6 * minute)"
    by (simp_all add: example_ara_def wrap64_numeral_id)
  have f: "is_float64 (Fin False (1 / 2))" by code_simp
  have "readable_usages ?sys ?spec example_ara_node example_deployment ?p ''gpu'' [Fin False (1 / 4)] [Fin False (1 / 2)]
      [f_zero]"
    unfolding readable_usages_def using n u d r a by (intro conjI exI) (simp_all, simp_all)
  moreover have "f_zero < f_zero + Fin False (1 / 2)" "is_float64 (Fin False (1 / 4))" by code_simp+
  ultimately show ?thesis
    using f unknown_resource_rejects [where sys = ?sys and spec = ?spec and node = example_ara_node and deploy = example_deployment
        and p = ?p and resource = "''gpu''" and nodes = "[Fin False (1 / 4)]" and deploys = "[Fin False (1 / 2)]"
        and deltas = "[f_zero]" and ara = example_ara and get_rs = "\<lambda>_ _. Inr example_rs"
        and get_deploy = "\<lambda>_ _. Inr example_deployment" and pod = example_app_pod]
    by (simp add: example_location matching_slot_def example_ara_def example_ara_node_def GetDeploymentByPod_def
        example_app_pod_def example_rs_def example_deployment_def)
qed

end
