(* ===== verification/Prom_Client.thy ===== *)
theory Prom_Client
  imports Crane_Utils
begin

text \<open>
  \<open>pkg/controller/prometheus/prometheus.go\<close>: the client that turns answers of the Prometheus HTTP
  API into the strings the annotator stores. The API is a parameter: an instant query gives the
  values of a vector, a range query the values of the series of a matrix, or both fail or warn.
  Contexts and time-outs are not modelled.
\<close>

section \<open>Definitions\<close>

abbreviation defaultStep :: duration where "defaultStep \<equiv> 30 * minute"
abbreviation PrefixRange :: string where "PrefixRange \<equiv> ''range_''"
abbreviation ErrEmptyMsg :: string where "ErrEmptyMsg \<equiv> ''result is empty''"

datatype prom_value = Vector "float64 list" | Matrix "float64 list list" | OtherValue string

fun type_text :: "prom_value \<Rightarrow> string" where
  "type_text (Vector vs) = ''vector''"
| "type_text (Matrix ss) = ''matrix''"
| "type_text (OtherValue t) = t"

record time_range =
  range_Start :: instant
  range_End :: instant
  range_Step :: duration

text \<open>The two calls of the API, with the warnings they return.\<close>

record prom_api =
  api_Query :: "string \<Rightarrow> instant \<Rightarrow> (prom_value \<times> string list) fallible"
  api_QueryRange :: "string \<Rightarrow> time_range \<Rightarrow> (prom_value \<times> string list) fallible"

text \<open>\<open>%v\<close> of a slice of strings.\<close>

definition show_strings :: "string list \<Rightarrow> string" where
  "show_strings ws = ''['' @ go_join CHR '' '' ws @ '']''"

text \<open>The value of a sample of an instant query: negative numbers and NaN become zero.\<close>

definition clean_sample :: "float64 \<Rightarrow> float64" where
  "clean_sample x = (if x < f_zero \<or> x = NaN then f_zero else x)"

text \<open>The loop keeps the last sample only.\<close>

definition last_sample :: "float64 list \<Rightarrow> string" where
  "last_sample vs = foldl (\<lambda>metricValue v. format_float5 (clean_sample v)) '''' vs"

definition prom_query :: "prom_api \<Rightarrow> sys \<Rightarrow> string \<Rightarrow> string fallible" where
  "prom_query api sys q =
     (case api_Query api q (sys_now sys) of
        Inl err \<Rightarrow> Inl err
      | Inr (result, warnings) \<Rightarrow>
          if warnings \<noteq> [] then Inl (Plain (''unexpected warnings: '' @ show_strings warnings))
          else
            (case result of
               Vector vs \<Rightarrow> Inr (last_sample vs)
             | _ \<Rightarrow> Inl (Plain (''illege result type: '' @ type_text result))))"

text \<open>In a range also the infinities become zero.\<close>

definition clean_range_sample :: "float64 \<Rightarrow> float64" where
  "clean_range_sample x = (if x < f_zero \<or> (\<exists>s. x = Inf s) \<or> x = NaN then f_zero else x)"

lemma clean_range_sample_code [code]:
  "clean_range_sample x =
     (if x < f_zero then f_zero else case x of NaN \<Rightarrow> f_zero | Inf s \<Rightarrow> f_zero | Fin s q \<Rightarrow> x)"
  by (auto simp: clean_range_sample_def split: float64.split)

text \<open>The range asked for: from yesterday's to today's midnight of the local zone.\<close>

definition local_midnight :: "location \<Rightarrow> instant \<Rightarrow> instant" where
  "local_midnight loc t = date_unix loc (wall_seconds loc t div 86400 * 86400) * second"

text \<open>\<open>AddDate(0, 0, -1)\<close>: the same wall clock one calendar day earlier.\<close>

definition previous_day :: "location \<Rightarrow> instant \<Rightarrow> instant" where
  "previous_day loc t = date_unix loc (wall_seconds loc t - 86400) * second + t mod second"

definition yesterday_range :: "sys \<Rightarrow> time_range" where
  "yesterday_range sys =
     (let t1 = sys_now sys; t2 = previous_day (sys_local sys) t1
      in \<lparr>range_Start = local_midnight (sys_local sys) t2,
          range_End = local_midnight (sys_local sys) t1, range_Step = defaultStep\<rparr>)"

definition prom_queryRange :: "prom_api \<Rightarrow> sys \<Rightarrow> string \<Rightarrow> string fallible" where
  "prom_queryRange api sys q =
     (case api_QueryRange api q (yesterday_range sys) of
        Inl err \<Rightarrow> Inl err
      | Inr (result, warnings) \<Rightarrow>
          if warnings \<noteq> [] then Inl (Plain (''unexpected warnings: '' @ show_strings warnings))
          else
            (case result of
               Matrix ss \<Rightarrow>
                 let metricValues =
                       (case ss of [] \<Rightarrow> '''' | vs # _ \<Rightarrow> render_range (map clean_range_sample vs))
                 in if metricValues = '''' then Inl (Plain ErrEmptyMsg) else Inr metricValues
             | _ \<Rightarrow> Inl (Plain (''illege result type: '' @ type_text result))))"

text \<open>Selectors.\<close>

definition instance_selector :: "string \<Rightarrow> string \<Rightarrow> string" where
  "instance_selector metricName x = metricName @ ''{instance=~'' @ quoted x @ ''}''"

definition deployment_selector :: "string \<Rightarrow> string \<Rightarrow> string" where
  "deployment_selector metricName x = metricName @ ''{deployment='' @ quoted x @ ''}''"

text \<open>A query whose result is used when it is not empty, and two queries tried in turn. The error
  returned is that of the last query, which is nil when it succeeded with an empty result.\<close>

definition first_of :: "string fallible \<Rightarrow> string fallible \<Rightarrow> string fallible" where
  "first_of r1 r2 = (case r1 of Inr v \<Rightarrow> if v \<noteq> '''' then Inr v else r2 | Inl err \<Rightarrow> r2)"

definition QueryByNodeIP :: "prom_api \<Rightarrow> sys \<Rightarrow> string \<Rightarrow> string \<Rightarrow> string fallible" where
  "QueryByNodeIP api sys metricName ip =
     first_of (prom_query api sys (instance_selector metricName ip))
       (prom_query api sys (instance_selector metricName (ip @ '':.+'')))"

definition QueryByNodeName :: "prom_api \<Rightarrow> sys \<Rightarrow> string \<Rightarrow> string \<Rightarrow> string fallible" where
  "QueryByNodeName api sys metricName name = prom_query api sys (instance_selector metricName name)"

definition QueryByNodeIPWithOffset ::
  "prom_api \<Rightarrow> sys \<Rightarrow> string \<Rightarrow> string \<Rightarrow> string \<Rightarrow> string fallible" where
  "QueryByNodeIPWithOffset api sys metricName ip offset =
     first_of (prom_query api sys (instance_selector metricName ip @ '' offset '' @ offset))
       (prom_query api sys (instance_selector metricName (ip @ '':.+'') @ '' offset '' @ offset))"

definition QueryByDeployment :: "prom_api \<Rightarrow> sys \<Rightarrow> string \<Rightarrow> string \<Rightarrow> string fallible" where
  "QueryByDeployment api sys metricName deployment =
     prom_query api sys (deployment_selector metricName deployment)"

definition QueryRangeByNodeIP :: "prom_api \<Rightarrow> sys \<Rightarrow> string \<Rightarrow> string \<Rightarrow> string fallible" where
  "QueryRangeByNodeIP api sys metricName ip =
     first_of (prom_queryRange api sys (instance_selector metricName ip))
       (prom_queryRange api sys (instance_selector metricName (ip @ '':.+'')))"

definition QueryRangeByNodeName :: "prom_api \<Rightarrow> sys \<Rightarrow> string \<Rightarrow> string \<Rightarrow> string fallible" where
  "QueryRangeByNodeName api sys metricName name =
     prom_queryRange api sys (instance_selector metricName name)"

definition QueryRangeByDeployment :: "prom_api \<Rightarrow> sys \<Rightarrow> string \<Rightarrow> string \<Rightarrow> string fallible" where
  "QueryRangeByDeployment api sys metricName deployment =
     prom_queryRange api sys (deployment_selector metricName deployment)"

text \<open>The client: \<open>api.NewClient\<close> and \<open>v1.NewAPI\<close> are a parameter.\<close>

definition NewPromClient :: "(string \<Rightarrow> prom_api fallible) \<Rightarrow> string \<Rightarrow> prom_api fallible" where
  "NewPromClient new_client addr = new_client addr"

section \<open>What the queries return\<close>

text \<open>The API returns floating-point numbers.\<close>

definition api_floats :: "prom_api \<Rightarrow> bool" where
  "api_floats api \<longleftrightarrow>
     (\<forall>q t vs ws. api_Query api q t = Inr (Vector vs, ws) \<longrightarrow> list_all is_float64 vs) \<and>
     (\<forall>q r ss ws. api_QueryRange api q r = Inr (Matrix ss, ws) \<longrightarrow> list_all (list_all is_float64) ss)"

text \<open>The text of a usage: a number that is not negative and not NaN.\<close>

definition usage_text :: "string \<Rightarrow> bool" where
  "usage_text v \<longleftrightarrow> CHR '','' \<notin> set v \<and> CHR 0x22 \<notin> set v \<and>
     (\<exists>x. parse_float64 v = Some x \<and> f_zero \<le> x)"

text \<open>The text of a range of usages: finite numbers that are not negative.\<close>

definition range_text :: "string \<Rightarrow> bool" where
  "range_text v \<longleftrightarrow> CHR '','' \<notin> set v \<and> CHR 0x22 \<notin> set v \<and>
     (\<exists>xs. ParseRangeMetricsByString v = Inr xs \<and> (\<forall>x \<in> set xs. finite64 x \<and> f_zero \<le> x))"

lemma clean_sample_props:
  assumes "is_float64 x" shows "is_float64 (clean_sample x)" "f_zero \<le> clean_sample x"
  using assms by (cases x; auto simp: clean_sample_def less_float64_def less_eq_float64_def)+

lemma clean_range_sample_props:
  assumes "is_float64 x"
  shows "is_float64 (clean_range_sample x)" "finite64 (clean_range_sample x)" "f_zero \<le> clean_range_sample x"
  using assms by (cases x; auto simp: clean_range_sample_def less_float64_def less_eq_float64_def)+

lemma round5_nonneg:
  assumes "is_float64 x" "f_zero \<le> x"
  shows "f_zero \<le> round5 x" "finite64 x \<Longrightarrow> finite64 (round5 x)"
proof -
  show fin: "finite64 (round5 x)" if "finite64 x"
    using assms(1) that round5_finite by (cases x) (auto simp: round5_def finite_fl_mag)
  show "f_zero \<le> round5 x"
  proof (cases x)
    case (Fin s q)
    then have q: "0 \<le> q" "s \<Longrightarrow> q = 0"
      using assms by (auto simp: less_eq_float64_def split: if_splits)
    have r: "0 \<le> round_even (q * 100000)" using q round_even_ge [of 0 "q * 100000"] by simp
    then have "0 \<le> round_mag (of_int (round_even (q * 100000)) / 100000)"
      by (intro round_mag_nonneg) simp
    moreover have "round_even 0 = 0" using round_even_of_int [of 0] by simp
    ultimately show ?thesis
      using fin Fin q by (cases s) (auto simp: round5_def fl_mag_def Let_def less_eq_float64_def)
  qed (use assms in \<open>auto simp: round5_def less_eq_float64_def\<close>)
qed

lemma usage_text_format:
  assumes "is_float64 x" "f_zero \<le> x" shows "usage_text (format_float5 x)"
  using assms parse_format_float5 [OF assms(1)] round5_nonneg(1) [OF assms] format_float5_no_sep [OF assms(1)]
  by (auto simp: usage_text_def)

lemma range_text_render:
  assumes "xs \<noteq> []" "\<forall>x \<in> set xs. is_float64 x \<and> finite64 x \<and> f_zero \<le> x"
  shows "range_text (render_range xs)"
  using assms ParseRange_render [OF assms(1)] round5_nonneg render_range_no_comma [of xs]
  by (auto simp: range_text_def)

lemma last_sample_Cons: "vs \<noteq> [] \<Longrightarrow> last_sample vs = format_float5 (clean_sample (last vs))"
  unfolding last_sample_def by (induction vs rule: rev_induct) simp_all

lemma prom_query_Inr:
  assumes "api_floats api" "prom_query api sys q = Inr v"
  shows "v = '''' \<or> usage_text v"
proof -
  obtain vs where vs: "api_Query api q (sys_now sys) = Inr (Vector vs, [])" "v = last_sample vs"
    using assms(2) by (auto simp: prom_query_def split: sum.splits prod.splits if_splits prom_value.splits)
  show ?thesis
  proof (cases "vs = []")
    case False
    have "list_all is_float64 vs" using assms(1) vs(1) unfolding api_floats_def by blast
    then have "is_float64 (last vs)" using False by (simp add: list_all_iff)
    then show ?thesis
      using usage_text_format clean_sample_props vs(2) last_sample_Cons [OF False] by metis
  qed (simp add: vs(2) last_sample_def)
qed

lemma prom_queryRange_Inr:
  assumes "api_floats api" "prom_queryRange api sys q = Inr v"
  shows "range_text v"
proof -
  obtain ss where ss: "api_QueryRange api q (yesterday_range sys) = Inr (Matrix ss, [])"
    "v = (case ss of [] \<Rightarrow> '''' | vs # _ \<Rightarrow> render_range (map clean_range_sample vs))" "v \<noteq> ''''"
    using assms(2)
    by (auto simp: prom_queryRange_def Let_def split: sum.splits prod.splits if_splits prom_value.splits)
  obtain vs rest where vs: "ss = vs # rest" "vs \<noteq> []"
    using ss(2,3) by (cases ss; cases "hd ss") (auto simp: render_range_def)
  have "list_all is_float64 vs"
    using assms(1) ss(1) vs(1) unfolding api_floats_def by fastforce
  then show ?thesis
    using ss(2) vs clean_range_sample_props by (auto simp: list_all_iff intro!: range_text_render)
qed

lemma first_of_Inr: "first_of r1 r2 = Inr v \<Longrightarrow> r1 = Inr v \<or> r2 = Inr v"
  by (auto simp: first_of_def split: sum.splits if_splits)

lemma instant_query_text:
  assumes "api_floats api"
  shows "QueryByNodeIP api sys m x = Inr v \<Longrightarrow> v = '''' \<or> usage_text v"
    "QueryByNodeName api sys m x = Inr v \<Longrightarrow> v = '''' \<or> usage_text v"
    "QueryByDeployment api sys m x = Inr v \<Longrightarrow> v = '''' \<or> usage_text v"
    "QueryByNodeIPWithOffset api sys m x offset = Inr v \<Longrightarrow> v = '''' \<or> usage_text v"
  using prom_query_Inr [OF assms]
  by (auto simp: QueryByNodeIP_def QueryByNodeName_def QueryByDeployment_def QueryByNodeIPWithOffset_def
      dest!: first_of_Inr)

lemma range_query_text:
  assumes "api_floats api"
  shows "QueryRangeByNodeIP api sys m x = Inr v \<Longrightarrow> range_text v"
    "QueryRangeByNodeName api sys m x = Inr v \<Longrightarrow> range_text v"
    "QueryRangeByDeployment api sys m x = Inr v \<Longrightarrow> range_text v"
  using prom_queryRange_Inr [OF assms]
  by (auto simp: QueryRangeByNodeIP_def QueryRangeByNodeName_def QueryRangeByDeployment_def
      dest!: first_of_Inr)

text \<open>An instant query that finds no series succeeds with an empty text, so that
  \<open>QueryByNodeIP\<close> reports neither a value nor an error.\<close>

lemma prom_query_no_series:
  "api_Query api q (sys_now sys) = Inr (Vector [], []) \<Longrightarrow> prom_query api sys q = Inr ''''"
  by (simp add: prom_query_def last_sample_def)

section \<open>The queried range\<close>

text \<open>In a zone of a fixed offset the range is one day long and ends at today's midnight.\<close>

lemma date_unix_fixed: "date_unix (fixed_location off) w = w - off"
  by (simp add: date_unix_def fixed_location_def)

lemma yesterday_range_length:
  assumes "sys_local sys = fixed_location off"
  shows "range_End (yesterday_range sys) - range_Start (yesterday_range sys) = 86400 * second"
    "range_End (yesterday_range sys) \<le> sys_now sys"
    "sys_now sys < range_End (yesterday_range sys) + 86400 * second"
proof -
  have d: "date_unix (sys_local sys) w = w - off" for w
    unfolding assms by (rule date_unix_fixed)
  define now where "now = sys_now sys"
  have w: "wall_seconds (sys_local sys) t = t div second + off" for t
    by (simp add: wall_seconds_def time_unix_def assms fixed_location_def)
  define s where "s = now div second + off"
  have p: "previous_day (sys_local sys) now div second + off = s - 86400"
    by (simp add: previous_day_def d w s_def)
  have e: "range_End (yesterday_range sys) = (s div 86400 * 86400 - off) * second"
    by (simp add: yesterday_range_def Let_def local_midnight_def d w now_def [symmetric] s_def)
  have b: "range_Start (yesterday_range sys) = ((s - 86400) div 86400 * 86400 - off) * second"
    using p by (simp add: yesterday_range_def Let_def local_midnight_def d w now_def [symmetric])
  have "(s - 86400) div 86400 = s div 86400 - 1" by simp
  then show "range_End (yesterday_range sys) - range_Start (yesterday_range sys) = 86400 * second"
    unfolding e b by (simp add: algebra_simps)
  have m: "s div 86400 * 86400 \<le> s" "s < s div 86400 * 86400 + 86400"
    using div_bounds [of 86400 s] by simp_all
  have n: "now div second * second \<le> now" "now < now div second * second + second"
    using div_bounds [of second now] by simp_all
  show "range_End (yesterday_range sys) \<le> sys_now sys"
    using m(1) n(1) unfolding e now_def [symmetric] s_def by (simp add: algebra_simps)
  show "sys_now sys < range_End (yesterday_range sys) + 86400 * second"
    using m(2) n(2) unfolding e now_def [symmetric] s_def by (simp add: algebra_simps)
qed

end
