(* ===== verification/Node_Annotator.thy ===== *)
theory Node_Annotator
  imports Dynamic_Plugin Prom_Client
begin

text \<open>
  \<open>pkg/controller/annotator\<close>: the controller that writes the load of nodes and deployments, the hot
  value of nodes and the delta of scheduled pods into annotations. Each of its five reconcilers is a
  function of the key it takes from its queue; it returns the patches it sends and its result. The
  listers (informer caches), the Prometheus API and the Kubernetes client are parameters, and so are
  \<open>cache.SplitMetaNamespaceKey\<close> and the key functions of client-go. The work queues, rate limiters
  and cron are not modelled beyond the calls a worker makes on them.
\<close>

section \<open>utils.go\<close>

definition splitMetaKeyWithMetricName :: "string \<Rightarrow> (string \<times> string) fallible" where
  "splitMetaKeyWithMetricName key =
     (let parts = go_split CHR ''/'' key in
      if length parts \<noteq> 2 then Inl (Plain (''unexpected key format: '' @ quoted key))
      else Inr (parts ! 0, parts ! 1))"

definition handlingMetaKeyWithMetricName :: "string \<Rightarrow> string \<Rightarrow> string" where
  "handlingMetaKeyWithMetricName nodeName metricName = nodeName @ ''/'' @ metricName"

fun max_range_from :: "duration \<Rightarrow> HotValuePolicy list \<Rightarrow> duration" where
  "max_range_from mx [] = mx"
| "max_range_from mx (tr # trs) = max_range_from (if mx < hot_TimeRange tr then hot_TimeRange tr else mx) trs"

definition getMaxHotVauleTimeRange :: "HotValuePolicy list \<Rightarrow> duration" where
  "getMaxHotVauleTimeRange hotValues = max_range_from 0 hotValues"

section \<open>controller.go\<close>

record Event =
  event_Type :: string
  event_Reason :: string
  event_ResourceVersion :: string
  event_Message :: string
  event_Count :: int
  event_EventTime :: int
  event_LastTimestamp :: int

text \<open>The caches the reconcilers read.\<close>

record listers =
  get_node :: "string \<Rightarrow> Node fallible"
  list_nodes :: "Node list fallible"
  list_namespaces :: "string list fallible"
  list_deployments :: "string \<Rightarrow> Deployment list fallible"
  get_deployment :: "string \<Rightarrow> string \<Rightarrow> Deployment fallible"
  get_replicaset :: "string \<Rightarrow> string \<Rightarrow> ReplicaSet fallible"
  get_pod :: "string \<Rightarrow> string \<Rightarrow> Pod fallible"
  get_event :: "string \<Rightarrow> string \<Rightarrow> Event fallible"

record Controller =
  c_policy :: DynamicSchedulerPolicy
  c_bindingRecords :: BindingRecords

definition NewNodeAnnotator :: "DynamicSchedulerPolicy \<Rightarrow> int \<Rightarrow> Controller" where
  "NewNodeAnnotator policy bingdingHeapSize =
     \<lparr>c_policy = policy,
      c_bindingRecords =
        NewBindingRecords bingdingHeapSize (getMaxHotVauleTimeRange (spec_HotValue (policy_Spec policy)))\<rparr>"

text \<open>One tick of the goroutine that recycles bindings.\<close>

definition Controller_gc_tick :: "(float64 \<Rightarrow> int) \<Rightarrow> sys \<Rightarrow> Controller \<Rightarrow> Controller outcome" where
  "Controller_gc_tick cvt sys c =
     omap (\<lambda>br. c\<lparr>c_bindingRecords := br\<rparr>) (BindingsGC cvt (sys_now sys) (c_bindingRecords c))"

section \<open>node.go\<close>

abbreviation HotValueKey :: string where "HotValueKey \<equiv> ''node_hot_value''"

fun internal_ip :: "string \<Rightarrow> NodeAddress list \<Rightarrow> string" where
  "internal_ip name [] = name"
| "internal_ip name (a # as) =
     (if addr_Type a = ''InternalIP'' then addr_Address a else internal_ip name as)"

definition getNodeInternalIP :: "Node \<Rightarrow> string" where
  "getNodeInternalIP node = internal_ip (node_Name node) (node_Addresses node)"

definition getNodeName :: "Node \<Rightarrow> string" where
  "getNodeName node = node_Name node"

text \<open>The error of the last line prints the named result, which the inner declarations shadow and
  which is therefore still nil.\<close>

definition annotateNodeLoad ::
  "prom_api \<Rightarrow> sys \<Rightarrow> client \<Rightarrow> Node \<Rightarrow> string \<Rightarrow> go_error option handled" where
  "annotateNodeLoad api sys client node key =
     (let failed = Ok ([], Some (Plain (''failed to get data '' @ key @ ''{nodeName='' @
                      node_Name node @ ''}: <nil>'')))
      in if has_prefix key PrefixRange then
           (let metricName = trim_prefix key PrefixRange in
            case QueryRangeByNodeIP api sys metricName (getNodeInternalIP node) of
              Inr value \<Rightarrow> PatchNodeAnnotation sys client node key value
            | Inl err \<Rightarrow>
               (case QueryRangeByNodeName api sys metricName (getNodeName node) of
                  Inr value \<Rightarrow> PatchNodeAnnotation sys client node key value
                | Inl err \<Rightarrow> failed))
         else
           (case QueryByNodeIP api sys key (getNodeInternalIP node) of
              Inr value \<Rightarrow> PatchNodeAnnotation sys client node key value
            | Inl err \<Rightarrow>
               (case QueryByNodeName api sys key (getNodeName node) of
                  Inr value \<Rightarrow> PatchNodeAnnotation sys client node key value
                | Inl err \<Rightarrow> failed)))"

definition annotateNodeHotValue ::
  "(float64 \<Rightarrow> int) \<Rightarrow> sys \<Rightarrow> client \<Rightarrow> BindingRecords \<Rightarrow> Node \<Rightarrow> DynamicSchedulerPolicy \<Rightarrow>
   go_error option handled" where
  "annotateNodeHotValue cvt sys client br node policy =
     obind (hot_value_loop cvt (sys_now sys) br (node_Name node) (spec_HotValue (policy_Spec policy)) 0)
       (\<lambda>value. PatchNodeAnnotation sys client node HotValueKey (itoa value))"

text \<open>\<open>syncNode\<close>: whether to forget the key, and the error.\<close>

definition syncNode ::
  "(float64 \<Rightarrow> int) \<Rightarrow> prom_api \<Rightarrow> sys \<Rightarrow> client \<Rightarrow> listers \<Rightarrow> Controller \<Rightarrow> string \<Rightarrow>
   (bool \<times> go_error option) handled" where
  "syncNode cvt api sys client ls c key =
     (case splitMetaKeyWithMetricName key of
        Inl err \<Rightarrow> Ok ([], True, Some (Plain (''invalid resource key: '' @ key)))
      | Inr (nodeName, metricName) \<Rightarrow>
         (case get_node ls nodeName of
            Inl err \<Rightarrow> Ok ([], True, Some (Wrap ''can not find node[nil]: '' err))
          | Inr node \<Rightarrow>
              obind (annotateNodeLoad api sys client node metricName) (\<lambda>(reqs, err).
                case err of
                  Some e \<Rightarrow>
                    Ok (reqs, False, Some (Wrap (''can not annotate node['' @ node_Name node @ '']: '') e))
                | None \<Rightarrow>
                    obind (annotateNodeHotValue cvt sys client (c_bindingRecords c) node (c_policy c))
                      (\<lambda>(reqs', err').
                        case err' of
                          Some e \<Rightarrow> Ok (reqs @ reqs', False, Some e)
                        | None \<Rightarrow> Ok (reqs @ reqs', True, None)))))"

text \<open>The calls a worker makes on its queue for one key; \<open>Done\<close> is deferred.\<close>

datatype queue_call = QForget string | QAddRateLimited string | QDone string

definition node_processNextWorkItem ::
  "(float64 \<Rightarrow> int) \<Rightarrow> prom_api \<Rightarrow> sys \<Rightarrow> client \<Rightarrow> listers \<Rightarrow> Controller \<Rightarrow> string \<Rightarrow>
   queue_call list handled" where
  "node_processNextWorkItem cvt api sys client ls c key =
     obind (syncNode cvt api sys client ls c key) (\<lambda>(reqs, forget, err).
       Ok (reqs, if forget then [QForget key, QDone key] else [QAddRateLimited key, QDone key]))"

text \<open>The keys a tick of one sync policy enqueues; a failing lister enqueues none.\<close>

definition node_enqueue :: "listers \<Rightarrow> SyncPolicy \<Rightarrow> string list" where
  "node_enqueue ls p =
     (case list_nodes ls of
        Inl err \<Rightarrow> []
      | Inr nodes \<Rightarrow> map (\<lambda>node. handlingMetaKeyWithMetricName (node_Name node) (sync_Name p)) nodes)"

text \<open>Starting the tickers: every policy enqueues once, then its goroutine creates a ticker, which
  panics unless the period is positive.\<close>

definition node_CreateMetricSyncTicker :: "listers \<Rightarrow> SyncPolicy list \<Rightarrow> string list outcome" where
  "node_CreateMetricSyncTicker ls ps =
     (if list_all (\<lambda>p. 0 < sync_Period p) ps then Ok (concat (map (node_enqueue ls) ps))
      else Panic NonPositiveTicker)"

text \<open>\<open>nodeDeltaResetController\<close>: removes every delta annotation of a node.\<close>

fun delete_deltas ::
  "client \<Rightarrow> Node \<Rightarrow> string list \<Rightarrow> patch_request list \<times> bool \<times> go_error option" where
  "delete_deltas client node [] = ([], True, None)"
| "delete_deltas client node (k # ks) =
     (if has_prefix k DeltaPrefixName then
        (case DeleteNodeAnnotation client node k of
           (reqs, Some err) \<Rightarrow>
             (reqs, False,
              Some (Wrap (''can't delete deleta annotate node['' @ node_Name node @ '']: '') err))
         | (reqs, None) \<Rightarrow>
             (case delete_deltas client node ks of (reqs', forget, err) \<Rightarrow> (reqs @ reqs', forget, err)))
      else delete_deltas client node ks)"

definition delta_syncNode ::
  "client \<Rightarrow> listers \<Rightarrow> string \<Rightarrow> patch_request list \<times> bool \<times> go_error option" where
  "delta_syncNode client ls key =
     (case get_node ls key of
        Inl err \<Rightarrow> ([], True, Some (Wrap ''can not find node[nil]: '' err))
      | Inr node \<Rightarrow> delete_deltas client node (map fst (anno_entries (node_Annotations node))))"

definition delta_processNextWorkItem ::
  "client \<Rightarrow> listers \<Rightarrow> string \<Rightarrow> patch_request list \<times> queue_call list" where
  "delta_processNextWorkItem client ls key =
     (case delta_syncNode client ls key of (reqs, forget, err) \<Rightarrow>
        (reqs, if forget then [QForget key, QDone key] else [QAddRateLimited key, QDone key]))"

text \<open>The daily cron job.\<close>

definition delta_enqueue :: "listers \<Rightarrow> string list" where
  "delta_enqueue ls = (case list_nodes ls of Inl err \<Rightarrow> [] | Inr nodes \<Rightarrow> map node_Name nodes)"

section \<open>deployment.go\<close>

definition patchDeploymentAnnotation ::
  "sys \<Rightarrow> client \<Rightarrow> Deployment \<Rightarrow> string \<Rightarrow> string \<Rightarrow> go_error option handled" where
  "patchDeploymentAnnotation sys client deployment key value =
     obind (GetLocalTime sys) (\<lambda>time.
       let req = \<lparr>patch_target = PatchDeployment (deploy_Namespace deployment) (deploy_Name deployment),
                  patch_kind = JSONPatchType,
                  patch_data = patch_with_value (patch_operator (deploy_Annotations deployment) key) key
                    (value @ '','' @ time)\<rparr>
       in Ok ([req], client req))"

definition annotateDeploymentLoad ::
  "prom_api \<Rightarrow> sys \<Rightarrow> client \<Rightarrow> Deployment \<Rightarrow> string \<Rightarrow> go_error option handled" where
  "annotateDeploymentLoad api sys client deployment key =
     (case (if has_prefix key PrefixRange
            then QueryRangeByDeployment api sys (trim_prefix key PrefixRange) (deploy_Name deployment)
            else QueryByDeployment api sys key (deploy_Name deployment)) of
        Inr value \<Rightarrow> patchDeploymentAnnotation sys client deployment key value
      | Inl err \<Rightarrow>
         (case deploy_Replicas deployment of
            None \<Rightarrow> Panic NilDereference
          | Some replicas \<Rightarrow>
              if replicas \<ge> 1 \<and> err_text err \<noteq> ErrEmptyMsg then
                Ok ([], Some (Wrap (''failed to get deployment '' @ key @ '' metrics '' @
                  deploy_Name deployment @ '': '') err))
              else Ok ([], None)))"

fun annotate_deployments ::
  "prom_api \<Rightarrow> sys \<Rightarrow> client \<Rightarrow> string \<Rightarrow> Deployment list \<Rightarrow> (bool \<times> go_error option) handled" where
  "annotate_deployments api sys client metricsName [] = Ok ([], True, None)"
| "annotate_deployments api sys client metricsName (d # ds) =
     obind (annotateDeploymentLoad api sys client d metricsName) (\<lambda>(reqs, err).
       case err of
         Some e \<Rightarrow>
           Ok (reqs, False, Some (Wrap (''failed to annotate deployment '' @ deploy_Namespace d @ ''/'' @
             deploy_Name d @ '': '') e))
       | None \<Rightarrow>
           obind (annotate_deployments api sys client metricsName ds) (\<lambda>(reqs', r).
             Ok (reqs @ reqs', r)))"

definition syncDeployment ::
  "prom_api \<Rightarrow> sys \<Rightarrow> client \<Rightarrow> listers \<Rightarrow> string \<Rightarrow> (bool \<times> go_error option) handled" where
  "syncDeployment api sys client ls key =
     (case splitMetaKeyWithMetricName key of
        Inl err \<Rightarrow> Ok ([], True, Some (Plain (''invalid resource key: '' @ key)))
      | Inr (namespace, metricsName) \<Rightarrow>
         (case list_deployments ls namespace of
            Inl err \<Rightarrow> Ok ([], False, Some err)
          | Inr deployments \<Rightarrow> annotate_deployments api sys client metricsName deployments))"

definition deployment_processNextWorkItem ::
  "prom_api \<Rightarrow> sys \<Rightarrow> client \<Rightarrow> listers \<Rightarrow> string \<Rightarrow> queue_call list handled" where
  "deployment_processNextWorkItem api sys client ls key =
     obind (syncDeployment api sys client ls key) (\<lambda>(reqs, forget, err).
       Ok (reqs,
           if err \<noteq> None then [QAddRateLimited key, QDone key]
           else if forget then [QForget key, QDone key] else [QDone key]))"

text \<open>The cron job of one policy.\<close>

definition deploymentJob_Run :: "listers \<Rightarrow> string \<Rightarrow> string list" where
  "deploymentJob_Run ls policyName =
     (case list_namespaces ls of
        Inl err \<Rightarrow> []
      | Inr namespaces \<Rightarrow> map (\<lambda>ns. handlingMetaKeyWithMetricName ns policyName) namespaces)"

section \<open>event.go\<close>

text \<open>The handlers enqueue the key of the event, computed by client-go.\<close>

definition event_enqueue :: "('o \<Rightarrow> string fallible) \<Rightarrow> 'o \<Rightarrow> string list" where
  "event_enqueue key_func obj = (case key_func obj of Inl err \<Rightarrow> [] | Inr key \<Rightarrow> [key])"

definition event_handleAddEvent :: "(Event \<Rightarrow> string fallible) \<Rightarrow> Event \<Rightarrow> string list" where
  "event_handleAddEvent key_func event =
     (if event_Type event \<noteq> ''Normal'' \<or> event_Reason event \<noteq> ''Scheduled'' then []
      else event_enqueue key_func event)"

definition event_handleUpdateEvent :: "(Event \<Rightarrow> string fallible) \<Rightarrow> Event \<Rightarrow> Event \<Rightarrow> string list" where
  "event_handleUpdateEvent key_func oldEvent curEvent =
     (if event_ResourceVersion oldEvent = event_ResourceVersion curEvent then []
      else if event_Type curEvent \<noteq> ''Normal'' \<or> event_Reason curEvent \<noteq> ''Scheduled'' then []
      else event_enqueue key_func curEvent)"

text \<open>\<open>fmt.Fscanf\<close> with the format \<open>Successfully assigned %s to %s\<close>: a space of the format needs at
  least one space of the input, or its end; a verb skips spaces and reads a word; no newline is
  skipped. The spaces are those of ASCII.\<close>

definition is_space :: "char \<Rightarrow> bool" where
  "is_space c \<longleftrightarrow> c \<in> {CHR 0x09, CHR 0x0A, CHR 0x0B, CHR 0x0C, CHR 0x0D, CHR 0x20}"

abbreviation is_blank :: "char \<Rightarrow> bool" where
  "is_blank c \<equiv> is_space c \<and> c \<noteq> CHR 0x0A"

definition scan_space :: "string \<Rightarrow> string option" where
  "scan_space s =
     (case s of [] \<Rightarrow> Some [] | c # cs \<Rightarrow> if is_blank c then Some (dropWhile is_blank s) else None)"

fun scan_literal :: "string \<Rightarrow> string \<Rightarrow> string option" where
  "scan_literal [] s = Some s"
| "scan_literal (f # fs) [] = None"
| "scan_literal (f # fs) (c # cs) = (if f = c then scan_literal fs cs else None)"

definition scan_word :: "string \<Rightarrow> (string \<times> string) option" where
  "scan_word s =
     (let r = dropWhile is_blank s in
      if r = [] \<or> is_space (hd r) then None
      else Some (takeWhile (\<lambda>c. \<not> is_space c) r, dropWhile (\<lambda>c. \<not> is_space c) r))"

definition scan_assigned :: "string \<Rightarrow> (string \<times> string) option" where
  "scan_assigned msg = do {
     s \<leftarrow> scan_literal ''Successfully'' msg;
     s \<leftarrow> scan_space s;
     s \<leftarrow> scan_literal ''assigned'' s;
     s \<leftarrow> scan_space s;
     (metaKey, s) \<leftarrow> scan_word s;
     s \<leftarrow> scan_space s;
     s \<leftarrow> scan_literal ''to'' s;
     s \<leftarrow> scan_space s;
     (nodeName, s) \<leftarrow> scan_word s;
     Some (metaKey, nodeName) }"

text \<open>The text of \<open>Fscanf\<close>'s error is a parameter.\<close>

definition translateEventToBinding ::
  "(string \<Rightarrow> (string \<times> string) fallible) \<Rightarrow> (string \<Rightarrow> string) \<Rightarrow> Event \<Rightarrow> Binding fallible" where
  "translateEventToBinding split_key scan_error event =
     (case scan_assigned (event_Message event) of
        None \<Rightarrow>
          Inl (Wrap (''failed to extact imformations from event message['' @ event_Message event @ '']: '')
            (External (scan_error (event_Message event))))
      | Some (metaKey, nodeName) \<Rightarrow>
         (case split_key metaKey of
            Inl err \<Rightarrow> Inl err
          | Inr (namespace, name) \<Rightarrow>
              Inr \<lparr>bind_Node = nodeName, bind_Namespace = namespace, bind_PodName = name,
                   bind_Timestamp =
                     (if event_Count event = 0 then event_EventTime event
                      else event_LastTimestamp event)\<rparr>))"

definition event_reconcile ::
  "(float64 \<Rightarrow> int) \<Rightarrow> (string \<Rightarrow> (string \<times> string) fallible) \<Rightarrow> (string \<Rightarrow> string) \<Rightarrow> sys \<Rightarrow> client \<Rightarrow>
   listers \<Rightarrow> Controller \<Rightarrow> string \<Rightarrow> (Controller \<times> go_error option) handled" where
  "event_reconcile cvt split_key scan_error sys client ls c key =
     (case split_key key of
        Inl err \<Rightarrow> Ok ([], c, Some err)
      | Inr (namespace, name) \<Rightarrow>
         (case get_event ls namespace name of
            Inl err \<Rightarrow> Ok ([], c, Some err)
          | Inr event \<Rightarrow>
             (case translateEventToBinding split_key scan_error event of
                Inl err \<Rightarrow> Ok ([], c, Some err)
              | Inr binding \<Rightarrow>
                  obind (AddBinding (c_bindingRecords c) binding) (\<lambda>br.
                    let c' = c\<lparr>c_bindingRecords := br\<rparr> in
                    case get_node ls (bind_Node binding) of
                      Inl err \<Rightarrow> Ok ([], c', Some (Wrap ''can not find node[nil]: '' err))
                    | Inr node \<Rightarrow>
                        obind (annotateNodeHotValue cvt sys client br node (c_policy c)) (\<lambda>(reqs, err).
                          Ok (reqs, c', err))))))"

section \<open>pod.go\<close>

definition pod_enqueue :: "('o \<Rightarrow> string fallible) \<Rightarrow> 'o \<Rightarrow> string list" where
  "pod_enqueue key_func obj = (case key_func obj of Inl err \<Rightarrow> [] | Inr key \<Rightarrow> [key])"

definition pod_handleUpdateEvent :: "(Pod \<Rightarrow> string fallible) \<Rightarrow> Pod \<Rightarrow> Pod \<Rightarrow> string list" where
  "pod_handleUpdateEvent key_func oldPod newPod =
     (if pod_NodeName oldPod \<noteq> pod_NodeName newPod then pod_enqueue key_func newPod
      else if pod_DeletionTimestamp oldPod = None \<and> pod_DeletionTimestamp newPod \<noteq> None
      then pod_enqueue key_func newPod
      else [])"

definition merge_type_of :: "Pod \<Rightarrow> string" where
  "merge_type_of pod = (if pod_DeletionTimestamp pod = None then MergeTypeAdd else MergeTypeSub)"

text \<open>One round of the loop over the policies: \<open>None\<close> when the source goes on without a patch.\<close>

definition delta_update ::
  "sys \<Rightarrow> Pod \<Rightarrow> Deployment \<Rightarrow> Node \<Rightarrow> SyncPolicy \<Rightarrow> string option outcome" where
  "delta_update sys pod deploy node policy =
     (if sync_Period policy = 0 then Ok None
      else
        obind (GetResourceUsageRange sys (deploy_Annotations deploy) (sync_Name policy)
                 (wrap64 (sync_Period policy + ExtraActivePeriod))) (\<lambda>r.
          case r of
            Inl err \<Rightarrow> Ok None
          | Inr deployUsages \<Rightarrow>
             (case GetDeltaUsageRange (node_Annotations node) (DeltaPrefixName @ sync_Name policy) of
                Inl err \<Rightarrow> Ok None
              | Inr deltaUsages \<Rightarrow>
                 (case MergeUsageRange deltaUsages deployUsages (merge_type_of pod) of
                    Inl err \<Rightarrow> Ok None
                  | Inr merged \<Rightarrow> Ok (Some merged)))))"

fun update_deltas ::
  "sys \<Rightarrow> client \<Rightarrow> Pod \<Rightarrow> Deployment \<Rightarrow> Node \<Rightarrow> SyncPolicy list \<Rightarrow> go_error option handled" where
  "update_deltas sys client pod deploy node [] = Ok ([], None)"
| "update_deltas sys client pod deploy node (p # ps) =
     obind (delta_update sys pod deploy node p) (\<lambda>u.
       case u of
         None \<Rightarrow> update_deltas sys client pod deploy node ps
       | Some merged \<Rightarrow>
           obind (PatchNodeAnnotation sys client node (DeltaPrefixName @ sync_Name p) merged)
             (\<lambda>(reqs, err).
               case err of
                 Some e \<Rightarrow> Ok (reqs, Some e)
               | None \<Rightarrow>
                   obind (update_deltas sys client pod deploy node ps) (\<lambda>(reqs', r).
                     Ok (reqs @ reqs', r))))"

definition pod_reconcile ::
  "(string \<Rightarrow> (string \<times> string) fallible) \<Rightarrow> sys \<Rightarrow> client \<Rightarrow> listers \<Rightarrow> Controller \<Rightarrow> string \<Rightarrow>
   go_error option handled" where
  "pod_reconcile split_key sys client ls c key =
     (case split_key key of
        Inl err \<Rightarrow> Ok ([], Some err)
      | Inr (namespace, name) \<Rightarrow>
         (case get_pod ls namespace name of
            Inl err \<Rightarrow> Ok ([], Some err)
          | Inr pod \<Rightarrow>
             (case GetDeploymentByPod (get_replicaset ls) (get_deployment ls) pod of
                Inl err \<Rightarrow> Ok ([], Some err)
              | Inr deploy \<Rightarrow>
                 (case get_node ls (pod_NodeName pod) of
                    Inl err \<Rightarrow> Ok ([], Some err)
                  | Inr node \<Rightarrow>
                      update_deltas sys client pod deploy node
                        (spec_SyncAppPeriod (policy_Spec (c_policy c)))))))"

section \<open>Keys\<close>

lemma split_handling:
  assumes "CHR ''/'' \<notin> set n" "CHR ''/'' \<notin> set m"
  shows "splitMetaKeyWithMetricName (handlingMetaKeyWithMetricName n m) = Inr (n, m)"
  using go_split_pair [OF assms] by (simp add: splitMetaKeyWithMetricName_def handlingMetaKeyWithMetricName_def)

lemma split_Inr:
  "splitMetaKeyWithMetricName key = Inr (n, m) \<longleftrightarrow>
     key = handlingMetaKeyWithMetricName n m \<and> CHR ''/'' \<notin> set n \<and> CHR ''/'' \<notin> set m"
proof
  assume "splitMetaKeyWithMetricName key = Inr (n, m)"
  then have "go_split CHR ''/'' key = [n, m]"
    by (auto simp: splitMetaKeyWithMetricName_def Let_def numeral_2_eq_2 length_Suc_conv split: if_splits)
  then show "key = handlingMetaKeyWithMetricName n m \<and> CHR ''/'' \<notin> set n \<and> CHR ''/'' \<notin> set m"
    using go_join_split [of "CHR ''/''" key] go_split_pieces [of _ "CHR ''/''" key]
    by (auto simp: handlingMetaKeyWithMetricName_def)
qed (use split_handling in blast)

section \<open>The longest hot value range\<close>

lemma max_range_from_props:
  "mx \<le> max_range_from mx trs" "hv \<in> set trs \<Longrightarrow> hot_TimeRange hv \<le> max_range_from mx trs"
  "max_range_from mx trs = mx \<or> max_range_from mx trs \<in> hot_TimeRange ` set trs"
proof (induction trs arbitrary: mx)
  case (Cons tr trs)
  {
    case 1
    show ?case using Cons(1) [of "if mx < hot_TimeRange tr then hot_TimeRange tr else mx"]
      by (auto split: if_splits)
  next
    case 2
    then show ?case
      using Cons(1) [of "if mx < hot_TimeRange tr then hot_TimeRange tr else mx"]
        Cons(2) [of "if mx < hot_TimeRange tr then hot_TimeRange tr else mx"]
      by (auto split: if_splits)
  next
    case 3
    show ?case using Cons(3) [of "if mx < hot_TimeRange tr then hot_TimeRange tr else mx"]
      by (auto split: if_splits)
  }
qed auto

lemma getMaxHotVauleTimeRange_ge: "hv \<in> set hvs \<Longrightarrow> hot_TimeRange hv \<le> getMaxHotVauleTimeRange hvs"
  by (simp add: getMaxHotVauleTimeRange_def max_range_from_props)

lemma getMaxHotVauleTimeRange_bound:
  "0 < m \<Longrightarrow> (\<And>hv. hv \<in> set hvs \<Longrightarrow> hot_TimeRange hv < m) \<Longrightarrow> getMaxHotVauleTimeRange hvs < m"
  using max_range_from_props(3) [of 0 hvs] by (auto simp: getMaxHotVauleTimeRange_def)

section \<open>Scanning event messages\<close>

lemma scan_word_word:
  assumes "w \<noteq> []" "\<forall>c \<in> set w. \<not> is_space c" "r = [] \<or> is_space (hd r)"
  shows "scan_word (w @ r) = Some (w, r)"
proof -
  obtain c cs where w: "w = c # cs" using assms(1) by (cases w) auto
  have "dropWhile is_blank (w @ r) = w @ r" using assms(2) w by simp
  moreover have "takeWhile (\<lambda>c. \<not> is_space c) (w @ r) = w" "dropWhile (\<lambda>c. \<not> is_space c) (w @ r) = r"
    using assms(2,3) by (cases r; simp add: takeWhile_append2 dropWhile_append2)+
  ultimately show ?thesis using assms(2) w by (simp add: scan_word_def)
qed

lemma scan_space_one:
  assumes "r \<noteq> []" "\<not> is_space (hd r)" shows "scan_space (CHR '' '' # r) = Some r"
  using assms by (cases r) (auto simp: scan_space_def is_space_def)

lemma scan_literal_append: "scan_literal f (f @ s) = Some s"
  by (induction f) auto

lemma scan_assigned_message:
  assumes "k \<noteq> []" "\<forall>c \<in> set k. \<not> is_space c" "n \<noteq> []" "\<forall>c \<in> set n. \<not> is_space c"
  shows "scan_assigned (''Successfully assigned '' @ k @ '' to '' @ n) = Some (k, n)"
proof -
  have msg: "''Successfully assigned '' @ k @ '' to '' @ n =
      ''Successfully'' @ CHR '' '' # ''assigned'' @ CHR '' '' # k @ CHR '' '' # ''to'' @ CHR '' '' # n"
    by simp
  have hd: "\<not> is_space (hd k)" "\<not> is_space (hd n)" using assms by simp_all
  have nsp: "\<not> is_space CHR ''a''" "\<not> is_space CHR ''t''" "is_space CHR '' ''"
    by (simp_all add: is_space_def)
  have 1: "scan_space (CHR '' '' # ''assigned'' @ s) = Some (''assigned'' @ s)" for s
    using nsp by (intro scan_space_one) simp_all
  have 2: "scan_space (CHR '' '' # k @ s) = Some (k @ s)" for s
    using assms(1) hd(1) by (intro scan_space_one) (simp_all add: hd_append)
  have 3: "scan_word (k @ CHR '' '' # s) = Some (k, CHR '' '' # s)" for s
    using assms nsp by (intro scan_word_word) simp_all
  have 4: "scan_space (CHR '' '' # ''to'' @ s) = Some (''to'' @ s)" for s
    using nsp by (intro scan_space_one) simp_all
  have 5: "scan_space (CHR '' '' # n) = Some n" using assms hd(2) by (intro scan_space_one) simp_all
  have 6: "scan_word n = Some (n, [])" using scan_word_word [of n "[]"] assms by simp
  show ?thesis
    unfolding msg scan_assigned_def
    by (simp only: scan_literal_append 1 2 3 4 5 6 bind.bind_lunit prod.case)
qed

section \<open>Removing deltas\<close>

definition delete_request :: "Node \<Rightarrow> string \<Rightarrow> patch_request" where
  "delete_request node k =
     \<lparr>patch_target = PatchNode (node_Name node), patch_kind = JSONPatchType,
      patch_data = patch_without_value ''remove'' k\<rparr>"

lemma delete_deltas_ok:
  assumes "\<And>k. k \<in> set ks \<Longrightarrow> has_prefix k DeltaPrefixName \<Longrightarrow> client (delete_request node k) = None"
  shows "delete_deltas client node ks =
    (map (delete_request node) (filter (\<lambda>k. has_prefix k DeltaPrefixName) ks), True, None)"
  using assms
  by (induction ks) (auto simp: DeleteNodeAnnotation_def send_patch_def delete_request_def)

lemma delete_deltas_error:
  assumes "\<And>k. k \<in> set ks \<Longrightarrow> has_prefix k DeltaPrefixName \<Longrightarrow> client (delete_request node k) = None"
    and "has_prefix d DeltaPrefixName" "client (delete_request node d) = Some e"
  shows "delete_deltas client node (ks @ d # rest) =
    (map (delete_request node) (filter (\<lambda>k. has_prefix k DeltaPrefixName) ks @ [d]), False,
     Some (Wrap (''can't delete deleta annotate node['' @ node_Name node @ '']: '')
       (Wrap ''patch node failed: '' e)))"
  using assms
  by (induction ks) (auto simp: DeleteNodeAnnotation_def send_patch_def delete_request_def)

end
