(* ===== verification/Annotation_Store.thy ===== *)
theory Annotation_Store
  imports Node_Annotator
begin

text \<open>
  The annotator and the readers of the plugins meet in the annotations that the API server keeps. This theory
  states what the server does with the JSON patches of the annotator, and proves what a reader finds after a
  write: the load that Prometheus reported, the hot value, the merged deltas, or nothing after a reset.
\<close>

section \<open>Writing an annotation and reading it back\<close>

text \<open>What the API server does with a JSON patch of one annotation, for keys and values without
  characters that JSON or JSON pointers escape: RFC 6902's \<open>add\<close>, \<open>replace\<close> and \<open>remove\<close> on the map
  of annotations, which has to exist.\<close>

definition plain_text :: "string \<Rightarrow> bool" where
  "plain_text s \<longleftrightarrow> (\<forall>c \<in> set s. c \<notin> {CHR 0x22, CHR 0x5C, CHR ''/'', CHR ''~'', CHR 0x0A})"

definition applies_json_patch :: "(annotations \<Rightarrow> string \<Rightarrow> annotations) \<Rightarrow> bool" where
  "applies_json_patch apply \<longleftrightarrow>
     (\<forall>m k v. plain_text k \<longrightarrow> plain_text v \<longrightarrow>
        apply (Some m) (patch_with_value ''add'' k v) = anno_put (Some m) k v) \<and>
     (\<forall>m k v. plain_text k \<longrightarrow> plain_text v \<longrightarrow> anno_get (Some m) k \<noteq> None \<longrightarrow>
        apply (Some m) (patch_with_value ''replace'' k v) = anno_put (Some m) k v) \<and>
     (\<forall>m k. plain_text k \<longrightarrow> anno_get (Some m) k \<noteq> None \<longrightarrow>
        apply (Some m) (patch_without_value ''remove'' k) = anno_remove (Some m) k)"

lemma digit_val_escapes [simp]:
  "digit_val False CHR 0x5C = None" "digit_val False CHR ''~'' = None" "digit_val False CHR 0x0A = None"
  by code_simp+

lemma format_time_charset:
  "c \<in> set (format_time loc t) \<Longrightarrow> is_digit c \<or> c \<in> {CHR ''-'', CHR ''T'', CHR '':'', CHR ''Z''}"
  unfolding format_time_def format_wall_def
  by (auto simp: Let_def split: prod.splits dest: show_padded_chars)

lemma format_time_plain: "plain_text (format_time loc t)"
  unfolding plain_text_def by (auto dest!: format_time_charset)

lemma stamped_plain: "plain_text v \<Longrightarrow> plain_text (stamped loc v t)"
  using format_time_plain [of loc t] by (auto simp: stamped_def plain_text_def)

lemma apply_PatchNodeAnnotation:
  assumes "applies_json_patch apply" "GetLocation sys = Some loc" "node_Annotations node = Some m"
    and "plain_text key" "plain_text v"
  shows "\<exists>req r. PatchNodeAnnotation sys client node key v = Ok ([req], r) \<and>
    patch_target req = PatchNode (node_Name node) \<and>
    apply (Some m) (patch_data req) = anno_put (Some m) key (stamped loc v (sys_now sys))"
proof -
  have "apply (Some m) (patch_with_value (patch_operator (Some m) key) key (stamped loc v (sys_now sys))) =
      anno_put (Some m) key (stamped loc v (sys_now sys))"
    using assms(1,4) stamped_plain [OF assms(5)]
    unfolding applies_json_patch_def patch_operator_def by auto
  then show ?thesis
    using PatchNodeAnnotation_request [OF assms(2)] assms(3) by (auto simp: send_patch_def)
qed

lemma itoa_plain: "plain_text (itoa i)" "CHR '','' \<notin> set (itoa i)"
  by (auto simp: plain_text_def dest!: itoa_chars)

section \<open>A server\<close>

text \<open>The text of a patch between its quotes, and a server that reads its patches that way.\<close>

lemma patch_with_value_pieces:
  assumes "plain_text op" "plain_text k" "plain_text v"
  shows "go_split CHR 0x22 (patch_with_value op k v) =
    [[CHR ''['', CHR ''{'', CHR 0x0A, CHR 0x09, CHR 0x09], ''op'', '': '', op,
     [CHR '','', CHR 0x0A, CHR 0x09, CHR 0x09], ''path'', '': '', ''/metadata/annotations/'' @ k,
     [CHR '','', CHR 0x0A, CHR 0x09, CHR 0x09], ''value'', '': '', v,
     [CHR 0x0A, CHR 0x09, CHR ''}'', CHR '']'']]"
proof -
  have "patch_with_value op k v = go_join CHR 0x22
    [[CHR ''['', CHR ''{'', CHR 0x0A, CHR 0x09, CHR 0x09], ''op'', '': '', op,
     [CHR '','', CHR 0x0A, CHR 0x09, CHR 0x09], ''path'', '': '', ''/metadata/annotations/'' @ k,
     [CHR '','', CHR 0x0A, CHR 0x09, CHR 0x09], ''value'', '': '', v,
     [CHR 0x0A, CHR 0x09, CHR ''}'', CHR '']'']]"
    by (simp add: patch_with_value_def quoted_def)
  then show ?thesis
    using assms by (simp only:) (rule go_split_join, auto simp: plain_text_def)
qed

lemma patch_without_value_pieces:
  assumes "plain_text op" "plain_text k"
  shows "go_split CHR 0x22 (patch_without_value op k) =
    [[CHR ''['', CHR ''{'', CHR 0x0A, CHR 0x09, CHR 0x09], ''op'', '': '', op,
     [CHR '','', CHR 0x0A, CHR 0x09, CHR 0x09], ''path'', '': '', ''/metadata/annotations/'' @ k,
     [CHR 0x0A, CHR 0x09, CHR ''}'', CHR '']'']]"
proof -
  have "patch_without_value op k = go_join CHR 0x22
    [[CHR ''['', CHR ''{'', CHR 0x0A, CHR 0x09, CHR 0x09], ''op'', '': '', op,
     [CHR '','', CHR 0x0A, CHR 0x09, CHR 0x09], ''path'', '': '', ''/metadata/annotations/'' @ k,
     [CHR 0x0A, CHR 0x09, CHR ''}'', CHR '']'']]"
    by (simp add: patch_without_value_def quoted_def)
  then show ?thesis
    using assms by (simp only:) (rule go_split_join, auto simp: plain_text_def)
qed

definition json_server :: "annotations \<Rightarrow> string \<Rightarrow> annotations" where
  "json_server anno data =
     (case go_split CHR 0x22 data of
        [_, _, _, _, _, _, _, path, _, _, _, v, _] \<Rightarrow> anno_put anno (drop 22 path) v
      | [_, _, _, _, _, _, _, path, _] \<Rightarrow> anno_remove anno (drop 22 path)
      | _ \<Rightarrow> anno)"

lemma json_server_applies: "applies_json_patch json_server"
proof -
  have "plain_text ''add''" "plain_text ''replace''" "plain_text ''remove''"
    by (simp_all add: plain_text_def)
  then show ?thesis
    by (simp add: applies_json_patch_def json_server_def patch_with_value_pieces patch_without_value_pieces)
qed

section \<open>Reading back what the annotator writes\<close>

lemma format_float5_plain: "is_float64 x \<Longrightarrow> plain_text (format_float5 x)"
proof (cases x)
  case (Fin s q)
  assume "is_float64 x"
  then have "0 \<le> round_even (q * 100000)" using Fin round_even_ge [of 0 "q * 100000"] by simp
  then show ?thesis
    using Fin by (auto simp: plain_text_def dest: show_fixed5_chars)
qed (auto simp: plain_text_def)

text \<open>An instant query that finds a series answers with a number printed with five decimals.\<close>

lemma prom_query_formatted:
  assumes "api_floats api" "prom_query api sys q = Inr v" "v \<noteq> ''''"
  obtains x where "is_float64 x" "f_zero \<le> x" "v = format_float5 x"
proof -
  obtain vs where vs: "api_Query api q (sys_now sys) = Inr (Vector vs, [])" "v = last_sample vs"
    using assms(2) by (auto simp: prom_query_def split: sum.splits prod.splits if_splits prom_value.splits)
  have ne: "vs \<noteq> []" using vs(2) assms(3) by (auto simp: last_sample_def)
  have "list_all is_float64 vs" using assms(1) vs(1) unfolding api_floats_def by blast
  then have "is_float64 (last vs)" using ne by (simp add: list_all_iff)
  then show thesis using that clean_sample_props vs(2) last_sample_Cons [OF ne] by blast
qed

text \<open>What a reader finds after the annotator has written a load.\<close>

lemma annotated_load_reads:
  assumes api: "api_floats api" and patch: "applies_json_patch apply"
    and loc: "GetLocation sys = Some loc" "GetLocation sys' = Some loc" "stable_at loc (sys_now sys)"
      "four_digit_year loc (sys_now sys)"
    and key: "plain_text key" "\<not> has_prefix key PrefixRange"
    and node: "node_Annotations node = Some m"
    and query: "QueryByNodeIP api sys key (getNodeInternalIP node) = Inr v" "v \<noteq> ''''"
  shows "\<exists>req r x. annotateNodeLoad api sys client node key = Ok ([req], r) \<and>
    patch_target req = PatchNode (node_Name node) \<and> parse_float64 v = Some x \<and> f_zero \<le> x \<and>
    GetResourceUsage sys' (apply (Some m) (patch_data req)) key d =
      Ok (if sys_now sys' < time_unix (sys_now sys) * second + d then Inr x
          else Inl (Plain (''timestamp['' @ stamped loc v (sys_now sys) @ ''] is expired'')))"
proof -
  have "\<exists>q. prom_query api sys q = Inr v"
    using query by (auto simp: QueryByNodeIP_def dest: first_of_Inr)
  then obtain y where y: "is_float64 y" "f_zero \<le> y" "v = format_float5 y"
    using prom_query_formatted [OF api _ query(2)] by blast
  obtain req r where req: "PatchNodeAnnotation sys client node key v = Ok ([req], r)"
      "patch_target req = PatchNode (node_Name node)"
      "apply (Some m) (patch_data req) = anno_put (Some m) key (stamped loc v (sys_now sys))"
    using apply_PatchNodeAnnotation [OF patch loc(1) node key(1), of v client] format_float5_plain [OF y(1)] y(3) by auto
  have p: "parse_float64 v = Some (round5 y)" "f_zero \<le> round5 y"
    using parse_format_float5 [OF y(1)] round5_nonneg(1) [OF y(1,2)] y(3) by simp_all
  then have "\<not> round5 y < f_zero" by (cases "round5 y") (auto simp: less_float64_def less_eq_float64_def)
  then have pay: "usage_payload s v = Inr (round5 y)" for s using p(1) by (simp add: usage_payload_def)
  have "CHR '','' \<notin> set v" using format_float5_no_sep [OF y(1)] y(3) by simp
  from usage.read_stamped [OF _ this loc(2,3,4), of "apply (Some m) (patch_data req)" key d] req(3)
  have "GetResourceUsage sys' (apply (Some m) (patch_data req)) key d =
      Ok (if sys_now sys' < time_unix (sys_now sys) * second + d then Inr (round5 y)
          else Inl (Plain (''timestamp['' @ stamped loc v (sys_now sys) @ ''] is expired'')))"
    by (simp add: pay)
  moreover have "annotateNodeLoad api sys client node key = Ok ([req], r)"
    using key(2) query(1) req(1) by (simp add: annotateNodeLoad_def)
  ultimately show ?thesis using req(2) p by blast
qed

text \<open>A Prometheus that reports one sample for every query.\<close>

definition example_api :: "float64 list \<Rightarrow> prom_api" where
  "example_api vs = \<lparr>api_Query = (\<lambda>q t. Inr (Vector vs, [])), api_QueryRange = (\<lambda>q r. Inr (Matrix [vs], []))\<rparr>"

lemma example_api_floats: "list_all is_float64 vs \<Longrightarrow> api_floats (example_api vs)"
  by (simp add: api_floats_def example_api_def)

lemma example_times: "stable_at (fixed_location 0) (100 * second)" "four_digit_year (fixed_location 0) (100 * second)"
proof -
  show "stable_at (fixed_location 0) (100 * second)" by (rule stable_at_fixed) (simp add: time_unix_def)
  have "year_yday unix_days = (1970, 0)" by code_simp
  then show "four_digit_year (fixed_location 0) (100 * second)"
    by (simp add: four_digit_year_def wall_seconds_def fixed_location_def time_unix_def)
qed

lemma example_load_query:
  "QueryByNodeIP (example_api [Fin False (1 / 4)]) sys metric ip = Inr ''0.25000''"
proof -
  have "format_float5 (Fin False (1 / 4)) = ''0.25000''" by code_simp
  moreover have "clean_sample (Fin False (1 / 4)) = Fin False (1 / 4)" by (simp add: clean_sample_def less_float64_def)
  ultimately show ?thesis by (simp add: QueryByNodeIP_def first_of_def prom_query_def example_api_def last_sample_def)
qed

text \<open>C21. The format of the hot value is sound: what the annotator writes as the hot value of a node is what
  \<open>getNodeHotValue\<close> of the dynamic plugin reads back, for five minutes after the (whole) second of the time stamp exactly the
  sum, over the hot value policies, of the node's bindings in the policy's range divided by its count, and zero from then
  on. The theorem is about these two functions only: in the repository nothing calls the reader, and \<open>Score\<close> takes the
  hot value from the plugin's own log of bindings.\<close>

theorem hot_value_round_trip:
  assumes "applies_json_patch apply" "GetLocation sys = Some loc" "GetLocation sys' = Some loc"
    and "stable_at loc (sys_now sys)" "four_digit_year loc (sys_now sys)"
    and "br_wf br" "br_size br < 2 ^ 31" "length (spec_HotValue (policy_Spec policy)) \<le> 2 ^ 20"
    and "\<forall>hv \<in> set (spec_HotValue (policy_Spec policy)). 0 < hot_Count hv"
    and "node_Annotations node = Some m"
    and "h = hot_value cvt (sys_now sys) br (node_Name node) (spec_HotValue (policy_Spec policy))"
  shows "\<exists>req r. annotateNodeHotValue cvt sys client br node policy = Ok ([req], r) \<and>
    patch_target req = PatchNode (node_Name node) \<and>
    getNodeHotValue sys' (node\<lparr>node_Annotations := apply (Some m) (patch_data req)\<rparr>) =
      Ok (if sys_now sys' < time_unix (sys_now sys) * second + 5 * minute then of_int64 h else f_zero) \<and>
    val (of_int64 h) = of_int h"
proof -
  let ?hvs = "spec_HotValue (policy_Spec policy)"
  have "int (length ?hvs) * br_size br \<le> 2 ^ 20 * 2 ^ 31"
    using assms(6-8) by (intro mult_mono) (auto simp: br_wf_def)
  then have len: "int (length ?hvs) * br_size br < 2 ^ 53" by simp
  have h: "0 \<le> h" "h < 2 ^ 53"
    using hot_value_bounds [OF assms(6), of ?hvs cvt "sys_now sys" "node_Name node"] assms(9,11) len by auto
  have loop: "hot_value_loop cvt (sys_now sys) br (node_Name node) ?hvs 0 = Ok h"
    using hot_value_loop_eq [OF assms(6,7), of ?hvs 0] assms(9,11) len by simp
  have key: "plain_text HotValueKey" by (simp add: plain_text_def)
  obtain req r where req: "PatchNodeAnnotation sys client node HotValueKey (itoa h) = Ok ([req], r)"
      "patch_target req = PatchNode (node_Name node)"
      "apply (Some m) (patch_data req) = anno_put (Some m) HotValueKey (stamped loc (itoa h) (sys_now sys))"
    using apply_PatchNodeAnnotation [OF assms(1,2,10) key itoa_plain(1)] by blast
  have v: "finite64 (of_int64 h)" "val (of_int64 h) = of_int h" using of_int64_exact [of h] h by simp_all
  have "fl_mag False (of_int h) = of_int64 h" using h(1) by (simp add: of_int64_def fl_def)
  then have "parse_float64 (itoa h) = Some (of_int64 h)"
    using parse_show_nat [OF h(1)] v(1) h(1) by (simp add: itoa_def)
  moreover have "\<not> of_int64 h < f_zero" using v h(1) by (simp add: less_iff_val)
  ultimately have pay: "usage_payload s (itoa h) = Inr (of_int64 h)" for s by (simp add: usage_payload_def)
  have get: "anno_get (apply (Some m) (patch_data req)) HotValueKey = Some (stamped loc (itoa h) (sys_now sys))"
    using req(3) by simp
  have "getNodeHotValue sys' (node\<lparr>node_Annotations := apply (Some m) (patch_data req)\<rparr>) =
      Ok (if sys_now sys' < time_unix (sys_now sys) * second + 5 * minute then of_int64 h else f_zero)"
    using usage.read_stamped [OF get itoa_plain(2) assms(3-5), of "5 * minute"]
    by (auto simp: getNodeHotValue_def pay req(3) anno_put_def)
  then show ?thesis using loop req(1,2) v(2) by (auto simp: annotateNodeHotValue_def)
qed

text \<open>Two bindings in the last minute, of which the policy counts two for one: the hot value is one, and it is read back.\<close>

theorem hot_value_round_trip_witness:
  "\<exists>req r. annotateNodeHotValue (\<lambda>_. 0) (example_sys (100 * second)) (\<lambda>_. None) (ds_bindingRecords example_hot_scheduler)
      (example_node (Some [])) (ds_schedulerPolicy example_hot_scheduler) = Ok ([req], r) \<and>
    patch_target req = PatchNode ''n1'' \<and>
    getNodeHotValue (example_sys (200 * second))
      (example_node (Some [])\<lparr>node_Annotations := json_server (Some []) (patch_data req)\<rparr>) = Ok f_one \<and>
    getNodeHotValue (example_sys (400 * second))
      (example_node (Some [])\<lparr>node_Annotations := json_server (Some []) (patch_data req)\<rparr>) = Ok f_zero"
proof -
  have h: "1 = hot_value (\<lambda>_. 0) (sys_now (example_sys (100 * second))) (ds_bindingRecords example_hot_scheduler)
      (node_Name (example_node (Some []))) (spec_HotValue (policy_Spec (ds_schedulerPolicy example_hot_scheduler)))"
    by code_simp
  have one: "of_int64 1 = f_one" by code_simp
  have wf: "br_wf (ds_bindingRecords example_hot_scheduler)"
    by (simp add: br_wf_def example_hot_scheduler_def heap_from_def Less_def example_binding_def less_Suc_eq parent_def numeral_2_eq_2)
  have side: "br_size (ds_bindingRecords example_hot_scheduler) < 2 ^ 31"
    "length (spec_HotValue (policy_Spec (ds_schedulerPolicy example_hot_scheduler))) \<le> 2 ^ 20"
    "\<forall>hv \<in> set (spec_HotValue (policy_Spec (ds_schedulerPolicy example_hot_scheduler))). 0 < hot_Count hv"
    "node_Annotations (example_node (Some [])) = Some []"
    by (simp_all add: example_hot_scheduler_def example_scheduler_def example_spec_def example_node_def)
  have t: "stable_at (fixed_location 0) (sys_now (example_sys (100 * second)))"
    "four_digit_year (fixed_location 0) (sys_now (example_sys (100 * second)))"
    using example_times by (simp_all add: example_sys_def)
  have later: "sys_now (example_sys s) = s" for s by (simp add: example_sys_def)
  note trip = hot_value_round_trip [OF json_server_applies example_location example_location t wf side h]
  from trip [of "\<lambda>_. None" "200 * second"] trip [of "\<lambda>_. None" "400 * second"] show ?thesis
    by (auto simp: later time_unix_def one example_node_def)
qed

section \<open>Recycling in the annotator\<close>

text \<open>The annotator's collector never changes a hot value: a controller recycles with the longest range of its
  hot value policies, so that a tick leaves the annotation that any node would get at that clock reading as it was.\<close>

lemma annotator_gc_invisible:
  assumes "br_wf (c_bindingRecords c)" "valid_instant (sys_now sys)"
    and "c_policy c = c_policy (NewNodeAnnotator policy sz)"
    and "br_gcTimeRange (c_bindingRecords c) = br_gcTimeRange (c_bindingRecords (NewNodeAnnotator policy sz))"
    and "\<forall>hv \<in> set (spec_HotValue (policy_Spec policy)). 0 \<le> hot_TimeRange hv \<and> hot_TimeRange hv < 2 ^ 63"
  shows "\<exists>c'. Controller_gc_tick cvt sys c = Ok c' \<and> br_wf (c_bindingRecords c') \<and> c_policy c' = c_policy c \<and>
    annotateNodeHotValue cvt sys client (c_bindingRecords c') node (c_policy c') =
    annotateNodeHotValue cvt sys client (c_bindingRecords c) node (c_policy c)"
proof -
  let ?hvs = "spec_HotValue (policy_Spec policy)"
  have g: "br_gcTimeRange (c_bindingRecords c) = getMaxHotVauleTimeRange ?hvs" and pol: "c_policy c = policy"
    using assms(3,4) by (simp_all add: NewNodeAnnotator_def NewBindingRecords_def)
  have "getMaxHotVauleTimeRange ?hvs < 2 ^ 63" by (rule getMaxHotVauleTimeRange_bound) (use assms(5) in auto)
  then show ?thesis
    using BindingsGC_keeps_hot_value [OF assms(1) _ assms(2), of ?hvs cvt] getMaxHotVauleTimeRange_ge assms(5)
    by (fastforce simp: g pol Controller_gc_tick_def annotateNodeHotValue_def)
qed

lemma annotator_gc_invisible_witness:
  "\<exists>c'. Controller_gc_tick (\<lambda>_. 0) (example_sys (100 * second)) (NewNodeAnnotator (ds_schedulerPolicy example_scheduler) 10) = Ok c' \<and>
    br_wf (c_bindingRecords c') \<and> c_policy c' = c_policy (NewNodeAnnotator (ds_schedulerPolicy example_scheduler) 10) \<and>
    annotateNodeHotValue (\<lambda>_. 0) (example_sys (100 * second)) (\<lambda>_. None) (c_bindingRecords c') (example_node None) (c_policy c') =
    annotateNodeHotValue (\<lambda>_. 0) (example_sys (100 * second)) (\<lambda>_. None)
      (c_bindingRecords (NewNodeAnnotator (ds_schedulerPolicy example_scheduler) 10)) (example_node None)
      (c_policy (NewNodeAnnotator (ds_schedulerPolicy example_scheduler) 10))"
  by (rule annotator_gc_invisible [where policy = "ds_schedulerPolicy example_scheduler" and sz = 10])
     (simp_all add: NewNodeAnnotator_def NewBindingRecords_wf example_sys_def, simp_all add: example_scheduler_def example_spec_def)

section \<open>Missing data\<close>

text \<open>C38. A metric without samples is written as if it had been measured: when both queries by address succeed with
  an empty vector, the node is annotated with an empty value and a fresh time stamp and the query by node name is
  never made; every reader then fails to parse the value. The result is the same whatever the query by name
  would have answered.\<close>

theorem empty_vector_annotated:
  assumes "\<not> has_prefix key PrefixRange" "GetLocation sys = Some loc" "GetLocation sys' = Some loc"
    and "stable_at loc (sys_now sys)" "four_digit_year loc (sys_now sys)"
    and "applies_json_patch apply" "node_Annotations node = Some m" "plain_text key"
    and "api_Query api (instance_selector key (getNodeInternalIP node)) (sys_now sys) = Inr (Vector [], [])"
    and "api_Query api (instance_selector key (getNodeInternalIP node @ '':.+'')) (sys_now sys) = Inr (Vector [], [])"
    and "sys_now sys' < time_unix (sys_now sys) * second + d"
  shows "\<exists>req r. annotateNodeLoad api sys client node key = Ok ([req], r) \<and>
    anno_get (apply (Some m) (patch_data req)) key = Some ('','' @ format_time loc (sys_now sys)) \<and>
    GetResourceUsage sys' (apply (Some m) (patch_data req)) key d = Ok (Inl (Plain ''failed to parse float[]''))"
proof -
  have "QueryByNodeIP api sys key (getNodeInternalIP node) = Inr ''''"
    using prom_query_no_series [OF assms(9)] prom_query_no_series [OF assms(10)] by (simp add: QueryByNodeIP_def first_of_def)
  then have load: "annotateNodeLoad api sys client node key = PatchNodeAnnotation sys client node key ''''"
    using assms(1) by (simp add: annotateNodeLoad_def)
  obtain req r where req: "PatchNodeAnnotation sys client node key '''' = Ok ([req], r)"
      "apply (Some m) (patch_data req) = anno_put (Some m) key (stamped loc '''' (sys_now sys))"
    using apply_PatchNodeAnnotation [OF assms(6,2,7,8), of "''''" client] by (auto simp: plain_text_def)
  have get: "anno_get (apply (Some m) (patch_data req)) key = Some (stamped loc '''' (sys_now sys))" using req(2) by simp
  have "parse_float64 '''' = None" by code_simp
  then have "usage_payload s '''' = Inl (Plain ''failed to parse float[]'')" for s by (simp add: usage_payload_def)
  then have "GetResourceUsage sys' (apply (Some m) (patch_data req)) key d = Ok (Inl (Plain ''failed to parse float[]''))"
    using usage.read_stamped [OF get _ assms(3-5), of d] assms(11) by simp
  then show ?thesis using load req(1) get by (simp add: stamped_def)
qed

theorem empty_vector_annotated_witness:
  "\<exists>req r. annotateNodeLoad (example_api []) (example_sys (100 * second)) (\<lambda>_. None) (example_node (Some []))
      ''cpu_usage_avg_5m'' = Ok ([req], r) \<and>
    anno_get (json_server (Some []) (patch_data req)) ''cpu_usage_avg_5m'' =
      Some ('','' @ format_time (fixed_location 0) (100 * second)) \<and>
    GetResourceUsage (example_sys (200 * second)) (json_server (Some []) (patch_data req)) ''cpu_usage_avg_5m'' (8 * minute) =
      Ok (Inl (Plain ''failed to parse float[]''))"
proof -
  have p: "\<not> has_prefix ''cpu_usage_avg_5m'' PrefixRange" "plain_text ''cpu_usage_avg_5m''" by code_simp+
  show ?thesis
    using empty_vector_annotated [OF p(1) example_location example_location [of "200 * second"] _ _ json_server_applies _ p(2),
        of "100 * second" "example_node (Some [])" "[]" "example_api []" "8 * minute" "\<lambda>_. None"] example_times
    by (simp add: example_sys_def example_node_def example_api_def time_unix_def)
qed

text \<open>A time zone that does not load stops the annotator: when the zone of the environment is unknown, every
  write of a node annotation panics, because the early return of \<open>GetLocalTime\<close> is missing, and so does the
  synchronisation of every node whose load Prometheus reports.\<close>

lemma missing_zone_panics:
  assumes "GetLocation sys = None" "get_node ls n = Inr node" "CHR ''/'' \<notin> set n" "CHR ''/'' \<notin> set metric"
    and "\<not> has_prefix metric PrefixRange" "QueryByNodeIP api sys metric (getNodeInternalIP node) = Inr v"
  shows "PatchNodeAnnotation sys client node key value = Panic MissingLocation \<and>
    node_processNextWorkItem cvt api sys client ls c (handlingMetaKeyWithMetricName n metric) = Panic MissingLocation"
  using assms split_handling [OF assms(3,4)] PatchNodeAnnotation_no_location [OF assms(1)]
  by (simp add: node_processNextWorkItem_def syncNode_def annotateNodeLoad_def)

lemma missing_zone_panics_witness:
  "PatchNodeAnnotation ((example_sys 0)\<lparr>sys_getenv := \<lambda>_. ''Asia/Shanghai''\<rparr>) (\<lambda>_. None) (example_node None) ''k'' ''1''
      = Panic MissingLocation \<and>
    node_processNextWorkItem (\<lambda>_. 0) (example_api []) ((example_sys 0)\<lparr>sys_getenv := \<lambda>_. ''Asia/Shanghai''\<rparr>) (\<lambda>_. None)
      \<lparr>get_node = (\<lambda>_. Inr (example_node None)), list_nodes = Inr [], list_namespaces = Inr [], list_deployments = (\<lambda>_. Inr []),
       get_deployment = (\<lambda>_ _. Inl (External '''')), get_replicaset = (\<lambda>_ _. Inl (External '''')),
       get_pod = (\<lambda>_ _. Inl (External '''')), get_event = (\<lambda>_ _. Inl (External ''''))\<rparr>
      (NewNodeAnnotator (ds_schedulerPolicy example_scheduler) 10) (handlingMetaKeyWithMetricName ''n1'' ''cpu'') = Panic MissingLocation"
  by (rule missing_zone_panics [where node = "example_node None" and v = "''''"])
     (simp_all add: GetLocation_def example_sys_def load_location_def has_prefix_def example_api_def QueryByNodeIP_def first_of_def
        prom_query_def last_sample_def Let_def)

section \<open>Work items\<close>

definition value_request :: "location \<Rightarrow> sys \<Rightarrow> Node \<Rightarrow> string \<Rightarrow> string \<Rightarrow> patch_request" where
  "value_request loc sys node key value =
     \<lparr>patch_target = PatchNode (node_Name node), patch_kind = JSONPatchType,
      patch_data = patch_with_value (patch_operator (node_Annotations node) key) key (stamped loc value (sys_now sys))\<rparr>"

lemma PatchNodeAnnotation_value_request:
  "GetLocation sys = Some loc \<Longrightarrow>
   PatchNodeAnnotation sys client node key value = Ok (send_patch client (value_request loc sys node key value))"
  by (simp add: PatchNodeAnnotation_request value_request_def)

definition example_listers :: "Node list \<Rightarrow> listers" where
  "example_listers nodes =
     \<lparr>get_node = (\<lambda>n. case find (\<lambda>d. node_Name d = n) nodes of None \<Rightarrow> Inl (External ''not found'') | Some d \<Rightarrow> Inr d),
      list_nodes = Inr nodes, list_namespaces = Inr [], list_deployments = (\<lambda>_. Inr []),
      get_deployment = (\<lambda>_ _. Inl (External '''')), get_replicaset = (\<lambda>_ _. Inl (External '''')),
      get_pod = (\<lambda>_ _. Inl (External '''')), get_event = (\<lambda>_ _. Inl (External ''''))\<rparr>"

lemma example_hot_value:
  "hot_value_loop cvt now (c_bindingRecords (NewNodeAnnotator (ds_schedulerPolicy example_scheduler) 10)) n
     (spec_HotValue (policy_Spec (c_policy (NewNodeAnnotator (ds_schedulerPolicy example_scheduler) 10)))) 0 = Ok 0"
  by (simp add: NewNodeAnnotator_def example_scheduler_def example_spec_def GetLastNodeBindingCount_eq recent_def go_div_def)

section \<open>Scheduling events\<close>

text \<open>C18. A scheduling event becomes one binding: for the message the default scheduler writes, the reconciler reads the
  namespace, the pod and the node back, adds exactly that binding to a log that is not full, with the event time
  of a single event or the last time stamp of a repeated one, and writes the hot value that includes it.\<close>

theorem scheduled_event_recorded:
  assumes "split_key key = Inr (ns, name)" "get_event ls ns name = Inr ev"
    and "event_Message ev = ''Successfully assigned '' @ pns @ ''/'' @ pod @ '' to '' @ n"
    and "\<forall>ch \<in> set (pns @ pod @ n). \<not> is_space ch" "n \<noteq> ''''" "split_key (pns @ ''/'' @ pod) = Inr (pns, pod)"
    and "br_wf (c_bindingRecords c)" "int (length (br_bindings (c_bindingRecords c))) < br_size (c_bindingRecords c)"
    and "get_node ls n = Inr node" "GetLocation sys = Some loc"
    and "\<forall>hv \<in> set (spec_HotValue (policy_Spec (c_policy c))). hot_Count hv \<noteq> 0"
  shows "\<exists>c' req r. event_reconcile cvt split_key scan_error sys client ls c key = Ok ([req], c', r) \<and>
    br_wf (c_bindingRecords c') \<and> c_policy c' = c_policy c \<and>
    contents (c_bindingRecords c') =
      add_mset \<lparr>bind_Node = n, bind_Namespace = pns, bind_PodName = pod,
        bind_Timestamp = (if event_Count ev = 0 then event_EventTime ev else event_LastTimestamp ev)\<rparr>
        (contents (c_bindingRecords c)) \<and>
    annotateNodeHotValue cvt sys client (c_bindingRecords c') node (c_policy c') = Ok ([req], r)"
proof -
  define b where "b = \<lparr>bind_Node = n, bind_Namespace = pns, bind_PodName = pod,
    bind_Timestamp = (if event_Count ev = 0 then event_EventTime ev else event_LastTimestamp ev)\<rparr>"
  have sl: "\<not> is_space CHR ''/''" by (simp add: is_space_def)
  have "scan_assigned (event_Message ev) = Some (pns @ ''/'' @ pod, n)"
    using scan_assigned_message [of "pns @ ''/'' @ pod" n] assms(3-5) sl by auto
  then have ev: "translateEventToBinding split_key scan_error ev = Inr b"
    using assms(6) by (simp add: translateEventToBinding_def b_def)
  obtain br' where br': "AddBinding (c_bindingRecords c) b = Ok br'" "br_wf br'"
      "contents br' = add_mset b (contents (c_bindingRecords c))"
    using AddBinding_not_full [OF assms(7), of b] assms(8) by auto
  obtain h where h: "hot_value_loop cvt (sys_now sys) br' (node_Name node) (spec_HotValue (policy_Spec (c_policy c))) 0 = Ok h"
    using hot_value_loop_returns assms(11) by blast
  have n: "bind_Node b = n" by (simp add: b_def)
  show ?thesis
    using assms(1,2,9) ev br' h n unfolding b_def [symmetric]
    by (simp add: event_reconcile_def annotateNodeHotValue_def PatchNodeAnnotation_value_request [OF assms(10)] send_patch_def Let_def)
qed

definition example_event :: Event where
  "example_event =
     \<lparr>event_Type = ''Normal'', event_Reason = ''Scheduled'', event_ResourceVersion = ''1'',
      event_Message = ''Successfully assigned ns/web to n1'', event_Count = 1, event_EventTime = 0, event_LastTimestamp = 90\<rparr>"

definition example_split :: "string \<Rightarrow> (string \<times> string) fallible" where
  "example_split key =
     (case go_split CHR ''/'' key of [ns, name] \<Rightarrow> Inr (ns, name) | [name] \<Rightarrow> Inr ('''', name)
      | _ \<Rightarrow> Inl (Plain (''unexpected key format: '' @ quoted key)))"

theorem scheduled_event_recorded_witness:
  "\<exists>c' req r. event_reconcile (\<lambda>_. 0) example_split (\<lambda>_. '''') (example_sys (100 * second)) (\<lambda>_. None)
      ((example_listers [example_node None])\<lparr>get_event := \<lambda>_ _. Inr example_event\<rparr>)
      (NewNodeAnnotator (ds_schedulerPolicy example_scheduler) 10) ''ns/e'' = Ok ([req], c', r) \<and>
    br_wf (c_bindingRecords c') \<and> c_policy c' = c_policy (NewNodeAnnotator (ds_schedulerPolicy example_scheduler) 10) \<and>
    contents (c_bindingRecords c') =
      {#\<lparr>bind_Node = ''n1'', bind_Namespace = ''ns'', bind_PodName = ''web'', bind_Timestamp = 90\<rparr>#} \<and>
    annotateNodeHotValue (\<lambda>_. 0) (example_sys (100 * second)) (\<lambda>_. None) (c_bindingRecords c') (example_node None) (c_policy c') =
      Ok ([req], r)"
proof -
  have k: "example_split ''ns/e'' = Inr (''ns'', ''e'')" "example_split ''ns/web'' = Inr (''ns'', ''web'')" by code_simp+
  let ?c = "NewNodeAnnotator (ds_schedulerPolicy example_scheduler) 10"
  have c: "br_wf (c_bindingRecords ?c)" "int (length (br_bindings (c_bindingRecords ?c))) < br_size (c_bindingRecords ?c)"
    "contents (c_bindingRecords ?c) = {#}"
    using NewBindingRecords_wf [of 10] by (simp_all add: NewNodeAnnotator_def NewBindingRecords_def heap_init_def)
  show ?thesis
    using scheduled_event_recorded [where split_key = example_split and ev = example_event and pns = "''ns''" and pod = "''web''"
        and n = "''n1''" and key = "''ns/e''" and c = ?c and node = "example_node None" and loc = "fixed_location 0"
        and ls = "(example_listers [example_node None])\<lparr>get_event := \<lambda>_ _. Inr example_event\<rparr>" and client = "\<lambda>_. None"
        and cvt = "\<lambda>_. 0" and scan_error = "\<lambda>_. ''''", OF k(1) _ _ _ _ _ c(1,2) _ example_location] k(2) c(3)
    by (simp add: example_listers_def example_event_def example_node_def is_space_def)
       (simp add: NewNodeAnnotator_def example_scheduler_def example_spec_def)
qed

section \<open>Deltas\<close>

text \<open>The server applies the patches of a handler in the order they were sent.\<close>

definition apply_all ::
  "(annotations \<Rightarrow> string \<Rightarrow> annotations) \<Rightarrow> patch_request list \<Rightarrow> annotations \<Rightarrow> annotations" where
  "apply_all apply reqs anno = fold (\<lambda>req a. apply a (patch_data req)) reqs anno"

lemma apply_all_simps [simp]:
  "apply_all apply [] anno = anno"
  "apply_all apply (req # reqs) anno = apply_all apply reqs (apply anno (patch_data req))"
  by (simp_all add: apply_all_def)

lemma anno_get_not_None: "anno_get (Some m) k \<noteq> None \<longleftrightarrow> k \<in> fst ` set m"
  by (simp add: anno_get_def anno_entries_def map_of_eq_None_iff)

lemma apply_all_deletes:
  assumes "applies_json_patch apply" "distinct ks" "\<forall>k \<in> set ks. plain_text k \<and> k \<in> fst ` set m"
  shows "apply_all apply (map (delete_request node) ks) (Some m) = Some (filter (\<lambda>e. fst e \<notin> set ks) m)"
  using assms(2,3)
proof (induction ks arbitrary: m)
  case (Cons k ks)
  have "anno_get (Some m) k \<noteq> None" using Cons.prems anno_get_not_None by simp
  then have "apply (Some m) (patch_without_value ''remove'' k) = Some (filter (\<lambda>e. fst e \<noteq> k) m)"
    using assms(1) Cons.prems(2) by (auto simp: applies_json_patch_def anno_remove_def)
  moreover have "\<forall>j \<in> set ks. plain_text j \<and> j \<in> fst ` set (filter (\<lambda>e. fst e \<noteq> k) m)"
    using Cons.prems by (fastforce simp: image_iff)
  ultimately show ?case
    using Cons.IH [of "filter (\<lambda>e. fst e \<noteq> k) m"] Cons.prems(1)
    by (simp add: delete_request_def conj_commute)
qed simp

text \<open>C33. The daily reset removes the deltas and nothing else: when the server accepts every patch, the work item of a
  node sends one removal for each of its delta annotations and is done; afterwards the node has no annotation
  with the delta prefix and all its other annotations are as before.\<close>

theorem delta_reset:
  assumes "applies_json_patch apply" "get_node ls key = Inr node" "node_Annotations node = Some m" "distinct (map fst m)"
    and "\<forall>k \<in> fst ` set m. has_prefix k DeltaPrefixName \<longrightarrow> plain_text k"
    and "\<forall>req. client req = None"
  shows "\<exists>reqs. delta_processNextWorkItem client ls key = (reqs, [QForget key, QDone key]) \<and>
    (\<forall>req \<in> set reqs. patch_target req = PatchNode (node_Name node)) \<and>
    apply_all apply reqs (Some m) = Some (filter (\<lambda>e. \<not> has_prefix (fst e) DeltaPrefixName) m)"
proof -
  let ?ks = "filter (\<lambda>k. has_prefix k DeltaPrefixName) (map fst m)"
  have "delta_syncNode client ls key = (map (delete_request node) ?ks, True, None)"
    using delete_deltas_ok [of "map fst m" client node] assms(2,3,6) by (simp add: delta_syncNode_def anno_entries_def)
  moreover have "apply_all apply (map (delete_request node) ?ks) (Some m) = Some (filter (\<lambda>e. fst e \<notin> set ?ks) m)"
    using assms(4,5) by (intro apply_all_deletes [OF assms(1)]) auto
  moreover have "filter (\<lambda>e. fst e \<notin> set ?ks) m = filter (\<lambda>e. \<not> has_prefix (fst e) DeltaPrefixName) m"
    by (auto intro!: filter_cong)
  ultimately show ?thesis by (auto simp: delta_processNextWorkItem_def delete_request_def)
qed

theorem delta_reset_witness:
  "\<exists>reqs. delta_processNextWorkItem (\<lambda>_. None)
      (example_listers [example_node (Some [(''delta_range_cpu'', ''0.1''), (''a'', ''b'')])]) ''n1'' =
      (reqs, [QForget ''n1'', QDone ''n1'']) \<and>
    apply_all json_server reqs (Some [(''delta_range_cpu'', ''0.1''), (''a'', ''b'')]) = Some [(''a'', ''b'')]"
proof -
  let ?m = "[(''delta_range_cpu'', ''0.1''), (''a'', ''b'')]"
  have p: "has_prefix ''delta_range_cpu'' DeltaPrefixName" "\<not> has_prefix ''a'' DeltaPrefixName" "plain_text ''delta_range_cpu''"
    by code_simp+
  have "get_node (example_listers [example_node (Some ?m)]) ''n1'' = Inr (example_node (Some ?m))"
    "node_Annotations (example_node (Some ?m)) = Some ?m" "distinct (map fst ?m)"
    "\<forall>k \<in> fst ` set ?m. has_prefix k DeltaPrefixName \<longrightarrow> plain_text k"
    using p by (simp_all add: example_listers_def example_node_def)
  from delta_reset [OF json_server_applies this, of "\<lambda>_. None"] p show ?thesis by auto
qed

text \<open>One policy's delta, when the deployment and the node have ranges of decimals.\<close>

definition delta_sum :: "Pod \<Rightarrow> int list \<Rightarrow> int list \<Rightarrow> int list" where
  "delta_sum pod ns ks = (if pod_DeletionTimestamp pod = None then map2 (+) ns ks else map2 (-) ns ks)"

definition delta_ready :: "sys \<Rightarrow> Deployment \<Rightarrow> Node \<Rightarrow> (string \<Rightarrow> int list) \<Rightarrow> (string \<Rightarrow> int list) \<Rightarrow> SyncPolicy \<Rightarrow> bool" where
  "delta_ready sys deploy node ns ks p \<longleftrightarrow>
     sync_Period p \<noteq> 0 \<and>
     GetResourceUsageRange sys (deploy_Annotations deploy) (sync_Name p) (wrap64 (sync_Period p + ExtraActivePeriod)) =
       Ok (Inr (decimal_range (ks (sync_Name p)))) \<and>
     GetDeltaUsageRange (node_Annotations node) (DeltaPrefixName @ sync_Name p) = Inr (decimal_range (ns (sync_Name p))) \<and>
     ns (sync_Name p) \<noteq> [] \<and> length (ns (sync_Name p)) = length (ks (sync_Name p)) \<and>
     (\<forall>n \<in> set (ns (sync_Name p)). \<bar>n\<bar> \<le> 2 ^ 41) \<and> (\<forall>n \<in> set (ks (sync_Name p)). \<bar>n\<bar> \<le> 2 ^ 41)"

lemma delta_update_ready:
  assumes "delta_ready sys deploy node ns ks p"
  shows "delta_update sys pod deploy node p =
    Ok (Some (decimal_range (delta_sum pod (ns (sync_Name p)) (ks (sync_Name p)))))"
  using assms merge_decimal [of "ns (sync_Name p)" "ks (sync_Name p)"]
  by (simp add: delta_ready_def delta_update_def delta_sum_def merge_type_of_def)

lemma update_deltas_ready:
  assumes "\<And>p. p \<in> set ps \<Longrightarrow> delta_ready sys deploy node ns ks p" "\<And>req. client req = None" "GetLocation sys = Some loc"
  shows "update_deltas sys client pod deploy node ps =
    Ok (map (\<lambda>p. value_request loc sys node (DeltaPrefixName @ sync_Name p)
          (decimal_range (delta_sum pod (ns (sync_Name p)) (ks (sync_Name p))))) ps, None)"
  using assms(1)
  by (induction ps) (simp_all add: delta_update_ready [where ns = ns and ks = ks] PatchNodeAnnotation_value_request [OF assms(3)] send_patch_def assms(2))

lemma apply_all_values:
  assumes "applies_json_patch apply" "GetLocation sys = Some loc" "distinct (map key xs)"
    and "\<forall>x \<in> set xs. plain_text (key x) \<and> plain_text (v x)" "node_Annotations node = Some m"
    and "\<forall>x \<in> set xs. key x \<in> fst ` set m \<longrightarrow> key x \<in> fst ` set a"
  shows "\<exists>b. apply_all apply (map (\<lambda>x. value_request loc sys node (key x) (v x)) xs) (Some a) = Some b \<and>
    (\<forall>x \<in> set xs. anno_get (Some b) (key x) = Some (stamped loc (v x) (sys_now sys))) \<and>
    (\<forall>k. k \<notin> key ` set xs \<longrightarrow> anno_get (Some b) k = anno_get (Some a) k)"
  using assms(3,4,6)
proof (induction xs arbitrary: a)
  case (Cons x xs)
  let ?s = "stamped loc (v x) (sys_now sys)"
  obtain a' where a': "anno_put (Some a) (key x) ?s = Some a'" by (auto simp: anno_put_def)
  have get: "anno_get (Some a') k = (if k = key x then Some ?s else anno_get (Some a) k)" for k
    unfolding a' [symmetric] by simp
  have op: "apply (Some a) (patch_data (value_request loc sys node (key x) (v x))) = Some a'"
  proof -
    have "key x \<in> fst ` set m \<Longrightarrow> anno_get (Some a) (key x) \<noteq> None" using Cons.prems(3) anno_get_not_None by simp
    then show ?thesis
      using assms(1,5) Cons.prems(2) stamped_plain [of "v x" loc "sys_now sys"] a' anno_get_not_None [of m "key x"]
      unfolding applies_json_patch_def value_request_def patch_operator_def by auto
  qed
  have "\<forall>y \<in> set xs. key y \<in> fst ` set m \<longrightarrow> key y \<in> fst ` set a'"
    using Cons.prems(3) unfolding anno_get_not_None [symmetric] get by auto
  from Cons.IH [OF _ _ this] Cons.prems obtain b where
    b: "apply_all apply (map (\<lambda>x. value_request loc sys node (key x) (v x)) xs) (Some a') = Some b"
      "\<forall>y \<in> set xs. anno_get (Some b) (key y) = Some (stamped loc (v y) (sys_now sys))"
      "\<forall>k. k \<notin> key ` set xs \<longrightarrow> anno_get (Some b) k = anno_get (Some a') k"
    by auto
  then show ?case using op Cons.prems(1) get by auto
qed simp

lemma show_dec5_charset: "c \<in> set (show_dec5 n) \<Longrightarrow> is_digit c \<or> c \<in> {CHR ''.'', CHR ''-''}"
  by (auto simp: show_dec5_def dest: show_fixed5_chars [rotated] split: if_splits)

lemma decimal_range_charset: "c \<in> set (decimal_range ns) \<Longrightarrow> is_digit c \<or> c \<in> {CHR ''.'', CHR ''-'', CHR ''|''}"
  unfolding decimal_range_def using show_dec5_charset by (fastforce dest: go_join_chars)

lemma decimal_range_plain: "plain_text (decimal_range ns)" "CHR '','' \<notin> set (decimal_range ns)"
  unfolding plain_text_def using decimal_range_charset [of _ ns] by fastforce+

lemma pod_delta_applied:
  assumes "applies_json_patch apply" "split_key key = Inr (ns, name)" "get_pod ls ns name = Inr pod"
    and "GetDeploymentByPod (get_replicaset ls) (get_deployment ls) pod = Inr deploy"
    and "get_node ls (pod_NodeName pod) = Inr node" "node_Annotations node = Some m"
    and "GetLocation sys = Some loc" "\<forall>req. client req = None"
    and "ps = spec_SyncAppPeriod (policy_Spec (c_policy c))" "distinct (map sync_Name ps)"
    and "\<forall>p \<in> set ps. plain_text (sync_Name p) \<and> delta_ready sys deploy node deltas usages p"
  shows "\<exists>reqs b. pod_reconcile split_key sys client ls c key = Ok (reqs, None) \<and>
    apply_all apply reqs (Some m) = Some b \<and>
    (\<forall>p \<in> set ps. GetDeltaUsageRange (Some b) (DeltaPrefixName @ sync_Name p) =
      Inr (decimal_range (delta_sum pod (deltas (sync_Name p)) (usages (sync_Name p))))) \<and>
    (\<forall>k. k \<notin> (\<lambda>p. DeltaPrefixName @ sync_Name p) ` set ps \<longrightarrow> anno_get (Some b) k = anno_get (Some m) k)"
proof -
  let ?key = "\<lambda>p. DeltaPrefixName @ sync_Name p"
  let ?v = "\<lambda>p. decimal_range (delta_sum pod (deltas (sync_Name p)) (usages (sync_Name p)))"
  have "pod_reconcile split_key sys client ls c key = Ok (map (\<lambda>p. value_request loc sys node (?key p) (?v p)) ps, None)"
    using assms(2-5,8,9,11) update_deltas_ready [of ps sys deploy node deltas usages client loc pod] assms(7)
    by (simp add: pod_reconcile_def)
  moreover have "distinct (map ?key ps)" using assms(10) by (simp add: distinct_map inj_on_def)
  moreover have "\<forall>p \<in> set ps. plain_text (?key p) \<and> plain_text (?v p)"
    using assms(11) decimal_range_plain by (auto simp: plain_text_def)
  ultimately show ?thesis
    using apply_all_values [OF assms(1,7), of ?key ps ?v node m m] assms(6) GetDeltaUsageRange_stamped [OF _ decimal_range_plain(2)]
    by auto
qed

text \<open>C16. Binding and deleting a pod moves its node's deltas by its deployment's usage, exactly: for ranges of decimals,
  the reconciler of pods sends one patch for each application policy, and once the server has applied them the delta
  of every policy is the old delta plus the deployment's range, or minus it for a pod that is being deleted,
  slot by slot and without rounding; no other annotation of the node changes.\<close>

theorem pod_delta_exact:
  assumes "applies_json_patch apply" "split_key key = Inr (ns, name)" "get_pod ls ns name = Inr pod"
    and "GetDeploymentByPod (get_replicaset ls) (get_deployment ls) pod = Inr deploy"
    and "get_node ls (pod_NodeName pod) = Inr node" "node_Annotations node = Some m"
    and "GetLocation sys = Some loc" "\<forall>req. client req = None"
    and "ps = spec_SyncAppPeriod (policy_Spec (c_policy c))" "distinct (map sync_Name ps)"
    and "\<forall>p \<in> set ps. plain_text (sync_Name p) \<and> delta_ready sys deploy node deltas usages p"
  shows "\<exists>reqs b. pod_reconcile split_key sys client ls c key = Ok (reqs, None) \<and>
    apply_all apply reqs (Some m) = Some b \<and>
    (\<forall>p \<in> set ps. GetDeltaUsageRange (Some b) (DeltaPrefixName @ sync_Name p) =
      Inr (decimal_range (delta_sum pod (deltas (sync_Name p)) (usages (sync_Name p))))) \<and>
    (\<forall>k. k \<notin> (\<lambda>p. DeltaPrefixName @ sync_Name p) ` set ps \<longrightarrow> anno_get (Some b) k = anno_get (Some m) k)"
  by (rule pod_delta_applied [where deltas = deltas and usages = usages]) (fact assms)+

definition example_app_listers :: listers where
  "example_app_listers = (example_listers [example_node (Some [(''delta_range_cpu'', ''0.10000|1.25000,1970-01-01T00:00:00Z'')])])
     \<lparr>get_pod := \<lambda>_ _. Inr (plain_pod\<lparr>pod_NodeName := ''n1'', pod_OwnerReferences := [\<lparr>ref_Kind = ''ReplicaSet'', ref_Name = ''r''\<rparr>]\<rparr>),
      get_replicaset := \<lambda>_ _. Inr \<lparr>rs_OwnerReferences = [\<lparr>ref_Kind = ''Deployment'', ref_Name = ''d''\<rparr>]\<rparr>,
      get_deployment := \<lambda>_ _. Inr \<lparr>deploy_Namespace = ''ns'', deploy_Name = ''d'',
        deploy_Annotations = Some [(''range_cpu'', ''0.20000|0.75000,1970-01-01T00:00:00Z'')], deploy_Replicas = Some 1\<rparr>\<rparr>"

definition example_app_controller :: Controller where
  "example_app_controller = NewNodeAnnotator
     ((ds_schedulerPolicy example_scheduler)\<lparr>policy_Spec := example_spec\<lparr>spec_SyncAppPeriod := [\<lparr>sync_Name = ''range_cpu'', sync_Period = minute\<rparr>]\<rparr>\<rparr>) 10"

theorem pod_delta_exact_witness:
  "\<exists>reqs b. pod_reconcile example_split (example_sys (100 * second)) (\<lambda>_. None) example_app_listers example_app_controller ''ns/p'' =
      Ok (reqs, None) \<and>
    apply_all json_server reqs (Some [(''delta_range_cpu'', ''0.10000|1.25000,1970-01-01T00:00:00Z'')]) = Some b \<and>
    GetDeltaUsageRange (Some b) ''delta_range_cpu'' = Inr ''0.30000|2.00000''"
proof -
  let ?m = "[(''delta_range_cpu'', ''0.10000|1.25000,1970-01-01T00:00:00Z'')]"
  let ?pod = "plain_pod\<lparr>pod_NodeName := ''n1'', pod_OwnerReferences := [\<lparr>ref_Kind = ''ReplicaSet'', ref_Name = ''r''\<rparr>]\<rparr>"
  let ?deploy = "\<lparr>deploy_Namespace = ''ns'', deploy_Name = ''d'',
    deploy_Annotations = Some [(''range_cpu'', ''0.20000|0.75000,1970-01-01T00:00:00Z'')], deploy_Replicas = Some 1\<rparr>"
  let ?p = "\<lparr>sync_Name = ''range_cpu'', sync_Period = minute\<rparr>"
  have d: "decimal_range [10000, 125000] = ''0.10000|1.25000''" "decimal_range [20000, 75000] = ''0.20000|0.75000''"
    "decimal_range [30000, 200000] = ''0.30000|2.00000''"
    by code_simp+
  have u: "GetResourceUsageRange (example_sys (100 * second)) (deploy_Annotations ?deploy) ''range_cpu'' (6 * minute) =
      Ok (Inr ''0.20000|0.75000'')"
    using example_range_read(1) [of "''0.20000|0.75000''" "6 * minute" "''range_cpu''"] by simp
  have "GetDeltaUsageRange (Some ?m) ''delta_range_cpu'' = Inr ''0.10000|1.25000''"
    using example_range_read(2) [of "''0.10000|1.25000''" "6 * minute" "''delta_range_cpu''"] by simp
  then have ready: "delta_ready (example_sys (100 * second)) ?deploy (example_node (Some ?m)) (\<lambda>_. [10000, 125000]) (\<lambda>_. [20000, 75000]) ?p"
    using u d by (simp add: delta_ready_def example_node_def wrap64_numeral_id)
  have "plain_text ''range_cpu''" "example_split ''ns/p'' = Inr (''ns'', ''p'')" by code_simp+
  from pod_delta_exact [where split_key = example_split and key = "''ns/p''" and ls = example_app_listers and pod = ?pod
      and deploy = ?deploy and node = "example_node (Some ?m)" and m = ?m and c = example_app_controller and ps = "[?p]"
      and client = "\<lambda>_. None" and deltas = "\<lambda>_. [10000, 125000]" and usages = "\<lambda>_. [20000, 75000]",
      OF json_server_applies this(2) _ _ _ _ example_location] this(1) ready d(3)
  show ?thesis
    by (simp add: example_app_listers_def example_listers_def example_app_controller_def NewNodeAnnotator_def example_node_def
        plain_pod_def GetDeploymentByPod_def delta_sum_def) blast
qed

end
