(* ===== verification/Annotator_Run.thy ===== *)
theory Annotator_Run
  imports Annotation_Store
begin

text \<open>
  The annotator as a running process: \<open>Controller.Run\<close>, its sub-controllers and their worker loops, and the
  ways in which their work interleaves. A work queue is not modelled: a worker is given the results of its calls of
  \<open>Get\<close>, so that everything proved here holds whatever order, repetition or delay the queues and their rate limiters
  choose. Every work item has its own environment (clock, Prometheus, client and informer caches), which may be
  arbitrarily stale. From a fresh controller no interleaving panics, and whatever is sent to the API server has the
  shape of a stamped patch (\<open>annotator_reach_ok\<close>); the worker loops end at the shut-down of their queue.
\<close>

section \<open>The sub-controllers\<close>

abbreviation DefaultBackOff :: duration where "DefaultBackOff \<equiv> 10 * second"
abbreviation MaxBackOff :: duration where "MaxBackOff \<equiv> 360 * second"

datatype rate_limiter = ItemExponentialFailure duration duration | DefaultControllerRateLimiter

record sub_controller =
  sc_Controller :: Controller
  sc_rateLimiter :: rate_limiter
  sc_queueName :: string

definition newNodeController :: "Controller \<Rightarrow> sub_controller" where
  "newNodeController c =
     \<lparr>sc_Controller = c, sc_rateLimiter = ItemExponentialFailure DefaultBackOff MaxBackOff,
      sc_queueName = ''node_event_queue''\<rparr>"

definition newNodeDeltaResetController :: "Controller \<Rightarrow> sub_controller" where
  "newNodeDeltaResetController c =
     \<lparr>sc_Controller = c, sc_rateLimiter = ItemExponentialFailure DefaultBackOff MaxBackOff,
      sc_queueName = ''node_delta_event_queue''\<rparr>"

definition newDeploymentController :: "Controller \<Rightarrow> sub_controller" where
  "newDeploymentController c =
     \<lparr>sc_Controller = c, sc_rateLimiter = ItemExponentialFailure DefaultBackOff MaxBackOff,
      sc_queueName = ''deployment_event_queue''\<rparr>"

definition newEventController :: "Controller \<Rightarrow> sub_controller" where
  "newEventController c =
     \<lparr>sc_Controller = c, sc_rateLimiter = DefaultControllerRateLimiter, sc_queueName = ''EVENT_event_queue''\<rparr>"

definition newPodController :: "Controller \<Rightarrow> sub_controller" where
  "newPodController c =
     \<lparr>sc_Controller = c, sc_rateLimiter = DefaultControllerRateLimiter, sc_queueName = ''pod_event_queue''\<rparr>"

section \<open>Work items\<close>

text \<open>What a work item sees, and the functions of client-go and \<open>fmt\<close> that are parameters.\<close>

record work_env =
  env_sys :: sys
  env_api :: prom_api
  env_client :: client
  env_listers :: listers

record work_params =
  par_cvt :: "float64 \<Rightarrow> int"
  par_split_key :: "string \<Rightarrow> (string \<times> string) fallible"
  par_scan_error :: "string \<Rightarrow> string"

text \<open>A worker's step: the patches it sends, the controller afterwards, the calls on its queue, and whether its loop
  goes on. \<open>Get\<close> has returned a key and whether the queue was shut down.\<close>

type_synonym step_result = "(patch_request list \<times> Controller \<times> queue_call list \<times> bool) outcome"

definition event_processNextWorkItem :: "work_params \<Rightarrow> work_env \<Rightarrow> Controller \<Rightarrow> string \<times> bool \<Rightarrow> step_result" where
  "event_processNextWorkItem par env c got =
     (case got of (key, quit) \<Rightarrow>
        if quit then Ok ([], c, [], False)
        else
          obind (event_reconcile (par_cvt par) (par_split_key par) (par_scan_error par) (env_sys env) (env_client env)
                   (env_listers env) c key) (\<lambda>(reqs, c', err).
            Ok (reqs, c', [QDone key], True)))"

definition pod_processNextWorkItem :: "work_params \<Rightarrow> work_env \<Rightarrow> Controller \<Rightarrow> string \<times> bool \<Rightarrow> step_result" where
  "pod_processNextWorkItem par env c got =
     (case got of (key, quit) \<Rightarrow>
        if quit then Ok ([], c, [], False)
        else
          obind (pod_reconcile (par_split_key par) (env_sys env) (env_client env) (env_listers env) c key) (\<lambda>(reqs, err).
            Ok (reqs, c, [QDone key], True)))"

text \<open>The \<open>queue.Get\<close> of the other three workers.\<close>

definition node_work :: "work_params \<Rightarrow> work_env \<Rightarrow> Controller \<Rightarrow> string \<times> bool \<Rightarrow> step_result" where
  "node_work par env c got =
     (case got of (key, quit) \<Rightarrow>
        if quit then Ok ([], c, [], False)
        else
          obind (node_processNextWorkItem (par_cvt par) (env_api env) (env_sys env) (env_client env) (env_listers env) c key)
            (\<lambda>(reqs, calls). Ok (reqs, c, calls, True)))"

definition delta_work :: "work_params \<Rightarrow> work_env \<Rightarrow> Controller \<Rightarrow> string \<times> bool \<Rightarrow> step_result" where
  "delta_work par env c got =
     (case got of (key, quit) \<Rightarrow>
        if quit then Ok ([], c, [], False)
        else
          (case delta_processNextWorkItem (env_client env) (env_listers env) key of (reqs, calls) \<Rightarrow>
             Ok (reqs, c, calls, True)))"

definition deployment_work :: "work_params \<Rightarrow> work_env \<Rightarrow> Controller \<Rightarrow> string \<times> bool \<Rightarrow> step_result" where
  "deployment_work par env c got =
     (case got of (key, quit) \<Rightarrow>
        if quit then Ok ([], c, [], False)
        else
          obind (deployment_processNextWorkItem (env_api env) (env_sys env) (env_client env) (env_listers env) key)
            (\<lambda>(reqs, calls). Ok (reqs, c, calls, True)))"

text \<open>The loop \<open>for processNextWorkItem() {}\<close> of every \<open>Run\<close> method, over the results of \<open>Get\<close>; it ends when the queue is
  shut down. The deferred \<open>ShutDown\<close> of the methods then meets a queue that is shut down already and is left out.\<close>

fun worker_loop ::
  "(work_env \<Rightarrow> Controller \<Rightarrow> string \<times> bool \<Rightarrow> step_result) \<Rightarrow> Controller \<Rightarrow> (work_env \<times> string \<times> bool) list \<Rightarrow>
   (patch_request list \<times> Controller) outcome" where
  "worker_loop step c [] = Ok ([], c)"
| "worker_loop step c ((env, got) # gots) =
     obind (step env c got) (\<lambda>(reqs, c', calls, go_on).
       if go_on then obind (worker_loop step c' gots) (\<lambda>(reqs', c''). Ok (reqs @ reqs', c''))
       else Ok (reqs, c'))"

definition node_Run where "node_Run par = worker_loop (node_work par)"
definition delta_Run where "delta_Run par = worker_loop (delta_work par)"
definition deployment_Run where "deployment_Run par = worker_loop (deployment_work par)"
definition event_Run where "event_Run par = worker_loop (event_processNextWorkItem par)"
definition pod_Run where "pod_Run par = worker_loop (pod_processNextWorkItem par)"

section \<open>Tickers and cron jobs\<close>

text \<open>The unused ticker of the deployment controller.\<close>

definition deployment_CreateMetricSyncTicker1 :: "listers \<Rightarrow> SyncPolicy list \<Rightarrow> string list outcome" where
  "deployment_CreateMetricSyncTicker1 ls ps =
     (if list_all (\<lambda>p. 0 < sync_Period p) ps then Ok (concat (map (\<lambda>p. deploymentJob_Run ls (sync_Name p)) ps))
      else Panic NonPositiveTicker)"

text \<open>The cron jobs that are registered: the schedule and the policy of each.\<close>

record deploymentJob =
  job_PolicyName :: string

definition deployment_CreateMetricSyncTicker :: "SyncPolicy list \<Rightarrow> (string \<times> deploymentJob) list" where
  "deployment_CreateMetricSyncTicker ps = map (\<lambda>p. (''10 0 * * *'', \<lparr>job_PolicyName = sync_Name p\<rparr>)) ps"

section \<open>Event handlers\<close>

text \<open>The handlers registered with the informers: which notifications of the informer enqueue which keys.\<close>

datatype 'o notification = Added 'o | Updated 'o 'o | Deleted 'o

fun event_handles :: "(Event \<Rightarrow> string fallible) \<Rightarrow> Event notification \<Rightarrow> string list" where
  "event_handles key_func (Added e) = event_handleAddEvent key_func e"
| "event_handles key_func (Updated old cur) = event_handleUpdateEvent key_func old cur"
| "event_handles key_func (Deleted e) = []"

fun pod_handles :: "(Pod \<Rightarrow> string fallible) \<Rightarrow> Pod notification \<Rightarrow> string list" where
  "pod_handles key_func (Added p) = []"
| "pod_handles key_func (Updated old cur) = pod_handleUpdateEvent key_func old cur"
| "pod_handles key_func (Deleted p) = []"

section \<open>Run\<close>

datatype goroutine = NodeWorker | EventWorker | PodWorker | DeltaWorker | DeploymentWorker | GcTicker

text \<open>The goroutines of \<open>Run\<close> with the period at which \<open>wait.Until\<close> restarts them, and the keys enqueued before they
  are; \<open>synced\<close> is the answer of \<open>WaitForCacheSync\<close>.\<close>

definition Controller_Run ::
  "listers \<Rightarrow> bool \<Rightarrow> Controller \<Rightarrow> nat \<Rightarrow>
   ((goroutine \<times> duration) list \<times> string list \<times> (string \<times> deploymentJob) list) fallible outcome" where
  "Controller_Run ls synced c workers =
     (if \<not> synced then Ok (Inl (Plain ''failed to wait for cache sync for annotator''))
      else
        obind (node_CreateMetricSyncTicker ls (spec_SyncPeriod (policy_Spec (c_policy c)))) (\<lambda>keys.
          Ok (Inr
            (concat (replicate workers [(NodeWorker, second), (EventWorker, second), (PodWorker, second), (DeltaWorker, second)]) @
             replicate (2 * workers) (DeploymentWorker, second) @ [(GcTicker, minute)],
             keys, deployment_CreateMetricSyncTicker (spec_SyncAppPeriod (policy_Spec (c_policy c)))))))"

section \<open>Stamped requests\<close>

text \<open>The shape of every patch that is sent: the removal of a delta, or a time-stamped value without a comma, for a node or
  a deployment. Whether the text with a name and a value pasted in is JSON is a question of its own (\<open>Patch_Texts\<close>).\<close>

definition stamped_request :: "location \<Rightarrow> patch_request \<Rightarrow> bool" where
  "stamped_request loc req \<longleftrightarrow>
     patch_kind req = JSONPatchType \<and>
     ((\<exists>n k. patch_target req = PatchNode n \<and> has_prefix k DeltaPrefixName \<and>
         patch_data req = patch_without_value ''remove'' k) \<or>
      (\<exists>op k v t. (\<exists>n ns. patch_target req = PatchNode n \<or> patch_target req = PatchDeployment ns n) \<and>
         op \<in> {''add'', ''replace''} \<and> CHR '','' \<notin> set v \<and> patch_data req = patch_with_value op k (stamped loc v t)))"

text \<open>A handler that returns and sends only such requests.\<close>

definition safe_handled :: "location \<Rightarrow> 'a handled \<Rightarrow> bool" where
  "safe_handled loc m \<longleftrightarrow> (\<exists>reqs r. m = Ok (reqs, r) \<and> (\<forall>req \<in> set reqs. stamped_request loc req))"

lemma safe_handled_Ok [simp]: "safe_handled loc (Ok (reqs, r)) \<longleftrightarrow> (\<forall>req \<in> set reqs. stamped_request loc req)"
  by (simp add: safe_handled_def)

lemma safe_handled_bind:
  assumes "safe_handled loc m"
    and "\<And>reqs r. m = Ok (reqs, r) \<Longrightarrow> \<forall>req \<in> set reqs. stamped_request loc req \<Longrightarrow> safe_handled loc (f (reqs, r))"
  shows "safe_handled loc (obind m f)"
  using assms unfolding safe_handled_def by auto

lemma stamped_value:
  assumes "CHR '','' \<notin> set v" "\<exists>n ns. target = PatchNode n \<or> target = PatchDeployment ns n"
  shows "stamped_request loc \<lparr>patch_target = target, patch_kind = JSONPatchType,
    patch_data = patch_with_value (patch_operator anno key) key (stamped loc v t)\<rparr>"
proof -
  have "patch_operator anno key \<in> {''add'', ''replace''}" by (simp add: patch_operator_def)
  then show ?thesis unfolding stamped_request_def using assms by fastforce
qed

lemma value_request_wf: "CHR '','' \<notin> set v \<Longrightarrow> stamped_request loc (value_request loc sys node key v)"
  unfolding value_request_def by (rule stamped_value) auto

lemma PatchNodeAnnotation_safe:
  "GetLocation sys = Some loc \<Longrightarrow> CHR '','' \<notin> set v \<Longrightarrow> safe_handled loc (PatchNodeAnnotation sys client node key v)"
  by (simp add: PatchNodeAnnotation_value_request send_patch_def value_request_wf)

lemma patchDeploymentAnnotation_safe:
  "GetLocation sys = Some loc \<Longrightarrow> CHR '','' \<notin> set v \<Longrightarrow> safe_handled loc (patchDeploymentAnnotation sys client d key v)"
  using stamped_value [of v "PatchDeployment (deploy_Namespace d) (deploy_Name d)" loc "deploy_Annotations d" key "sys_now sys"]
  by (simp add: patchDeploymentAnnotation_def GetLocalTime_def Let_def stamped_def)

lemma query_values_no_comma:
  assumes "api_floats api"
  shows "QueryByNodeIP api sys m x = Inr v \<Longrightarrow> CHR '','' \<notin> set v" "QueryByNodeName api sys m x = Inr v \<Longrightarrow> CHR '','' \<notin> set v"
    "QueryByDeployment api sys m x = Inr v \<Longrightarrow> CHR '','' \<notin> set v" "QueryRangeByNodeIP api sys m x = Inr v \<Longrightarrow> CHR '','' \<notin> set v"
    "QueryRangeByNodeName api sys m x = Inr v \<Longrightarrow> CHR '','' \<notin> set v" "QueryRangeByDeployment api sys m x = Inr v \<Longrightarrow> CHR '','' \<notin> set v"
  using instant_query_text [OF assms, of sys m x v] range_query_text [OF assms, of sys m x v]
  by (auto simp: usage_text_def range_text_def)

lemma annotateNodeLoad_safe:
  assumes "GetLocation sys = Some loc" "api_floats api"
  shows "safe_handled loc (annotateNodeLoad api sys client node key)"
  unfolding annotateNodeLoad_def Let_def
  by (auto split: sum.split intro!: PatchNodeAnnotation_safe [OF assms(1)] dest: query_values_no_comma [OF assms(2)])

lemma annotateNodeHotValue_safe:
  assumes "GetLocation sys = Some loc" "\<And>hv. hv \<in> set (spec_HotValue (policy_Spec policy)) \<Longrightarrow> hot_Count hv \<noteq> 0"
  shows "safe_handled loc (annotateNodeHotValue cvt sys client br node policy)"
proof -
  obtain h where "hot_value_loop cvt (sys_now sys) br (node_Name node) (spec_HotValue (policy_Spec policy)) 0 = Ok h"
    using hot_value_loop_returns [OF assms(2)] by blast
  then show ?thesis using PatchNodeAnnotation_safe [OF assms(1) itoa_plain(2)] by (simp add: annotateNodeHotValue_def)
qed

lemma node_safe:
  assumes "GetLocation sys = Some loc" "api_floats api"
    and "\<And>hv. hv \<in> set (spec_HotValue (policy_Spec (c_policy c))) \<Longrightarrow> hot_Count hv \<noteq> 0"
  shows "safe_handled loc (node_processNextWorkItem cvt api sys client ls c key)"
  unfolding node_processNextWorkItem_def syncNode_def
  by (intro safe_handled_bind)
     (auto split: sum.split option.split intro!: safe_handled_bind annotateNodeLoad_safe [OF assms(1,2)]
        annotateNodeHotValue_safe [OF assms(1,3)])

lemma delta_safe: "\<forall>req \<in> set (fst (delta_processNextWorkItem client ls key)). stamped_request loc req"
proof -
  have "\<forall>req \<in> set (fst (delete_deltas client node ks)). stamped_request loc req" for node ks
    by (induction ks)
       (auto simp: DeleteNodeAnnotation_def send_patch_def stamped_request_def split: prod.splits option.splits)
  then show ?thesis
    by (cases "get_node ls key") (simp_all add: delta_processNextWorkItem_def delta_syncNode_def case_prod_beta)
qed

text \<open>Numbers that were parsed are floats, so that merged ranges print without a comma.\<close>

lemma scan_mantissa_nonneg: "scan_mantissa hex dot s = (ds, n, r) \<Longrightarrow> \<forall>d \<in> set ds. 0 \<le> d"
proof (induction hex dot s arbitrary: ds n r rule: scan_mantissa.induct)
  case (2 hex dot c cs)
  have "digit_val hex c = Some d \<Longrightarrow> 0 \<le> d" for d by (auto simp: digit_val_def Let_def split: if_splits)
  then show ?case using 2 by (auto split: if_splits option.splits prod.splits)
qed simp

lemma digits_value_nonneg: "0 \<le> b \<Longrightarrow> \<forall>d \<in> set ds. 0 \<le> d \<Longrightarrow> 0 \<le> digits_value b ds"
  by (induction ds rule: rev_induct) simp_all

lemma parse_float64_float: "parse_float64 s = Some f \<Longrightarrow> is_float64 f"
proof (cases "parse_special s")
  case None
  assume p: "parse_float64 s = Some f"
  then obtain neg m e hex where r: "read_float s = Some (neg, m, e, hex)" "f = fl_mag neg (scaled m e hex)"
    using None by (auto simp: parse_float64_def Let_def split: option.splits if_splits)
  then have "0 \<le> m"
    by (auto simp: read_float_def Let_def split: prod.splits option.splits if_splits
        dest!: scan_mantissa_nonneg intro!: digits_value_nonneg)
  then show ?thesis unfolding r(2) by (intro is_float64_fl_mag) (simp add: scaled_def Let_def)
qed (auto simp: parse_float64_def parse_special_def Let_def split: if_splits)

lemma ParseRange_floats: "ParseRangeMetricsByString s = Inr xs \<Longrightarrow> \<forall>x \<in> set xs. is_float64 x"
proof -
  have "parse_all vs = Inr xs \<Longrightarrow> \<forall>x \<in> set xs. is_float64 x" for vs
    by (induction vs arbitrary: xs) (auto split: option.splits sum.splits dest: parse_float64_float)
  then show "ParseRangeMetricsByString s = Inr xs \<Longrightarrow> \<forall>x \<in> set xs. is_float64 x"
    by (simp add: ParseRangeMetricsByString_def)
qed

lemma merge_base_floats: "merge_base s us = Inr ds \<Longrightarrow> \<forall>x \<in> set ds. is_float64 x"
  by (auto simp: merge_base_def split: if_splits sum.splits dest: ParseRange_floats)

lemma MergeUsageRange_no_comma:
  assumes "MergeUsageRange s t mt = Inr v" "CHR '','' \<notin> set t" shows "CHR '','' \<notin> set v"
proof (cases "s = '''' \<and> mt = MergeTypeAdd")
  case False
  then obtain us ds where us: "ParseRangeMetricsByString t = Inr us" "merge_base s us = Inr ds"
    using assms(1) by (auto simp: MergeUsageRange_def split: sum.splits if_splits)
  have f: "is_float64 x" if "x \<in> set us \<union> set ds" for x using that ParseRange_floats [OF us(1)] merge_base_floats [OF us(2)] by auto
  have "\<forall>x \<in> set (map2 (+) ds us) \<union> set (map2 (-) ds us). is_float64 x"
    by (auto simp: set_zip intro!: is_float64_add is_float64_sub) (use f nth_mem in blast)+
  then have "CHR '','' \<notin> set (render_range (map2 (+) ds us))" "CHR '','' \<notin> set (render_range (map2 (-) ds us))"
    using render_range_no_comma by auto
  then show ?thesis using assms(1) us False by (auto simp: MergeUsageRange_def split: if_splits)
qed (use assms in \<open>simp add: MergeUsageRange_def\<close>)

lemma GetResourceUsageRange_no_comma:
  assumes "GetResourceUsageRange sys anno key d = Ok (Inr v)" shows "CHR '','' \<notin> set v"
proof (cases "anno_get anno key")
  case None
  then show ?thesis using assms usage_range.read_missing [OF None] by simp
next
  case (Some s)
  have "go_split CHR '','' s ! 0 \<in> set (go_split CHR '','' s)" by (simp add: nth_mem)
  then have "CHR '','' \<notin> set (go_split CHR '','' s ! 0)" using go_split_pieces by blast
  then show ?thesis
    using assms Some by (auto simp: GetResourceUsageRange_def Let_def go_simps split: if_splits)
qed

lemma delta_update_no_comma:
  assumes "delta_update sys pod deploy node p = Ok (Some v)" shows "CHR '','' \<notin> set v"
proof -
  have "sync_Period p \<noteq> 0" using assms by (auto simp: delta_update_def)
  then obtain r where r: "GetResourceUsageRange sys (deploy_Annotations deploy) (sync_Name p) (wrap64 (sync_Period p + ExtraActivePeriod)) = Ok r"
      "(case r of Inl err \<Rightarrow> Ok None | Inr u \<Rightarrow>
        (case GetDeltaUsageRange (node_Annotations node) (DeltaPrefixName @ sync_Name p) of Inl err \<Rightarrow> Ok None | Inr dl \<Rightarrow>
          (case MergeUsageRange dl u (merge_type_of pod) of Inl err \<Rightarrow> Ok None | Inr merged \<Rightarrow> Ok (Some merged)))) = Ok (Some v)"
    using assms unfolding delta_update_def by (simp only: if_False obind_eq_Ok_iff) blast
  then obtain u dl where "r = Inr u" "MergeUsageRange dl u (merge_type_of pod) = Inr v"
    by (cases r; cases "GetDeltaUsageRange (node_Annotations node) (DeltaPrefixName @ sync_Name p)") (auto split: sum.split_asm)
  then show ?thesis using r(1) GetResourceUsageRange_no_comma MergeUsageRange_no_comma by blast
qed

lemma delta_update_returns: "GetLocation sys \<noteq> None \<Longrightarrow> returns (delta_update sys pod deploy node p)"
  unfolding delta_update_def using usage_range.read_returns
  by (intro returns_intros) (auto simp: returns_iff intro!: returns_intros)

lemma update_deltas_safe:
  assumes "GetLocation sys = Some loc" shows "safe_handled loc (update_deltas sys client pod deploy node ps)"
proof (induction ps)
  case (Cons p ps)
  obtain u where u: "delta_update sys pod deploy node p = Ok u"
    using delta_update_returns assms by (metis option.distinct(1) returns_iff)
  show ?case
  proof (cases u)
    case (Some v)
    show ?thesis
      unfolding update_deltas.simps u Some obind.simps option.case
      by (rule safe_handled_bind [OF PatchNodeAnnotation_safe [OF assms delta_update_no_comma [OF u [unfolded Some]]]])
         (auto split: option.split intro!: safe_handled_bind [OF Cons.IH])
  qed (use u Cons.IH in simp)
qed simp

lemma pod_safe: "GetLocation sys = Some loc \<Longrightarrow> safe_handled loc (pod_reconcile split_key sys client ls c key)"
  by (auto simp: pod_reconcile_def split: sum.split intro!: update_deltas_safe)

text \<open>The API server sets the replicas of every deployment.\<close>

definition replicas_set :: "listers \<Rightarrow> bool" where
  "replicas_set ls \<longleftrightarrow> (\<forall>ns ds. list_deployments ls ns = Inr ds \<longrightarrow> (\<forall>d \<in> set ds. deploy_Replicas d \<noteq> None))"

lemma annotate_deployments_safe:
  assumes "GetLocation sys = Some loc" "api_floats api" "\<forall>d \<in> set ds. deploy_Replicas d \<noteq> None"
  shows "safe_handled loc (annotate_deployments api sys client metric ds)"
  using assms(3)
proof (induction ds)
  case (Cons d ds)
  have "safe_handled loc (annotateDeploymentLoad api sys client d metric)"
    unfolding annotateDeploymentLoad_def using Cons.prems query_values_no_comma [OF assms(2)]
    by (auto split: sum.split option.split if_split intro!: patchDeploymentAnnotation_safe [OF assms(1)])
  then show ?case
    using Cons by (auto split: option.split intro!: safe_handled_bind)
qed simp

lemma deployment_safe:
  assumes "GetLocation sys = Some loc" "api_floats api" "replicas_set ls"
  shows "safe_handled loc (deployment_processNextWorkItem api sys client ls key)"
  unfolding deployment_processNextWorkItem_def syncDeployment_def
  using assms(3) by (intro safe_handled_bind)
    (auto simp: replicas_set_def split: sum.split intro!: annotate_deployments_safe [OF assms(1,2)])

section \<open>Interleavings\<close>

datatype activity = NodeWork | DeltaWork | DeploymentWork | EventWork | PodWork | Collect

fun annotator_work :: "work_params \<Rightarrow> activity \<Rightarrow> work_env \<Rightarrow> Controller \<Rightarrow> string \<times> bool \<Rightarrow> step_result" where
  "annotator_work par NodeWork env c got = node_work par env c got"
| "annotator_work par DeltaWork env c got = delta_work par env c got"
| "annotator_work par DeploymentWork env c got = deployment_work par env c got"
| "annotator_work par EventWork env c got = event_processNextWorkItem par env c got"
| "annotator_work par PodWork env c got = pod_processNextWorkItem par env c got"
| "annotator_work par Collect env c got =
     omap (\<lambda>c'. ([], c', [], True)) (Controller_gc_tick (par_cvt par) (env_sys env) c)"

text \<open>What is assumed of the environment of a work item: the time zone loads, Prometheus returns floats, deployments have
  replicas. Nothing is assumed of keys, annotations, answers of the client or the age of the caches.\<close>

definition good_env :: "location \<Rightarrow> work_env \<Rightarrow> bool" where
  "good_env loc env \<longleftrightarrow>
     GetLocation (env_sys env) = Some loc \<and> api_floats (env_api env) \<and> replicas_set (env_listers env)"

text \<open>The states a controller can reach from \<open>c0\<close>, with all the patches sent so far.\<close>

inductive annotator_reach :: "work_params \<Rightarrow> location \<Rightarrow> Controller \<Rightarrow> Controller \<Rightarrow> patch_request list \<Rightarrow> bool"
  for par loc c0 where
  reach_init: "annotator_reach par loc c0 c0 []"
| reach_work: "annotator_reach par loc c0 c sent \<Longrightarrow> good_env loc env \<Longrightarrow>
    annotator_work par act env c got = Ok (reqs, c', calls, go_on) \<Longrightarrow> annotator_reach par loc c0 c' (sent @ reqs)"

definition controller_ok :: "Controller \<Rightarrow> Controller \<Rightarrow> bool" where
  "controller_ok c0 c \<longleftrightarrow> br_wf (c_bindingRecords c) \<and> c_policy c = c_policy c0 \<and>
     br_size (c_bindingRecords c) = br_size (c_bindingRecords c0) \<and>
     br_gcTimeRange (c_bindingRecords c) = br_gcTimeRange (c_bindingRecords c0)"

lemma AddBinding_ok:
  "br_wf br \<Longrightarrow> \<exists>br'. AddBinding br b = Ok br' \<and> br_wf br' \<and> br_size br' = br_size br \<and> br_gcTimeRange br' = br_gcTimeRange br"
  using AddBinding_not_full [of br b] AddBinding_full [of br b] by (cases "int (length (br_bindings br)) = br_size br") blast+

lemma event_safe:
  assumes "GetLocation sys = Some loc" "controller_ok c0 c"
    and "\<And>hv. hv \<in> set (spec_HotValue (policy_Spec (c_policy c0))) \<Longrightarrow> hot_Count hv \<noteq> 0"
  shows "\<exists>reqs c' err. event_reconcile cvt split_key scan_error sys client ls c key = Ok (reqs, c', err) \<and>
    (\<forall>req \<in> set reqs. stamped_request loc req) \<and> controller_ok c0 c'"
proof -
  have hot: "\<exists>reqs r. annotateNodeHotValue cvt sys client br node (c_policy c) = Ok (reqs, r) \<and> (\<forall>req \<in> set reqs. stamped_request loc req)" for br node
    using annotateNodeHotValue_safe [OF assms(1), of "c_policy c" cvt client br node] assms(2,3) by (auto simp: safe_handled_def controller_ok_def)
  show ?thesis
  proof (cases "split_key key")
    case (Inr p)
    obtain ns name where p: "p = (ns, name)" by force
    show ?thesis
    proof (cases "get_event ls ns name")
      case ev: (Inr ev)
      show ?thesis
      proof (cases "translateEventToBinding split_key scan_error ev")
        case b: (Inr b)
        obtain br' where br': "AddBinding (c_bindingRecords c) b = Ok br'" "controller_ok c0 (c\<lparr>c_bindingRecords := br'\<rparr>)"
          using AddBinding_ok [of "c_bindingRecords c" b] assms(2) by (auto simp: controller_ok_def)
        show ?thesis
        proof (cases "get_node ls (bind_Node b)")
          case (Inr node)
          obtain reqs r where "annotateNodeHotValue cvt sys client br' node (c_policy c) = Ok (reqs, r)"
              "\<forall>req \<in> set reqs. stamped_request loc req"
            using hot by blast
          then show ?thesis using Inr \<open>split_key key = Inr p\<close> p ev b br' by (simp add: event_reconcile_def Let_def)
        qed (use Inr p ev b br' in \<open>simp add: event_reconcile_def Let_def\<close>)
      qed (use Inr p ev assms(2) in \<open>simp add: event_reconcile_def\<close>)
    qed (use Inr p assms(2) in \<open>simp add: event_reconcile_def\<close>)
  qed (use assms(2) in \<open>simp add: event_reconcile_def\<close>)
qed

lemma gc_safe:
  assumes "controller_ok c0 c" shows "\<exists>c'. Controller_gc_tick cvt sys c = Ok c' \<and> controller_ok c0 c'"
proof -
  obtain br' where "BindingsGC cvt (sys_now sys) (c_bindingRecords c) = Ok br'" "br_wf br'"
      "br_size br' = br_size (c_bindingRecords c)" "br_gcTimeRange br' = br_gcTimeRange (c_bindingRecords c)"
    using BindingsGC_spec [of "c_bindingRecords c" cvt "sys_now sys"] BindingsGC_disabled [of "c_bindingRecords c" cvt "sys_now sys"]
      assms
    by (cases "br_gcTimeRange (c_bindingRecords c) = 0") (auto simp: controller_ok_def)
  then show ?thesis using assms by (simp add: Controller_gc_tick_def controller_ok_def)
qed

lemma annotator_work_safe:
  assumes "good_env loc env" "controller_ok c0 c"
    and "\<And>hv. hv \<in> set (spec_HotValue (policy_Spec (c_policy c0))) \<Longrightarrow> hot_Count hv \<noteq> 0"
  shows "\<exists>reqs c' calls go_on. annotator_work par act env c got = Ok (reqs, c', calls, go_on) \<and>
    (\<forall>req \<in> set reqs. stamped_request loc req) \<and> controller_ok c0 c'"
proof -
  obtain key quit where got: "got = (key, quit)" by force
  have e: "GetLocation (env_sys env) = Some loc" "api_floats (env_api env)" "replicas_set (env_listers env)"
    using assms(1) by (auto simp: good_env_def)
  have counts: "hv \<in> set (spec_HotValue (policy_Spec (c_policy c))) \<Longrightarrow> hot_Count hv \<noteq> 0" for hv
    using assms(2,3) by (simp add: controller_ok_def)
  show ?thesis
  proof (cases act)
    case NodeWork
    then show ?thesis
      using node_safe [where c = c and cvt = "par_cvt par" and client = "env_client env" and ls = "env_listers env" and key = key, OF e(1,2) counts] assms(2)
      by (auto simp: got node_work_def safe_handled_def)
  next
    case DeltaWork
    then show ?thesis
      using delta_safe [of "env_client env" "env_listers env" key loc] assms(2) by (auto simp: got delta_work_def case_prod_beta)
  next
    case DeploymentWork
    then show ?thesis
      using deployment_safe [OF e, of "env_client env" key] assms(2) by (auto simp: got deployment_work_def safe_handled_def)
  next
    case EventWork
    then show ?thesis
      using event_safe [OF e(1) assms(2,3), of "par_cvt par" "par_split_key par" "par_scan_error par" "env_client env" "env_listers env" key]
        assms(2)
      by (auto simp: got event_processNextWorkItem_def)
  next
    case PodWork
    then show ?thesis
      using pod_safe [OF e(1), of "par_split_key par" "env_client env" "env_listers env" c key] assms(2)
      by (auto simp: got pod_processNextWorkItem_def safe_handled_def)
  next
    case Collect
    then show ?thesis using gc_safe [OF assms(2), of "par_cvt par" "env_sys env"] by auto
  qed
qed

lemma annotator_reach_ok:
  assumes "annotator_reach par loc c0 c sent" "br_wf (c_bindingRecords c0)"
    and "\<And>hv. hv \<in> set (spec_HotValue (policy_Spec (c_policy c0))) \<Longrightarrow> hot_Count hv \<noteq> 0"
  shows "controller_ok c0 c \<and> (\<forall>req \<in> set sent. stamped_request loc req)"
  using assms(1)
proof induction
  case (reach_work c sent env act got reqs c' calls go_on)
  then show ?case using annotator_work_safe [OF _ _ assms(3), where env = env and c = c and par = par and act = act and got = got] by auto
qed (use assms(2) in \<open>simp add: controller_ok_def\<close>)

lemma worker_loop_safe:
  assumes "controller_ok c0 c" "\<forall>(env, got) \<in> set gots. good_env loc env"
    and "\<And>hv. hv \<in> set (spec_HotValue (policy_Spec (c_policy c0))) \<Longrightarrow> hot_Count hv \<noteq> 0"
  shows "\<exists>reqs c'. worker_loop (annotator_work par act) c gots = Ok (reqs, c') \<and>
    (\<forall>req \<in> set reqs. stamped_request loc req) \<and> controller_ok c0 c'"
  using assms(1,2)
proof (induction gots arbitrary: c)
  case (Cons g gots)
  obtain env got where g: "g = (env, got)" by (rule prod.exhaust)
  then obtain reqs c' calls go_on where s: "annotator_work par act env c got = Ok (reqs, c', calls, go_on)"
      "\<forall>req \<in> set reqs. stamped_request loc req" "controller_ok c0 c'"
    using annotator_work_safe [OF _ Cons.prems(1) assms(3), of loc env par act got] Cons.prems(2) by auto
  moreover obtain reqs' c'' where "worker_loop (annotator_work par act) c' gots = Ok (reqs', c'')"
      "\<forall>req \<in> set reqs'. stamped_request loc req" "controller_ok c0 c''"
    using Cons.IH [OF s(3)] Cons.prems(2) by auto
  ultimately show ?case using g by (cases go_on) auto
qed simp

lemma worker_loops:
  "node_Run par = worker_loop (annotator_work par NodeWork)" "delta_Run par = worker_loop (annotator_work par DeltaWork)"
  "deployment_Run par = worker_loop (annotator_work par DeploymentWork)"
  "event_Run par = worker_loop (annotator_work par EventWork)" "pod_Run par = worker_loop (annotator_work par PodWork)"
proof -
  have "annotator_work par NodeWork = node_work par" "annotator_work par DeltaWork = delta_work par"
    "annotator_work par DeploymentWork = deployment_work par" "annotator_work par EventWork = event_processNextWorkItem par"
    "annotator_work par PodWork = pod_processNextWorkItem par"
    by (intro ext, simp)+
  then show "node_Run par = worker_loop (annotator_work par NodeWork)" "delta_Run par = worker_loop (annotator_work par DeltaWork)"
    "deployment_Run par = worker_loop (annotator_work par DeploymentWork)"
    "event_Run par = worker_loop (annotator_work par EventWork)" "pod_Run par = worker_loop (annotator_work par PodWork)"
    by (simp_all add: node_Run_def delta_Run_def deployment_Run_def event_Run_def pod_Run_def)
qed

lemma annotator_work_goes_on:
  "annotator_work par act env c (key, False) = Ok (reqs, c', calls, go_on) \<Longrightarrow> go_on"
  by (cases act) (auto simp: node_work_def delta_work_def deployment_work_def event_processNextWorkItem_def
      pod_processNextWorkItem_def obind_eq_Ok_iff omap_eq_Ok_iff split: prod.splits)

lemma annotator_work_quits: "act \<noteq> Collect \<Longrightarrow> annotator_work par act env c (key, True) = Ok ([], c, [], False)"
  by (cases act) (simp_all add: node_work_def delta_work_def deployment_work_def event_processNextWorkItem_def
      pod_processNextWorkItem_def)

lemma worker_loop_quit:
  assumes "act \<noteq> Collect" "worker_loop (annotator_work par act) c gots = Ok (reqs, c')"
    and "\<forall>(env, key, quit) \<in> set gots. \<not> quit"
  shows "worker_loop (annotator_work par act) c (gots @ (env, key, True) # rest) = Ok (reqs, c')"
  using assms(2,3)
proof (induction gots arbitrary: c reqs)
  case Nil
  then show ?case by (simp add: annotator_work_quits [OF assms(1)])
next
  case (Cons g gots)
  obtain e k where g: "g = (e, k, False)" using Cons.prems(2) by (cases g) auto
  obtain r1 c1 calls go_on where step: "annotator_work par act e c (k, False) = Ok (r1, c1, calls, go_on)"
    using Cons.prems(1) by (auto simp: g obind_eq_Ok_iff)
  obtain r2 where "worker_loop (annotator_work par act) c1 gots = Ok (r2, c')" "reqs = r1 @ r2"
    using Cons.prems(1) step annotator_work_goes_on [OF step] by (auto simp: g obind_eq_Ok_iff)
  then show ?case
    using Cons.IH [of c1 r2] Cons.prems(2) step annotator_work_goes_on [OF step] by (simp add: g)
qed

definition example_env :: work_env where
  "example_env = \<lparr>env_sys = example_sys (100 * second), env_api = example_api [Fin False (1 / 4)], env_client = (\<lambda>_. None),
     env_listers = example_listers [example_node None]\<rparr>"

definition example_params :: work_params where
  "example_params = \<lparr>par_cvt = (\<lambda>_. 0), par_split_key = example_split, par_scan_error = (\<lambda>_. '''')\<rparr>"

lemma example_env_good: "good_env (fixed_location 0) example_env"
proof -
  have "is_float64 (Fin False (1 / 4))" by code_simp
  then show ?thesis
    using example_api_floats [of "[Fin False (1 / 4)]"]
    by (simp add: good_env_def example_env_def example_location replicas_set_def example_listers_def)
qed

abbreviation example_controller :: Controller where
  "example_controller \<equiv> NewNodeAnnotator (ds_schedulerPolicy example_scheduler) 10"

abbreviation example_load :: patch_request where
  "example_load \<equiv> value_request (fixed_location 0) (example_sys (100 * second)) (example_node None) ''cpu'' ''0.25000''"

abbreviation example_hot :: patch_request where
  "example_hot \<equiv> value_request (fixed_location 0) (example_sys (100 * second)) (example_node None) HotValueKey (itoa 0)"

lemma example_node_step:
  "annotator_work example_params NodeWork example_env example_controller (''n1/cpu'', False) =
     Ok ([example_load, example_hot], example_controller, [QForget ''n1/cpu'', QDone ''n1/cpu''], True)"
proof -
  have key: "splitMetaKeyWithMetricName ''n1/cpu'' = Inr (''n1'', ''cpu'')" "\<not> has_prefix ''cpu'' PrefixRange" by code_simp+
  have node: "get_node (env_listers example_env) ''n1'' = Inr (example_node None)" "node_Name (example_node None) = ''n1''"
    by (simp_all add: example_env_def example_listers_def example_node_def)
  have load: "annotateNodeLoad (env_api example_env) (env_sys example_env) (env_client example_env) (example_node None) ''cpu'' =
      Ok ([example_load], None)"
    using key(2) by (simp add: annotateNodeLoad_def example_env_def example_load_query send_patch_def
        PatchNodeAnnotation_value_request [OF example_location])
  have "annotateNodeHotValue (\<lambda>_. 0) (env_sys example_env) (env_client example_env) (c_bindingRecords example_controller)
      (example_node None) (c_policy example_controller) = Ok ([example_hot], None)"
    using example_hot_value
    by (simp add: annotateNodeHotValue_def example_env_def send_patch_def PatchNodeAnnotation_value_request [OF example_location])
  then show ?thesis
    using key(1) node load
    by (simp add: node_work_def node_processNextWorkItem_def syncNode_def example_params_def)
qed

text \<open>C30. A worker's loop ends exactly when its queue is shut down: in every state the annotator reaches, the loop
  works through the keys it is given, goes on after each of them, whatever errors or rejections came up, and at the
  first \<open>Get\<close> that reports the shut-down it ends with what it has done so far, whatever the queue would return afterwards.\<close>

theorem worker_ends_at_shutdown:
  assumes "annotator_reach par loc (NewNodeAnnotator policy sz) c sent" "0 < sz"
    and "\<forall>hv \<in> set (spec_HotValue (policy_Spec policy)). hot_Count hv \<noteq> 0"
    and "act \<noteq> Collect" "\<forall>(env, key, quit) \<in> set gots. good_env loc env \<and> \<not> quit"
  shows "\<exists>reqs c'. worker_loop (annotator_work par act) c gots = Ok (reqs, c') \<and>
    (\<forall>env key. good_env loc env \<longrightarrow>
      (\<exists>reqs' c'' calls. annotator_work par act env c' (key, False) = Ok (reqs', c'', calls, True))) \<and>
    (\<forall>env key rest. worker_loop (annotator_work par act) c (gots @ (env, key, True) # rest) = Ok (reqs, c'))"
proof -
  let ?c0 = "NewNodeAnnotator policy sz"
  have counts: "hv \<in> set (spec_HotValue (policy_Spec (c_policy ?c0))) \<Longrightarrow> hot_Count hv \<noteq> 0" for hv
    using assms(3) by (simp add: NewNodeAnnotator_def)
  have "br_wf (c_bindingRecords ?c0)" using NewBindingRecords_wf [OF assms(2)] by (simp add: NewNodeAnnotator_def)
  then have ok: "controller_ok ?c0 c" using annotator_reach_ok [OF assms(1) _ counts] by blast
  obtain reqs c' where loop: "worker_loop (annotator_work par act) c gots = Ok (reqs, c')" "controller_ok ?c0 c'"
    using worker_loop_safe [OF ok _ counts, of gots loc par act] assms(5) by (auto simp: case_prod_beta)
  moreover have "\<exists>reqs' c'' calls. annotator_work par act env c' (key, False) = Ok (reqs', c'', calls, True)"
    if env: "good_env loc env" for env key
  proof -
    obtain reqs' c'' calls go_on where work: "annotator_work par act env c' (key, False) = Ok (reqs', c'', calls, go_on)"
      using annotator_work_safe [OF env loop(2) counts, of par act "(key, False)"] by auto
    then show ?thesis using annotator_work_goes_on [OF work] by simp
  qed
  moreover have "worker_loop (annotator_work par act) c (gots @ (env, key, True) # rest) = Ok (reqs, c')" for env key rest
    using worker_loop_quit [OF assms(4) loop(1), of env key rest] assms(5) by (auto simp: case_prod_beta)
  ultimately show ?thesis by blast
qed

theorem worker_ends_at_shutdown_witness:
  "worker_loop (annotator_work example_params NodeWork) example_controller
     [(example_env, ''n1/cpu'', False), (example_env, ''n1/cpu'', True), (example_env, ''n1/cpu'', False)] =
   Ok ([example_load, example_hot], example_controller)"
proof -
  have counts: "\<forall>hv \<in> set (spec_HotValue (policy_Spec (ds_schedulerPolicy example_scheduler))). hot_Count hv \<noteq> 0"
    by (simp add: example_scheduler_def example_spec_def)
  have gots: "\<forall>(env, key, quit) \<in> set [(example_env, ''n1/cpu'', False)]. good_env (fixed_location 0) env \<and> \<not> quit"
    by (simp add: example_env_good)
  obtain reqs c' where "worker_loop (annotator_work example_params NodeWork) example_controller [(example_env, ''n1/cpu'', False)] = Ok (reqs, c')"
      "\<And>env key rest. worker_loop (annotator_work example_params NodeWork) example_controller
        ([(example_env, ''n1/cpu'', False)] @ (env, key, True) # rest) = Ok (reqs, c')"
    using worker_ends_at_shutdown [OF reach_init _ counts _ gots, of 10 NodeWork example_params] by auto
  then show ?thesis using example_node_step by simp
qed

end
