(* ===== verification/Work_Queue.thy ===== *)
theory Work_Queue
  imports Annotator_Run
begin

text \<open>
  The life of a key in the queue of the node controller. The queue is client-go's: a key for which the worker asks with
  \<open>AddRateLimited\<close> is delivered again after some delay, a key that it forgets is not. Between two deliveries
  everything may change: the clock, the answers of Prometheus and of the API server, the caches and the log of
  bindings. The theorem says what each delivery does in every case and when the key is done.
\<close>

section \<open>Deliveries of a key\<close>

text \<open>The deliveries of one key, each with what the worker sees then; the result tells whether the key is still in the
  queue after them.\<close>

fun node_deliveries ::
  "work_params \<Rightarrow> string \<Rightarrow> (work_env \<times> Controller) list \<Rightarrow> (patch_request list \<times> bool) outcome" where
  "node_deliveries par key [] = Ok ([], True)"
| "node_deliveries par key ((env, c) # es) =
     obind (node_work par env c (key, False)) (\<lambda>(reqs, c', calls, go_on).
       if QAddRateLimited key \<in> set calls then
         obind (node_deliveries par key es) (\<lambda>(reqs', waiting). Ok (reqs @ reqs', waiting))
       else Ok (reqs, False))"

text \<open>The load of a node: of the queries for its metric, by address first, then by name, the first that succeeds.\<close>

definition answered_load :: "prom_api \<Rightarrow> sys \<Rightarrow> Node \<Rightarrow> string \<Rightarrow> string option" where
  "answered_load api sys node m =
     (let answers =
        (if has_prefix m PrefixRange then
           [QueryRangeByNodeIP api sys (trim_prefix m PrefixRange) (getNodeInternalIP node),
            QueryRangeByNodeName api sys (trim_prefix m PrefixRange) (node_Name node)]
         else [QueryByNodeIP api sys m (getNodeInternalIP node), QueryByNodeName api sys m (node_Name node)])
      in map_option projr (find (\<lambda>r. \<not> isl r) answers))"

definition hot_value_now :: "work_params \<Rightarrow> work_env \<Rightarrow> Controller \<Rightarrow> string \<Rightarrow> int outcome" where
  "hot_value_now par env c n =
     hot_value_loop (par_cvt par) (sys_now (env_sys env)) (c_bindingRecords c) n (spec_HotValue (policy_Spec (c_policy c))) 0"

text \<open>A delivery after which nothing is left to do: the node is gone, or its load is known and both patches are
  accepted.\<close>

definition delivery_settles :: "work_params \<Rightarrow> location \<Rightarrow> string \<Rightarrow> string \<Rightarrow> work_env \<times> Controller \<Rightarrow> bool" where
  "delivery_settles par loc n m e =
     (case e of (env, c) \<Rightarrow>
        case get_node (env_listers env) n of
          Inl err \<Rightarrow> True
        | Inr node \<Rightarrow>
            (case answered_load (env_api env) (env_sys env) node m of
               None \<Rightarrow> False
             | Some v \<Rightarrow>
                 env_client env (value_request loc (env_sys env) node m v) = None \<and>
                 (case hot_value_now par env c (node_Name node) of
                    Panic p \<Rightarrow> False
                  | Ok h \<Rightarrow> env_client env (value_request loc (env_sys env) node HotValueKey (itoa h)) = None)))"

lemma annotateNodeLoad_answered:
  assumes "GetLocation sys = Some loc"
  shows "annotateNodeLoad api sys client node m =
    (case answered_load api sys node m of
       None \<Rightarrow> Ok ([], Some (Plain (''failed to get data '' @ m @ ''{nodeName='' @ node_Name node @ ''}: <nil>'')))
     | Some v \<Rightarrow> Ok (send_patch client (value_request loc sys node m v)))"
  by (simp add: annotateNodeLoad_def answered_load_def Let_def getNodeName_def PatchNodeAnnotation_value_request [OF assms]
      split: sum.split)

text \<open>One delivery, by cases.\<close>

lemma node_delivery:
  assumes "GetLocation (env_sys env) = Some loc" "splitMetaKeyWithMetricName key = Inr (n, m)"
    and "\<forall>hv \<in> set (spec_HotValue (policy_Spec (c_policy c))). hot_Count hv \<noteq> 0"
  shows "get_node (env_listers env) n = Inl err \<Longrightarrow> node_work par env c (key, False) = Ok ([], c, [QForget key, QDone key], True)"
    and "get_node (env_listers env) n = Inr node \<Longrightarrow> answered_load (env_api env) (env_sys env) node m = None \<Longrightarrow>
      node_work par env c (key, False) = Ok ([], c, [QAddRateLimited key, QDone key], True)"
    and "get_node (env_listers env) n = Inr node \<Longrightarrow> answered_load (env_api env) (env_sys env) node m = Some v \<Longrightarrow>
      \<exists>h load hot. hot_value_now par env c (node_Name node) = Ok h \<and>
        load = value_request loc (env_sys env) node m v \<and> hot = value_request loc (env_sys env) node HotValueKey (itoa h) \<and>
        node_work par env c (key, False) =
          Ok (if env_client env load = None then [load, hot] else [load], c,
              if env_client env load = None \<and> env_client env hot = None then [QForget key, QDone key]
              else [QAddRateLimited key, QDone key], True)"
proof -
  assume node: "get_node (env_listers env) n = Inr node" "answered_load (env_api env) (env_sys env) node m = Some v"
  obtain h where "hot_value_now par env c (node_Name node) = Ok h"
    using hot_value_loop_returns assms(3) unfolding hot_value_now_def by blast
  then show "\<exists>h load hot. hot_value_now par env c (node_Name node) = Ok h \<and>
        load = value_request loc (env_sys env) node m v \<and> hot = value_request loc (env_sys env) node HotValueKey (itoa h) \<and>
        node_work par env c (key, False) =
          Ok (if env_client env load = None then [load, hot] else [load], c,
              if env_client env load = None \<and> env_client env hot = None then [QForget key, QDone key]
              else [QAddRateLimited key, QDone key], True)"
    using node assms(2)
    by (auto simp: node_work_def node_processNextWorkItem_def syncNode_def annotateNodeLoad_answered [OF assms(1)]
        annotateNodeHotValue_def hot_value_now_def PatchNodeAnnotation_value_request [OF assms(1)] send_patch_def split: option.split)
qed (use assms(2) in \<open>simp_all add: node_work_def node_processNextWorkItem_def syncNode_def
      annotateNodeLoad_answered [OF assms(1)]\<close>)

text \<open>A delivery returns, and it asks for another one unless it settles the key.\<close>

lemma node_delivery_settles:
  assumes "GetLocation (env_sys env) = Some loc" "splitMetaKeyWithMetricName key = Inr (n, m)"
    and "\<forall>hv \<in> set (spec_HotValue (policy_Spec (c_policy c))). hot_Count hv \<noteq> 0"
  obtains reqs calls where "node_work par env c (key, False) = Ok (reqs, c, calls, True)"
    "QAddRateLimited key \<in> set calls \<longleftrightarrow> \<not> delivery_settles par loc n m (env, c)"
proof (cases "get_node (env_listers env) n")
  case (Inl err)
  then show thesis using that node_delivery(1) [OF assms Inl, of par] by (simp add: delivery_settles_def)
next
  case (Inr node)
  show thesis
  proof (cases "answered_load (env_api env) (env_sys env) node m")
    case None
    then show thesis using that node_delivery(2) [OF assms Inr None, of par] Inr by (simp add: delivery_settles_def)
  next
    case (Some v)
    then show thesis
      using that node_delivery(3) [OF assms Inr Some, of par] Inr by (auto simp: delivery_settles_def split: if_splits)
  qed
qed

section \<open>Property\<close>

text \<open>C19. Every key that a tick enqueues is work for its node and metric, and it stays in the queue until it is done. At each
  delivery, whatever has changed since: when the node is gone, the worker sends nothing and forgets the key; when no query
  for the metric succeeds, by address or by name, for a range or an instant, it sends nothing and asks for a
  rate-limited retry; else it sends the load of the first query that succeeded and, once that was accepted, the hot
  value of the node, and it forgets the key if both patches were accepted and asks for a retry otherwise. The key is
  marked done in any case. So, the queue delivering again what was asked for, after any deliveries the key is
  still waiting if none of them settled it, and it is gone as soon as one did: when the node is gone, or Prometheus answers and
  the server accepts both patches, at some later delivery, the key gets done at that delivery.\<close>

theorem enqueued_node_synced:
  assumes "list_nodes ls = Inr nodes" "listed \<in> set nodes" "n = node_Name listed" "m = sync_Name p"
    and "CHR ''/'' \<notin> set n" "CHR ''/'' \<notin> set m" "key = handlingMetaKeyWithMetricName n m"
    and "\<forall>(env, c) \<in> set es. GetLocation (env_sys env) = Some loc \<and>
      (\<forall>hv \<in> set (spec_HotValue (policy_Spec (c_policy c))). hot_Count hv \<noteq> 0)"
  shows "key \<in> set (node_enqueue ls p) \<and>
    (\<forall>(env, c) \<in> set es.
      case get_node (env_listers env) n of
        Inl err \<Rightarrow> node_work par env c (key, False) = Ok ([], c, [QForget key, QDone key], True)
      | Inr node \<Rightarrow>
          (case answered_load (env_api env) (env_sys env) node m of
             None \<Rightarrow> node_work par env c (key, False) = Ok ([], c, [QAddRateLimited key, QDone key], True)
           | Some v \<Rightarrow>
               (\<exists>h load hot. hot_value_now par env c (node_Name node) = Ok h \<and>
                 load = value_request loc (env_sys env) node m v \<and> hot = value_request loc (env_sys env) node HotValueKey (itoa h) \<and>
                 node_work par env c (key, False) =
                   Ok (if env_client env load = None then [load, hot] else [load], c,
                       if env_client env load = None \<and> env_client env hot = None then [QForget key, QDone key]
                       else [QAddRateLimited key, QDone key], True)))) \<and>
    (\<exists>reqs. node_deliveries par key es = Ok (reqs, \<forall>e \<in> set es. \<not> delivery_settles par loc n m e))"
proof -
  have split: "splitMetaKeyWithMetricName key = Inr (n, m)" using split_handling [OF assms(5,6)] assms(7) by simp
  have enqueued: "key \<in> set (node_enqueue ls p)" using assms(1-4,7) by (auto simp: node_enqueue_def)
  have each: "case get_node (env_listers env) n of
        Inl err \<Rightarrow> node_work par env c (key, False) = Ok ([], c, [QForget key, QDone key], True)
      | Inr node \<Rightarrow>
          (case answered_load (env_api env) (env_sys env) node m of
             None \<Rightarrow> node_work par env c (key, False) = Ok ([], c, [QAddRateLimited key, QDone key], True)
           | Some v \<Rightarrow>
               (\<exists>h load hot. hot_value_now par env c (node_Name node) = Ok h \<and>
                 load = value_request loc (env_sys env) node m v \<and> hot = value_request loc (env_sys env) node HotValueKey (itoa h) \<and>
                 node_work par env c (key, False) =
                   Ok (if env_client env load = None then [load, hot] else [load], c,
                       if env_client env load = None \<and> env_client env hot = None then [QForget key, QDone key]
                       else [QAddRateLimited key, QDone key], True)))" if e: "(env, c) \<in> set es" for env c
  proof -
    have ok: "GetLocation (env_sys env) = Some loc" "\<forall>hv \<in> set (spec_HotValue (policy_Spec (c_policy c))). hot_Count hv \<noteq> 0"
      using assms(8) e by auto
    note delivery = node_delivery [where par = par, OF ok(1) split ok(2)]
    show ?thesis
    proof (cases "get_node (env_listers env) n")
      case (Inl err)
      then show ?thesis using delivery(1) by simp
    next
      case node: (Inr node)
      show ?thesis
      proof (cases "answered_load (env_api env) (env_sys env) node m")
        case None
        then show ?thesis using delivery(2) node by simp
      next
        case (Some v)
        show ?thesis unfolding node Some sum.case option.case by (rule delivery(3) [OF node Some])
      qed
    qed
  qed
  have "\<exists>reqs. node_deliveries par key es = Ok (reqs, \<forall>e \<in> set es. \<not> delivery_settles par loc n m e)"
    using assms(8)
  proof (induction es)
    case (Cons e es)
    obtain env c where e: "e = (env, c)" by (rule prod.exhaust)
    have "GetLocation (env_sys env) = Some loc" "\<forall>hv \<in> set (spec_HotValue (policy_Spec (c_policy c))). hot_Count hv \<noteq> 0"
      using Cons.prems by (auto simp: e)
    then obtain reqs calls where "node_work par env c (key, False) = Ok (reqs, c, calls, True)"
        "QAddRateLimited key \<in> set calls \<longleftrightarrow> \<not> delivery_settles par loc n m e"
      using node_delivery_settles [OF _ split] unfolding e by blast
    moreover obtain reqs' where "node_deliveries par key es = Ok (reqs', \<forall>e \<in> set es. \<not> delivery_settles par loc n m e)"
      using Cons.IH Cons.prems by auto
    ultimately show ?case by (simp add: e)
  qed simp
  then show ?thesis
    using enqueued by (intro conjI ballI) (assumption, clarify, erule each, assumption)
qed

text \<open>A key that is delivered three times: Prometheus does not answer, then the API server rejects, then both patches are
  accepted.\<close>

definition example_silent_env :: work_env where
  "example_silent_env = example_env\<lparr>env_api := (env_api example_env)\<lparr>api_Query := \<lambda>q t. Inl (External ''down'')\<rparr>\<rparr>"

definition example_rejecting_env :: work_env where
  "example_rejecting_env = example_env\<lparr>env_client := \<lambda>_. Some (External ''conflict'')\<rparr>"

theorem enqueued_node_synced_witness:
  "''n1/cpu'' \<in> set (node_enqueue (example_listers [example_node None]) \<lparr>sync_Name = ''cpu'', sync_Period = minute\<rparr>) \<and>
   (\<exists>reqs. node_deliveries example_params ''n1/cpu''
     [(example_silent_env, example_controller), (example_rejecting_env, example_controller)] = Ok (reqs, True)) \<and>
   (\<exists>reqs. node_deliveries example_params ''n1/cpu''
     [(example_silent_env, example_controller), (example_rejecting_env, example_controller), (example_env, example_controller)] =
       Ok (reqs, False))"
proof -
  let ?es = "[(example_silent_env, example_controller), (example_rejecting_env, example_controller)]"
  have loc: "GetLocation (env_sys example_env) = Some (fixed_location 0)" using example_env_good by (simp add: good_env_def)
  have good: "\<forall>(env, c) \<in> set (?es @ [(example_env, example_controller)]). GetLocation (env_sys env) = Some (fixed_location 0) \<and>
      (\<forall>hv \<in> set (spec_HotValue (policy_Spec (c_policy c))). hot_Count hv \<noteq> 0)"
    using loc by (simp add: example_silent_env_def example_rejecting_env_def NewNodeAnnotator_def example_scheduler_def example_spec_def)
  have node: "get_node (env_listers example_env) ''n1'' = Inr (example_node None)" "node_Name (example_node None) = ''n1''"
    by (simp_all add: example_env_def example_listers_def example_node_def)
  have key: "\<not> has_prefix ''cpu'' PrefixRange" "CHR ''/'' \<notin> set ''n1''" "CHR ''/'' \<notin> set ''cpu''"
    "''n1/cpu'' = handlingMetaKeyWithMetricName ''n1'' ''cpu''" by code_simp+
  have answers: "answered_load (env_api example_env) (env_sys example_env) (example_node None) ''cpu'' = Some ''0.25000''"
    using key(1) example_load_query by (simp add: answered_load_def example_env_def)
  have silent: "answered_load (env_api example_silent_env) sys nd ''cpu'' = None" for sys nd
    using key(1) by (simp add: answered_load_def example_silent_env_def QueryByNodeIP_def QueryByNodeName_def prom_query_def first_of_def)
  have hot: "hot_value_now example_params example_env example_controller ''n1'' = Ok 0"
    using example_hot_value by (simp add: hot_value_now_def)
  have settles: "\<not> delivery_settles example_params (fixed_location 0) ''n1'' ''cpu'' (example_silent_env, example_controller)"
    "\<not> delivery_settles example_params (fixed_location 0) ''n1'' ''cpu'' (example_rejecting_env, example_controller)"
    "delivery_settles example_params (fixed_location 0) ''n1'' ''cpu'' (example_env, example_controller)"
    using node answers hot silent
    by (simp_all add: delivery_settles_def) (simp_all add: example_silent_env_def example_rejecting_env_def example_env_def)
  let ?p = "\<lparr>sync_Name = ''cpu'', sync_Period = minute\<rparr>" and ?ls = "example_listers [example_node None]"
  have enq: "list_nodes ?ls = Inr [example_node None]" "example_node None \<in> set [example_node None]"
    "''n1'' = node_Name (example_node None)" "''cpu'' = sync_Name ?p"
    using node(2) by (simp_all add: example_listers_def)
  have two: "\<forall>(env, c) \<in> set ?es. GetLocation (env_sys env) = Some (fixed_location 0) \<and>
      (\<forall>hv \<in> set (spec_HotValue (policy_Spec (c_policy c))). hot_Count hv \<noteq> 0)" using good by simp
  note waiting = enqueued_node_synced [OF enq key(2-4) two, of example_params, THEN conjunct2, THEN conjunct2]
  note done_now = enqueued_node_synced [OF enq key(2-4) good, of example_params, THEN conjunct2, THEN conjunct2]
  have "(\<forall>e \<in> set ?es. \<not> delivery_settles example_params (fixed_location 0) ''n1'' ''cpu'' e) = True"
    using settles(1,2) by simp
  then have "\<exists>reqs. node_deliveries example_params ''n1/cpu'' ?es = Ok (reqs, True)" using waiting by simp
  moreover have "(\<forall>e \<in> set (?es @ [(example_env, example_controller)]). \<not> delivery_settles example_params (fixed_location 0) ''n1'' ''cpu'' e)
      = False" using settles(3) by simp
  then have "\<exists>reqs. node_deliveries example_params ''n1/cpu'' (?es @ [(example_env, example_controller)]) = Ok (reqs, False)"
    using done_now by (simp only:)
  ultimately show ?thesis
    using enqueued_node_synced [OF enq key(2-4) two, of example_params, THEN conjunct1] by (simp only: append.simps)
qed

end
