(* ===== verification/Patch_Texts.thy ===== *)
theory Patch_Texts
  imports Annotator_Run
begin

text \<open>
  The texts of the patches. The annotator pastes names and values into a template of JSON without escaping them
  (\<open>pkg/controller/annotator\<close> and \<open>pkg/utils\<close>). Here the texts are read as JSON by a reader of flat patches: names
  and values that need no escaping give well-formed patches, a quote in a value does not. The values themselves are
  followed from where they come (Prometheus, the log of bindings, the merge of a delta) to the patch, under
  a contract \<open>written_values\<close> that says what every written value satisfies; C1 and C5 instantiate it.
\<close>

section \<open>Reading a patch\<close>

text \<open>JSON as far as patches of one operation need it: an array of one object whose members are strings
  without escapes.\<close>

definition skip_space :: "string \<Rightarrow> string" where
  "skip_space = dropWhile (\<lambda>c. c \<in> {CHR '' '', CHR 0x09, CHR 0x0A, CHR 0x0D})"

definition json_char :: "char \<Rightarrow> string \<Rightarrow> string option" where
  "json_char c s = (case skip_space s of [] \<Rightarrow> None | d # r \<Rightarrow> if d = c then Some r else None)"

text \<open>A character that may stand in a JSON string as it is.\<close>

definition unescaped :: "char \<Rightarrow> bool" where
  "unescaped c \<longleftrightarrow> c \<noteq> CHR 0x22 \<and> c \<noteq> CHR 0x5C \<and> 32 \<le> (of_char c :: nat)"

fun json_text :: "string \<Rightarrow> (string \<times> string) option" where
  "json_text [] = None"
| "json_text (c # cs) =
     (if c = CHR 0x22 then Some ([], cs)
      else if unescaped c then map_option (apfst ((#) c)) (json_text cs)
      else None)"

definition json_string :: "string \<Rightarrow> (string \<times> string) option" where
  "json_string s = Option.bind (json_char CHR 0x22 s) json_text"

definition json_member :: "string \<Rightarrow> ((string \<times> string) \<times> string) option" where
  "json_member s =
     Option.bind (json_string s) (\<lambda>(name, r).
     Option.bind (json_char CHR '':'' r) (\<lambda>r.
     map_option (apfst (Pair name)) (json_string r)))"

text \<open>At most \<open>n\<close> members; a text has fewer members than characters.\<close>

fun json_members :: "nat \<Rightarrow> string \<Rightarrow> ((string \<times> string) list \<times> string) option" where
  "json_members 0 s = None"
| "json_members (Suc n) s =
     Option.bind (json_member s) (\<lambda>(m, r).
       case json_char CHR '','' r of
         None \<Rightarrow> Some ([m], r)
       | Some r' \<Rightarrow> map_option (apfst ((#) m)) (json_members n r'))"

definition json_patch :: "string \<Rightarrow> (string \<times> string) list option" where
  "json_patch s =
     Option.bind (json_char CHR ''['' s) (\<lambda>r.
     Option.bind (json_char CHR ''{'' r) (\<lambda>r.
     Option.bind (json_members (length s) r) (\<lambda>(ms, r).
     Option.bind (json_char CHR ''}'' r) (\<lambda>r.
     Option.bind (json_char CHR '']'' r) (\<lambda>r.
       if skip_space r = [] then Some ms else None)))))"

lemma json_text_quoted:
  "\<forall>c \<in> set s. unescaped c \<Longrightarrow> json_text (s @ CHR 0x22 # r) = Some (s, r)"
  by (induction s) (auto simp: unescaped_def)

lemma json_string_quoted:
  "\<forall>c \<in> set s. unescaped c \<Longrightarrow> json_string (quoted s @ r) = Some (s, r)"
  by (simp add: json_string_def json_char_def skip_space_def quoted_def json_text_quoted)

lemma json_string_space: "json_string (CHR '' '' # s) = json_string s" "json_string (CHR 0x0A # s) = json_string s"
  "json_string (CHR 0x09 # s) = json_string s"
  by (simp_all add: json_string_def json_char_def skip_space_def)

text \<open>A member as the templates print it, and the members of an object.\<close>

abbreviation new_line :: "string \<Rightarrow> string" where
  "new_line s \<equiv> CHR 0x0A # CHR 0x09 # CHR 0x09 # s"

abbreviation closing :: string where
  "closing \<equiv> CHR 0x0A # CHR 0x09 # ''}]''"

lemma json_member_printed:
  assumes "\<forall>c \<in> set name. unescaped c" "\<forall>c \<in> set value. unescaped c"
  shows "json_member (new_line (quoted name @ '': '' @ quoted value @ r)) = Some ((name, value), r)"
proof -
  have colon: "json_char CHR '':'' ('': '' @ s) = Some (CHR '' '' # s)" for s
    by (simp add: json_char_def skip_space_def)
  show ?thesis
    by (simp only: json_member_def json_string_space json_string_quoted [OF assms(1)] json_string_quoted [OF assms(2)] colon
        bind.simps option.map prod.case apfst_conv)
qed

lemma json_members_more:
  "json_member s = Some (m, CHR '','' # r) \<Longrightarrow> json_members (Suc n) s = map_option (apfst ((#) m)) (json_members n r)"
  by (simp add: json_char_def skip_space_def)

lemma json_members_last: "json_member s = Some (m, closing) \<Longrightarrow> json_members (Suc n) s = Some ([m], closing)"
  by (simp add: json_char_def skip_space_def)

lemma json_patch_members:
  assumes "json_members (length s) r = Some (ms, closing)" "s = CHR ''['' # CHR ''{'' # r"
  shows "json_patch s = Some ms"
proof -
  have "json_char CHR ''['' s = Some (CHR ''{'' # r)" "json_char CHR ''{'' (CHR ''{'' # r) = Some r"
    by (simp_all add: assms(2) json_char_def skip_space_def)
  moreover have "json_char CHR ''}'' closing = Some '']''" "json_char CHR '']'' '']'' = Some ''''" "skip_space '''' = ''''"
    by (simp_all add: json_char_def skip_space_def)
  ultimately show ?thesis by (simp only: json_patch_def assms(1) bind.simps prod.case simp_thms if_True)
qed

section \<open>Well-formed requests\<close>

text \<open>Texts that can be pasted into a patch: no character that JSON or a JSON pointer escapes.\<close>

definition safe_text :: "string \<Rightarrow> bool" where
  "safe_text s \<longleftrightarrow> (\<forall>c \<in> set s. unescaped c \<and> c \<noteq> CHR ''/'' \<and> c \<noteq> CHR ''~'')"

lemma safe_unescaped: "safe_text s \<Longrightarrow> \<forall>c \<in> set s. unescaped c"
  by (simp add: safe_text_def)

lemma safe_plain: "safe_text s \<Longrightarrow> plain_text s"
  unfolding safe_text_def plain_text_def by (fastforce simp: unescaped_def)

lemma safe_text_append [simp]: "safe_text (s @ t) \<longleftrightarrow> safe_text s \<and> safe_text t"
  by (simp only: safe_text_def set_append ball_Un)

lemma safe_text_Nil [simp]: "safe_text ''''"
  by (simp add: safe_text_def)

lemma template_names:
  "\<forall>c \<in> set ''op''. unescaped c" "\<forall>c \<in> set ''path''. unescaped c" "\<forall>c \<in> set ''value''. unescaped c"
  "\<forall>c \<in> set k. unescaped c \<Longrightarrow> \<forall>c \<in> set (''/metadata/annotations/'' @ k). unescaped c"
  by (auto simp: unescaped_def)

lemma json_patch_with_value:
  assumes "\<forall>c \<in> set op. unescaped c" "\<forall>c \<in> set k. unescaped c" "\<forall>c \<in> set v. unescaped c"
  shows "json_patch (patch_with_value op k v) =
    Some [(''op'', op), (''path'', ''/metadata/annotations/'' @ k), (''value'', v)]"
proof (rule json_patch_members)
  let ?path = "''/metadata/annotations/'' @ k"
  let ?v = "new_line (quoted ''value'' @ '': '' @ quoted v @ closing)"
  let ?p = "new_line (quoted ''path'' @ '': '' @ quoted ?path @ CHR '','' # ?v)"
  let ?o = "new_line (quoted ''op'' @ '': '' @ quoted op @ CHR '','' # ?p)"
  show data: "patch_with_value op k v = CHR ''['' # CHR ''{'' # ?o" by (simp add: patch_with_value_def)
  obtain n where n: "length (patch_with_value op k v) = Suc (Suc (Suc n))" unfolding data by simp
  show "json_members (length (patch_with_value op k v)) ?o = Some ([(''op'', op), (''path'', ?path), (''value'', v)], closing)"
    unfolding n json_members_more [OF json_member_printed [OF template_names(1) assms(1)]]
      json_members_more [OF json_member_printed [OF template_names(2) template_names(4) [OF assms(2)]]]
      json_members_last [OF json_member_printed [OF template_names(3) assms(3)]]
    by (simp only: option.map apfst_conv)
qed

lemma json_patch_without_value:
  assumes "\<forall>c \<in> set op. unescaped c" "\<forall>c \<in> set k. unescaped c"
  shows "json_patch (patch_without_value op k) = Some [(''op'', op), (''path'', ''/metadata/annotations/'' @ k)]"
proof (rule json_patch_members)
  let ?path = "''/metadata/annotations/'' @ k"
  let ?p = "new_line (quoted ''path'' @ '': '' @ quoted ?path @ closing)"
  let ?o = "new_line (quoted ''op'' @ '': '' @ quoted op @ CHR '','' # ?p)"
  show data: "patch_without_value op k = CHR ''['' # CHR ''{'' # ?o" by (simp add: patch_without_value_def)
  obtain n where n: "length (patch_without_value op k) = Suc (Suc n)" unfolding data by simp
  show "json_members (length (patch_without_value op k)) ?o = Some ([(''op'', op), (''path'', ?path)], closing)"
    unfolding n json_members_more [OF json_member_printed [OF template_names(1) assms(1)]]
      json_members_last [OF json_member_printed [OF template_names(2) template_names(4) [OF assms(2)]]]
    by (simp only: option.map apfst_conv)
qed

text \<open>A quote in a usage ends the string: the text is no patch.\<close>

lemma quote_breaks_patch:
  "json_patch (patch_with_value ''add'' ''delta_range_cpu'' (''0.1'' @ [CHR 0x22] @ '',1970-01-01T00:00:00Z'')) = None"
  by code_simp

text \<open>What a request has to be: a JSON patch of one operation on one annotation, that is, a text that reads as such, whose
  path is the pointer to the annotation of a name without the characters that pointers escape, and whose value is
  a stamped one.\<close>

definition well_formed_request :: "location \<Rightarrow> patch_request \<Rightarrow> bool" where
  "well_formed_request loc req \<longleftrightarrow>
     patch_kind req = JSONPatchType \<and>
     ((\<exists>n k. patch_target req = PatchNode n \<and> safe_text k \<and> has_prefix k DeltaPrefixName \<and>
         json_patch (patch_data req) = Some [(''op'', ''remove''), (''path'', ''/metadata/annotations/'' @ k)]) \<or>
      (\<exists>op k v t. (\<exists>n ns. patch_target req = PatchNode n \<or> patch_target req = PatchDeployment ns n) \<and>
         op \<in> {''add'', ''replace''} \<and> safe_text k \<and> CHR '','' \<notin> set v \<and>
         json_patch (patch_data req) =
           Some [(''op'', op), (''path'', ''/metadata/annotations/'' @ k), (''value'', stamped loc v t)]))"

section \<open>The texts that are written\<close>

text \<open>The characters of numbers, ranges and dates need no escaping.\<close>

definition number_char :: "char \<Rightarrow> bool" where
  "number_char c \<longleftrightarrow> is_digit c \<or> c \<in> set ''-+.:|,TZNaInf''"

lemma number_char_safe: "number_char c \<Longrightarrow> unescaped c \<and> c \<noteq> CHR ''/'' \<and> c \<noteq> CHR ''~''"
proof (cases "is_digit c")
  case True
  then have "48 \<le> (of_char c :: int)" by (auto simp: digit_val_def Let_def split: if_splits)
  moreover have "int (of_char c) = of_char c" by (rule of_nat_of_char)
  ultimately have "32 \<le> (of_char c :: nat)" by linarith
  then show ?thesis using True by (metis digit_val_punctuation(7,11) digit_val_escapes(1,2) unescaped_def)
qed (auto simp: number_char_def unescaped_def)

lemma number_text_safe: "\<forall>c \<in> set s. number_char c \<Longrightarrow> safe_text s"
  using number_char_safe by (simp add: safe_text_def)

lemma format_time_safe: "safe_text (format_time loc t)"
  by (rule number_text_safe) (auto simp: number_char_def dest!: format_time_charset)

lemma stamped_safe: "safe_text v \<Longrightarrow> safe_text (stamped loc v t)"
  using format_time_safe [of loc t] number_text_safe [of "'',''"] by (simp add: stamped_def number_char_def del: append_Cons append.simps)

lemma itoa_safe: "safe_text (itoa i)"
  by (rule number_text_safe) (auto simp: number_char_def dest!: itoa_chars)

lemma format_float5_number:
  assumes "is_float64 x" shows "\<forall>c \<in> set (format_float5 x). number_char c"
proof (cases x)
  case (Fin s q)
  then have "0 \<le> round_even (q * 100000)" using assms round_even_ge [of 0 "q * 100000"] by simp
  then show ?thesis using Fin by (auto simp: number_char_def dest: show_fixed5_chars)
qed (auto simp: number_char_def)

lemma render_range_safe:
  assumes "\<forall>x \<in> set xs. is_float64 x" shows "safe_text (render_range xs)"
proof (rule number_text_safe, rule ballI)
  fix c assume "c \<in> set (render_range xs)"
  then have "c = CHR ''|'' \<or> (\<exists>x \<in> set xs. c \<in> set (format_float5 x))"
    by (auto simp: render_range_def dest!: go_join_chars)
  then show "number_char c"
  proof (elim disjE bexE)
    assume "c = CHR ''|''"
    then show ?thesis by (simp add: number_char_def)
  qed (use format_float5_number assms in blast)
qed

text \<open>What a query for a metric answers: a range for a metric of a range, else a number, or nothing when there are no
  samples.\<close>

definition measured :: "string \<Rightarrow> string \<Rightarrow> bool" where
  "measured m v \<longleftrightarrow>
     (if has_prefix m PrefixRange then range_text v
      else v = '''' \<or> (\<exists>x. is_float64 x \<and> f_zero \<le> x \<and> v = format_float5 x))"

lemma prom_queries_measured:
  assumes "api_floats api"
  shows "\<not> has_prefix m PrefixRange \<Longrightarrow> prom_query api sys q = Inr v \<Longrightarrow> measured m v \<and> safe_text v \<and> CHR '','' \<notin> set v"
    "has_prefix m PrefixRange \<Longrightarrow> prom_queryRange api sys q = Inr v \<Longrightarrow> measured m v \<and> safe_text v \<and> CHR '','' \<notin> set v"
proof -
  assume instant: "\<not> has_prefix m PrefixRange" "prom_query api sys q = Inr v"
  then show "measured m v \<and> safe_text v \<and> CHR '','' \<notin> set v"
  proof (cases "v = ''''")
    case False
    then obtain x where x: "is_float64 x" "f_zero \<le> x" "v = format_float5 x"
      using prom_query_formatted [OF assms instant(2)] by blast
    then show ?thesis
      using instant(1) number_text_safe [OF format_float5_number] format_float5_no_sep by (auto simp: measured_def)
  qed (simp add: measured_def)
next
  assume range: "has_prefix m PrefixRange" "prom_queryRange api sys q = Inr v"
  then obtain ss where ss: "api_QueryRange api q (yesterday_range sys) = Inr (Matrix ss, [])"
    "v = (case ss of [] \<Rightarrow> '''' | vs # _ \<Rightarrow> render_range (map clean_range_sample vs))"
    by (auto simp: prom_queryRange_def Let_def split: sum.splits prod.splits if_splits prom_value.splits)
  have "safe_text v"
  proof (cases ss)
    case (Cons vs rest)
    have "list_all is_float64 vs" using assms ss(1) Cons unfolding api_floats_def by fastforce
    then have "\<forall>x \<in> set (map clean_range_sample vs). is_float64 x"
      using clean_range_sample_props by (auto simp: list_all_iff)
    then show ?thesis using ss(2) Cons render_range_safe by auto
  qed (simp add: ss(2))
  then show "measured m v \<and> safe_text v \<and> CHR '','' \<notin> set v"
    using range(1) prom_queryRange_Inr [OF assms range(2)] by (simp add: measured_def range_text_def)
qed

lemma queries_measured:
  assumes "api_floats api"
  shows "\<not> has_prefix m PrefixRange \<Longrightarrow> QueryByNodeIP api sys n x = Inr v \<or> QueryByNodeName api sys n x = Inr v \<or>
      QueryByDeployment api sys n x = Inr v \<Longrightarrow> measured m v \<and> safe_text v \<and> CHR '','' \<notin> set v"
    "has_prefix m PrefixRange \<Longrightarrow> QueryRangeByNodeIP api sys n x = Inr v \<or> QueryRangeByNodeName api sys n x = Inr v \<or>
      QueryRangeByDeployment api sys n x = Inr v \<Longrightarrow> measured m v \<and> safe_text v \<and> CHR '','' \<notin> set v"
  using prom_queries_measured [OF assms]
  by (auto simp: QueryByNodeIP_def QueryByNodeName_def QueryByDeployment_def QueryRangeByNodeIP_def
      QueryRangeByNodeName_def QueryRangeByDeployment_def dest!: first_of_Inr)

section \<open>What the handlers send\<close>

text \<open>A request that a handler sends: of names and values that are safe, the value satisfying \<open>ok\<close>.\<close>

definition sent_request :: "location \<Rightarrow> (string \<Rightarrow> string \<Rightarrow> instant \<Rightarrow> bool) \<Rightarrow> patch_request \<Rightarrow> bool" where
  "sent_request loc ok req \<longleftrightarrow>
     patch_kind req = JSONPatchType \<and>
     ((\<exists>n k. patch_target req = PatchNode n \<and> safe_text k \<and> has_prefix k DeltaPrefixName \<and>
         patch_data req = patch_without_value ''remove'' k) \<or>
      (\<exists>op k v t. (\<exists>n ns. patch_target req = PatchNode n \<or> patch_target req = PatchDeployment ns n) \<and>
         op \<in> {''add'', ''replace''} \<and> safe_text k \<and> safe_text v \<and> CHR '','' \<notin> set v \<and> ok k v t \<and>
         patch_data req = patch_with_value op k (stamped loc v t)))"

lemma sent_well_formed:
  assumes "sent_request loc ok req" shows "well_formed_request loc req"
proof -
  have op: "\<forall>c \<in> set op. unescaped c" if "op \<in> {''add'', ''replace'', ''remove''}" for op
    using that by (auto simp: unescaped_def)
  have "json_patch (patch_without_value ''remove'' k) = Some [(''op'', ''remove''), (''path'', ''/metadata/annotations/'' @ k)]"
    if "safe_text k" for k
    using json_patch_without_value [OF op safe_unescaped [OF that]] by simp
  moreover have "json_patch (patch_with_value op k (stamped loc v t)) =
      Some [(''op'', op), (''path'', ''/metadata/annotations/'' @ k), (''value'', stamped loc v t)]"
    if "op \<in> {''add'', ''replace''}" "safe_text k" "safe_text v" for op k v t
    using json_patch_with_value [OF op safe_unescaped [OF that(2)] safe_unescaped [OF stamped_safe [OF that(3)]]] that(1) by blast
  ultimately show ?thesis
    using assms unfolding sent_request_def well_formed_request_def by metis
qed

text \<open>A handler that, when it returns, has sent only such requests.\<close>

definition sends :: "location \<Rightarrow> (string \<Rightarrow> string \<Rightarrow> instant \<Rightarrow> bool) \<Rightarrow> 'a handled \<Rightarrow> bool" where
  "sends loc ok m \<longleftrightarrow> (\<forall>reqs r. m = Ok (reqs, r) \<longrightarrow> (\<forall>req \<in> set reqs. sent_request loc ok req))"

lemma sends_Ok [simp]: "sends loc ok (Ok (reqs, r)) \<longleftrightarrow> (\<forall>req \<in> set reqs. sent_request loc ok req)"
  by (simp add: sends_def)

lemma sends_Panic [simp]: "sends loc ok (Panic p)"
  by (simp add: sends_def)

lemma sends_bind:
  assumes "sends loc ok m"
    and "\<And>reqs r. m = Ok (reqs, r) \<Longrightarrow> \<forall>req \<in> set reqs. sent_request loc ok req \<Longrightarrow> sends loc ok (f (reqs, r))"
  shows "sends loc ok (obind m f)"
  using assms by (cases m) (auto simp: sends_def)

lemma sends_bind_value: "(\<And>x. m = Ok x \<Longrightarrow> sends loc ok (f x)) \<Longrightarrow> sends loc ok (obind m f)"
  by (cases m) auto

lemma sent_value:
  assumes "safe_text k" "safe_text v" "CHR '','' \<notin> set v" "ok k v t" "\<exists>n ns. target = PatchNode n \<or> target = PatchDeployment ns n"
  shows "sent_request loc ok \<lparr>patch_target = target, patch_kind = JSONPatchType,
    patch_data = patch_with_value (patch_operator anno k) k (stamped loc v t)\<rparr>"
proof -
  have "patch_operator anno k \<in> {''add'', ''replace''}" by (simp add: patch_operator_def)
  then show ?thesis unfolding sent_request_def using assms by fastforce
qed

lemma PatchNodeAnnotation_sends:
  "\<lbrakk>GetLocation sys = Some loc; safe_text k; safe_text v; CHR '','' \<notin> set v; ok k v (sys_now sys)\<rbrakk> \<Longrightarrow>
    sends loc ok (PatchNodeAnnotation sys client node k v)"
  by (simp add: PatchNodeAnnotation_request send_patch_def sent_value)

lemma patchDeploymentAnnotation_sends:
  "\<lbrakk>GetLocation sys = Some loc; safe_text k; safe_text v; CHR '','' \<notin> set v; ok k v (sys_now sys)\<rbrakk> \<Longrightarrow>
    sends loc ok (patchDeploymentAnnotation sys client d k v)"
  using sent_value [of k v ok "sys_now sys" "PatchDeployment (deploy_Namespace d) (deploy_Name d)" loc "deploy_Annotations d"]
  by (simp add: patchDeploymentAnnotation_def GetLocalTime_def Let_def stamped_def)

text \<open>What a merged delta is made of.\<close>

definition usage_part :: "string \<Rightarrow> string" where
  "usage_part s = go_split CHR '','' s ! 0"

lemma go_split_subset: "p \<in> set (go_split c s) \<Longrightarrow> set p \<subseteq> set s"
  by (induction s arbitrary: p rule: go_split.induct) (fastforce split: list.splits if_splits)+

lemma usage_part_safe: "safe_text s \<Longrightarrow> safe_text (usage_part s)"
  using go_split_subset [of "usage_part s" "CHR '',''" s] by (auto simp: safe_text_def usage_part_def)

lemma MergeUsageRange_safe:
  assumes "MergeUsageRange s t mt = Inr v" "safe_text t" shows "safe_text v"
proof (cases "s = '''' \<and> mt = MergeTypeAdd")
  case False
  then obtain us ds where us: "ParseRangeMetricsByString t = Inr us" "merge_base s us = Inr ds"
    using assms(1) by (auto simp: MergeUsageRange_def split: sum.splits if_splits)
  have f: "is_float64 x" if "x \<in> set us \<union> set ds" for x
    using that ParseRange_floats [OF us(1)] merge_base_floats [OF us(2)] by auto
  have "\<forall>x \<in> set (map2 (+) ds us) \<union> set (map2 (-) ds us). is_float64 x"
    by (auto simp: set_zip intro!: is_float64_add is_float64_sub) (use f nth_mem in blast)+
  then have "safe_text (render_range (map2 (+) ds us))" "safe_text (render_range (map2 (-) ds us))"
    using render_range_safe by auto
  then show ?thesis using assms(1) us False by (auto simp: MergeUsageRange_def split: if_splits)
qed (use assms in \<open>simp add: MergeUsageRange_def\<close>)

lemma delta_update_parts:
  assumes "delta_update sys pod deploy node p = Ok (Some v)"
  obtains u dl where "u = '''' \<or> (\<exists>s. anno_get (deploy_Annotations deploy) (sync_Name p) = Some s \<and> u = usage_part s)"
    "MergeUsageRange dl u (merge_type_of pod) = Inr v"
proof -
  have "sync_Period p \<noteq> 0" using assms by (auto simp: delta_update_def)
  then obtain r where r: "GetResourceUsageRange sys (deploy_Annotations deploy) (sync_Name p) (wrap64 (sync_Period p + ExtraActivePeriod)) = Ok r"
      "(case r of Inl err \<Rightarrow> Ok None | Inr u \<Rightarrow>
        (case GetDeltaUsageRange (node_Annotations node) (DeltaPrefixName @ sync_Name p) of Inl err \<Rightarrow> Ok None | Inr dl \<Rightarrow>
          (case MergeUsageRange dl u (merge_type_of pod) of Inl err \<Rightarrow> Ok None | Inr merged \<Rightarrow> Ok (Some merged)))) = Ok (Some v)"
    using assms unfolding delta_update_def by (simp only: if_False obind_eq_Ok_iff) blast
  then obtain u dl where u: "r = Inr u" "MergeUsageRange dl u (merge_type_of pod) = Inr v"
    by (cases r; cases "GetDeltaUsageRange (node_Annotations node) (DeltaPrefixName @ sync_Name p)") (auto split: sum.split_asm)
  have "u = '''' \<or> (\<exists>s. anno_get (deploy_Annotations deploy) (sync_Name p) = Some s \<and> u = usage_part s)"
  proof (cases "anno_get (deploy_Annotations deploy) (sync_Name p)")
    case None
    then show ?thesis using r(1) u(1) usage_range.read_missing [OF None] by simp
  next
    case (Some s)
    then show ?thesis
      using r(1) u(1) by (auto simp: GetResourceUsageRange_def usage_part_def Let_def go_simps split: if_splits)
  qed
  then show thesis using that u(2) by blast
qed

text \<open>What is assumed of the names around a work item: they need no escaping. They come from the policy: the metric of the
  key, the names of deltas on the nodes, and the usages that pods are charged with.\<close>

definition safe_policy :: "DynamicSchedulerPolicy \<Rightarrow> bool" where
  "safe_policy policy \<longleftrightarrow> (\<forall>p \<in> set (spec_SyncAppPeriod (policy_Spec policy)). safe_text (sync_Name p))"

definition safe_names :: "work_env \<Rightarrow> string \<Rightarrow> bool" where
  "safe_names env key \<longleftrightarrow>
     (\<forall>n m. splitMetaKeyWithMetricName key = Inr (n, m) \<longrightarrow> safe_text m) \<and>
     (\<forall>n node k. get_node (env_listers env) n = Inr node \<longrightarrow> k \<in> set (map fst (anno_entries (node_Annotations node))) \<longrightarrow>
        has_prefix k DeltaPrefixName \<longrightarrow> safe_text k)"

text \<open>All usages of the policy that can be read from the annotations of deployments satisfy \<open>P\<close>.\<close>

definition deployment_usages :: "(string \<Rightarrow> bool) \<Rightarrow> DynamicSchedulerPolicy \<Rightarrow> work_env \<Rightarrow> bool" where
  "deployment_usages P policy env \<longleftrightarrow>
     (\<forall>ns n d p s. get_deployment (env_listers env) ns n = Inr d \<longrightarrow> p \<in> set (spec_SyncAppPeriod (policy_Spec policy)) \<longrightarrow>
        anno_get (deploy_Annotations d) (sync_Name p) = Some s \<longrightarrow> P (usage_part s))"

lemma delta_sends:
  assumes "\<And>node k. \<lbrakk>get_node ls key = Inr node; k \<in> set (map fst (anno_entries (node_Annotations node)));
      has_prefix k DeltaPrefixName\<rbrakk> \<Longrightarrow> safe_text k"
  shows "\<forall>req \<in> set (fst (delta_processNextWorkItem client ls key)). sent_request loc ok req"
proof -
  have deletes: "\<forall>req \<in> set (fst (delete_deltas client node ks)). sent_request loc ok req"
    if "\<And>k. k \<in> set ks \<Longrightarrow> has_prefix k DeltaPrefixName \<Longrightarrow> safe_text k" for node ks
    using that
    by (induction ks)
       (auto simp: DeleteNodeAnnotation_def send_patch_def sent_request_def split: prod.splits option.splits)
  show ?thesis
  proof (cases "get_node ls key")
    case (Inr node)
    have "\<forall>req \<in> set (fst (delete_deltas client node (map fst (anno_entries (node_Annotations node))))). sent_request loc ok req"
      by (rule deletes) (rule assms [OF Inr])
    then show ?thesis
      using Inr by (simp add: delta_processNextWorkItem_def delta_syncNode_def case_prod_beta)
  qed (simp add: delta_processNextWorkItem_def delta_syncNode_def)
qed

text \<open>The contract of the values: from what the annotator reads to what holds of all it writes. \<open>good\<close> is assumed of
  the clock, \<open>usable\<close> of the usages in the annotations of deployments.\<close>

locale written_values =
  fixes good :: "instant \<Rightarrow> bool" and usable :: "string \<Rightarrow> bool" and ok :: "string \<Rightarrow> string \<Rightarrow> instant \<Rightarrow> bool"
  assumes ok_measured: "measured m v \<Longrightarrow> good t \<Longrightarrow> ok m v t"
    and ok_hot: "good t \<Longrightarrow> ok HotValueKey (itoa h) t"
    and usable_Nil: "usable ''''"
    and ok_merged: "usable u \<Longrightarrow> MergeUsageRange dl u mt = Inr v \<Longrightarrow> good t \<Longrightarrow> ok (DeltaPrefixName @ n) v t"
begin

lemma answers_ok:
  assumes "api_floats api" "good (sys_now sys)"
  shows "QueryByNodeIP api sys' n x = Inr v \<Longrightarrow> \<not> has_prefix m PrefixRange \<Longrightarrow> safe_text v \<and> CHR '','' \<notin> set v \<and> ok m v (sys_now sys)"
    "QueryByNodeName api sys' n x = Inr v \<Longrightarrow> \<not> has_prefix m PrefixRange \<Longrightarrow> safe_text v \<and> CHR '','' \<notin> set v \<and> ok m v (sys_now sys)"
    "QueryByDeployment api sys' n x = Inr v \<Longrightarrow> \<not> has_prefix m PrefixRange \<Longrightarrow> safe_text v \<and> CHR '','' \<notin> set v \<and> ok m v (sys_now sys)"
    "QueryRangeByNodeIP api sys' n x = Inr v \<Longrightarrow> has_prefix m PrefixRange \<Longrightarrow> safe_text v \<and> CHR '','' \<notin> set v \<and> ok m v (sys_now sys)"
    "QueryRangeByNodeName api sys' n x = Inr v \<Longrightarrow> has_prefix m PrefixRange \<Longrightarrow> safe_text v \<and> CHR '','' \<notin> set v \<and> ok m v (sys_now sys)"
    "QueryRangeByDeployment api sys' n x = Inr v \<Longrightarrow> has_prefix m PrefixRange \<Longrightarrow> safe_text v \<and> CHR '','' \<notin> set v \<and> ok m v (sys_now sys)"
  using queries_measured [OF assms(1)] ok_measured [OF _ assms(2)] by blast+

lemma annotateNodeLoad_sends:
  assumes "GetLocation sys = Some loc" "good (sys_now sys)" "api_floats api" "safe_text key"
  shows "sends loc ok (annotateNodeLoad api sys client node key)"
  unfolding annotateNodeLoad_def Let_def
  by (auto split: sum.split intro!: PatchNodeAnnotation_sends [OF assms(1,4)] dest: answers_ok [OF assms(3,2)])

lemma annotateNodeHotValue_sends:
  assumes "GetLocation sys = Some loc" "good (sys_now sys)"
  shows "sends loc ok (annotateNodeHotValue cvt sys client br node policy)"
proof -
  have "safe_text HotValueKey" by (simp add: safe_text_def unescaped_def)
  then show ?thesis
    unfolding annotateNodeHotValue_def
    by (intro sends_bind_value PatchNodeAnnotation_sends [OF assms(1)] itoa_safe itoa_plain ok_hot assms(2))
qed

lemma node_sends:
  assumes "GetLocation sys = Some loc" "good (sys_now sys)" "api_floats api"
    and "\<And>n m. splitMetaKeyWithMetricName key = Inr (n, m) \<Longrightarrow> safe_text m"
  shows "sends loc ok (node_processNextWorkItem cvt api sys client ls c key)"
  unfolding node_processNextWorkItem_def syncNode_def
  by (intro sends_bind)
     (auto split: sum.split option.split intro!: sends_bind annotateNodeLoad_sends [OF assms(1-3)]
        annotateNodeHotValue_sends [OF assms(1,2)] dest: assms(4))

lemma annotate_deployments_sends:
  assumes "GetLocation sys = Some loc" "good (sys_now sys)" "api_floats api" "safe_text metric"
  shows "sends loc ok (annotate_deployments api sys client metric ds)"
proof (induction ds)
  case (Cons d ds)
  have "sends loc ok (annotateDeploymentLoad api sys client d metric)"
    unfolding annotateDeploymentLoad_def
    by (auto split: sum.split option.split if_split intro!: patchDeploymentAnnotation_sends [OF assms(1,4)]
        dest: answers_ok [OF assms(3,2)])
  then show ?case
    using Cons by (auto split: option.split intro!: sends_bind)
qed simp

lemma deployment_sends:
  assumes "GetLocation sys = Some loc" "good (sys_now sys)" "api_floats api"
    and "\<And>n m. splitMetaKeyWithMetricName key = Inr (n, m) \<Longrightarrow> safe_text m"
  shows "sends loc ok (deployment_processNextWorkItem api sys client ls key)"
  unfolding deployment_processNextWorkItem_def syncDeployment_def
  by (intro sends_bind)
    (auto split: sum.split intro!: annotate_deployments_sends [OF assms(1-3)] dest: assms(4))

lemma update_deltas_sends:
  assumes "GetLocation sys = Some loc" "good (sys_now sys)"
    and "\<And>p. p \<in> set ps \<Longrightarrow> safe_text (sync_Name p)"
    and "\<And>p s. \<lbrakk>p \<in> set ps; anno_get (deploy_Annotations deploy) (sync_Name p) = Some s\<rbrakk> \<Longrightarrow>
      safe_text (usage_part s) \<and> usable (usage_part s)"
  shows "sends loc ok (update_deltas sys client pod deploy node ps)"
  using assms(3,4)
proof (induction ps)
  case (Cons p ps)
  have IH: "sends loc ok (update_deltas sys client pod deploy node ps)"
    by (rule Cons.IH) (use Cons.prems in auto)
  have "safe_text DeltaPrefixName" by (simp add: safe_text_def unescaped_def)
  then have key: "safe_text (DeltaPrefixName @ sync_Name p)"
    using Cons.prems(1) [of p] by (simp only: safe_text_append) simp
  show ?case
    unfolding update_deltas.simps
  proof (intro sends_bind_value)
    fix u assume u: "delta_update sys pod deploy node p = Ok u"
    show "sends loc ok (case u of None \<Rightarrow> update_deltas sys client pod deploy node ps
      | Some merged \<Rightarrow> obind (PatchNodeAnnotation sys client node (DeltaPrefixName @ sync_Name p) merged)
          (\<lambda>(reqs, err). case err of Some e \<Rightarrow> Ok (reqs, Some e)
            | None \<Rightarrow> obind (update_deltas sys client pod deploy node ps) (\<lambda>(reqs', r). Ok (reqs @ reqs', r))))"
    proof (cases u)
      case (Some v)
      obtain w dl where w: "w = '''' \<or> (\<exists>s. anno_get (deploy_Annotations deploy) (sync_Name p) = Some s \<and> w = usage_part s)"
          "MergeUsageRange dl w (merge_type_of pod) = Inr v"
        using delta_update_parts [OF u [unfolded Some]] by blast
      have "safe_text w" "usable w" using w(1) Cons.prems(2) [of p] usable_Nil by auto
      then have v: "safe_text v" "CHR '','' \<notin> set v" "ok (DeltaPrefixName @ sync_Name p) v (sys_now sys)"
        using MergeUsageRange_safe w(2) delta_update_no_comma [OF u [unfolded Some]] ok_merged [OF _ w(2) assms(2)] by auto
      show ?thesis
        unfolding Some option.case
        by (rule sends_bind [OF PatchNodeAnnotation_sends [where ok = ok, OF assms(1) key v]])
           (auto split: option.split intro!: sends_bind [OF IH])
    qed (simp add: IH)
  qed
qed simp

lemma pod_sends:
  assumes "GetLocation (env_sys env) = Some loc" "good (sys_now (env_sys env))" "safe_policy (c_policy c)"
    and "deployment_usages (\<lambda>u. safe_text u \<and> usable u) (c_policy c) env"
  shows "sends loc ok (pod_reconcile split_key (env_sys env) client (env_listers env) c key)"
proof -
  have "sends loc ok (update_deltas (env_sys env) client pod deploy node (spec_SyncAppPeriod (policy_Spec (c_policy c))))"
    if found: "GetDeploymentByPod (get_replicaset (env_listers env)) (get_deployment (env_listers env)) pod = Inr deploy"
    for pod deploy node
  proof -
    obtain ns n where d: "get_deployment (env_listers env) ns n = Inr deploy"
      using GetDeploymentByPod_Inr [OF found] by blast
    show ?thesis
      by (rule update_deltas_sends [OF assms(1,2)])
        (use assms(3,4) d in \<open>auto simp: safe_policy_def deployment_usages_def\<close>)
  qed
  then show ?thesis
    by (auto simp: pod_reconcile_def split: sum.split)
qed

lemma event_sends:
  assumes "GetLocation sys = Some loc" "good (sys_now sys)"
    and "event_reconcile cvt split_key scan_error sys client ls c key = Ok (reqs, c', err)"
  shows "\<forall>req \<in> set reqs. sent_request loc ok req"
proof -
  have hot: "\<forall>req \<in> set reqs. sent_request loc ok req"
    if "annotateNodeHotValue cvt sys client br node (c_policy c) = Ok (reqs, r)" for br node reqs r
    using annotateNodeHotValue_sends [OF assms(1,2), of cvt client br node "c_policy c"] that by simp
  obtain ns name where key: "split_key key = Inr (ns, name) \<or> reqs = []"
    using assms(3) by (cases "split_key key") (auto simp: event_reconcile_def)
  show ?thesis
  proof (cases "reqs = []")
    case False
    then obtain ev b where ev: "get_event ls ns name = Inr ev" "translateEventToBinding split_key scan_error ev = Inr b"
      using assms(3) key by (auto simp: event_reconcile_def split: sum.splits)
    obtain br where br: "AddBinding (c_bindingRecords c) b = Ok br"
      using assms(3) key ev False
      by (cases "AddBinding (c_bindingRecords c) b") (auto simp: event_reconcile_def)
    show ?thesis
      using assms(3) key ev br False hot [of br]
      by (cases "get_node ls (bind_Node b)"; cases "annotateNodeHotValue cvt sys client br (projr (get_node ls (bind_Node b))) (c_policy c)")
        (auto simp: event_reconcile_def Let_def)
  qed simp
qed

text \<open>Every work item sends such requests only.\<close>

lemma annotator_work_sends:
  assumes env: "good_env loc env" "good (sys_now (env_sys env))"
    and safe: "safe_policy (c_policy c)" "safe_names env (fst got)"
    and usages: "deployment_usages (\<lambda>u. safe_text u \<and> usable u) (c_policy c) env"
    and work: "annotator_work par act env c got = Ok (reqs, c', calls, go_on)"
  shows "\<forall>req \<in> set reqs. sent_request loc ok req"
proof -
  obtain key quit where got: "got = (key, quit)" by force
  have loc: "GetLocation (env_sys env) = Some loc" and floats: "api_floats (env_api env)"
    using env by (auto simp: good_env_def)
  have metric: "safe_text m" if "splitMetaKeyWithMetricName key = Inr (n, m)" for n m
    using safe(2) that by (auto simp: safe_names_def got)
  have sends: "sends loc ok (node_processNextWorkItem (par_cvt par) (env_api env) (env_sys env) (env_client env)
      (env_listers env) c key)"
    "sends loc ok (deployment_processNextWorkItem (env_api env) (env_sys env) (env_client env) (env_listers env) key)"
    by (rule node_sends [OF loc env(2) floats], erule metric, rule deployment_sends [OF loc env(2) floats], erule metric)
  show ?thesis
  proof (cases "quit \<and> act \<noteq> Collect")
    case True
    then show ?thesis
      using work annotator_work_quits [of act par env c key] by (auto simp: got)
  next
    case False
    show ?thesis
    proof (cases act)
      case NodeWork
      then show ?thesis using work False sends(1) by (auto simp: got node_work_def sends_def obind_eq_Ok_iff)
    next
      case DeltaWork
      have "safe_text k" if "get_node (env_listers env) key = Inr node"
          "k \<in> set (map fst (anno_entries (node_Annotations node)))" "has_prefix k DeltaPrefixName" for node k
        using safe(2) that unfolding safe_names_def by blast
      from delta_sends [of "env_listers env" key "env_client env" loc ok, OF this] show ?thesis
        using work False DeltaWork by (auto simp: got delta_work_def case_prod_beta)
    next
      case DeploymentWork
      then show ?thesis using work False sends(2) by (auto simp: got deployment_work_def sends_def obind_eq_Ok_iff)
    next
      case EventWork
      then show ?thesis
        using work False event_sends [OF loc env(2), of "par_cvt par" "par_split_key par" "par_scan_error par"
            "env_client env" "env_listers env" c key reqs c']
        by (auto simp: got event_processNextWorkItem_def obind_eq_Ok_iff)
    next
      case PodWork
      from pod_sends [OF loc env(2) safe(1) usages, of "par_split_key par" "env_client env" key] show ?thesis
        using work False PodWork by (auto simp: got pod_processNextWorkItem_def sends_def obind_eq_Ok_iff)
    next
      case Collect
      then show ?thesis
        using work by (cases "Controller_gc_tick (par_cvt par) (env_sys env) c")
          (auto simp: Controller_gc_tick_def omap_eq_Ok_iff)
    qed
  qed
qed

end

lemma event_reconcile_policy:
  assumes "event_reconcile cvt split_key scan_error sys client ls c key = Ok (reqs, c', err)"
  shows "c_policy c' = c_policy c"
proof (cases "c' = c")
  case False
  then obtain ns name ev b where "split_key key = Inr (ns, name)" "get_event ls ns name = Inr ev"
      "translateEventToBinding split_key scan_error ev = Inr b"
    using assms by (auto simp: event_reconcile_def split: sum.split_asm prod.split_asm)
  then show ?thesis
    using assms by (cases "get_node ls (bind_Node b)") (auto simp: event_reconcile_def Let_def obind_eq_Ok_iff split: prod.splits)
qed simp

lemma annotator_work_policy:
  "annotator_work par act env c got = Ok (reqs, c', calls, go_on) \<Longrightarrow> c_policy c' = c_policy c"
  by (cases act)
    (auto simp: node_work_def delta_work_def deployment_work_def event_processNextWorkItem_def pod_processNextWorkItem_def
      Controller_gc_tick_def obind_eq_Ok_iff omap_eq_Ok_iff dest: event_reconcile_policy split: prod.splits if_splits)

text \<open>For the form of the patches nothing has to be known of the values.\<close>

interpretation any_value: written_values "\<lambda>t. True" "\<lambda>u. True" "\<lambda>k v t. True"
  by unfold_locales simp_all

text \<open>Names and usages that need no escaping.\<close>

definition safe_work :: "DynamicSchedulerPolicy \<Rightarrow> work_env \<Rightarrow> string \<Rightarrow> bool" where
  "safe_work policy env key \<longleftrightarrow> safe_policy policy \<and> safe_names env key \<and> deployment_usages safe_text policy env"

lemma safe_work_well_formed:
  assumes "good_env loc env" "safe_work (c_policy c) env (fst got)"
    and "annotator_work par act env c got = Ok (reqs, c', calls, go_on)"
  shows "\<forall>req \<in> set reqs. well_formed_request loc req"
proof -
  have "deployment_usages (\<lambda>u. safe_text u \<and> True) (c_policy c) env" using assms(2) by (simp add: safe_work_def)
  from any_value.annotator_work_sends [OF assms(1) TrueI _ _ this assms(3)] show ?thesis
    using assms(2) sent_well_formed unfolding safe_work_def by blast
qed

lemma worker_loop_well_formed:
  assumes "controller_ok c0 c" "\<forall>(env, got) \<in> set gots. good_env loc env \<and> safe_work (c_policy c0) env (fst got)"
    and "\<And>hv. hv \<in> set (spec_HotValue (policy_Spec (c_policy c0))) \<Longrightarrow> hot_Count hv \<noteq> 0"
    and "worker_loop (annotator_work par act) c gots = Ok (reqs, c')"
  shows "\<forall>req \<in> set reqs. well_formed_request loc req"
  using assms(1,2,4)
proof (induction gots arbitrary: c reqs)
  case (Cons g gots)
  obtain env got where g: "g = (env, got)" by (rule prod.exhaust)
  then have env: "good_env loc env" "safe_work (c_policy c) env (fst got)"
    using Cons.prems(1,2) by (auto simp: controller_ok_def)
  obtain rs1 c1 calls go_on where s: "annotator_work par act env c got = Ok (rs1, c1, calls, go_on)" "controller_ok c0 c1"
    using annotator_work_safe [OF env(1) Cons.prems(1) assms(3), of par act got] by auto
  have first: "\<forall>req \<in> set rs1. well_formed_request loc req" by (rule safe_work_well_formed [OF env s(1)])
  show ?case
  proof (cases go_on)
    case True
    then obtain rs2 where "worker_loop (annotator_work par act) c1 gots = Ok (rs2, c')" "reqs = rs1 @ rs2"
      using Cons.prems(3) s(1) by (auto simp: g obind_eq_Ok_iff)
    then show ?thesis using Cons.IH [OF s(2)] Cons.prems(2) first by auto
  qed (use Cons.prems(3) s(1) first in \<open>auto simp: g\<close>)
qed simp

section \<open>Property\<close>

text \<open>C1. The annotator runs safely under every interleaving: start a controller with a positive heap size and a policy
  without zero counts, and let its workers and its collector take turns in any order, on any keys, with informer
  caches as stale as they like and a client that may reject anything. Then the log of bindings never exceeds its
  capacity; every patch that was sent removes a delta or writes a stamped value without a comma; no step panics, and
  no worker loop panics wherever it is started; and whenever the names (the metric of the key, the deltas on the nodes,
  the usages in the policy) and the usages of the deployments that a step reads need no escaping, every patch the
  step sends is well-formed JSON: it reads as the removal, or the addition or replacement, of one annotation with a stamped
  value. Nothing of the sort is claimed for names and usages with a quote: they are pasted in as they are
  (\<open>quote_breaks_patch\<close>).\<close>

theorem annotator_runs_safely:
  assumes "annotator_reach par loc (NewNodeAnnotator policy sz) c sent" "0 < sz"
    and "\<forall>hv \<in> set (spec_HotValue (policy_Spec policy)). hot_Count hv \<noteq> 0"
    and "good_env loc env" "\<forall>(env', got') \<in> set gots. good_env loc env'"
  shows "int (length (br_bindings (c_bindingRecords c))) \<le> sz \<and>
    (\<forall>req \<in> set sent. stamped_request loc req) \<and>
    (\<exists>reqs c' calls go_on. annotator_work par act env c got = Ok (reqs, c', calls, go_on) \<and>
      (safe_work policy env (fst got) \<longrightarrow> (\<forall>req \<in> set reqs. well_formed_request loc req))) \<and>
    (\<exists>reqs c'. worker_loop (annotator_work par act) c gots = Ok (reqs, c') \<and>
      ((\<forall>(env', got') \<in> set gots. safe_work policy env' (fst got')) \<longrightarrow> (\<forall>req \<in> set reqs. well_formed_request loc req)))"
proof -
  let ?c0 = "NewNodeAnnotator policy sz"
  have counts: "hv \<in> set (spec_HotValue (policy_Spec (c_policy ?c0))) \<Longrightarrow> hot_Count hv \<noteq> 0" for hv
    using assms(3) by (simp add: NewNodeAnnotator_def)
  have policy: "c_policy ?c0 = policy" by (simp add: NewNodeAnnotator_def)
  have "br_wf (c_bindingRecords ?c0)" using NewBindingRecords_wf [OF assms(2)] by (simp add: NewNodeAnnotator_def)
  then have ok: "controller_ok ?c0 c" and sent: "\<forall>req \<in> set sent. stamped_request loc req"
    using annotator_reach_ok [OF assms(1) _ counts] by blast+
  moreover have "int (length (br_bindings (c_bindingRecords c))) \<le> sz"
    using ok by (simp add: controller_ok_def br_wf_def NewNodeAnnotator_def NewBindingRecords_def)
  moreover have "c_policy c = policy" using ok policy by (simp add: controller_ok_def)
  then have "\<exists>reqs c' calls go_on. annotator_work par act env c got = Ok (reqs, c', calls, go_on) \<and>
      (safe_work policy env (fst got) \<longrightarrow> (\<forall>req \<in> set reqs. well_formed_request loc req))"
    using annotator_work_safe [OF assms(4) ok counts, of par act got] safe_work_well_formed [OF assms(4), of c got par act] by blast
  moreover obtain reqs c' where loop: "worker_loop (annotator_work par act) c gots = Ok (reqs, c')"
    using worker_loop_safe [OF ok assms(5) counts, of par act] by auto
  have "\<forall>req \<in> set reqs. well_formed_request loc req" if "\<forall>(env', got') \<in> set gots. safe_work policy env' (fst got')"
    by (rule worker_loop_well_formed [OF ok _ counts loop]) (use that assms(5) policy in auto)
  then have "\<exists>reqs c'. worker_loop (annotator_work par act) c gots = Ok (reqs, c') \<and>
      ((\<forall>(env', got') \<in> set gots. safe_work policy env' (fst got')) \<longrightarrow> (\<forall>req \<in> set reqs. well_formed_request loc req))"
    using loop by blast
  ultimately show ?thesis by blast
qed

lemma example_safe_work: "safe_work (ds_schedulerPolicy example_scheduler) example_env ''n1/cpu''"
proof -
  have "splitMetaKeyWithMetricName ''n1/cpu'' = Inr (''n1'', ''cpu'')" by code_simp
  then show ?thesis
    by (auto simp: safe_work_def safe_policy_def safe_names_def deployment_usages_def safe_text_def unescaped_def example_env_def
        example_listers_def example_node_def example_scheduler_def example_spec_def anno_entries_def split: if_splits)
qed

text \<open>After the example step, the same key is handled again: both patches are well-formed.\<close>

theorem annotator_runs_safely_witness:
  "\<exists>reqs c'. annotator_reach example_params (fixed_location 0) (NewNodeAnnotator (ds_schedulerPolicy example_scheduler) 10) c' reqs \<and>
    length reqs = 2 \<and> int (length (br_bindings (c_bindingRecords c'))) \<le> 10 \<and>
    (\<forall>req \<in> set reqs. stamped_request (fixed_location 0) req) \<and>
    annotator_work example_params NodeWork example_env c' (''n1/cpu'', False) =
      Ok ([example_load, example_hot], c', [QForget ''n1/cpu'', QDone ''n1/cpu''], True) \<and>
    well_formed_request (fixed_location 0) example_load \<and> well_formed_request (fixed_location 0) example_hot \<and>
    (\<exists>reqs' c''. worker_loop (annotator_work example_params NodeWork) c' [(example_env, ''n1/cpu'', False)] = Ok (reqs', c'') \<and>
      (\<forall>req \<in> set reqs'. well_formed_request (fixed_location 0) req))"
proof -
  let ?c0 = "NewNodeAnnotator (ds_schedulerPolicy example_scheduler) 10"
  have r: "annotator_reach example_params (fixed_location 0) ?c0 ?c0 ([] @ [example_load, example_hot])"
    by (rule reach_work [OF reach_init example_env_good example_node_step])
  have counts: "\<forall>hv \<in> set (spec_HotValue (policy_Spec (ds_schedulerPolicy example_scheduler))). hot_Count hv \<noteq> 0"
    by (simp add: example_scheduler_def example_spec_def)
  from annotator_runs_safely [OF r _ counts example_env_good, of "[(example_env, ''n1/cpu'', False)]" NodeWork "(''n1/cpu'', False)"]
    example_safe_work example_env_good example_node_step
  show ?thesis using r by (intro exI [of _ "[example_load, example_hot]"] exI [of _ ?c0]) auto
qed

end
