(* ===== verification/Cluster_Run.thy ===== *)
theory Cluster_Run
  imports Patch_Texts
begin

text \<open>
  The annotator together with the annotations the API server keeps. A state is the controller, the
  patches on their way and the annotations of every node and deployment. The workers' steps send
  patches; each is applied, rejected or lost at any later time and in any order, so that every
  interleaving of concurrent workers is covered; the usages of deployments that a step reads come from a cache, which may
  hold any earlier state; other clients may change what the annotator does not own and may remove anything. The
  invariant: what the annotator owns is absent or a stamped value of its kind, and the theorem says what each reader
  of the plugins makes of it.
\<close>

section \<open>The values of the annotations\<close>

text \<open>The clock of a work item prints as a date that can be read back.\<close>

definition clock_ok :: "location \<Rightarrow> instant \<Rightarrow> bool" where
  "clock_ok loc t \<longleftrightarrow> stable_at loc t \<and> four_digit_year loc t"

definition readable_range :: "string \<Rightarrow> bool" where
  "readable_range v \<longleftrightarrow> v = '''' \<or> (\<exists>xs. ParseRangeMetricsByString v = Inr xs)"

text \<open>The value of an annotation by its name: a range of finite usages, a delta, or a usage, which is empty when the metric
  had no samples. The hot value may be any integer.\<close>

definition value_ok :: "string \<Rightarrow> string \<Rightarrow> bool" where
  "value_ok k v \<longleftrightarrow>
     k = HotValueKey \<or>
     (if has_prefix k PrefixRange then range_text v
      else if has_prefix k DeltaPrefixName then readable_range v
      else v = '''' \<or> (\<exists>x. is_float64 x \<and> f_zero \<le> x \<and> v = format_float5 x))"

lemma render_range_readable: "\<forall>x \<in> set xs. is_float64 x \<Longrightarrow> readable_range (render_range xs)"
  using ParseRange_render [of xs] by (cases "xs = []") (auto simp: readable_range_def render_range_def)

lemma format_float5_readable: "is_float64 x \<Longrightarrow> readable_range (format_float5 x)"
  using render_range_readable [of "[x]"] by (simp add: render_range_def)

lemma measured_value_ok: "measured m v \<Longrightarrow> value_ok m v"
  using format_float5_readable by (auto simp: measured_def value_ok_def readable_range_def split: if_splits)

lemma value_ok_readable: "value_ok k v \<Longrightarrow> k \<noteq> HotValueKey \<Longrightarrow> readable_range v"
  using format_float5_readable by (auto simp: value_ok_def range_text_def readable_range_def split: if_splits)

lemma merged_readable:
  assumes "readable_range u" "MergeUsageRange dl u mt = Inr v" shows "readable_range v"
proof (cases "dl = '''' \<and> mt = MergeTypeAdd")
  case False
  then obtain us ds where us: "ParseRangeMetricsByString u = Inr us" "merge_base dl us = Inr ds"
    using assms(2) by (auto simp: MergeUsageRange_def split: sum.splits if_splits)
  have f: "is_float64 x" if "x \<in> set us \<union> set ds" for x
    using that ParseRange_floats [OF us(1)] merge_base_floats [OF us(2)] by auto
  have "\<forall>x \<in> set (map2 (+) ds us) \<union> set (map2 (-) ds us). is_float64 x"
    by (auto simp: set_zip intro!: is_float64_add is_float64_sub) (use f nth_mem in blast)+
  then have "readable_range (render_range (map2 (+) ds us))" "readable_range (render_range (map2 (-) ds us))"
    using render_range_readable by auto
  then show ?thesis using assms(2) us False by (auto simp: MergeUsageRange_def readable_range_def split: if_splits)
qed (use assms in \<open>simp add: MergeUsageRange_def\<close>)

text \<open>All the annotator writes is of its kind, as long as the usages it reads are ranges.\<close>

abbreviation stamped_ok :: "location \<Rightarrow> string \<Rightarrow> string \<Rightarrow> instant \<Rightarrow> bool" where
  "stamped_ok loc k v t \<equiv> clock_ok loc t \<and> value_ok k v"

interpretation stamped_value: written_values "clock_ok loc" readable_range "stamped_ok loc" for loc
proof unfold_locales
  show "readable_range ''''" by (simp add: readable_range_def)
  show "stamped_ok loc (DeltaPrefixName @ n) v t" if "readable_range u" "MergeUsageRange dl u mt = Inr v" "clock_ok loc t"
    for u dl mt v t n
    using merged_readable [OF that(1,2)] that(3) by (simp add: value_ok_def has_prefix_def)
qed (simp_all add: measured_value_ok, simp add: value_ok_def)

section \<open>Interleavings with the API server\<close>

text \<open>What an API server that accepts a JSON patch does, for plain texts; it may reject any.\<close>

definition server_law :: "(annotations \<Rightarrow> string \<Rightarrow> annotations option) \<Rightarrow> bool" where
  "server_law server \<longleftrightarrow>
     (\<forall>a op k v a'. op \<in> {''add'', ''replace''} \<longrightarrow> plain_text k \<longrightarrow> plain_text v \<longrightarrow>
        server a (patch_with_value op k v) = Some a' \<longrightarrow> a' = anno_put a k v) \<and>
     (\<forall>a k a'. plain_text k \<longrightarrow> server a (patch_without_value ''remove'' k) = Some a' \<longrightarrow> a' = anno_remove a k)"

text \<open>The caches: of the deployments' usages that pods are charged with, a step sees what the server once had.\<close>

definition cached_usages :: "(patch_target \<Rightarrow> annotations) set \<Rightarrow> DynamicSchedulerPolicy \<Rightarrow> work_env \<Rightarrow> bool" where
  "cached_usages past policy env \<longleftrightarrow>
     (\<forall>ns n d p. get_deployment (env_listers env) ns n = Inr d \<longrightarrow> p \<in> set (spec_SyncAppPeriod (policy_Spec policy)) \<longrightarrow>
        (\<exists>st \<in> past. anno_get (deploy_Annotations d) (sync_Name p) = anno_get (st (PatchDeployment ns n)) (sync_Name p)))"

text \<open>The reachable states: the controller, the patches on their way, all states of the annotations so far, and the
  annotations of each object. \<open>owned\<close> are the keys other clients do not write, though they may remove them.\<close>

inductive cluster_reach ::
  "work_params \<Rightarrow> location \<Rightarrow> (annotations \<Rightarrow> string \<Rightarrow> annotations option) \<Rightarrow> (string \<Rightarrow> bool) \<Rightarrow> Controller \<Rightarrow>
   (patch_target \<Rightarrow> annotations) \<Rightarrow> Controller \<Rightarrow> patch_request list \<Rightarrow> (patch_target \<Rightarrow> annotations) set \<Rightarrow>
   (patch_target \<Rightarrow> annotations) \<Rightarrow> bool"
  for par loc server owned c0 st0 where
  cluster_init: "cluster_reach par loc server owned c0 st0 c0 [] {st0} st0"
| cluster_work: "\<lbrakk>cluster_reach par loc server owned c0 st0 c pending past st; good_env loc env;
      clock_ok loc (sys_now (env_sys env)); safe_names env (fst got); cached_usages past (c_policy c) env;
      annotator_work par act env c got = Ok (reqs, c', calls, go_on)\<rbrakk> \<Longrightarrow>
    cluster_reach par loc server owned c0 st0 c' (pending @ reqs) past st"
| cluster_apply: "\<lbrakk>cluster_reach par loc server owned c0 st0 c (before @ req # after) past st;
      server (st (patch_target req)) (patch_data req) = Some a; st' = st(patch_target req := a)\<rbrakk> \<Longrightarrow>
    cluster_reach par loc server owned c0 st0 c (before @ after) (insert st' past) st'"
| cluster_reject: "cluster_reach par loc server owned c0 st0 c (before @ req # after) past st \<Longrightarrow>
    cluster_reach par loc server owned c0 st0 c (before @ after) past st"
| cluster_others: "\<lbrakk>cluster_reach par loc server owned c0 st0 c pending past st;
      \<And>k. owned k \<Longrightarrow> anno_get a k \<in> {None, anno_get (st tgt) k}; st' = st(tgt := a)\<rbrakk> \<Longrightarrow>
    cluster_reach par loc server owned c0 st0 c pending (insert st' past) st'"

text \<open>An annotation that is absent or a stamped value of its kind.\<close>

definition clean :: "location \<Rightarrow> annotations \<Rightarrow> string \<Rightarrow> bool" where
  "clean loc a k \<longleftrightarrow>
     (\<forall>s. anno_get a k = Some s \<longrightarrow>
        (\<exists>v t. s = stamped loc v t \<and> safe_text v \<and> CHR '','' \<notin> set v \<and> clock_ok loc t \<and> value_ok k v))"

lemma clean_applied:
  assumes "server_law server" "sent_request loc (stamped_ok loc) req" "server a (patch_data req) = Some a'" "clean loc a k"
  shows "clean loc a' k"
proof -
  consider (removed) j where "safe_text j" "patch_data req = patch_without_value ''remove'' j"
    | (written) op j v t where "op \<in> {''add'', ''replace''}" "safe_text j" "safe_text v" "CHR '','' \<notin> set v" "clock_ok loc t"
        "value_ok j v" "patch_data req = patch_with_value op j (stamped loc v t)"
    using assms(2) unfolding sent_request_def by blast
  then show ?thesis
  proof cases
    case removed
    have "server a (patch_without_value ''remove'' j) = Some a'" using assms(3) removed(2) by simp
    then have "a' = anno_remove a j"
      using assms(1) [unfolded server_law_def, THEN conjunct2] safe_plain [OF removed(1)] by blast
    then show ?thesis using assms(4) by (simp add: clean_def)
  next
    case written
    have "server a (patch_with_value op j (stamped loc v t)) = Some a'" using assms(3) written(7) by simp
    note assms(1) [unfolded server_law_def, THEN conjunct1, rule_format,
        OF written(1) safe_plain [OF written(2)] stamped_plain [OF safe_plain [OF written(3)]] this]
    then show ?thesis using assms(4) written(3-6) by (auto simp: clean_def)
  qed
qed

text \<open>The usages in the caches are clean, so that the steps that read them send values of their kind.\<close>

lemma clean_usages:
  assumes "cached_usages past policy env" "\<And>st tgt k. st \<in> past \<Longrightarrow> owned k \<Longrightarrow> clean loc (st tgt) k"
    and "\<forall>p \<in> set (spec_SyncAppPeriod (policy_Spec policy)). owned (sync_Name p) \<and> sync_Name p \<noteq> HotValueKey"
  shows "deployment_usages (\<lambda>u. safe_text u \<and> readable_range u) policy env"
  unfolding deployment_usages_def
proof (intro allI impI)
  fix ns n d p s
  assume d: "get_deployment (env_listers env) ns n = Inr d" "p \<in> set (spec_SyncAppPeriod (policy_Spec policy))"
    and s: "anno_get (deploy_Annotations d) (sync_Name p) = Some s"
  obtain st where "st \<in> past" "anno_get (st (PatchDeployment ns n)) (sync_Name p) = Some s"
    using assms(1) d s unfolding cached_usages_def by metis
  then obtain v t where v: "s = stamped loc v t" "safe_text v" "CHR '','' \<notin> set v" "value_ok (sync_Name p) v"
    using assms(2) assms(3) d(2) unfolding clean_def by blast
  have "CHR '','' \<notin> set (format_time loc t)" using format_time_charset [of _ loc t] by fastforce
  then have "usage_part s = v"
    using go_split_join [of "[v, format_time loc t]" "CHR '',''"] v(1,3) by (simp add: usage_part_def stamped_def)
  then show "safe_text (usage_part s) \<and> readable_range (usage_part s)"
    using v value_ok_readable assms(3) d(2) by auto
qed

lemma cluster_invariant:
  assumes "cluster_reach par loc server owned c0 st0 c pending past st" "server_law server" "safe_policy (c_policy c0)"
    and "\<forall>p \<in> set (spec_SyncAppPeriod (policy_Spec (c_policy c0))). owned (sync_Name p) \<and> sync_Name p \<noteq> HotValueKey"
    and "\<And>tgt k. owned k \<Longrightarrow> clean loc (st0 tgt) k"
  shows "c_policy c = c_policy c0 \<and> (\<forall>req \<in> set pending. sent_request loc (stamped_ok loc) req) \<and> st \<in> past \<and>
    (\<forall>st' \<in> past. \<forall>tgt k. owned k \<longrightarrow> clean loc (st' tgt) k)"
  using assms(1)
proof induction
  case cluster_init
  show ?case using assms(5) by simp
next
  case (cluster_work c pending past st env got act reqs c' calls go_on)
  have "deployment_usages (\<lambda>u. safe_text u \<and> readable_range u) (c_policy c) env"
    by (rule clean_usages [OF cluster_work.hyps(5), of owned loc]) (use cluster_work.IH assms(4) in auto)
  from stamped_value.annotator_work_sends [OF cluster_work.hyps(2,3) _ cluster_work.hyps(4) this cluster_work.hyps(6)]
    annotator_work_policy [OF cluster_work.hyps(6)]
  show ?case using cluster_work.IH assms(3) by auto
next
  case (cluster_apply c before req after past st a st')
  have "clean loc a k" if "owned k" for k
    by (rule clean_applied [OF assms(2) _ cluster_apply.hyps(2)]) (use cluster_apply.IH that in auto)
  then show ?case using cluster_apply.IH cluster_apply.hyps(3) by auto
next
  case (cluster_reject c before req after past st)
  then show ?case by simp
next
  case (cluster_others c pending past st a tgt st')
  have "clean loc a k" if "owned k" for k
  proof -
    have "clean loc (st tgt) k" using cluster_others.IH that by blast
    then show ?thesis using cluster_others.hyps(2) [OF that] by (auto simp: clean_def)
  qed
  then show ?case using cluster_others.IH cluster_others.hyps(3) by auto
qed

section \<open>Property\<close>

text \<open>C5. What the annotator owns is absent, empty because its metric had no samples, or readable. Start a controller on any
  cluster in which the annotations it owns, the usages that pods are charged with among them, are absent or stamped
  values of their kind, let its workers take turns on any keys that need no escaping and with caches of any age, let the
  API server apply, reject or lose their patches at any time and in any order, and let other clients change whatever is
  not owned and remove what they like. Then every owned annotation that is there is a value and the time of its
  writing: the delta reader returns the value, and the usage readers use it exactly until its period has passed, an
  error that says so afterwards. The value of a range metric parses as finite usages that are not negative, that of a
  delta is empty or parses as a range, and that of any other metric parses as a usage that is not negative or is
  empty, in which case, and only then, the reader reports a number that it cannot parse. Only the hot value, which no
  plugin reads, may be another number.\<close>

theorem annotations_stay_stamped:
  assumes "cluster_reach par loc server owned c0 st0 c pending past st" "server_law server" "safe_policy (c_policy c0)"
    and "\<forall>p \<in> set (spec_SyncAppPeriod (policy_Spec (c_policy c0))). owned (sync_Name p) \<and> sync_Name p \<noteq> HotValueKey"
    and "\<And>tgt k. owned k \<Longrightarrow> clean loc (st0 tgt) k"
    and "owned key" "anno_get (st tgt) key = Some s"
  shows "\<exists>v t. s = stamped loc v t \<and> GetDeltaUsageRange (st tgt) key = Inr v \<and>
    (\<forall>sys d. GetLocation sys = Some loc \<longrightarrow>
      GetResourceUsageRange sys (st tgt) key d =
        Ok (if sys_now sys < time_unix t * second + d then Inr v else Inl (Plain (''timestamp['' @ s @ ''] is expired''))) \<and>
      GetResourceUsage sys (st tgt) key d =
        Ok (if sys_now sys < time_unix t * second + d then usage_payload s v
            else Inl (Plain (''timestamp['' @ s @ ''] is expired'')))) \<and>
    (has_prefix key PrefixRange \<longrightarrow>
      (\<exists>xs. xs \<noteq> [] \<and> ParseRangeMetricsByString v = Inr xs \<and> (\<forall>x \<in> set xs. finite64 x \<and> f_zero \<le> x))) \<and>
    (has_prefix key DeltaPrefixName \<and> key \<noteq> HotValueKey \<longrightarrow>
      v = '''' \<or> (\<exists>xs. xs \<noteq> [] \<and> ParseRangeMetricsByString v = Inr xs)) \<and>
    (\<not> has_prefix key PrefixRange \<and> \<not> has_prefix key DeltaPrefixName \<and> key \<noteq> HotValueKey \<longrightarrow>
      (if v = '''' then usage_payload s v = Inl (Plain ''failed to parse float[]'')
       else (\<exists>x. f_zero \<le> x \<and> usage_payload s v = Inr x)))"
proof -
  obtain v t where v: "s = stamped loc v t" "CHR '','' \<notin> set v" "clock_ok loc t" "value_ok key v"
    using cluster_invariant [OF assms(1-5)] assms(6,7) unfolding clean_def by blast
  have delta: "GetDeltaUsageRange (st tgt) key = Inr v"
    by (rule GetDeltaUsageRange_stamped) (use assms(7) v in simp_all)
  have reads: "GetResourceUsageRange sys (st tgt) key d =
        Ok (if sys_now sys < time_unix t * second + d then Inr v else Inl (Plain (''timestamp['' @ s @ ''] is expired''))) \<and>
      GetResourceUsage sys (st tgt) key d =
        Ok (if sys_now sys < time_unix t * second + d then usage_payload s v
            else Inl (Plain (''timestamp['' @ s @ ''] is expired'')))" if "GetLocation sys = Some loc" for sys d
    using usage.read_stamped [OF assms(7) [unfolded v(1)] v(2) that] usage_range.read_stamped [OF assms(7) [unfolded v(1)] v(2) that]
      v(1,3) by (simp add: clock_ok_def)
  have range: "\<exists>xs. xs \<noteq> [] \<and> ParseRangeMetricsByString v = Inr xs \<and> (\<forall>x \<in> set xs. finite64 x \<and> f_zero \<le> x)"
    if "has_prefix key PrefixRange"
  proof -
    have "key \<noteq> HotValueKey" using that by (auto simp: has_prefix_def)
    then show ?thesis using v(4) that ParseRange_not_Nil by (auto simp: value_ok_def range_text_def)
  qed
  have deltas: "v = '''' \<or> (\<exists>xs. xs \<noteq> [] \<and> ParseRangeMetricsByString v = Inr xs)" if "key \<noteq> HotValueKey"
    using value_ok_readable [OF v(4) that] ParseRange_not_Nil by (auto simp: readable_range_def)
  have instant: "if v = '''' then usage_payload s v = Inl (Plain ''failed to parse float[]'')
       else (\<exists>x. f_zero \<le> x \<and> usage_payload s v = Inr x)"
    if k: "\<not> has_prefix key PrefixRange" "\<not> has_prefix key DeltaPrefixName" "key \<noteq> HotValueKey"
  proof (cases "v = ''''")
    case True
    have "parse_float64 '''' = None" by code_simp
    then show ?thesis using True by (simp add: usage_payload_def)
  next
    case False
    then obtain x where x: "is_float64 x" "f_zero \<le> x" "v = format_float5 x" using v(4) k by (auto simp: value_ok_def)
    have "f_zero \<le> round5 x" by (rule round5_nonneg(1) [OF x(1,2)])
    moreover from this have "\<not> round5 x < f_zero" by (cases "round5 x") (auto simp: less_float64_def less_eq_float64_def split: if_splits)
    ultimately show ?thesis using False x parse_format_float5 [OF x(1)] by (auto simp: usage_payload_def)
  qed
  show ?thesis using v(1) delta reads range deltas instant by blast
qed

definition example_server :: "annotations \<Rightarrow> string \<Rightarrow> annotations option" where
  "example_server a data = (if a = None then None else Some (json_server a data))"

lemma example_server_law: "server_law example_server"
proof -
  have "plain_text ''add''" "plain_text ''replace''" "plain_text ''remove''"
    by (simp_all add: plain_text_def)
  then have "json_server a (patch_with_value op k v) = anno_put a k v" if "op \<in> {''add'', ''replace''}" "plain_text k" "plain_text v"
    for a op k v
    using that by (auto simp: json_server_def patch_with_value_pieces)
  moreover have "json_server a (patch_without_value ''remove'' k) = anno_remove a k" if "plain_text k" for a k
    using that \<open>plain_text ''remove''\<close> by (simp add: json_server_def patch_without_value_pieces)
  ultimately show ?thesis
    unfolding server_law_def example_server_def by (auto split: if_splits)
qed

lemma example_cluster_work:
  "safe_names example_env ''n1/cpu''" "cached_usages past policy example_env"
  using example_safe_work by (auto simp: safe_work_def cached_usages_def example_env_def example_listers_def)

text \<open>Of the two patches of the example step the second is lost and the first is applied.\<close>

theorem annotations_stay_stamped_witness:
  "\<exists>past st s. cluster_reach example_params (fixed_location 0) example_server (\<lambda>k. True) example_controller
      (\<lambda>tgt. Some []) example_controller [] past st \<and>
    anno_get (st (PatchNode ''n1'')) ''cpu'' = Some s \<and>
    (\<exists>v t. s = stamped (fixed_location 0) v t \<and> GetDeltaUsageRange (st (PatchNode ''n1'')) ''cpu'' = Inr v \<and>
      (v = '''' \<or> (\<exists>x. f_zero \<le> x \<and> usage_payload s v = Inr x)))"
proof -
  let ?reach = "cluster_reach example_params (fixed_location 0) example_server (\<lambda>k. True) example_controller (\<lambda>tgt. Some [])"
  let ?past = "{\<lambda>tgt. Some []}"
  have clock: "clock_ok (fixed_location 0) (sys_now (env_sys example_env))"
    using example_times by (simp add: clock_ok_def example_env_def example_sys_def)
  have "?reach example_controller ([] @ [example_load, example_hot]) ?past (\<lambda>tgt. Some [])"
    by (rule cluster_work [OF cluster_init example_env_good clock _ _ example_node_step]) (simp_all add: example_cluster_work)
  then have "?reach example_controller ([example_load] @ example_hot # []) ?past (\<lambda>tgt. Some [])" by simp
  then have sent: "?reach example_controller ([] @ example_load # []) ?past (\<lambda>tgt. Some [])"
    using cluster_reject by fastforce
  have op: "patch_data example_load =
      patch_with_value ''add'' ''cpu'' (stamped (fixed_location 0) ''0.25000'' (100 * second))" "patch_target example_load = PatchNode ''n1''"
    by (simp_all add: value_request_def patch_operator_def example_node_def example_sys_def)
  have plain: "plain_text ''cpu''" "plain_text ''0.25000''" by (simp_all add: plain_text_def)
  let ?s = "stamped (fixed_location 0) ''0.25000'' (100 * second)"
  let ?st = "(\<lambda>tgt. Some [])(PatchNode ''n1'' := anno_put (Some []) ''cpu'' ?s)"
  have "json_server (Some []) (patch_with_value ''add'' ''cpu'' ?s) = anno_put (Some []) ''cpu'' ?s"
    using json_server_applies plain(1) stamped_plain [OF plain(2)] unfolding applies_json_patch_def by blast
  then have "example_server (Some []) (patch_data example_load) = Some (anno_put (Some []) ''cpu'' ?s)"
    unfolding op(1) example_server_def by simp
  from cluster_apply [OF sent this refl]
  have reach: "?reach example_controller ([] @ []) (insert ?st ?past) ?st"
    unfolding op(2) .
  have policy: "safe_policy (c_policy example_controller)"
    using example_safe_work by (simp add: safe_work_def NewNodeAnnotator_def)
  have syncs: "\<forall>p \<in> set (spec_SyncAppPeriod (policy_Spec (c_policy example_controller))). True \<and> sync_Name p \<noteq> HotValueKey"
    by (simp add: NewNodeAnnotator_def example_scheduler_def example_spec_def)
  have stored: "anno_get (?st (PatchNode ''n1'')) ''cpu'' = Some ?s"
    by simp
  have clean: "\<And>tgt k. clean (fixed_location 0) (Some []) k" by (simp add: clean_def anno_get_def anno_entries_def)
  have key: "\<not> has_prefix ''cpu'' PrefixRange" "\<not> has_prefix ''cpu'' DeltaPrefixName" by code_simp+
  have "\<exists>v t. ?s = stamped (fixed_location 0) v t \<and> GetDeltaUsageRange (?st (PatchNode ''n1'')) ''cpu'' = Inr v \<and>
      (v = '''' \<or> (\<exists>x. f_zero \<le> x \<and> usage_payload ?s v = Inr x))"
  proof -
    obtain v t where v: "?s = stamped (fixed_location 0) v t" "GetDeltaUsageRange (?st (PatchNode ''n1'')) ''cpu'' = Inr v"
        and payload: "\<not> has_prefix ''cpu'' PrefixRange \<and> \<not> has_prefix ''cpu'' DeltaPrefixName \<and> ''cpu'' \<noteq> HotValueKey \<longrightarrow>
          (if v = '''' then usage_payload ?s v = Inl (Plain ''failed to parse float[]'')
           else (\<exists>x. f_zero \<le> x \<and> usage_payload ?s v = Inr x))"
      using annotations_stay_stamped [OF reach example_server_law policy syncs clean TrueI stored] by blast
    have "v = '''' \<or> (\<exists>x. f_zero \<le> x \<and> usage_payload ?s v = Inr x)"
      using payload key by (cases "v = ''''") (simp_all only: if_True if_False simp_thms, simp)
    then show ?thesis using v by blast
  qed
  then show ?thesis
    using reach stored unfolding append_Nil by blast
qed

end
