(* ===== verification/Controller_App.thy ===== *)
theory Controller_App
  imports Patch_Texts
begin

text \<open>
  \<open>cmd/controller/app\<close>: the options of the controller, the configuration built from them and the start of the annotator.
  The flag library, the Kubernetes client, the election of a leader and the health server are parameters; of \<open>Run\<close>
  the model keeps which of its ways out is taken, and the annotator it starts.
\<close>

section \<open>options.go\<close>

record AnnotatorConfiguration =
  cfg_BindingHeapSize :: int
  cfg_ConcurrentSyncs :: int
  cfg_PolicyConfigPath :: string
  cfg_PrometheusAddr :: string

record LeaderElectionConfiguration =
  le_LeaderElect :: bool
  le_LeaseDuration :: duration
  le_RenewDeadline :: duration
  le_RetryPeriod :: duration
  le_ResourceLock :: string
  le_ResourceName :: string
  le_ResourceNamespace :: string

record Options =
  o_AnnotatorConfiguration :: AnnotatorConfiguration
  o_LeaderElection :: LeaderElectionConfiguration
  o_master :: string
  o_kubeconfig :: string
  o_healthPort :: string

abbreviation ControllerUserAgent :: string where "ControllerUserAgent \<equiv> ''crane-scheduler-controller''"

definition NewOptions :: "sys \<Rightarrow> Options fallible" where
  "NewOptions sys =
     Inr \<lparr>o_AnnotatorConfiguration =
            \<lparr>cfg_BindingHeapSize = 1024, cfg_ConcurrentSyncs = 1,
             cfg_PolicyConfigPath = ''/etc/kubernetes/policy.yaml'', cfg_PrometheusAddr = ''''\<rparr>,
          o_LeaderElection =
            \<lparr>le_LeaderElect = True, le_LeaseDuration = 15 * second, le_RenewDeadline = 10 * second,
             le_RetryPeriod = 2 * second, le_ResourceLock = ''leases'',
             le_ResourceName = ''crane-scheduler-controller'', le_ResourceNamespace = GetSystemNamespace sys\<rparr>,
          o_master = '''', o_kubeconfig = '''', o_healthPort = ''8090''\<rparr>"

text \<open>The flags bound to the options: name and default. A nil flag set is an error. The flags of the election are bound by
  \<open>component-base\<close>, a parameter.\<close>

definition Flags ::
  "(LeaderElectionConfiguration \<Rightarrow> (string \<times> string) list) \<Rightarrow> bool \<Rightarrow> Options \<Rightarrow> (string \<times> string) list fallible" where
  "Flags election_flags flag_is_nil o' =
     (if flag_is_nil then Inl (Plain ''nil pointer'')
      else
        (let a = o_AnnotatorConfiguration o' in
         Inr ([(''policy-config-path'', cfg_PolicyConfigPath a), (''prometheus-address'', cfg_PrometheusAddr a),
               (''binding-heap-size'', itoa (cfg_BindingHeapSize a)), (''concurrent-syncs'', itoa (cfg_ConcurrentSyncs a)),
               (''kubeconfig'', o_kubeconfig o'), (''master'', o_master o'), (''health-port'', o_healthPort o')] @
              election_flags (o_LeaderElection o'))))"

definition Validate :: "Options \<Rightarrow> go_error option" where
  "Validate o' = None"

section \<open>config.go\<close>

text \<open>\<open>'k\<close> is the type of the Kubernetes clients. The informer factory and the event recorder hold no data the model uses.\<close>

record 'k Config =
  conf_AnnotatorConfig :: AnnotatorConfiguration
  conf_LeaderElection :: LeaderElectionConfiguration
  conf_KubeClient :: 'k
  conf_PromClient :: prom_api
  conf_Policy :: DynamicSchedulerPolicy
  conf_LeaderElectionClient :: 'k
  conf_HealthPort :: string

text \<open>\<open>Complete\<close> wraps the configuration in a type of its own and changes nothing.\<close>

datatype 'k CompletedConfig = CompletedConfig "'k Config"

definition Complete :: "'k Config \<Rightarrow> 'k CompletedConfig" where
  "Complete c = CompletedConfig c"

text \<open>\<open>ApplyTo\<close> writes the two parts of the options into a configuration whose other fields are not set yet.\<close>

definition ApplyTo :: "Options \<Rightarrow> (AnnotatorConfiguration \<times> LeaderElectionConfiguration) fallible" where
  "ApplyTo o' = Inr (o_AnnotatorConfiguration o', o_LeaderElection o')"

text \<open>The calls of client-go: \<open>NewForConfigOrDie\<close> panics where \<open>NewForConfig\<close> returns an error.\<close>

record ('r, 'k) kube_api =
  InClusterConfig :: "'r fallible"
  BuildConfigFromFlags :: "string \<Rightarrow> string \<Rightarrow> 'r fallible"
  AddUserAgent :: "'r \<Rightarrow> string \<Rightarrow> 'r"
  NewForConfig :: "'r \<Rightarrow> 'k fallible"
  NewForConfigOrDie :: "'r \<Rightarrow> 'k outcome"

definition Options_Config ::
  "(string \<Rightarrow> DynamicSchedulerPolicy fallible) \<Rightarrow> ('r, 'k) kube_api \<Rightarrow> (string \<Rightarrow> prom_api fallible) \<Rightarrow> Options \<Rightarrow>
   'k Config fallible outcome" where
  "Options_Config load kube new_client o' =
     (case Validate o' of
        Some err \<Rightarrow> Ok (Inl err)
      | None \<Rightarrow>
     (case ApplyTo o' of
        Inl err \<Rightarrow> Ok (Inl err)
      | Inr (annotator, election) \<Rightarrow>
     (case load (cfg_PolicyConfigPath (o_AnnotatorConfiguration o')) of
        Inl err \<Rightarrow> Ok (Inl err)
      | Inr policy \<Rightarrow>
     (case (if o_kubeconfig o' = '''' then InClusterConfig kube
            else BuildConfigFromFlags kube (o_master o') (o_kubeconfig o')) of
        Inl err \<Rightarrow> Ok (Inl err)
      | Inr kubeconfig \<Rightarrow>
     (case NewForConfig kube (AddUserAgent kube kubeconfig ControllerUserAgent) of
        Inl err \<Rightarrow> Ok (Inl err)
      | Inr client \<Rightarrow>
         obind (NewForConfigOrDie kube (AddUserAgent kube kubeconfig ''leader-election'')) (\<lambda>leader.
           case NewPromClient new_client (cfg_PrometheusAddr (o_AnnotatorConfiguration o')) of
             Inl err \<Rightarrow> Ok (Inl err)
           | Inr prom \<Rightarrow>
               Ok (Inr \<lparr>conf_AnnotatorConfig = annotator, conf_LeaderElection = election, conf_KubeClient = client,
                        conf_PromClient = prom, conf_Policy = policy, conf_LeaderElectionClient = leader,
                        conf_HealthPort = o_healthPort o'\<rparr>)))))))"

section \<open>factory.go\<close>

text \<open>The field selector of the event informer: only scheduling events of type Normal are delivered.\<close>

definition newEventInformer_selector :: string where
  "newEventInformer_selector = ''type='' @ ''Normal'' @ '',reason=Scheduled''"

text \<open>An event informer, as client-go is asked for it: the namespace (empty for all), the resync period and what is done
  to the options of each list and watch; \<open>'f\<close> is the type of informer factories.\<close>

record event_informer =
  ei_namespace :: string
  ei_resync :: duration
  ei_tweak :: "string \<Rightarrow> string"

definition newEventInformer :: "duration \<Rightarrow> event_informer" where
  "newEventInformer resyncPeriod =
     \<lparr>ei_namespace = '''', ei_resync = resyncPeriod, ei_tweak = (\<lambda>fieldSelector. newEventInformer_selector)\<rparr>"

definition NewInformerFactory ::
  "(duration \<Rightarrow> 'f) \<Rightarrow> ('f \<Rightarrow> (duration \<Rightarrow> event_informer) \<Rightarrow> 'f) \<Rightarrow> duration \<Rightarrow> 'f" where
  "NewInformerFactory new_factory informer_for resyncPeriod = informer_for (new_factory resyncPeriod) newEventInformer"

section \<open>server.go\<close>

text \<open>The ways out of \<open>Run\<close>. The closure \<open>run\<close> starts the annotator and never returns normally: when the annotator stops,
  with an error or without, it panics.\<close>

datatype run_exit =
    RunPanic "go_error option"
  | RunError go_error
  | LockPanic go_error
  | ElectionRun string Controller

text \<open>The annotator the closure creates.\<close>

definition start_annotator :: "'k CompletedConfig \<Rightarrow> Controller" where
  "start_annotator cc =
     (case cc of CompletedConfig c \<Rightarrow> NewNodeAnnotator (conf_Policy c) (cfg_BindingHeapSize (conf_AnnotatorConfig c)))"

text \<open>\<open>run_result\<close> is what the running annotator returns, \<open>hostname\<close>, \<open>uuid\<close> and \<open>lock\<close> what the system, the generator of
  identifiers and the resource lock answer.\<close>

definition app_Run ::
  "(Controller \<Rightarrow> int \<Rightarrow> go_error option) \<Rightarrow> string fallible \<Rightarrow> string \<Rightarrow> (string \<Rightarrow> unit fallible) \<Rightarrow> 'k CompletedConfig \<Rightarrow>
   run_exit" where
  "app_Run run_result hostname uuid lock cc =
     (case cc of CompletedConfig c \<Rightarrow>
        if \<not> le_LeaderElect (conf_LeaderElection c) then
          RunPanic (run_result (start_annotator cc) (cfg_ConcurrentSyncs (conf_AnnotatorConfig c)))
        else
          (case hostname of
             Inl err \<Rightarrow> RunError err
           | Inr host \<Rightarrow>
               let id = host @ ''_'' @ uuid in
               case lock id of
                 Inl err \<Rightarrow> LockPanic err
               | Inr _ \<Rightarrow> ElectionRun id (start_annotator cc)))"

text \<open>The cobra command: \<open>NewOptions\<close> cannot fail, so the fatal branch is only kept as a way out. The closure \<open>Run\<close>
  of the command prints an error and exits with 1, or never returns.\<close>

datatype command_exit =
    Exit int string
  | CommandPanic panic
  | CommandRun run_exit

record command =
  cmd_Use :: string
  cmd_Flags :: "(string \<times> string) list fallible"
  cmd_stderr :: string

definition command_Run ::
  "(string \<Rightarrow> DynamicSchedulerPolicy fallible) \<Rightarrow> ('r, 'k) kube_api \<Rightarrow> (string \<Rightarrow> prom_api fallible) \<Rightarrow>
   (Controller \<Rightarrow> int \<Rightarrow> go_error option) \<Rightarrow> string fallible \<Rightarrow> string \<Rightarrow> (string \<Rightarrow> unit fallible) \<Rightarrow> Options \<Rightarrow>
   command_exit" where
  "command_Run load kube new_client run_result hostname uuid lock o' =
     (case Options_Config load kube new_client o' of
        Panic p \<Rightarrow> CommandPanic p
      | Ok (Inl err) \<Rightarrow> Exit 1 (err_text err @ [CHR 0x0A])
      | Ok (Inr c) \<Rightarrow>
          (case app_Run run_result hostname uuid lock (Complete c) of
             RunError err \<Rightarrow> Exit 1 (err_text err @ [CHR 0x0A])
           | r \<Rightarrow> CommandRun r))"

text \<open>\<open>NewControllerCommand\<close> returns the command with its flags bound; an error of binding them is only printed.\<close>

definition NewControllerCommand ::
  "(LeaderElectionConfiguration \<Rightarrow> (string \<times> string) list) \<Rightarrow> sys \<Rightarrow> command_exit + (Options \<times> command)" where
  "NewControllerCommand election_flags sys =
     (case NewOptions sys of
        Inl err \<Rightarrow> Inl (Exit 255 (''unable to initialize command options: '' @ err_text err))
      | Inr o' \<Rightarrow>
          (let flags = Flags election_flags False o' in
           Inr (o', \<lparr>cmd_Use = ''controller'', cmd_Flags = flags,
                     cmd_stderr = (case flags of Inl err \<Rightarrow> err_text err @ [CHR 0x0A] | Inr _ \<Rightarrow> '''')\<rparr>)))"

text \<open>\<open>main\<close>: cobra parses the command line into the options and runs the command; an error of its own makes the process
  print it and exit with 1.\<close>

definition controller_main ::
  "(LeaderElectionConfiguration \<Rightarrow> (string \<times> string) list) \<Rightarrow> sys \<Rightarrow> (command \<Rightarrow> Options \<Rightarrow> Options fallible) \<Rightarrow>
   (Options \<Rightarrow> command_exit) \<Rightarrow> command_exit" where
  "controller_main election_flags sys parse run =
     (case NewControllerCommand election_flags sys of
        Inl e \<Rightarrow> e
      | Inr (o', cmd) \<Rightarrow>
          (case parse cmd o' of
             Inl err \<Rightarrow> Exit 1 (err_text err @ [CHR 0x0A])
           | Inr o'' \<Rightarrow> run o''))"

section \<open>Properties\<close>

lemma Options_Config_Inr:
  assumes "Options_Config load kube new_client o' = Ok (Inr c)"
  shows "conf_AnnotatorConfig c = o_AnnotatorConfiguration o'" "conf_LeaderElection c = o_LeaderElection o'"
    "load (cfg_PolicyConfigPath (o_AnnotatorConfiguration o')) = Inr (conf_Policy c)" "conf_HealthPort c = o_healthPort o'"
proof -
  obtain policy where p: "load (cfg_PolicyConfigPath (o_AnnotatorConfiguration o')) = Inr policy"
    using assms by (cases "load (cfg_PolicyConfigPath (o_AnnotatorConfiguration o'))") (auto simp: Options_Config_def Validate_def ApplyTo_def)
  obtain r where r: "(if o_kubeconfig o' = '''' then InClusterConfig kube
      else BuildConfigFromFlags kube (o_master o') (o_kubeconfig o')) = Inr r"
    using assms p by (cases "if o_kubeconfig o' = '''' then InClusterConfig kube
      else BuildConfigFromFlags kube (o_master o') (o_kubeconfig o')") (auto simp: Options_Config_def Validate_def ApplyTo_def)
  obtain client where k: "NewForConfig kube (AddUserAgent kube r ControllerUserAgent) = Inr client"
    using assms p r by (cases "NewForConfig kube (AddUserAgent kube r ControllerUserAgent)") (auto simp: Options_Config_def Validate_def ApplyTo_def)
  show "conf_AnnotatorConfig c = o_AnnotatorConfiguration o'" "conf_LeaderElection c = o_LeaderElection o'"
    "load (cfg_PolicyConfigPath (o_AnnotatorConfiguration o')) = Inr (conf_Policy c)" "conf_HealthPort c = o_healthPort o'"
    using assms p r k
    by (cases "NewForConfigOrDie kube (AddUserAgent kube r ''leader-election'')";
        cases "NewPromClient new_client (cfg_PrometheusAddr (o_AnnotatorConfiguration o'))";
        auto simp: Options_Config_def Validate_def ApplyTo_def)+
qed

lemma command_Run_election:
  assumes "command_Run load kube new_client run_result hostname uuid lock o' = CommandRun (ElectionRun ident c0)"
  shows "\<exists>policy. load (cfg_PolicyConfigPath (o_AnnotatorConfiguration o')) = Inr policy \<and>
    c0 = NewNodeAnnotator policy (cfg_BindingHeapSize (o_AnnotatorConfiguration o'))"
proof -
  obtain conf where conf: "Options_Config load kube new_client o' = Ok (Inr conf)"
    using assms by (auto simp: command_Run_def split: outcome.splits sum.splits)
  have "app_Run run_result hostname uuid lock (Complete conf) = ElectionRun ident c0"
    using assms conf
    by (cases "app_Run run_result hostname uuid lock (Complete conf)") (simp_all add: command_Run_def)
  then have "c0 = start_annotator (Complete conf)"
    by (auto simp: app_Run_def Complete_def Let_def split: if_splits sum.splits)
  then show ?thesis
    using Options_Config_Inr [OF conf] by (auto simp: start_annotator_def Complete_def)
qed

lemma Controller_Run_panics_iff:
  "if synced \<and> (\<exists>p \<in> set (spec_SyncPeriod (policy_Spec (c_policy c))). sync_Period p \<le> 0)
   then Controller_Run ls synced c workers = Panic NonPositiveTicker
   else returns (Controller_Run ls synced c workers)"
  by (auto simp: Controller_Run_def node_CreateMetricSyncTicker_def returns_iff list_all_iff not_less)

text \<open>C26. From \<open>main\<close> to every later state: when the controller is started with any flags that set no path of the
  policy and no size of the log, and is elected, the annotator it starts has the policy of
  \<open>/etc/kubernetes/policy.yaml\<close> and a log of 1024 bindings. Its \<open>Run\<close> panics exactly if the caches synchronize and the
  policy has a sync period that is not positive; with positive periods it starts the workers, whatever their number. If
  no count of the policy is zero, then in every state the annotator reaches the log has at most 1024 bindings, all it has
  sent are stamped patches, and no step panics; and each step whose names and usages need no escaping sends
  well-formed JSON only.\<close>

theorem default_controller_safe:
  assumes "controller_main election_flags sys parse (command_Run load kube new_client run_result hostname uuid lock) =
      CommandRun (ElectionRun ident c0)"
    and "\<And>cmd o' o''. parse cmd o' = Inr o'' \<Longrightarrow>
      cfg_PolicyConfigPath (o_AnnotatorConfiguration o'') = cfg_PolicyConfigPath (o_AnnotatorConfiguration o') \<and>
      cfg_BindingHeapSize (o_AnnotatorConfiguration o'') = cfg_BindingHeapSize (o_AnnotatorConfiguration o')"
    and "\<And>policy. load ''/etc/kubernetes/policy.yaml'' = Inr policy \<Longrightarrow>
      \<forall>hv \<in> set (spec_HotValue (policy_Spec policy)). hot_Count hv \<noteq> 0"
    and "annotator_reach par loc c0 c sent" "good_env loc env"
  shows "load ''/etc/kubernetes/policy.yaml'' = Inr (c_policy c) \<and> br_size (c_bindingRecords c) = 1024 \<and>
    int (length (br_bindings (c_bindingRecords c))) \<le> 1024 \<and>
    (if synced \<and> (\<exists>p \<in> set (spec_SyncPeriod (policy_Spec (c_policy c))). sync_Period p \<le> 0)
     then Controller_Run ls synced c0 workers = Panic NonPositiveTicker
     else returns (Controller_Run ls synced c0 workers)) \<and>
    (\<forall>req \<in> set sent. stamped_request loc req) \<and>
    (\<exists>reqs c' calls go_on. annotator_work par act env c got = Ok (reqs, c', calls, go_on) \<and>
      (safe_work (c_policy c) env (fst got) \<longrightarrow> (\<forall>req \<in> set reqs. well_formed_request loc req)))"
proof -
  obtain o' cmd o'' where parsed: "NewControllerCommand election_flags sys = Inr (o', cmd)" "parse cmd o' = Inr o''"
      and run: "command_Run load kube new_client run_result hostname uuid lock o'' = CommandRun (ElectionRun ident c0)"
    using assms(1)
    by (auto simp: controller_main_def NewControllerCommand_def NewOptions_def Let_def split: sum.splits)
  have "cfg_PolicyConfigPath (o_AnnotatorConfiguration o'') = ''/etc/kubernetes/policy.yaml''"
    "cfg_BindingHeapSize (o_AnnotatorConfiguration o'') = 1024"
    using assms(2) [OF parsed(2)] parsed(1) by (auto simp: NewControllerCommand_def NewOptions_def Let_def)
  then obtain policy where load: "load ''/etc/kubernetes/policy.yaml'' = Inr policy"
      and c0: "c0 = NewNodeAnnotator policy 1024"
    using command_Run_election [OF run] by auto
  have counts: "hv \<in> set (spec_HotValue (policy_Spec (c_policy c0))) \<Longrightarrow> hot_Count hv \<noteq> 0" for hv
    using assms(3) [OF load] by (simp add: c0 NewNodeAnnotator_def)
  have "br_wf (c_bindingRecords c0)" using NewBindingRecords_wf [of 1024] by (simp add: c0 NewNodeAnnotator_def)
  then have ok: "controller_ok c0 c" and sent: "\<forall>req \<in> set sent. stamped_request loc req"
    using annotator_reach_ok [OF assms(4) _ counts] by blast+
  have policy: "c_policy c = c_policy c0" "c_policy c0 = policy" using ok by (simp_all add: controller_ok_def c0 NewNodeAnnotator_def)
  have log: "br_size (c_bindingRecords c) = 1024" "int (length (br_bindings (c_bindingRecords c))) \<le> 1024"
    using ok by (simp_all add: c0 controller_ok_def br_wf_def NewNodeAnnotator_def NewBindingRecords_def)
  have work: "\<exists>reqs c' calls go_on. annotator_work par act env c got = Ok (reqs, c', calls, go_on) \<and>
      (safe_work (c_policy c) env (fst got) \<longrightarrow> (\<forall>req \<in> set reqs. well_formed_request loc req))"
    using annotator_work_safe [OF assms(5) ok counts, of par act got] safe_work_well_formed [OF assms(5), of c got par act] by blast
  show ?thesis
    using load policy log Controller_Run_panics_iff [of synced c0 ls workers] sent work by simp
qed

definition example_kube :: "(unit, unit) kube_api" where
  "example_kube = \<lparr>InClusterConfig = Inr (), BuildConfigFromFlags = (\<lambda>_ _. Inr ()), AddUserAgent = (\<lambda>_ _. ()),
     NewForConfig = (\<lambda>_. Inr ()), NewForConfigOrDie = (\<lambda>_. Ok ())\<rparr>"

definition example_parse :: "command \<Rightarrow> Options \<Rightarrow> Options fallible" where
  "example_parse cmd o' =
     Inr (o'\<lparr>o_AnnotatorConfiguration := (o_AnnotatorConfiguration o')\<lparr>cfg_PrometheusAddr := ''p''\<rparr>\<rparr>)"

theorem default_controller_safe_witness:
  "\<exists>c0. controller_main (\<lambda>_. []) (example_sys 0) example_parse
      (command_Run (\<lambda>_. Inr (ds_schedulerPolicy example_scheduler)) example_kube (\<lambda>_. Inr (example_api []))
        (\<lambda>_ _. None) (Inr ''host'') ''1'' (\<lambda>_. Inr ())) = CommandRun (ElectionRun ''host_1'' c0) \<and>
    br_size (c_bindingRecords c0) = 1024 \<and>
    returns (Controller_Run (example_listers [example_node None]) True c0 2) \<and>
    (\<exists>reqs c' calls. annotator_work example_params NodeWork example_env c0 (''n1/cpu'', False) = Ok (reqs, c', calls, True) \<and>
      (\<forall>req \<in> set reqs. well_formed_request (fixed_location 0) req))"
proof -
  let ?load = "\<lambda>_::string. Inr (ds_schedulerPolicy example_scheduler) :: DynamicSchedulerPolicy fallible"
  let ?run = "command_Run ?load example_kube (\<lambda>_. Inr (example_api [])) (\<lambda>_ _. None) (Inr ''host'') ''1'' (\<lambda>_. Inr ())"
  obtain c0 where main: "controller_main (\<lambda>_. []) (example_sys 0) example_parse ?run = CommandRun (ElectionRun ''host_1'' c0)"
    by (simp add: controller_main_def NewControllerCommand_def NewOptions_def Flags_def Let_def example_parse_def
        command_Run_def Options_Config_def Validate_def ApplyTo_def example_kube_def NewPromClient_def app_Run_def Complete_def)
  have parse: "cfg_PolicyConfigPath (o_AnnotatorConfiguration o'') = cfg_PolicyConfigPath (o_AnnotatorConfiguration o') \<and>
      cfg_BindingHeapSize (o_AnnotatorConfiguration o'') = cfg_BindingHeapSize (o_AnnotatorConfiguration o')"
    if "example_parse cmd o' = Inr o''" for cmd o' o''
    using that by (auto simp: example_parse_def)
  have counts: "\<forall>hv \<in> set (spec_HotValue (policy_Spec policy)). hot_Count hv \<noteq> 0"
    if "?load ''/etc/kubernetes/policy.yaml'' = Inr policy" for policy
    using that by (auto simp: example_scheduler_def example_spec_def)
  note safe = default_controller_safe [where synced = True and ls = "example_listers [example_node None]" and workers = 2
      and act = NodeWork and got = "(''n1/cpu'', False)" and par = example_params, OF main _ _ reach_init example_env_good]
  have "?load ''/etc/kubernetes/policy.yaml'' = Inr (c_policy c0) \<and> br_size (c_bindingRecords c0) = 1024 \<and>
      int (length (br_bindings (c_bindingRecords c0))) \<le> 1024 \<and>
      (if True \<and> (\<exists>p \<in> set (spec_SyncPeriod (policy_Spec (c_policy c0))). sync_Period p \<le> 0)
       then Controller_Run (example_listers [example_node None]) True c0 2 = Panic NonPositiveTicker
       else returns (Controller_Run (example_listers [example_node None]) True c0 2)) \<and>
      (\<forall>req \<in> set []. stamped_request (fixed_location 0) req) \<and>
      (\<exists>reqs c' calls go_on. annotator_work example_params NodeWork example_env c0 (''n1/cpu'', False) = Ok (reqs, c', calls, go_on) \<and>
        (safe_work (c_policy c0) example_env (fst (''n1/cpu'', False)) \<longrightarrow> (\<forall>req \<in> set reqs. well_formed_request (fixed_location 0) req)))"
    by (rule safe) (erule parse counts)+
  then have "?load ''/etc/kubernetes/policy.yaml'' = Inr (c_policy c0)" "br_size (c_bindingRecords c0) = 1024"
    and run: "if True \<and> (\<exists>p \<in> set (spec_SyncPeriod (policy_Spec (c_policy c0))). sync_Period p \<le> 0)
     then Controller_Run (example_listers [example_node None]) True c0 2 = Panic NonPositiveTicker
     else returns (Controller_Run (example_listers [example_node None]) True c0 2)"
    and work: "\<exists>reqs c' calls go_on. annotator_work example_params NodeWork example_env c0 (''n1/cpu'', False) = Ok (reqs, c', calls, go_on) \<and>
      (safe_work (c_policy c0) example_env (fst (''n1/cpu'', False)) \<longrightarrow> (\<forall>req \<in> set reqs. well_formed_request (fixed_location 0) req))"
    by blast+
  then have policy: "c_policy c0 = ds_schedulerPolicy example_scheduler" and size: "br_size (c_bindingRecords c0) = 1024" by simp_all
  have "returns (Controller_Run (example_listers [example_node None]) True c0 2)"
    using run unfolding policy by (simp add: example_scheduler_def example_spec_def)
  moreover have "\<exists>reqs c' calls. annotator_work example_params NodeWork example_env c0 (''n1/cpu'', False) = Ok (reqs, c', calls, True) \<and>
      (\<forall>req \<in> set reqs. well_formed_request (fixed_location 0) req)"
    using work example_safe_work annotator_work_goes_on unfolding policy by fastforce
  ultimately show ?thesis using main size by blast
qed

end
