(* ===== verification/Pod_Topology_Cache.thy ===== *)
theory Pod_Topology_Cache
  imports Kube_Types "HOL-Library.AList"
begin

text \<open>
  \<open>pkg/plugins/noderesourcetopology/cache.go\<close>: the cache of NUMA assignments of pods that are
  reserved but not bound yet. Two maps with the same keys hold the assignment and its deadline; a
  goroutine removes entries whose deadline has passed. The type of assignments is left open, and
  \<open>framework.GetPodKey\<close>, which gives a pod its key or an error, is the parameter \<open>pod_key\<close>. The
  mutex makes every operation atomic. The locale \<open>topology_cache\<close> is the Go interface
  \<open>PodTopologyCache\<close> with the laws its clients rely on.
\<close>

section \<open>Definitions\<close>

abbreviation cleanAssumedPeriod :: duration where "cleanAssumedPeriod \<equiv> second"

record 'z podTopologyCacheImpl =
  cache_ttl :: duration
  cache_period :: duration
  cache_podTopology :: "(string \<times> 'z) list"
  cache_podTopologyTTL :: "(string \<times> instant) list"

definition NewPodTopologyCache :: "duration \<Rightarrow> 'z podTopologyCacheImpl" where
  "NewPodTopologyCache ttl =
     \<lparr>cache_ttl = ttl, cache_period = cleanAssumedPeriod, cache_podTopology = [], cache_podTopologyTTL = []\<rparr>"

definition AssumePod ::
  "('p \<Rightarrow> string fallible) \<Rightarrow> instant \<Rightarrow> 'z podTopologyCacheImpl \<Rightarrow> 'p \<Rightarrow> 'z \<Rightarrow>
   'z podTopologyCacheImpl \<times> go_error option" where
  "AssumePod pod_key now c pod zone =
     (case pod_key pod of
        Inl err \<Rightarrow> (c, Some err)
      | Inr key \<Rightarrow>
          if map_of (cache_podTopology c) key \<noteq> None
          then (c, Some (Plain (''pod '' @ key @ '' is in the podTopologyCache, so can't be assumed'')))
          else
            (c\<lparr>cache_podTopology := AList.update key zone (cache_podTopology c),
               cache_podTopologyTTL :=
                 AList.update key (time_add now (cache_ttl c)) (cache_podTopologyTTL c)\<rparr>, None))"

definition removePod :: "string \<Rightarrow> 'z podTopologyCacheImpl \<Rightarrow> 'z podTopologyCacheImpl" where
  "removePod key c =
     c\<lparr>cache_podTopology := AList.delete key (cache_podTopology c),
       cache_podTopologyTTL := AList.delete key (cache_podTopologyTTL c)\<rparr>"

definition ForgetPod ::
  "('p \<Rightarrow> string fallible) \<Rightarrow> 'z podTopologyCacheImpl \<Rightarrow> 'p \<Rightarrow> 'z podTopologyCacheImpl \<times> go_error option"
  where
  "ForgetPod pod_key c pod =
     (case pod_key pod of Inl err \<Rightarrow> (c, Some err) | Inr key \<Rightarrow> (removePod key c, None))"

definition PodCount :: "'z podTopologyCacheImpl \<Rightarrow> int" where
  "PodCount c = int (length (cache_podTopology c))"

definition GetPodTopology ::
  "('p \<Rightarrow> string fallible) \<Rightarrow> 'z podTopologyCacheImpl \<Rightarrow> 'p \<Rightarrow> 'z fallible" where
  "GetPodTopology pod_key c pod =
     (case pod_key pod of
        Inl err \<Rightarrow> Inl err
      | Inr key \<Rightarrow>
         (case map_of (cache_podTopology c) key of
            None \<Rightarrow> Inl (Plain (''pod topology '' @ key @ '' does not exist in cache''))
          | Some topology \<Rightarrow> Inr topology))"

text \<open>The loop over the deadlines removes entries from the map it ranges over, which Go allows.\<close>

definition cleanupAssumedPods :: "instant \<Rightarrow> 'z podTopologyCacheImpl \<Rightarrow> 'z podTopologyCacheImpl" where
  "cleanupAssumedPods now c =
     foldl (\<lambda>c' (key, dl). if dl < now then removePod key c' else c') c (cache_podTopologyTTL c)"

definition cleanupExpiredAssumedPods :: "sys \<Rightarrow> 'z podTopologyCacheImpl \<Rightarrow> 'z podTopologyCacheImpl" where
  "cleanupExpiredAssumedPods sys c = cleanupAssumedPods (sys_now sys) c"

text \<open>\<open>run\<close> starts a goroutine that cleans up at every tick until the stop channel is closed; the ticks are the
  argument, each with what the process sees of its host at that time.\<close>

definition cache_run :: "sys list \<Rightarrow> 'z podTopologyCacheImpl \<Rightarrow> 'z podTopologyCacheImpl" where
  "cache_run ticks c = foldl (\<lambda>c sys. cleanupExpiredAssumedPods sys c) c ticks"

section \<open>Invariant\<close>

definition cache_wf :: "'z podTopologyCacheImpl \<Rightarrow> bool" where
  "cache_wf c \<longleftrightarrow> distinct (map fst (cache_podTopology c)) \<and> distinct (map fst (cache_podTopologyTTL c)) \<and>
     fst ` set (cache_podTopology c) = fst ` set (cache_podTopologyTTL c)"

abbreviation cached :: "'z podTopologyCacheImpl \<Rightarrow> string \<Rightarrow> 'z option" where
  "cached c \<equiv> map_of (cache_podTopology c)"

abbreviation deadline :: "'z podTopologyCacheImpl \<Rightarrow> string \<Rightarrow> instant option" where
  "deadline c \<equiv> map_of (cache_podTopologyTTL c)"

lemma NewPodTopologyCache_wf: "cache_wf (NewPodTopologyCache ttl)"
  by (simp add: cache_wf_def NewPodTopologyCache_def)

lemma AssumePod_wf: "cache_wf c \<Longrightarrow> cache_wf (fst (AssumePod pod_key now c pod zone))"
  by (auto simp: cache_wf_def AssumePod_def distinct_update dom_update split: sum.splits)

lemma delete_dom: "fst ` set (AList.delete k xs) = fst ` set xs - {k}"
  by (force simp: AList.delete_eq)

lemma removePod_wf: "cache_wf c \<Longrightarrow> cache_wf (removePod key c)"
  by (auto simp: cache_wf_def removePod_def delete_dom AList.delete_keys distinct_removeAll)

lemma removePod_maps:
  "cached (removePod key c) = (cached c)(key := None)"
  "deadline (removePod key c) = (deadline c)(key := None)"
  "cache_ttl (removePod key c) = cache_ttl c"
  by (simp_all add: removePod_def AList.delete_conv')

lemma ForgetPod_wf: "cache_wf c \<Longrightarrow> cache_wf (fst (ForgetPod pod_key c pod))"
  by (auto simp: ForgetPod_def removePod_wf split: sum.splits)

text \<open>The clean-up in closed form: an entry survives unless its deadline has passed.\<close>

lemma cleanup_fold:
  assumes "distinct (map fst ds)" "cache_wf c"
  shows "cache_wf (foldl (\<lambda>c' (key, dl). if dl < now then removePod key c' else c') c ds) \<and>
    (\<forall>k. cached (foldl (\<lambda>c' (key, dl). if dl < now then removePod key c' else c') c ds) k =
       (if \<exists>dl. map_of ds k = Some dl \<and> dl < now then None else cached c k)) \<and>
    (\<forall>k. deadline (foldl (\<lambda>c' (key, dl). if dl < now then removePod key c' else c') c ds) k =
       (if \<exists>dl. map_of ds k = Some dl \<and> dl < now then None else deadline c k)) \<and>
    cache_ttl (foldl (\<lambda>c' (key, dl). if dl < now then removePod key c' else c') c ds) = cache_ttl c"
  using assms
proof (induction ds arbitrary: c)
  case (Cons e ds)
  obtain key dl where e: "e = (key, dl)" by force
  have nk: "map_of ds key = None" using Cons.prems(1) e by (simp add: map_of_eq_None_iff)
  show ?case
  proof (cases "dl < now")
    case True
    note ih = Cons.IH [OF _ removePod_wf [OF Cons.prems(2), of key]]
    show ?thesis using ih Cons.prems(1) True nk by (auto simp: e removePod_maps)
  next
    case False
    then show ?thesis using Cons nk by (auto simp: e)
  qed
qed simp

lemma cleanup_wf: "cache_wf c \<Longrightarrow> cache_wf (cleanupAssumedPods now c)"
  using cleanup_fold [of "cache_podTopologyTTL c" c now]
  by (simp add: cleanupAssumedPods_def cache_wf_def)

lemma cleanup_maps:
  assumes "cache_wf c"
  shows "cached (cleanupAssumedPods now c) k =
      (if \<exists>dl. deadline c k = Some dl \<and> dl < now then None else cached c k)"
    "deadline (cleanupAssumedPods now c) k =
      (if \<exists>dl. deadline c k = Some dl \<and> dl < now then None else deadline c k)"
    "cache_ttl (cleanupAssumedPods now c) = cache_ttl c"
  using cleanup_fold [of "cache_podTopologyTTL c" c now] assms
  by (simp_all add: cleanupAssumedPods_def cache_wf_def)

lemma cache_wf_dom: "cache_wf c \<Longrightarrow> cached c k = None \<longleftrightarrow> deadline c k = None"
  by (simp add: cache_wf_def map_of_eq_None_iff)

section \<open>Sequences of operations\<close>

datatype ('p, 'z) cache_event = Assume instant 'p 'z | Forget 'p | CleanUp instant

fun cache_step ::
  "(instant \<Rightarrow> 'c \<Rightarrow> 'p \<Rightarrow> 'z \<Rightarrow> 'c \<times> go_error option) \<Rightarrow> ('c \<Rightarrow> 'p \<Rightarrow> 'c \<times> go_error option) \<Rightarrow>
   (instant \<Rightarrow> 'c \<Rightarrow> 'c) \<Rightarrow> 'c \<Rightarrow> ('p, 'z) cache_event \<Rightarrow> 'c" where
  "cache_step assume_pod forget_pod clean_up c (Assume now p z) = fst (assume_pod now c p z)"
| "cache_step assume_pod forget_pod clean_up c (Forget p) = fst (forget_pod c p)"
| "cache_step assume_pod forget_pod clean_up c (CleanUp now) = clean_up now c"

section \<open>The interface\<close>

locale topology_cache =
  fixes key_of :: "'p \<Rightarrow> string fallible"
    and assume_pod :: "instant \<Rightarrow> 'c \<Rightarrow> 'p \<Rightarrow> 'z \<Rightarrow> 'c \<times> go_error option"
    and forget_pod :: "'c \<Rightarrow> 'p \<Rightarrow> 'c \<times> go_error option"
    and get_topology :: "'c \<Rightarrow> 'p \<Rightarrow> 'z fallible"
    and clean_up :: "instant \<Rightarrow> 'c \<Rightarrow> 'c"
    and invar :: "'c \<Rightarrow> bool"
    and content :: "'c \<Rightarrow> string \<Rightarrow> 'z option"
    and expiry :: "'c \<Rightarrow> string \<Rightarrow> instant option"
    and ttl :: "'c \<Rightarrow> duration"
  assumes get_eq: "key_of p = Inr k \<Longrightarrow> content c k = Some z \<Longrightarrow> get_topology c p = Inr z"
    and get_none: "key_of p = Inr k \<Longrightarrow> content c k = None \<Longrightarrow> \<exists>err. get_topology c p = Inl err"
    and get_err: "key_of p = Inl err \<Longrightarrow> get_topology c p = Inl err"
    and assume_new: "invar c \<Longrightarrow> key_of p = Inr k \<Longrightarrow> content c k = None \<Longrightarrow>
      \<exists>c'. assume_pod now c p z = (c', None) \<and> invar c' \<and> content c' = (content c)(k \<mapsto> z) \<and>
        expiry c' = (expiry c)(k \<mapsto> now + ttl c) \<and> ttl c' = ttl c"
    and assume_old: "key_of p = Inr k \<Longrightarrow> content c k \<noteq> None \<Longrightarrow>
      \<exists>err. assume_pod now c p z = (c, Some err)"
    and assume_err: "key_of p = Inl err \<Longrightarrow> assume_pod now c p z = (c, Some err)"
    and forget_key: "invar c \<Longrightarrow> key_of p = Inr k \<Longrightarrow>
      \<exists>c'. forget_pod c p = (c', None) \<and> invar c' \<and> content c' = (content c)(k := None) \<and>
        expiry c' = (expiry c)(k := None) \<and> ttl c' = ttl c"
    and forget_err: "key_of p = Inl err \<Longrightarrow> forget_pod c p = (c, Some err)"
    and clean: "invar c \<Longrightarrow> invar (clean_up now c) \<and> ttl (clean_up now c) = ttl c \<and>
      content (clean_up now c) k =
        (if \<exists>dl. expiry c k = Some dl \<and> dl < now then None else content c k) \<and>
      expiry (clean_up now c) k =
        (if \<exists>dl. expiry c k = Some dl \<and> dl < now then None else expiry c k)"
    and dom_eq: "invar c \<Longrightarrow> content c k = None \<longleftrightarrow> expiry c k = None"
begin

lemma assume_get:
  assumes "invar c" "assume_pod now c p z = (c', None)"
  shows "get_topology c' p = Inr z" "invar c'"
proof -
  obtain k where k: "key_of p = Inr k"
    using assms(2) assume_err by (cases "key_of p") auto
  have "content c k = None" using assume_old [OF k] assms(2) by (metis option.distinct(1) prod.inject)
  from assume_new [OF assms(1) k this, of now z] show "get_topology c' p = Inr z" "invar c'"
    using assms(2) get_eq [OF k, of c' z] by auto
qed

lemma assume_twice:
  assumes "invar c" "assume_pod now c p z = (c', None)"
  shows "\<exists>err. assume_pod now' c' p z' = (c', Some err)"
proof -
  obtain k where k: "key_of p = Inr k"
    using assms(2) assume_err by (cases "key_of p") auto
  have "content c k = None" using assume_old [OF k] assms(2) by (metis option.distinct(1) prod.inject)
  from assume_new [OF assms(1) k this, of now z] have "content c' k \<noteq> None" using assms(2) by auto
  then show ?thesis using assume_old [OF k] by blast
qed

lemma assume_forget:
  assumes "invar c" "assume_pod now c p z = (c', None)"
  shows "content (fst (forget_pod c' p)) = content c" "expiry (fst (forget_pod c' p)) = expiry c"
proof -
  obtain k where k: "key_of p = Inr k"
    using assms(2) assume_err by (cases "key_of p") auto
  have none: "content c k = None" using assume_old [OF k] assms(2) by (metis option.distinct(1) prod.inject)
  then have ex: "expiry c k = None" using dom_eq [OF assms(1)] by simp
  from assume_new [OF assms(1) k none, of now z]
  have c': "invar c'" "content c' = (content c)(k \<mapsto> z)" "expiry c' = (expiry c)(k \<mapsto> now + ttl c)"
    using assms(2) by auto
  from forget_key [OF c'(1) k] obtain c'' where "forget_pod c' p = (c'', None)"
    "content c'' = (content c')(k := None)" "expiry c'' = (expiry c')(k := None)" by blast
  then show "content (fst (forget_pod c' p)) = content c" "expiry (fst (forget_pod c' p)) = expiry c"
    using none ex c' by (auto simp: fun_upd_idem)
qed

lemma forget_get:
  assumes "invar c" shows "\<exists>err. get_topology (fst (forget_pod c p)) p = Inl err"
proof (cases "key_of p")
  case (Inl err)
  then show ?thesis using get_err [OF Inl] by auto
next
  case (Inr k)
  from forget_key [OF assms Inr] obtain c' where "forget_pod c p = (c', None)"
    "content c' = (content c)(k := None)" by blast
  then show ?thesis using get_none [OF Inr, of c'] by simp
qed

lemma forget_other:
  assumes "invar c" "key_of p = Inr k" "key_of q = Inr j" "j \<noteq> k" "get_topology c q = Inr z"
  shows "get_topology (fst (forget_pod c p)) q = Inr z"
proof -
  from forget_key [OF assms(1,2)] obtain c' where c': "forget_pod c p = (c', None)"
    "content c' = (content c)(k := None)" by blast
  have "content c j = Some z"
    using assms(5) get_eq [OF assms(3), of c] get_none [OF assms(3), of c] by (cases "content c j") auto
  then show ?thesis using get_eq [OF assms(3), of c' z] c' assms(4) by simp
qed

lemma step_invar: "invar c \<Longrightarrow> invar (cache_step assume_pod forget_pod clean_up c e)"
proof (cases e)
  case (Assume now p z)
  assume c: "invar c"
  show ?thesis
  proof (cases "key_of p")
    case (Inl err)
    then show ?thesis using c Assume assume_err [OF Inl] by simp
  next
    case (Inr k)
    show ?thesis
    proof (cases "content c k = None")
      case True
      from assume_new [OF c Inr True, of now z] show ?thesis using Assume by auto
    next
      case False
      from assume_old [OF Inr False, of now z] show ?thesis using Assume c by auto
    qed
  qed
next
  case (Forget p)
  assume c: "invar c"
  show ?thesis
  proof (cases "key_of p")
    case (Inl err)
    then show ?thesis using c Forget forget_err [OF Inl] by simp
  next
    case (Inr k)
    from forget_key [OF c Inr] show ?thesis using Forget by auto
  qed
next
  case (CleanUp now)
  assume "invar c"
  then show ?thesis using clean CleanUp by simp
qed

text \<open>An entry outlives every operation but its own removal and a clean-up after its deadline.\<close>

lemma step_keeps:
  assumes "invar c" "content c k = Some z" "expiry c k = Some dl"
    and "\<And>p. e = Forget p \<Longrightarrow> key_of p \<noteq> Inr k" "\<And>now. e = CleanUp now \<Longrightarrow> now \<le> dl"
  shows "content (cache_step assume_pod forget_pod clean_up c e) k = Some z \<and>
    expiry (cache_step assume_pod forget_pod clean_up c e) k = Some dl"
proof (cases e)
  case (Assume now p y)
  show ?thesis
  proof (cases "key_of p")
    case (Inl err)
    then show ?thesis using assms Assume assume_err [OF Inl] by simp
  next
    case (Inr j)
    show ?thesis
    proof (cases "content c j = None")
      case True
      then have "j \<noteq> k" using assms(2) by auto
      with assume_new [OF assms(1) Inr True, of now y] show ?thesis using Assume assms(2,3) by auto
    next
      case False
      from assume_old [OF Inr False, of now y] show ?thesis using Assume assms by auto
    qed
  qed
next
  case (Forget p)
  show ?thesis
  proof (cases "key_of p")
    case (Inl err)
    then show ?thesis using assms Forget forget_err [OF Inl] by simp
  next
    case (Inr j)
    then have "j \<noteq> k" using assms(4) [OF Forget] by auto
    with forget_key [OF assms(1) Inr] show ?thesis using Forget assms(2,3) by auto
  qed
next
  case (CleanUp now)
  then show ?thesis using clean [OF assms(1), of now k] assms(2,3) assms(5) [OF CleanUp] by auto
qed

lemma run_keeps:
  assumes "invar c" "content c k = Some z" "expiry c k = Some dl"
    and "\<And>p. Forget p \<in> set es \<Longrightarrow> key_of p \<noteq> Inr k" "\<And>now. CleanUp now \<in> set es \<Longrightarrow> now \<le> dl"
  shows "content (foldl (cache_step assume_pod forget_pod clean_up) c es) k = Some z"
  using assms
proof (induction es arbitrary: c)
  case (Cons e es)
  from step_keeps [OF Cons.prems(1-3), of e] Cons.prems(4,5)
  have "content (cache_step assume_pod forget_pod clean_up c e) k = Some z"
    "expiry (cache_step assume_pod forget_pod clean_up c e) k = Some dl"
    by (metis list.set_intros(1))+
  then show ?case
    using Cons.IH [OF step_invar [OF Cons.prems(1)]] Cons.prems(4,5) by simp
qed simp

lemma run_invar: "invar c \<Longrightarrow> invar (foldl (cache_step assume_pod forget_pod clean_up) c es)"
  by (induction es arbitrary: c) (simp_all add: step_invar)

lemma assumed_available:
  assumes "invar c" "assume_pod now c p z = (c', None)"
    and "\<And>q. Forget q \<in> set es \<Longrightarrow> key_of q \<noteq> key_of p"
    and "\<And>t. CleanUp t \<in> set es \<Longrightarrow> t \<le> now + ttl c"
  shows "get_topology (foldl (cache_step assume_pod forget_pod clean_up) c' es) p = Inr z"
proof -
  obtain k where k: "key_of p = Inr k"
    using assms(2) assume_err by (cases "key_of p") auto
  have "content c k = None" using assume_old [OF k] assms(2) by (metis option.distinct(1) prod.inject)
  from assume_new [OF assms(1) k this, of now z] have c': "invar c'" "content c' k = Some z"
    "expiry c' k = Some (now + ttl c)" using assms(2) by auto
  show ?thesis
    using run_keeps [OF c', of es] assms(3,4) k by (intro get_eq [OF k]) auto
qed

lemma cleaned_gone:
  assumes "invar c" "key_of p = Inr k" "expiry c k = Some dl" "dl < now"
  shows "\<exists>err. get_topology (clean_up now c) p = Inl err"
  using get_none [OF assms(2)] clean [OF assms(1), of now k] assms(3,4) by auto

end

interpretation impl: topology_cache pod_key "AssumePod pod_key" "ForgetPod pod_key" "GetPodTopology pod_key"
  cleanupAssumedPods cache_wf cached deadline cache_ttl for pod_key :: "'p \<Rightarrow> string fallible"
proof unfold_locales
  fix c :: "'z podTopologyCacheImpl" and p :: 'p and k z now err
  show "pod_key p = Inr k \<Longrightarrow> cached c k = Some z \<Longrightarrow> GetPodTopology pod_key c p = Inr z"
    by (simp add: GetPodTopology_def)
  show "pod_key p = Inr k \<Longrightarrow> cached c k = None \<Longrightarrow> \<exists>err. GetPodTopology pod_key c p = Inl err"
    by (simp add: GetPodTopology_def)
  show "pod_key p = Inl err \<Longrightarrow> GetPodTopology pod_key c p = Inl err"
    by (simp add: GetPodTopology_def)
  show "cache_wf c \<Longrightarrow> pod_key p = Inr k \<Longrightarrow> cached c k = None \<Longrightarrow>
      \<exists>c'. AssumePod pod_key now c p z = (c', None) \<and> cache_wf c' \<and> cached c' = (cached c)(k \<mapsto> z) \<and>
        deadline c' = (deadline c)(k \<mapsto> now + cache_ttl c) \<and> cache_ttl c' = cache_ttl c"
    using AssumePod_wf [of c pod_key now p z] by (simp add: AssumePod_def AList.update_conv' time_add_def)
  show "pod_key p = Inr k \<Longrightarrow> cached c k \<noteq> None \<Longrightarrow> \<exists>err. AssumePod pod_key now c p z = (c, Some err)"
    by (simp add: AssumePod_def)
  show "pod_key p = Inl err \<Longrightarrow> AssumePod pod_key now c p z = (c, Some err)"
    by (simp add: AssumePod_def)
  show "cache_wf c \<Longrightarrow> pod_key p = Inr k \<Longrightarrow>
      \<exists>c'. ForgetPod pod_key c p = (c', None) \<and> cache_wf c' \<and> cached c' = (cached c)(k := None) \<and>
        deadline c' = (deadline c)(k := None) \<and> cache_ttl c' = cache_ttl c"
    by (simp add: ForgetPod_def removePod_wf removePod_maps)
  show "pod_key p = Inl err \<Longrightarrow> ForgetPod pod_key c p = (c, Some err)"
    by (simp add: ForgetPod_def)
  show "cache_wf c \<Longrightarrow> cache_wf (cleanupAssumedPods now c) \<and> cache_ttl (cleanupAssumedPods now c) = cache_ttl c \<and>
      cached (cleanupAssumedPods now c) k =
        (if \<exists>dl. deadline c k = Some dl \<and> dl < now then None else cached c k) \<and>
      deadline (cleanupAssumedPods now c) k =
        (if \<exists>dl. deadline c k = Some dl \<and> dl < now then None else deadline c k)"
    using cleanup_wf [of c now] cleanup_maps(1,2) [of c now k] cleanup_maps(3) [of c now] by simp
  show "cache_wf c \<Longrightarrow> cached c k = None \<longleftrightarrow> deadline c k = None" by (rule cache_wf_dom)
qed

section \<open>Properties\<close>

text \<open>Whatever sequence of \<open>AssumePod\<close>, \<open>ForgetPod\<close> and clean-up calls is made on a new cache, the
  two maps have the same keys without duplicates, so that \<open>PodCount\<close> is the number of cached pods and
  every cached assignment has a deadline.\<close>

lemma cache_maps_agree:
  "let c = foldl (cache_step (AssumePod pod_key) (ForgetPod pod_key) cleanupAssumedPods)
              (NewPodTopologyCache ttl) es
   in distinct (map fst (cache_podTopology c)) \<and>
      dom (map_of (cache_podTopology c)) = dom (map_of (cache_podTopologyTTL c)) \<and>
      PodCount c = int (card (dom (map_of (cache_podTopology c))))"
proof -
  define c where "c = foldl (cache_step (AssumePod pod_key) (ForgetPod pod_key) cleanupAssumedPods)
    (NewPodTopologyCache ttl) es"
  have wf: "cache_wf c"
    unfolding c_def by (rule impl.run_invar [OF NewPodTopologyCache_wf])
  have "card (fst ` set (cache_podTopology c)) = length (map fst (cache_podTopology c))"
    using wf distinct_card [of "map fst (cache_podTopology c)"] by (simp add: cache_wf_def)
  then show ?thesis
    using wf unfolding c_def [symmetric] Let_def by (simp add: cache_wf_def dom_map_of_conv_image_fst PodCount_def)
qed

text \<open>C22. A pod that was assumed stays available: after a successful \<open>AssumePod\<close>, whatever operations
  follow, \<open>GetPodTopology\<close> returns the assignment as long as the pod itself is not forgotten and no
  clean-up runs later than the time to live allows.\<close>

theorem assumed_pod_available:
  assumes "cache_wf c" "AssumePod pod_key now c p z = (c', None)"
    and "\<forall>q. Forget q \<in> set es \<longrightarrow> pod_key q \<noteq> pod_key p"
    and "\<forall>t. CleanUp t \<in> set es \<longrightarrow> t \<le> now + cache_ttl c"
  shows "GetPodTopology pod_key
    (foldl (cache_step (AssumePod pod_key) (ForgetPod pod_key) cleanupAssumedPods) c' es) p = Inr z"
  using impl.assumed_available [OF assms(1,2)] assms(3,4) by blast

theorem assumed_pod_available_witness:
  "GetPodTopology Inr
    (foldl (cache_step (AssumePod Inr) (ForgetPod Inr) cleanupAssumedPods)
       (fst (AssumePod Inr 7 (NewPodTopologyCache 30) ''ns/a'' (1 :: int)))
       [Assume 8 ''ns/b'' 2, CleanUp 37, Forget ''ns/b'']) ''ns/a'' = Inr (1 :: int)"
  by (rule assumed_pod_available
      [where c = "NewPodTopologyCache 30" and now = 7, OF NewPodTopologyCache_wf])
    (auto simp: AssumePod_def NewPodTopologyCache_def)

text \<open>A clean-up removes exactly the entries whose deadline has passed: an expired pod is no longer
  found, every other pod is found as before.\<close>

lemma cleanup_exact:
  assumes "cache_wf c" "pod_key p = Inr k"
  shows "GetPodTopology pod_key (cleanupAssumedPods now c) p =
    (case map_of (cache_podTopologyTTL c) k of
       Some dl \<Rightarrow> if dl < now then Inl (Plain (''pod topology '' @ k @ '' does not exist in cache''))
                  else GetPodTopology pod_key c p
     | None \<Rightarrow> Inl (Plain (''pod topology '' @ k @ '' does not exist in cache'')))"
  using assms cleanup_maps(1) [OF assms(1), of now k] cache_wf_dom [OF assms(1), of k]
  by (auto simp: GetPodTopology_def split: option.splits)

lemma cleanup_exact_witness:
  "GetPodTopology Inr (cleanupAssumedPods 40 (fst (AssumePod Inr 7 (NewPodTopologyCache 30) ''ns/a'' (1 :: int))))
     ''ns/a'' = Inl (Plain ''pod topology ns/a does not exist in cache'')"
  using cleanup_exact [where c = "fst (AssumePod Inr 7 (NewPodTopologyCache 30) ''ns/a'' (1 :: int))"
      and pod_key = Inr and p = "''ns/a''" and k = "''ns/a''" and now = 40,
      OF AssumePod_wf [OF NewPodTopologyCache_wf]]
  by (simp add: AssumePod_def NewPodTopologyCache_def time_add_def)

text \<open>The goroutine that cleans up removes exactly the entries whose deadline lies before one of its ticks.\<close>

lemma cache_run_exact:
  assumes "cache_wf c"
  shows "cache_wf (cache_run ticks c) \<and>
    cached (cache_run ticks c) k =
      (if \<exists>dl. deadline c k = Some dl \<and> (\<exists>sys \<in> set ticks. dl < sys_now sys) then None else cached c k)"
  using assms
proof (induction ticks arbitrary: c)
  case (Cons sys ticks)
  let ?c = "cleanupAssumedPods (sys_now sys) c"
  note maps = cleanup_maps(1,2) [OF Cons.prems, of "sys_now sys" k] and dom = cache_wf_dom [OF Cons.prems, of k]
  have "cache_run (sys # ticks) c = cache_run ticks ?c" by (simp add: cache_run_def cleanupExpiredAssumedPods_def)
  then have "cache_wf (cache_run (sys # ticks) c) \<and> cached (cache_run (sys # ticks) c) k =
      (if \<exists>dl. deadline ?c k = Some dl \<and> (\<exists>sys \<in> set ticks. dl < sys_now sys) then None else cached ?c k)"
    using Cons.IH [OF cleanup_wf [OF Cons.prems]] by simp
  then show ?case
    unfolding maps using dom
    by (cases "deadline c k"; cases "the (deadline c k) < sys_now sys") simp_all
qed (simp add: cache_run_def)

end
