(* ===== verification/Numa_Topology.thy ===== *)
theory Numa_Topology
  imports Crane_Utils Pod_Topology_Cache Plugin_Args Go_Heap
begin

text \<open>
  \<open>pkg/plugins/noderesourcetopology\<close>: the plugin that places the CPUs of a pod on the NUMA nodes of a
  host (\<open>helper.go\<close>, \<open>filter.go\<close>, \<open>scorer.go\<close>, \<open>reserver.go\<close>, \<open>binder.go\<close>, \<open>plugin.go\<close>). The record
  \<open>topo_api\<close> holds what comes from other repositories: the constants of \<open>gocrane/api\<close>, the arithmetic
  of \<open>resource.Quantity\<close> (the type \<open>'q\<close> is left open), \<open>framework.NewResource\<close> and
  \<open>Resource.Add\<close>, JSON and JSON merge patches. A map of resources is an association list in the order an iteration visits it,
  \<open>None\<close> the nil map; arithmetic on \<open>int64\<close> wraps around.
\<close>

section \<open>Data of other repositories\<close>

type_synonym 'q resource_list = "(string \<times> 'q) list option"

definition entries :: "(string \<times> 'q) list option \<Rightarrow> (string \<times> 'q) list" where
  "entries m = (case m of None \<Rightarrow> [] | Some xs \<Rightarrow> xs)"

text \<open>\<open>framework.Resource\<close>.\<close>

record Resource =
  res_MilliCPU :: int
  res_Memory :: int
  res_EphemeralStorage :: int
  res_AllowedPodNumber :: int
  res_ScalarResources :: "(string \<times> int) list option"

definition zero_resource :: Resource where
  "zero_resource =
     \<lparr>res_MilliCPU = 0, res_Memory = 0, res_EphemeralStorage = 0, res_AllowedPodNumber = 0,
      res_ScalarResources = None\<rparr>"

text \<open>Reading a scalar resource: a missing name reads as zero.\<close>

definition scalar :: "Resource \<Rightarrow> string \<Rightarrow> int" where
  "scalar r name = (case map_of (entries (res_ScalarResources r)) name of None \<Rightarrow> 0 | Some v \<Rightarrow> v)"

record 'q ResourceInfo =
  info_Capacity :: "'q resource_list"
  info_Allocatable :: "'q resource_list"

record 'q Zone =
  zone_Name :: string
  zone_Type :: string
  zone_Resources :: "'q ResourceInfo option"

record 'q NodeResourceTopology =
  topo_CPUManagerPolicy :: string
  topo_TopologyManagerPolicy :: string
  topo_Zones :: "'q Zone list"

record 'q Container =
  con_Requests :: "'q resource_list"
  con_Limits :: "'q resource_list"

record 'q TopoPod = Pod +
  pod_Containers :: "'q Container list"

record 'q topo_api =
  api_TopologyAwarenessKey :: string
  api_CPUPolicyKey :: string
  api_CPUPolicyNone :: string
  api_CPUPolicyExclusive :: string
  api_CPUPolicyNUMA :: string
  api_CPUPolicyImmovable :: string
  api_TopologyResultKey :: string
  api_ZoneTypeNode :: string
  api_CPUManagerPolicyStatic :: string
  api_SingleNUMANodePodLevel :: string
  q_zero :: 'q
  q_cmp :: "'q \<Rightarrow> 'q \<Rightarrow> int"
  q_value :: "'q \<Rightarrow> int"
  q_milli :: "'q \<Rightarrow> int"
  q_new_milli :: "int \<Rightarrow> 'q"
  q_new_binary :: "int \<Rightarrow> 'q"
  q_new_decimal :: "int \<Rightarrow> 'q"
  res_new :: "'q resource_list \<Rightarrow> Resource"
  res_add :: "Resource \<Rightarrow> 'q resource_list \<Rightarrow> Resource"
  is_hugepage :: "string \<Rightarrow> bool"
  json_read_zones :: "string \<Rightarrow> 'q Zone list option"
  json_of_zones :: "'q Zone list \<Rightarrow> string fallible"
  json_of_pod :: "'q TopoPod \<Rightarrow> string fallible"
  create_merge_patch :: "string \<Rightarrow> string \<Rightarrow> string fallible"

section \<open>sort.Slice\<close>

text \<open>Go sorts a slice of up to twelve elements by a pass over elements six apart, if there are that
  many, and insertion sort. On longer slices the model does the same, where Go's order of equal
  elements may differ; the lemmas use of it only that the result is a sorted permutation.\<close>

definition shell_pass :: "('a \<Rightarrow> 'a \<Rightarrow> bool) \<Rightarrow> 'a list \<Rightarrow> 'a list" where
  "shell_pass lt xs =
     foldl (\<lambda>ys i. if lt (ys ! i) (ys ! (i - 6)) then swap ys i (i - 6) else ys) xs [6..<length xs]"

fun insert_back :: "('a \<Rightarrow> 'a \<Rightarrow> bool) \<Rightarrow> 'a \<Rightarrow> 'a list \<Rightarrow> 'a list" where
  "insert_back lt x [] = [x]"
| "insert_back lt x (y # ys) = (if lt x y then y # insert_back lt x ys else x # y # ys)"

definition sort_slice :: "('a \<Rightarrow> 'a \<Rightarrow> bool) \<Rightarrow> 'a list \<Rightarrow> 'a list" where
  "sort_slice lt xs = rev (foldl (\<lambda>acc x. insert_back lt x acc) [] (shell_pass lt xs))"

text \<open>The order of Go strings.\<close>

fun str_less :: "string \<Rightarrow> string \<Rightarrow> bool" where
  "str_less s [] = False"
| "str_less [] (c # cs) = True"
| "str_less (b # bs) (c # cs) =
     (if (of_char b :: int) < of_char c then True
      else if (of_char c :: int) < of_char b then False else str_less bs cs)"

section \<open>helper.go\<close>

definition SupportedPolicy :: "'q topo_api \<Rightarrow> string list" where
  "SupportedPolicy api =
     [api_CPUPolicyNone api, api_CPUPolicyExclusive api, api_CPUPolicyNUMA api, api_CPUPolicyImmovable api]"

definition IsPodAwareOfTopology :: "'q topo_api \<Rightarrow> annotations \<Rightarrow> bool option" where
  "IsPodAwareOfTopology api attr =
     (case anno_get attr (api_TopologyAwarenessKey api) of None \<Rightarrow> None | Some v \<Rightarrow> parse_bool v)"

definition GetPodCPUPolicy :: "'q topo_api \<Rightarrow> annotations \<Rightarrow> string" where
  "GetPodCPUPolicy api attr =
     (case anno_get attr (api_CPUPolicyKey api) of
        None \<Rightarrow> ''''
      | Some policy \<Rightarrow> if policy \<in> set (SupportedPolicy api) then policy else '''')"

text \<open>A missing name reads as the zero quantity.\<close>

definition quantity :: "'q topo_api \<Rightarrow> 'q resource_list \<Rightarrow> string \<Rightarrow> 'q" where
  "quantity api rl name = (case map_of (entries rl) name of None \<Rightarrow> q_zero api | Some q \<Rightarrow> q)"

definition GuaranteedCPUs :: "'q topo_api \<Rightarrow> 'q Container \<Rightarrow> int" where
  "GuaranteedCPUs api container =
     (let cpuQuantity = quantity api (con_Requests container) ''cpu'';
          cpuQuantityLimit = quantity api (con_Limits container) ''cpu''
      in if q_cmp api cpuQuantity cpuQuantityLimit \<noteq> 0 \<or>
            wrap64 (q_value api cpuQuantity * 1000) \<noteq> q_milli api cpuQuantity
         then 0 else q_value api cpuQuantity)"

definition GetPodTargetContainerIndices :: "'q topo_api \<Rightarrow> 'q TopoPod \<Rightarrow> nat list" where
  "GetPodTargetContainerIndices api pod =
     (if GetPodCPUPolicy api (pod_Annotations pod) = api_CPUPolicyNone api then []
      else filter (\<lambda>i. GuaranteedCPUs api (pod_Containers pod ! i) > 0) [0..<length (pod_Containers pod)])"

text \<open>A nil zone list and an empty one are not distinguished by any caller.\<close>

definition GetPodTopologyResult :: "'q topo_api \<Rightarrow> 'a Pod_scheme \<Rightarrow> 'q Zone list" where
  "GetPodTopologyResult api pod =
     (case anno_get (pod_Annotations pod) (api_TopologyResultKey api) of
        None \<Rightarrow> []
      | Some raw \<Rightarrow> (case json_read_zones api raw of None \<Rightarrow> [] | Some zones \<Rightarrow> zones))"

definition GetPodNUMANodeResult :: "'q topo_api \<Rightarrow> 'a Pod_scheme \<Rightarrow> 'q Zone list" where
  "GetPodNUMANodeResult api pod =
     filter (\<lambda>z. zone_Type z = api_ZoneTypeNode api) (GetPodTopologyResult api pod)"

record numaNode =
  numa_name :: string
  numa_allocatable :: Resource
  numa_requested :: Resource

definition newNumaNode :: "'q topo_api \<Rightarrow> 'q Zone \<Rightarrow> numaNode" where
  "newNumaNode api zone =
     (let allocatable = (case zone_Resources zone of None \<Rightarrow> None | Some info \<Rightarrow> info_Allocatable info)
      in \<lparr>numa_name = zone_Name zone, numa_allocatable = res_new api allocatable,
          numa_requested = zero_resource\<rparr>)"

definition addResource :: "'q topo_api \<Rightarrow> numaNode \<Rightarrow> 'q ResourceInfo option \<Rightarrow> numaNode" where
  "addResource api nn info =
     (case info of
        None \<Rightarrow> nn
      | Some i \<Rightarrow> nn\<lparr>numa_requested := res_add api (numa_requested nn) (info_Capacity i)\<rparr>)"

text \<open>\<open>getAssumedPodTopology\<close> is an argument of the operations that call it.\<close>

record 'q nodeWrapper =
  nw_aware :: bool
  nw_node :: string
  nw_numaNodes :: "numaNode list"
  nw_topologyAwareResources :: "string list"
  nw_result :: "'q Zone list"

definition newNodeWrapper ::
  "'q topo_api \<Rightarrow> string \<Rightarrow> string list \<Rightarrow> 'q Zone list \<Rightarrow> 'q nodeWrapper" where
  "newNodeWrapper api node resourceNames zones =
     \<lparr>nw_aware = False, nw_node = node, nw_numaNodes = map (newNumaNode api) zones,
      nw_topologyAwareResources = resourceNames, nw_result = []\<rparr>"

definition addNUMAResources :: "'q topo_api \<Rightarrow> 'q nodeWrapper \<Rightarrow> 'q Zone list \<Rightarrow> 'q nodeWrapper" where
  "addNUMAResources api nw numaNodeResult =
     foldl (\<lambda>nw result.
        nw\<lparr>nw_numaNodes :=
             map (\<lambda>node. if numa_name node = zone_Name result then addResource api node (zone_Resources result)
                         else node) (nw_numaNodes nw)\<rparr>) nw numaNodeResult"

definition addPod ::
  "'q topo_api \<Rightarrow> ('a Pod_scheme \<Rightarrow> 'q Zone list fallible) \<Rightarrow> 'a Pod_scheme \<Rightarrow> 'q nodeWrapper \<Rightarrow>
   'q nodeWrapper" where
  "addPod api getAssumedPodTopology pod nw =
     (let numaNodeResult = GetPodNUMANodeResult api pod in
      if length numaNodeResult = 0 then
        (case getAssumedPodTopology pod of
           Inl err \<Rightarrow> nw
         | Inr numaNodeResult \<Rightarrow> addNUMAResources api nw numaNodeResult)
      else addNUMAResources api nw numaNodeResult)"

definition computeContainerSpecifiedResourceRequest ::
  "'q topo_api \<Rightarrow> 'q TopoPod \<Rightarrow> nat list \<Rightarrow> string list \<Rightarrow> Resource" where
  "computeContainerSpecifiedResourceRequest api pod indices names =
     foldl (\<lambda>result idx.
        res_add api result
          (Some (filter (\<lambda>e. fst e \<in> set names) (entries (con_Requests (pod_Containers pod ! idx))))))
       zero_resource indices"

record InsufficientResource =
  insuf_ResourceName :: string
  insuf_Reason :: string
  insuf_Requested :: int
  insuf_Used :: int
  insuf_Capacity :: int

definition resource_is_zero :: "Resource \<Rightarrow> bool" where
  "resource_is_zero r \<longleftrightarrow> res_MilliCPU r = 0 \<and> res_Memory r = 0 \<and> res_EphemeralStorage r = 0 \<and>
     entries (res_ScalarResources r) = []"

definition check_fits :: "string \<Rightarrow> int \<Rightarrow> int \<Rightarrow> int \<Rightarrow> InsufficientResource list" where
  "check_fits name requested capacity used =
     (if requested > wrap64 (capacity - used) then
        [\<lparr>insuf_ResourceName = name, insuf_Reason = ''Insufficient '' @ name @ '' of NUMA node'',
          insuf_Requested = requested, insuf_Used = used, insuf_Capacity = capacity\<rparr>]
      else [])"

definition fitsRequestForNUMANode :: "Resource \<Rightarrow> numaNode \<Rightarrow> InsufficientResource list" where
  "fitsRequestForNUMANode podRequest node =
     (let allocatable = numa_allocatable node; requested = numa_requested node in
      if resource_is_zero podRequest then []
      else
        check_fits ''cpu'' (res_MilliCPU podRequest) (res_MilliCPU allocatable) (res_MilliCPU requested) @
        check_fits ''memory'' (res_Memory podRequest) (res_Memory allocatable) (res_Memory requested) @
        check_fits ''ephemeral-storage'' (res_EphemeralStorage podRequest)
          (res_EphemeralStorage allocatable) (res_EphemeralStorage requested) @
        concat (map (\<lambda>(rName, rQuant). check_fits rName rQuant (scalar allocatable rName) (scalar requested rName))
          (entries (res_ScalarResources podRequest))))"

definition go_min :: "int \<Rightarrow> int \<Rightarrow> int" where
  "go_min a b = (if a < b then a else b)"

text \<open>The loop over the scalar resources: the request, the result and whether everything is assigned.
  The result's map is nil, so the first assignment to it panics.\<close>

fun assign_scalars ::
  "Resource \<Rightarrow> Resource \<Rightarrow> (string \<times> int) list \<Rightarrow> Resource \<Rightarrow> Resource \<Rightarrow> bool \<Rightarrow>
   (Resource \<times> Resource \<times> bool) outcome" where
  "assign_scalars allocatable requested [] podRequest res finished = Ok (podRequest, res, finished)"
| "assign_scalars allocatable requested ((rName, rQuant) # rs) podRequest res finished =
     (let assigned = go_min rQuant (wrap64 (scalar allocatable rName - scalar requested rName));
          left = wrap64 (scalar podRequest rName - assigned);
          podRequest = podRequest\<lparr>res_ScalarResources :=
            Some (AList.update rName left (entries (res_ScalarResources podRequest)))\<rparr>
      in case res_ScalarResources res of
           None \<Rightarrow> Panic NilMapWrite
         | Some m \<Rightarrow>
             assign_scalars allocatable requested rs podRequest
               (res\<lparr>res_ScalarResources := Some (AList.update rName assigned m)\<rparr>)
               (if left > 0 then False else finished))"

text \<open>The amount assigned, the rest of the request (returned in place of the mutated argument), and
  whether the request is finished. A request of nothing assigns nothing and does not count as
  finished.\<close>

definition assignRequestForNUMANode ::
  "Resource \<Rightarrow> numaNode \<Rightarrow> (Resource option \<times> Resource \<times> bool) outcome" where
  "assignRequestForNUMANode podRequest node =
     (if resource_is_zero podRequest then Ok (None, podRequest, False)
      else
        (let allocatable = numa_allocatable node; requested = numa_requested node;
             cpu = go_min (res_MilliCPU podRequest)
                     (wrap64 (res_MilliCPU allocatable - res_MilliCPU requested));
             mem = go_min (res_Memory podRequest) (wrap64 (res_Memory allocatable - res_Memory requested));
             eph = go_min (res_EphemeralStorage podRequest)
                     (wrap64 (res_EphemeralStorage allocatable - res_EphemeralStorage requested));
             rest = podRequest\<lparr>res_MilliCPU := wrap64 (res_MilliCPU podRequest - cpu),
                      res_Memory := wrap64 (res_Memory podRequest - mem),
                      res_EphemeralStorage := wrap64 (res_EphemeralStorage podRequest - eph)\<rparr>;
             res = zero_resource\<lparr>res_MilliCPU := cpu, res_Memory := mem, res_EphemeralStorage := eph\<rparr>;
             finished = (\<not> res_MilliCPU rest > 0 \<and> \<not> res_Memory rest > 0 \<and> \<not> res_EphemeralStorage rest > 0)
         in obind (assign_scalars allocatable requested (entries (res_ScalarResources podRequest))
                     rest res finished) (\<lambda>(rest, res, finished). Ok (Some res, rest, finished))))"

text \<open>The quantity stored for memory is built from the CPU field.\<close>

definition ResourceListIgnoreZeroResources :: "'q topo_api \<Rightarrow> Resource option \<Rightarrow> 'q resource_list" where
  "ResourceListIgnoreZeroResources api r =
     (case r of
        None \<Rightarrow> None
      | Some r \<Rightarrow>
          let m = (if res_MilliCPU r > 0 then [(''cpu'', q_new_milli api (res_MilliCPU r))] else []);
              m = (if res_Memory r > 0 then AList.update ''memory'' (q_new_binary api (res_MilliCPU r)) m else m);
              m = (if res_AllowedPodNumber r > 0
                   then AList.update ''pods'' (q_new_binary api (res_AllowedPodNumber r)) m else m);
              m = (if res_EphemeralStorage r > 0
                   then AList.update ''ephemeral-storage'' (q_new_binary api (res_EphemeralStorage r)) m else m)
          in Some (foldl (\<lambda>m (rName, rQuant).
                 if rQuant > 0 then
                   AList.update rName
                     (if is_hugepage api rName then q_new_binary api rQuant else q_new_decimal api rQuant) m
                 else m) m (entries (res_ScalarResources r))))"

definition freeCPU :: "numaNode \<Rightarrow> int" where
  "freeCPU node = wrap64 (res_MilliCPU (numa_allocatable node) - res_MilliCPU (numa_requested node))"

definition numa_zone :: "'q topo_api \<Rightarrow> string \<Rightarrow> 'q resource_list \<Rightarrow> 'q Zone" where
  "numa_zone api name capacity =
     \<lparr>zone_Name = name, zone_Type = api_ZoneTypeNode api,
      zone_Resources = Some \<lparr>info_Capacity = capacity, info_Allocatable = None\<rparr>\<rparr>"

text \<open>\<open>node.allocatable.MilliCPU / 1000 * 1000\<close>: whole CPUs only.\<close>

definition whole_cpus :: "numaNode \<Rightarrow> numaNode" where
  "whole_cpus node =
     node\<lparr>numa_allocatable := (numa_allocatable node)\<lparr>res_MilliCPU :=
            wrap64 (wrap64 (res_MilliCPU (numa_allocatable node) sdiv 1000) * 1000)\<rparr>\<rparr>"

text \<open>The loop of the pod that may span NUMA nodes: the nodes visited so far (their allocatable CPUs
  rounded), the rest of the request and the result.\<close>

fun assign_loop ::
  "'q topo_api \<Rightarrow> Resource \<Rightarrow> numaNode list \<Rightarrow> 'q Zone list \<Rightarrow> (numaNode list \<times> 'q Zone list) outcome" where
  "assign_loop api request [] result = Ok ([], result)"
| "assign_loop api request (node # nodes) result =
     (let node = whole_cpus node in
      obind (assignRequestForNUMANode request node) (\<lambda>(res, rest, finished).
        let capacity = ResourceListIgnoreZeroResources api res;
            result = (if entries capacity \<noteq> [] then result @ [numa_zone api (numa_name node) capacity]
                      else result)
        in if finished then Ok (node # nodes, result)
           else omap (\<lambda>(ns, r). (node # ns, r)) (assign_loop api rest nodes result)))"

definition assignTopologyResult ::
  "'q topo_api \<Rightarrow> 'q nodeWrapper \<Rightarrow> Resource \<Rightarrow> 'q nodeWrapper outcome" where
  "assignTopologyResult api nw request =
     (let nodes = sort_slice (\<lambda>i j. freeCPU i > freeCPU j) (nw_numaNodes nw) in
      if nw_aware nw then
        (if nodes = [] then Panic IndexOutOfRange
         else Ok (nw\<lparr>nw_numaNodes := nodes,
                    nw_result := [numa_zone api (numa_name (nodes ! 0))
                                    (ResourceListIgnoreZeroResources api (Some request))]\<rparr>))
      else
        omap (\<lambda>(nodes, result).
            nw\<lparr>nw_numaNodes := nodes,
               nw_result := sort_slice (\<lambda>a b. str_less (zone_Name a) (zone_Name b)) result\<rparr>)
          (assign_loop api request nodes (nw_result nw)))"

section \<open>plugin.go\<close>

abbreviation topology_plugin_Name :: string where
  "topology_plugin_Name \<equiv> ''NodeResourceTopologyMatch''"

record 'q stateData =
  st_aware :: "bool option"
  st_targetContainerIndices :: "nat list"
  st_targetContainerResource :: Resource
  st_podTopologyByNode :: "(string \<times> 'q nodeWrapper) list"
  st_topologyResult :: "'q Zone list"

text \<open>Of a cycle's state only the entry under the plugin's key matters: none, the plugin's data, or
  data of another type, of which the text that \<open>%+v\<close> prints is kept.\<close>

datatype 'q cycle_state = NoData | StateData "'q stateData" | OtherData string

definition getStateData :: "'q cycle_state \<Rightarrow> 'q stateData fallible" where
  "getStateData state =
     (case state of
        NoData \<Rightarrow> Inl (Wrap (''failed to read '' @ [CHR 0x22] @ topology_plugin_Name @ [CHR 0x22] @
                    '' from cycleState: '') (External ''not found''))
      | OtherData c \<Rightarrow> Inl (Plain (c @ '' convert to NodeResourcesTopology.stateData error''))
      | StateData s \<Rightarrow> Inr s)"

record 'q TopologyMatch =
  tm_PodTopologyCache :: "'q Zone list podTopologyCacheImpl"
  tm_lister :: "string \<Rightarrow> 'q NodeResourceTopology fallible"
  tm_topologyAwareResources :: "string list"

text \<open>A client set of the topology API is what a lister that is in sync with it answers. The informer's context is never cancelled, so
  \<open>initTopologyInformer\<close> waits until the lister is in sync and has no error of its own. In \<open>New\<close> the result of building the
  client set, a client or an error, is the parameter.\<close>

type_synonym 'q topology_client = "string \<Rightarrow> 'q NodeResourceTopology fallible"

definition initTopologyInformer ::
  "'q topology_client \<Rightarrow> (string \<Rightarrow> 'q NodeResourceTopology fallible) fallible" where
  [simp]: "initTopologyInformer client = Inr client"

definition TopologyMatch_New ::
  "'q topology_client fallible \<Rightarrow> runtime_object \<Rightarrow> 'q TopologyMatch fallible" where
  "TopologyMatch_New client args =
     (case args of
        TopologyArgsObject cfg \<Rightarrow>
          (case client of
             Inl err \<Rightarrow> Inl err
           | Inr client \<Rightarrow>
               (case initTopologyInformer client of
                  Inl err \<Rightarrow> Inl err
                | Inr lister \<Rightarrow>
                    Inr \<lparr>tm_PodTopologyCache = NewPodTopologyCache (30 * minute), tm_lister = lister,
                         tm_topologyAwareResources = nrt_TopologyAwareResources cfg\<rparr>))
      | _ \<Rightarrow> Inl (Plain (''want args to be of type NodeResourceTopologyMatchArgs, got '' @ type_name args)))"

section \<open>filter.go\<close>

abbreviation ErrReasonNUMAResourceNotEnough :: string where
  "ErrReasonNUMAResourceNotEnough \<equiv> ''node(s) had insufficient resource of NUMA node''"

abbreviation ErrReasonFailedToGetNRT :: string where
  "ErrReasonFailedToGetNRT \<equiv> ''node(s) failed to get NRT''"

record 'q NodeInfo =
  ni_Node :: "Node option"
  ni_Pods :: "'q TopoPod list"

definition Topology_PreFilter ::
  "'q topo_api \<Rightarrow> 'q TopologyMatch \<Rightarrow> 'q TopoPod \<Rightarrow> 'q cycle_state \<times> Status" where
  "Topology_PreFilter api tm pod =
     (let indices = (if ''cpu'' \<in> set (tm_topologyAwareResources tm) then GetPodTargetContainerIndices api pod
                     else []);
          resources = computeContainerSpecifiedResourceRequest api pod indices (tm_topologyAwareResources tm)
      in (StateData \<lparr>st_aware = IsPodAwareOfTopology api (pod_Annotations pod),
                     st_targetContainerIndices = indices, st_targetContainerResource = resources,
                     st_podTopologyByNode = [], st_topologyResult = []\<rparr>, NilStatus))"

definition isNodeAwareOfTopology :: "'q topo_api \<Rightarrow> 'q NodeResourceTopology \<Rightarrow> bool" where
  "isNodeAwareOfTopology api nrt = (topo_TopologyManagerPolicy nrt = api_SingleNUMANodePodLevel api)"

definition initializeNodeWrapper ::
  "'q topo_api \<Rightarrow> ('q TopoPod \<Rightarrow> string fallible) \<Rightarrow> 'q TopologyMatch \<Rightarrow> 'q stateData \<Rightarrow> Node \<Rightarrow>
   'q TopoPod list \<Rightarrow> 'q NodeResourceTopology \<Rightarrow> 'q nodeWrapper" where
  "initializeNodeWrapper api pod_key tm state node pods nrt =
     (let nw = newNodeWrapper api (node_Name node) (tm_topologyAwareResources tm) (topo_Zones nrt);
          nw = foldl (\<lambda>nw pod. addPod api (GetPodTopology pod_key (tm_PodTopologyCache tm)) pod nw) nw pods
      in case st_aware state of
           Some aware \<Rightarrow> nw\<lparr>nw_aware := aware\<rparr>
         | None \<Rightarrow> nw\<lparr>nw_aware := isNodeAwareOfTopology api nrt\<rparr>)"

definition filterNUMANodeResource :: "'q stateData \<Rightarrow> 'q nodeWrapper \<Rightarrow> 'q nodeWrapper \<times> Status" where
  "filterNUMANodeResource state nw =
     (let res = filter (\<lambda>n. fitsRequestForNUMANode (st_targetContainerResource state) n = []) (nw_numaNodes nw)
      in if length res = 0 then (nw, NewStatus Unschedulable ErrReasonNUMAResourceNotEnough)
         else (nw\<lparr>nw_numaNodes := res\<rparr>, NilStatus))"

text \<open>The end of \<open>Filter\<close>: the result is computed and stored under the node's name.\<close>

definition record_topology ::
  "'q topo_api \<Rightarrow> 'q stateData \<Rightarrow> 'q nodeWrapper \<Rightarrow> ('q cycle_state \<times> Status) outcome" where
  "record_topology api s nw =
     obind (assignTopologyResult api nw (st_targetContainerResource s)) (\<lambda>nw.
       Ok (StateData (s\<lparr>st_podTopologyByNode := AList.update (nw_node nw) nw (st_podTopologyByNode s)\<rparr>),
           NilStatus))"

definition Topology_Filter ::
  "'q topo_api \<Rightarrow> ('q TopoPod \<Rightarrow> string fallible) \<Rightarrow> 'q TopologyMatch \<Rightarrow> 'q cycle_state \<Rightarrow> 'q TopoPod \<Rightarrow>
   'q NodeInfo \<Rightarrow> ('q cycle_state \<times> Status) outcome" where
  "Topology_Filter api pod_key tm state pod nodeInfo =
     (case getStateData state of
        Inl err \<Rightarrow> Ok (state, AsStatus err)
      | Inr s \<Rightarrow>
         (case ni_Node nodeInfo of
            None \<Rightarrow> Ok (state, NewStatus Error ''node(s) not found'')
          | Some node \<Rightarrow>
              if IsDaemonsetPod pod \<or> length (st_targetContainerIndices s) = 0 then Ok (state, NilStatus)
              else
               (case tm_lister tm (node_Name node) of
                  Inl err \<Rightarrow> Ok (state, NewStatus Unschedulable ErrReasonFailedToGetNRT)
                | Inr nrt \<Rightarrow>
                    if topo_CPUManagerPolicy nrt \<noteq> api_CPUManagerPolicyStatic api then Ok (state, NilStatus)
                    else
                      let nw = initializeNodeWrapper api pod_key tm s node (ni_Pods nodeInfo) nrt in
                      if nw_aware nw then
                        (case filterNUMANodeResource s nw of
                           (nw, NilStatus) \<Rightarrow> record_topology api s nw
                         | (nw, status) \<Rightarrow> Ok (state, status))
                      else record_topology api s nw)))"

section \<open>scorer.go, reserver.go and binder.go\<close>

definition Topology_Score :: "'q cycle_state \<Rightarrow> string \<Rightarrow> (int \<times> Status) outcome" where
  "Topology_Score state nodeName =
     (case getStateData state of
        Inl err \<Rightarrow> Ok (0, AsStatus err)
      | Inr s \<Rightarrow>
         (case map_of (st_podTopologyByNode s) nodeName of
            None \<Rightarrow> Ok (0, NilStatus)
          | Some nw \<Rightarrow> omap (\<lambda>q. (q, NilStatus)) (go_div MaxNodeScore (int (length (nw_result nw))))))"

definition Topology_Reserve ::
  "('q TopoPod \<Rightarrow> string fallible) \<Rightarrow> instant \<Rightarrow> 'q TopologyMatch \<Rightarrow> 'q cycle_state \<Rightarrow> 'q TopoPod \<Rightarrow> string \<Rightarrow>
   'q TopologyMatch \<times> 'q cycle_state \<times> Status" where
  "Topology_Reserve pod_key now tm state pod nodeName =
     (case getStateData state of
        Inl err \<Rightarrow> (tm, state, AsStatus err)
      | Inr s \<Rightarrow>
         (case map_of (st_podTopologyByNode s) nodeName of
            None \<Rightarrow> (tm, state, NilStatus)
          | Some nw \<Rightarrow>
              if length (nw_result nw) = 0
              then (tm, state, NewStatus Error ''node(s) topology result is empty'')
              else
                let s = s\<lparr>st_topologyResult := nw_result nw\<rparr> in
                case AssumePod pod_key now (tm_PodTopologyCache tm) pod (st_topologyResult s) of
                  (cache, Some err) \<Rightarrow> (tm\<lparr>tm_PodTopologyCache := cache\<rparr>, StateData s, AsStatus err)
                | (cache, None) \<Rightarrow> (tm\<lparr>tm_PodTopologyCache := cache\<rparr>, StateData s, NilStatus)))"

definition Topology_Unreserve ::
  "('q TopoPod \<Rightarrow> string fallible) \<Rightarrow> 'q TopologyMatch \<Rightarrow> 'q cycle_state \<Rightarrow> 'q TopoPod \<Rightarrow> string \<Rightarrow>
   'q TopologyMatch" where
  "Topology_Unreserve pod_key tm state pod nodeName =
     (case getStateData state of
        Inl err \<Rightarrow> tm
      | Inr s \<Rightarrow>
         (case map_of (st_podTopologyByNode s) nodeName of
            None \<Rightarrow> tm
          | Some nw \<Rightarrow> tm\<lparr>tm_PodTopologyCache := fst (ForgetPod pod_key (tm_PodTopologyCache tm) pod)\<rparr>))"

text \<open>The pod with the result written into its annotations; a nil map is made first.\<close>

definition with_topology_result :: "'q topo_api \<Rightarrow> string \<Rightarrow> 'a Pod_scheme \<Rightarrow> 'a Pod_scheme" where
  "with_topology_result api result pod =
     pod\<lparr>pod_Annotations := anno_put (pod_Annotations pod) (api_TopologyResultKey api) result\<rparr>"

definition Topology_PreBind ::
  "'q topo_api \<Rightarrow> client \<Rightarrow> 'q cycle_state \<Rightarrow> 'q TopoPod \<Rightarrow> patch_request list \<times> Status" where
  "Topology_PreBind api client state pod =
     (case getStateData state of
        Inl err \<Rightarrow> ([], AsStatus err)
      | Inr s \<Rightarrow>
          if length (st_topologyResult s) = 0 then ([], NilStatus)
          else
           (case json_of_zones api (st_topologyResult s) of
              Inl err \<Rightarrow> ([], AsStatus err)
            | Inr result \<Rightarrow>
               (case json_of_pod api pod of
                  Inl err \<Rightarrow> ([], AsStatus err)
                | Inr oldData \<Rightarrow>
                   (case json_of_pod api (with_topology_result api result pod) of
                      Inl err \<Rightarrow> ([], AsStatus err)
                    | Inr newData \<Rightarrow>
                       (case create_merge_patch api oldData newData of
                          Inl err \<Rightarrow> ([], AsStatus (Wrap ''failed to create merge patch: '' err))
                        | Inr patchBytes \<Rightarrow>
                            let req = \<lparr>patch_target = PatchPod (pod_Namespace pod) (pod_Name pod),
                                       patch_kind = MergePatchType, patch_data = patchBytes\<rparr>
                            in ([req], case client req of None \<Rightarrow> NilStatus | Some err \<Rightarrow> AsStatus err))))))"

section \<open>Sorting\<close>

lemma mset_insert_back [simp]: "mset (insert_back lt x ys) = add_mset x (mset ys)"
  by (induction ys) auto

lemma set_insert_back [simp]: "set (insert_back lt x ys) = insert x (set ys)"
  by (induction ys) auto

lemma mset_shell_pass [simp]: "mset (shell_pass lt xs) = mset xs"
proof -
  have "set is \<subseteq> {6..<length ys} \<Longrightarrow>
    mset (foldl (\<lambda>ys i. if lt (ys ! i) (ys ! (i - 6)) then swap ys i (i - 6) else ys) ys is) = mset ys" for "is" ys
  proof (induction "is" arbitrary: ys)
    case (Cons i "is")
    then have "mset (swap ys i (i - 6)) = mset ys" by (intro mset_swap_eq) auto
    with Cons show ?case by simp
  qed simp
  then show ?thesis by (simp add: shell_pass_def)
qed

lemma mset_sort_slice [simp]: "mset (sort_slice lt xs) = mset xs"
proof -
  have "mset (foldl (\<lambda>acc x. insert_back lt x acc) acc ys) = mset acc + mset ys" for acc ys
    by (induction ys arbitrary: acc) auto
  then show ?thesis by (simp add: sort_slice_def)
qed

lemma set_sort_slice [simp]: "set (sort_slice lt xs) = set xs"
  using mset_eq_setD [OF mset_sort_slice] .

lemma length_sort_slice [simp]: "length (sort_slice lt xs) = length xs"
  using mset_eq_length [OF mset_sort_slice] .

lemma sort_slice_Nil_iff [simp]: "sort_slice lt xs = [] \<longleftrightarrow> xs = []"
  using length_sort_slice [of lt xs] by (metis length_0_conv)

context heap_order
begin

lemma insert_back_sorted:
  "sorted_wrt (\<lambda>a b. \<not> lt a b) ys \<Longrightarrow> sorted_wrt (\<lambda>a b. \<not> lt a b) (insert_back lt x ys)"
proof (induction ys)
  case (Cons y ys)
  show ?case
  proof (cases "lt x y")
    case True
    then show ?thesis using Cons asym [of x y] by auto
  next
    case False
    have "\<not> lt x z" if "z \<in> set ys" for z
      using not_trans [OF False, of z] that Cons.prems by simp
    with False Cons.prems show ?thesis by simp
  qed
qed simp

lemma sort_slice_sorted: "sorted_wrt (\<lambda>a b. \<not> lt b a) (sort_slice lt xs)"
proof -
  have "sorted_wrt (\<lambda>a b. \<not> lt a b) acc \<Longrightarrow>
    sorted_wrt (\<lambda>a b. \<not> lt a b) (foldl (\<lambda>acc x. insert_back lt x acc) acc ys)" for acc ys
    by (induction ys arbitrary: acc) (auto intro: insert_back_sorted)
  then show ?thesis by (simp add: sort_slice_def sorted_wrt_rev)
qed

lemma sort_slice_first: "xs \<noteq> [] \<Longrightarrow> m \<in> set xs \<Longrightarrow> \<not> lt m (sort_slice lt xs ! 0)"
proof -
  assume "xs \<noteq> []" "m \<in> set xs"
  then obtain y ys where ys: "sort_slice lt xs = y # ys" "m \<in> set (y # ys)"
    by (metis neq_Nil_conv set_sort_slice sort_slice_Nil_iff)
  have "sorted_wrt (\<lambda>a b. \<not> lt b a) (y # ys)" using sort_slice_sorted [of xs] by (simp only: ys)
  then show ?thesis using ys irrefl by auto
qed

end

interpretation by_free_cpu: heap_order "\<lambda>i j. freeCPU i > freeCPU j"
  by unfold_locales auto

lemma str_less_asym: "str_less a b \<Longrightarrow> \<not> str_less b a"
  by (induction a b rule: str_less.induct) (auto split: if_splits)

lemma str_less_not_trans: "\<not> str_less a b \<Longrightarrow> \<not> str_less b c \<Longrightarrow> \<not> str_less a c"
proof (induction a c arbitrary: b rule: str_less.induct)
  case (2 c cs)
  then show ?case by (cases b) auto
next
  case (3 x xs y ys)
  then show ?case by (cases b) (auto split: if_splits)
qed simp

interpretation by_zone_name: heap_order "\<lambda>a b. str_less (zone_Name a) (zone_Name b)"
  by unfold_locales (auto dest: str_less_asym str_less_not_trans)

section \<open>Distributing CPUs over NUMA nodes\<close>

text \<open>The specification: take as much as is free, node after node, until nothing is left.\<close>

fun greedy :: "int \<Rightarrow> (string \<times> int) list \<Rightarrow> (string \<times> int) list" where
  "greedy c [] = []"
| "greedy c ((n, f) # fs) =
     (if c \<le> 0 then []
      else (if 0 < min c f then [(n, min c f)] else []) @ greedy (c - min c f) fs)"

lemma greedy_total:
  "0 \<le> c \<Longrightarrow> \<forall>e \<in> set fs. 0 \<le> snd e \<Longrightarrow>
   sum_list (map snd (greedy c fs)) = min c (sum_list (map snd fs))"
proof (induction c fs rule: greedy.induct)
  case (2 c n f fs)
  have "0 \<le> sum_list (map snd fs)" using "2.prems" by (intro sum_list_nonneg) auto
  with 2 show ?case by (auto simp: min_def)
qed simp

lemma greedy_bounds: "(n, a) \<in> set (greedy c fs) \<Longrightarrow> 0 < a \<and> (\<exists>f. (n, f) \<in> set fs \<and> a \<le> f)"
proof (induction c fs rule: greedy.induct)
  case (2 c m f fs)
  then show ?case by (auto split: if_splits)
qed simp

lemma take_desc_Cons:
  fixes x :: int
  shows "sorted_wrt (\<ge>) (x # xs) \<Longrightarrow> k \<le> length xs \<Longrightarrow> sum_list (take k xs) \<le> sum_list (take k (x # xs))"
proof (induction k arbitrary: x xs)
  case (Suc k)
  then obtain y ys where xs: "xs = y # ys" by (cases xs) auto
  have "sum_list (take k ys) \<le> sum_list (take k (y # ys))" using Suc.IH [of y ys] Suc.prems xs by simp
  then show ?case using Suc.prems xs by simp
qed simp

lemma sum_list_take_desc:
  fixes ys xs :: "int list"
  assumes "mset ys \<subseteq># mset xs" "sorted_wrt (\<ge>) xs"
  shows "sum_list ys \<le> sum_list (take (length ys) xs)"
  using assms
proof (induction xs arbitrary: ys)
  case (Cons x xs)
  show ?case
  proof (cases "x \<in> set ys")
    case True
    then obtain k where k: "length ys = Suc k" by (cases ys) auto
    have "mset (remove1 x ys) \<subseteq># mset xs" using Cons.prems(1) by (simp add: subset_eq_diff_conv)
    from Cons.IH [OF this] Cons.prems(2) show ?thesis
      using True k by (simp add: sum_list_map_remove1 [of x ys id, simplified] length_remove1)
  next
    case False
    then have sub: "mset ys \<subseteq># mset xs" 
      using Cons.prems(1) subset_eq_diff_conv [of "mset ys" "{#x#}" "mset xs"]
      by (simp add: diff_single_trivial)
    have IH: "sum_list ys \<le> sum_list (take (length ys) xs)" using Cons.IH [OF sub] Cons.prems(2) by simp
    have "length ys \<le> length xs" using size_mset_mono [OF sub] by simp
    then have "sum_list (take (length ys) xs) \<le> sum_list (take (length ys) (x # xs))"
      by (rule take_desc_Cons [OF Cons.prems(2)])
    with IH show ?thesis by (rule order_trans)
  qed
qed simp

text \<open>The distribution uses no more nodes than the shortest prefix that is large enough.\<close>

lemma greedy_length:
  "\<forall>e \<in> set fs. 0 \<le> snd e \<Longrightarrow> c \<le> sum_list (take k (map snd fs)) \<Longrightarrow> length (greedy c fs) \<le> k"
proof (induction c fs arbitrary: k rule: greedy.induct)
  case (2 c n f fs)
  show ?case
  proof (cases "c \<le> 0")
    case False
    with 2 obtain k' where k: "k = Suc k'" by (cases k) auto
    have "0 \<le> sum_list (take k' (map snd fs))"
      using "2.prems"(1) by (intro sum_list_nonneg) (auto dest!: in_set_takeD)
    then have "length (greedy (c - min c f) fs) \<le> k'"
      using "2.prems" k by (intro "2.IH" [OF False]) (auto simp: min_def)
    then show ?thesis using False k by (auto simp: min_def split: if_splits)
  qed simp
qed simp

lemma greedy_fewest:
  assumes "\<forall>e \<in> set fs. 0 \<le> snd e" "sorted_wrt (\<ge>) (map snd fs)"
    and "mset ys \<subseteq># mset (map snd fs)" "c \<le> sum_list ys"
  shows "length (greedy c fs) \<le> length ys"
  using greedy_length [OF assms(1)] sum_list_take_desc [OF assms(3,2)] assms(4) by simp

section \<open>The loop implements the distribution\<close>

text \<open>With the default configuration only CPUs are managed, so a request has nothing else.\<close>

definition cpu_request :: "int \<Rightarrow> Resource" where
  "cpu_request c = zero_resource\<lparr>res_MilliCPU := c\<rparr>"

definition cpu_zone :: "'q topo_api \<Rightarrow> string \<times> int \<Rightarrow> 'q Zone" where
  "cpu_zone api e = numa_zone api (fst e) (Some [(''cpu'', q_new_milli api (snd e))])"

text \<open>A node whose counters are not overdrawn.\<close>

definition not_overdrawn :: "numaNode \<Rightarrow> bool" where
  "not_overdrawn n \<longleftrightarrow> 0 \<le> freeCPU (whole_cpus n) \<and>
     0 \<le> wrap64 (res_Memory (numa_allocatable n) - res_Memory (numa_requested n)) \<and>
     0 \<le> wrap64 (res_EphemeralStorage (numa_allocatable n) - res_EphemeralStorage (numa_requested n))"

definition free_entry :: "numaNode \<Rightarrow> string \<times> int" where
  "free_entry n = (numa_name n, freeCPU (whole_cpus n))"

lemma cpu_request_is_zero [simp]: "resource_is_zero (cpu_request c) \<longleftrightarrow> c = 0"
  by (simp add: resource_is_zero_def cpu_request_def zero_resource_def entries_def)

lemma go_min_eq [simp]: "go_min a b = min a b"
  by (simp add: go_min_def min_def)

lemma assign_cpu_request_node:
  assumes "0 < c" "int64 c" "0 \<le> freeCPU m"
    "0 \<le> wrap64 (res_Memory (numa_allocatable m) - res_Memory (numa_requested m))"
    "0 \<le> wrap64 (res_EphemeralStorage (numa_allocatable m) - res_EphemeralStorage (numa_requested m))"
  shows "assignRequestForNUMANode (cpu_request c) m =
    Ok (Some (cpu_request (min c (freeCPU m))), cpu_request (c - min c (freeCPU m)), c \<le> freeCPU m)"
proof -
  have w: "wrap64 (c - min c (freeCPU m)) = c - min c (freeCPU m)"
    using assms(1,2,3) by (intro wrap64_id) (auto simp: int64_def min_def)
  have "assignRequestForNUMANode (cpu_request c) m =
    Ok (Some (cpu_request (min c (freeCPU m))), cpu_request (c - min c (freeCPU m)), \<not> 0 < c - min c (freeCPU m))"
    unfolding assignRequestForNUMANode_def Let_def freeCPU_def [symmetric] go_min_eq
    using assms by (simp add: cpu_request_def zero_resource_def entries_def resource_is_zero_def w min_absorb1)
  then show ?thesis by (simp add: min_def)
qed

lemma assign_cpu_request:
  assumes "0 < c" "int64 c" "not_overdrawn n"
  shows "assignRequestForNUMANode (cpu_request c) (whole_cpus n) =
    Ok (Some (cpu_request (min c (freeCPU (whole_cpus n)))), cpu_request (c - min c (freeCPU (whole_cpus n))),
        c \<le> freeCPU (whole_cpus n))"
  using assms by (intro assign_cpu_request_node) (auto simp: not_overdrawn_def whole_cpus_def)

lemma cpu_request_zones:
  "ResourceListIgnoreZeroResources api (Some (cpu_request a)) =
     Some (if 0 < a then [(''cpu'', q_new_milli api a)] else [])"
  by (simp add: ResourceListIgnoreZeroResources_def cpu_request_def zero_resource_def entries_def Let_def)

lemma whole_cpus_name [simp]: "numa_name (whole_cpus n) = numa_name n"
  by (simp add: whole_cpus_def)

lemma cpu_zone_fold: "numa_zone api n (Some [(''cpu'', q_new_milli api a)]) = cpu_zone api (n, a)"
  by (simp add: cpu_zone_def)

lemma assign_loop_zero:
  "assign_loop api (cpu_request 0) ns result = Ok (map whole_cpus ns, result)"
  by (induction ns) (auto simp: assignRequestForNUMANode_def Let_def ResourceListIgnoreZeroResources_def entries_def)

lemma assign_loop_greedy:
  assumes "0 \<le> c" "int64 c" "\<forall>n \<in> set ns. not_overdrawn n"
  shows "\<exists>ns'. assign_loop api (cpu_request c) ns result =
    Ok (ns', result @ map (cpu_zone api) (greedy c (map free_entry ns)))"
  using assms
proof (induction ns arbitrary: c result)
  case (Cons n ns)
  show ?case
  proof (cases "c = 0")
    case True
    then show ?thesis by (simp add: assign_loop_zero free_entry_def del: assign_loop.simps)
  next
    case False
    let ?f = "freeCPU (whole_cpus n)" and ?r = "c - min c (freeCPU (whole_cpus n))"
    have pos: "0 < c" and f: "0 \<le> ?f" using False Cons.prems by (auto simp: not_overdrawn_def)
    have r: "0 \<le> ?r" "int64 ?r" using pos f Cons.prems(2) by (auto simp: int64_def min_def)
    have step: "assignRequestForNUMANode (cpu_request c) (whole_cpus n) =
        Ok (Some (cpu_request (min c ?f)), cpu_request ?r, c \<le> ?f)"
      using assign_cpu_request [OF pos Cons.prems(2)] Cons.prems(3) by simp
    let ?res = "result @ (if 0 < min c ?f then [cpu_zone api (numa_name n, min c ?f)] else [])"
    obtain ns' where "assign_loop api (cpu_request ?r) ns ?res =
        Ok (ns', ?res @ map (cpu_zone api) (greedy ?r (map free_entry ns)))"
      using Cons.IH [OF r, of ?res] Cons.prems(3) by auto
    moreover have "greedy 0 (map free_entry ns) = []" by (cases ns) (auto simp: free_entry_def)
    ultimately show ?thesis
      using pos step
      by (cases "c \<le> ?f")
        (auto simp: Let_def cpu_request_zones entries_def cpu_zone_fold free_entry_def [of n] min_absorb1
          split: if_splits)
  qed
qed simp

text \<open>The CPUs a zone of the result stands for.\<close>

definition zone_cpu :: "'q topo_api \<Rightarrow> 'q Zone \<Rightarrow> int" where
  "zone_cpu api z =
     (case zone_Resources z of None \<Rightarrow> 0 | Some i \<Rightarrow> q_milli api (quantity api (info_Capacity i) ''cpu''))"

abbreviation freeWholeCPU :: "numaNode \<Rightarrow> int" where
  "freeWholeCPU n \<equiv> freeCPU (whole_cpus n)"

lemma zone_cpu_cpu_zone:
  "q_milli api (q_new_milli api (snd e)) = snd e \<Longrightarrow> zone_cpu api (cpu_zone api e) = snd e"
  by (simp add: zone_cpu_def cpu_zone_def numa_zone_def quantity_def entries_def)

lemma cpu_zone_name [simp]: "zone_Name (cpu_zone api e) = fst e"
  by (simp add: cpu_zone_def numa_zone_def)

lemma assign_span_greedy:
  assumes "\<not> nw_aware nw" "nw_result nw = []" "0 \<le> c" "int64 c" "\<forall>n \<in> set (nw_numaNodes nw). not_overdrawn n"
  obtains nw' where "assignTopologyResult api nw (cpu_request c) = Ok nw'"
    "mset (nw_result nw') = mset (map (cpu_zone api)
       (greedy c (map free_entry (sort_slice (\<lambda>i j. freeCPU i > freeCPU j) (nw_numaNodes nw)))))"
proof -
  let ?ns = "sort_slice (\<lambda>i j. freeCPU i > freeCPU j) (nw_numaNodes nw)"
  obtain ns' where "assign_loop api (cpu_request c) ?ns [] =
      Ok (ns', map (cpu_zone api) (greedy c (map free_entry ?ns)))"
    using assign_loop_greedy [OF assms(3,4), of ?ns api "[]"] assms(5) by auto
  then show thesis using assms(1,2) by (intro that) (auto simp: assignTopologyResult_def Let_def)
qed

lemma sum_list_map_mset_eq:
  "mset xs = mset ys \<Longrightarrow> sum_list (map f xs) = (sum_list (map f ys) :: int)"
  by (metis mset_map sum_mset_sum_list)

lemma map_snd_free_entry [simp]: "map snd (map free_entry ns) = map freeWholeCPU ns"
  by (simp add: free_entry_def)

lemma sum_free_entries: "sum_list (map freeWholeCPU (sort_slice lt ns)) = (\<Sum>n\<leftarrow>ns. freeWholeCPU n)"
  by (rule sum_list_map_mset_eq) simp

text \<open>C14. A pod that may span NUMA nodes: with counters that are not overdrawn the zones recorded for a
  request of CPUs add up to the request, or to everything that is free when that is less, and each
  zone takes a positive amount, at most the whole CPUs its NUMA node has free. Quantities are assumed
  to give back the milli-value they were made from.\<close>

theorem numa_span_conserves:
  assumes "\<not> nw_aware nw" "nw_result nw = []" "0 \<le> c" "int64 c"
    and "\<forall>n \<in> set (nw_numaNodes nw). not_overdrawn n"
    and quantity: "\<And>x. q_milli api (q_new_milli api x) = x"
  shows "\<exists>nw'. assignTopologyResult api nw (cpu_request c) = Ok nw' \<and>
    (\<Sum>z\<leftarrow>nw_result nw'. zone_cpu api z) = min c (\<Sum>n\<leftarrow>nw_numaNodes nw. freeWholeCPU n) \<and>
    (\<forall>z \<in> set (nw_result nw'). \<exists>n \<in> set (nw_numaNodes nw).
       zone_Name z = numa_name n \<and> 0 < zone_cpu api z \<and> zone_cpu api z \<le> freeWholeCPU n)"
proof -
  let ?fs = "map free_entry (sort_slice (\<lambda>i j. freeCPU i > freeCPU j) (nw_numaNodes nw))"
  obtain nw' where nw': "assignTopologyResult api nw (cpu_request c) = Ok nw'"
      "mset (nw_result nw') = mset (map (cpu_zone api) (greedy c ?fs))"
    by (rule assign_span_greedy [OF assms(1-5)])
  have zc: "zone_cpu api (cpu_zone api e) = snd e" for e by (rule zone_cpu_cpu_zone) (rule quantity)
  have "(\<Sum>z\<leftarrow>nw_result nw'. zone_cpu api z) = sum_list (map snd (greedy c ?fs))"
    using sum_list_map_mset_eq [OF nw'(2), of "zone_cpu api"] by (simp add: zc comp_def)
  also have "\<dots> = min c (sum_list (map snd ?fs))"
    using assms(5) by (intro greedy_total assms(3)) (auto simp: free_entry_def not_overdrawn_def)
  also have "\<dots> = min c (\<Sum>n\<leftarrow>nw_numaNodes nw. freeWholeCPU n)"
    by (simp only: map_snd_free_entry sum_free_entries)
  finally have total: "(\<Sum>z\<leftarrow>nw_result nw'. zone_cpu api z) = min c (\<Sum>n\<leftarrow>nw_numaNodes nw. freeWholeCPU n)" .
  have "set (nw_result nw') = cpu_zone api ` set (greedy c ?fs)"
    using mset_eq_setD [OF nw'(2)] by simp
  then have "\<forall>z \<in> set (nw_result nw'). \<exists>n \<in> set (nw_numaNodes nw).
       zone_Name z = numa_name n \<and> 0 < zone_cpu api z \<and> zone_cpu api z \<le> freeWholeCPU n"
    by (auto simp: zc dest!: greedy_bounds) (force simp: free_entry_def)
  with nw'(1) total show ?thesis by blast
qed

text \<open>Requests are counted in whole CPUs, so rounding the allocatable CPUs down keeps the order of the nodes.\<close>

definition whole_requests :: "numaNode \<Rightarrow> bool" where
  "whole_requests n \<longleftrightarrow> 0 \<le> res_MilliCPU (numa_requested n) \<and> res_MilliCPU (numa_requested n) mod 1000 = 0 \<and>
     res_MilliCPU (numa_requested n) \<le> res_MilliCPU (numa_allocatable n) \<and> int64 (res_MilliCPU (numa_allocatable n))"

lemma freeWholeCPU_eq:
  assumes "whole_requests n"
  shows "freeWholeCPU n = freeCPU n div 1000 * 1000"
proof -
  let ?a = "res_MilliCPU (numa_allocatable n)" and ?r = "res_MilliCPU (numa_requested n)"
  from assms have r: "0 \<le> ?r" "?r \<le> ?a" "int64 ?a" "?r mod 1000 = 0" by (auto simp: whole_requests_def)
  from r(4) have "1000 dvd ?r" by presburger
  then obtain k where k: "?r = 1000 * k" by (rule dvdE)
  have d: "0 \<le> ?a div 1000 * 1000" "?a div 1000 * 1000 \<le> ?a" "?r \<le> ?a div 1000 * 1000"
    using r k by auto
  have "(?a - 1000 * k) div 1000 = ?a div 1000 - k"
    using div_mult_self2 [of 1000 ?a "- k"] by simp
  then have e: "(?a - ?r) div 1000 * 1000 = ?a div 1000 * 1000 - ?r" using k by simp
  have w: "wrap64 (?a sdiv 1000) = ?a div 1000" "wrap64 (?a div 1000 * 1000) = ?a div 1000 * 1000"
    "wrap64 (?a div 1000 * 1000 - ?r) = ?a div 1000 * 1000 - ?r" "wrap64 (?a - ?r) = ?a - ?r"
    using r d by (auto simp: sdiv_nonneg int64_def intro!: wrap64_id)
  show ?thesis by (simp add: freeCPU_def whole_cpus_def w e)
qed

text \<open>C15. A pod that may span NUMA nodes gets the fewest zones possible: no choice of the host's NUMA
  nodes whose free whole CPUs cover the request has fewer nodes than the recorded result.\<close>

theorem numa_span_fewest:
  assumes "\<not> nw_aware nw" "nw_result nw = []" "0 \<le> c" "int64 c"
    and "\<forall>n \<in> set (nw_numaNodes nw). not_overdrawn n \<and> whole_requests n"
    and choice: "mset ns \<subseteq># mset (nw_numaNodes nw)" "c \<le> (\<Sum>n\<leftarrow>ns. freeWholeCPU n)"
  shows "\<exists>nw'. assignTopologyResult api nw (cpu_request c) = Ok nw' \<and> length (nw_result nw') \<le> length ns"
proof -
  let ?ns = "sort_slice (\<lambda>i j. freeCPU i > freeCPU j) (nw_numaNodes nw)"
  obtain nw' where nw': "assignTopologyResult api nw (cpu_request c) = Ok nw'"
      "mset (nw_result nw') = mset (map (cpu_zone api) (greedy c (map free_entry ?ns)))"
    by (rule assign_span_greedy [OF assms(1-4)]) (use assms(5) in blast)
  have "sorted_wrt (\<lambda>a b. freeCPU a \<ge> freeCPU b) ?ns"
    using by_free_cpu.sort_slice_sorted [of "nw_numaNodes nw"] by (simp add: not_less)
  then have sorted: "sorted_wrt (\<ge>) (map freeWholeCPU ?ns)"
    unfolding sorted_wrt_map
    by (rule sorted_wrt_mono_rel [rotated])
       (use assms(5) in \<open>auto simp: freeWholeCPU_eq intro!: zdiv_mono1\<close>)
  have "length (greedy c (map free_entry ?ns)) \<le> length (map freeWholeCPU ns)"
  proof (rule greedy_fewest)
    show "\<forall>e \<in> set (map free_entry ?ns). 0 \<le> snd e"
      using assms(5) by (auto simp: free_entry_def not_overdrawn_def)
    show "sorted_wrt (\<ge>) (map snd (map free_entry ?ns))" using sorted by (simp only: map_snd_free_entry)
    show "mset (map freeWholeCPU ns) \<subseteq># mset (map snd (map free_entry ?ns))"
      using image_mset_subseteq_mono [OF choice(1), of freeWholeCPU] by (simp only: map_snd_free_entry) simp
  qed (rule choice(2))
  then show ?thesis using nw' mset_eq_length [OF nw'(2)] by auto
qed

section \<open>A concrete instance for examples\<close>

text \<open>Quantities in thousandths, resources of CPUs and memory, and a reader and writer of zones for one
  fixed text.\<close>

definition milli_resource :: "Resource \<Rightarrow> int resource_list \<Rightarrow> Resource" where
  "milli_resource r rl =
     foldl (\<lambda>r (n, q). if n = ''cpu'' then r\<lparr>res_MilliCPU := wrap64 (res_MilliCPU r + q)\<rparr>
                       else if n = ''memory'' then r\<lparr>res_Memory := wrap64 (res_Memory r + q div 1000)\<rparr>
                       else r) r (entries rl)"

definition milli_api :: "int topo_api" where
  "milli_api =
     \<lparr>api_TopologyAwarenessKey = ''topology-awareness'', api_CPUPolicyKey = ''cpu-policy'',
      api_CPUPolicyNone = ''none'', api_CPUPolicyExclusive = ''exclusive'', api_CPUPolicyNUMA = ''numa'',
      api_CPUPolicyImmovable = ''immovable'', api_TopologyResultKey = ''topology-result'',
      api_ZoneTypeNode = ''Node'', api_CPUManagerPolicyStatic = ''Static'',
      api_SingleNUMANodePodLevel = ''SingleNUMANodePodLevel'', q_zero = 0,
      q_cmp = (\<lambda>a b. if a < b then -1 else if a = b then 0 else 1), q_value = (\<lambda>q. (q + 999) div 1000),
      q_milli = (\<lambda>q. q), q_new_milli = (\<lambda>q. q), q_new_binary = (\<lambda>q. 1000 * q), q_new_decimal = (\<lambda>q. 1000 * q),
      res_new = milli_resource zero_resource, res_add = milli_resource, is_hugepage = (\<lambda>n. False),
      json_read_zones = (\<lambda>t. if t = ''node0:2'' then
          Some [\<lparr>zone_Name = ''node0'', zone_Type = ''Node'',
                 zone_Resources = Some \<lparr>info_Capacity = Some [(''cpu'', 2000)], info_Allocatable = None\<rparr>\<rparr>]
        else None),
      json_of_zones = (\<lambda>zs.
        if zs = [\<lparr>zone_Name = ''node0'', zone_Type = ''Node'',
                  zone_Resources = Some \<lparr>info_Capacity = Some [(''cpu'', 2000)], info_Allocatable = None\<rparr>\<rparr>]
        then Inr ''node0:2'' else Inl (Plain ''unsupported'')), json_of_pod = (\<lambda>pod. Inr ''pod''),
      create_merge_patch = (\<lambda>a b. Inr ''patch'')\<rparr>"

definition example_numa :: "string \<Rightarrow> int \<Rightarrow> int \<Rightarrow> numaNode" where
  "example_numa name a r =
     \<lparr>numa_name = name, numa_allocatable = zero_resource\<lparr>res_MilliCPU := a\<rparr>,
      numa_requested = zero_resource\<lparr>res_MilliCPU := r\<rparr>\<rparr>"

definition example_wrapper :: "int nodeWrapper" where
  "example_wrapper =
     \<lparr>nw_aware = False, nw_node = ''host'',
      nw_numaNodes = [example_numa ''node0'' 3500 1000, example_numa ''node1'' 4000 0],
      nw_topologyAwareResources = [''cpu''], nw_result = []\<rparr>"

lemma example_wrapper_ok:
  "\<not> nw_aware example_wrapper" "nw_result example_wrapper = []"
  "\<forall>n \<in> set (nw_numaNodes example_wrapper). not_overdrawn n"
  "\<forall>n \<in> set (nw_numaNodes example_wrapper). not_overdrawn n \<and> whole_requests n"
  by (simp_all add: example_wrapper_def example_numa_def not_overdrawn_def whole_requests_def whole_cpus_def
      freeCPU_def zero_resource_def int64_def sdiv_nonneg)

theorem numa_span_conserves_witness:
  "\<exists>nw'. assignTopologyResult milli_api example_wrapper (cpu_request 5000) = Ok nw' \<and>
     (\<Sum>z\<leftarrow>nw_result nw'. zone_cpu milli_api z) = 5000"
proof -
  have "(\<Sum>n\<leftarrow>nw_numaNodes example_wrapper. freeWholeCPU n) = 6000"
    by (simp add: example_wrapper_def example_numa_def whole_cpus_def freeCPU_def zero_resource_def sdiv_nonneg int64_def)
  then show ?thesis
    using numa_span_conserves [of example_wrapper 5000 milli_api] example_wrapper_ok
    by (auto simp: int64_def milli_api_def)
qed

theorem numa_span_fewest_witness:
  "\<exists>nw'. assignTopologyResult milli_api example_wrapper (cpu_request 3000) = Ok nw' \<and>
     length (nw_result nw') \<le> length [example_numa ''node1'' 4000 0]"
  by (rule numa_span_fewest)
     (simp_all add: example_wrapper_ok int64_def, simp_all add: example_wrapper_def example_numa_def whole_cpus_def
        freeCPU_def zero_resource_def sdiv_nonneg int64_def)

section \<open>The filter\<close>

lemma fits_iff:
  "fitsRequestForNUMANode r n = [] \<longleftrightarrow> resource_is_zero r \<or>
     res_MilliCPU r \<le> freeCPU n \<and>
     res_Memory r \<le> wrap64 (res_Memory (numa_allocatable n) - res_Memory (numa_requested n)) \<and>
     res_EphemeralStorage r \<le>
       wrap64 (res_EphemeralStorage (numa_allocatable n) - res_EphemeralStorage (numa_requested n)) \<and>
     list_all (\<lambda>(name, q). q \<le> wrap64 (scalar (numa_allocatable n) name - scalar (numa_requested n) name))
       (entries (res_ScalarResources r))"
  by (auto simp: fitsRequestForNUMANode_def Let_def check_fits_def freeCPU_def list_all_iff split: if_splits)

lemma addNUMAResources_fields:
  "nw_result (addNUMAResources api nw zs) = nw_result nw" "nw_node (addNUMAResources api nw zs) = nw_node nw"
  unfolding addNUMAResources_def by (induction zs arbitrary: nw) simp_all

lemma addPod_fields:
  "nw_result (addPod api f pod nw) = nw_result nw" "nw_node (addPod api f pod nw) = nw_node nw"
  by (simp_all add: addPod_def Let_def addNUMAResources_fields split: sum.split)

lemma initializeNodeWrapper_fields:
  "nw_result (initializeNodeWrapper api pod_key tm s node pods nrt) = []"
  "nw_node (initializeNodeWrapper api pod_key tm s node pods nrt) = node_Name node"
proof -
  let ?f = "\<lambda>nw pod. addPod api (GetPodTopology pod_key (tm_PodTopologyCache tm)) pod nw"
  have "nw_result (foldl ?f nw pods) = nw_result nw" "nw_node (foldl ?f nw pods) = nw_node nw" for nw
    by (induction pods arbitrary: nw) (simp_all add: addPod_fields)
  then show "nw_result (initializeNodeWrapper api pod_key tm s node pods nrt) = []"
    "nw_node (initializeNodeWrapper api pod_key tm s node pods nrt) = node_Name node"
    by (simp_all add: initializeNodeWrapper_def Let_def newNodeWrapper_def split: option.split)
qed

lemma assign_aware:
  assumes "nw_aware nw" "nw_numaNodes nw \<noteq> []"
  obtains nw' n where "assignTopologyResult api nw r = Ok nw'" "n \<in> set (nw_numaNodes nw)"
    "nw_result nw' = [numa_zone api (numa_name n) (ResourceListIgnoreZeroResources api (Some r))]"
    "\<forall>m \<in> set (nw_numaNodes nw). freeCPU m \<le> freeCPU n" "nw_node nw' = nw_node nw"
proof -
  let ?ns = "sort_slice (\<lambda>i j. freeCPU i > freeCPU j) (nw_numaNodes nw)"
  have mem: "?ns ! 0 \<in> set (nw_numaNodes nw)"
    using assms(2) by (metis length_greater_0_conv nth_mem set_sort_slice sort_slice_Nil_iff)
  have mx: "\<forall>m \<in> set (nw_numaNodes nw). freeCPU m \<le> freeCPU (?ns ! 0)"
    using by_free_cpu.sort_slice_first [OF assms(2)] by (auto simp: not_less)
  have eq: "assignTopologyResult api nw r = Ok (nw\<lparr>nw_numaNodes := ?ns,
      nw_result := [numa_zone api (numa_name (?ns ! 0)) (ResourceListIgnoreZeroResources api (Some r))]\<rparr>)"
    using assms by (simp add: assignTopologyResult_def Let_def)
  show thesis by (rule that [OF eq mem]) (use mx in simp_all)
qed

text \<open>C13. A pod that must stay on one NUMA node (it asks for topology awareness, or says nothing and the
  host asks for it): the filter answers unschedulable exactly when the request fits on no NUMA node of
  the host; otherwise it accepts and records one zone, with the whole request, on a NUMA node the request
  fits on and that has the most free CPUs of those. It never panics.\<close>

theorem numa_filter_decision:
  assumes node: "ni_Node ni = Some node" "tm_lister tm (node_Name node) = Inr nrt"
      "topo_CPUManagerPolicy nrt = api_CPUManagerPolicyStatic api"
    and pod: "\<not> IsDaemonsetPod pod" "st_targetContainerIndices s \<noteq> []"
    and aware: "case st_aware s of Some b \<Rightarrow> b | None \<Rightarrow> isNodeAwareOfTopology api nrt"
  shows "let r = st_targetContainerResource s;
             fitting = filter (\<lambda>n. fitsRequestForNUMANode r n = [])
               (nw_numaNodes (initializeNodeWrapper api pod_key tm s node (ni_Pods ni) nrt))
         in if fitting = []
            then Topology_Filter api pod_key tm (StateData s) pod ni =
              Ok (StateData s, NewStatus Unschedulable ErrReasonNUMAResourceNotEnough)
            else \<exists>s' nw n. Topology_Filter api pod_key tm (StateData s) pod ni = Ok (StateData s', NilStatus) \<and>
              map_of (st_podTopologyByNode s') (node_Name node) = Some nw \<and>
              n \<in> set fitting \<and> (\<forall>m \<in> set fitting. freeCPU m \<le> freeCPU n) \<and>
              nw_result nw = [numa_zone api (numa_name n) (ResourceListIgnoreZeroResources api (Some r))]"
proof -
  let ?r = "st_targetContainerResource s"
  let ?nw = "initializeNodeWrapper api pod_key tm s node (ni_Pods ni) nrt"
  let ?fit = "filter (\<lambda>n. fitsRequestForNUMANode ?r n = []) (nw_numaNodes ?nw)"
  have aw: "nw_aware ?nw"
    using aware by (simp add: initializeNodeWrapper_def Let_def split: option.splits)
  note step = node pod aw filterNUMANodeResource_def getStateData_def Topology_Filter_def Let_def
  show ?thesis
  proof (cases "?fit = []")
    case True
    then show ?thesis by (simp add: step)
  next
    case False
    let ?nw2 = "?nw\<lparr>nw_numaNodes := ?fit\<rparr>"
    obtain nw n where "assignTopologyResult api ?nw2 ?r = Ok nw" "n \<in> set ?fit"
        "nw_result nw = [numa_zone api (numa_name n) (ResourceListIgnoreZeroResources api (Some ?r))]"
        "\<forall>m \<in> set ?fit. freeCPU m \<le> freeCPU n" "nw_node nw = node_Name node"
      using assign_aware [of ?nw2 api ?r] aw False by (auto simp: initializeNodeWrapper_fields)
    then show ?thesis
      using False by (auto simp: step record_topology_def AList.update_conv' intro!: exI [of _ n])
  qed
qed

definition example_zone :: "string \<Rightarrow> int \<Rightarrow> int Zone" where
  "example_zone name cpu =
     \<lparr>zone_Name = name, zone_Type = ''Node'',
      zone_Resources = Some \<lparr>info_Capacity = None, info_Allocatable = Some [(''cpu'', cpu)]\<rparr>\<rparr>"

definition example_topology :: "string \<Rightarrow> int Zone list \<Rightarrow> int TopologyMatch" where
  "example_topology policy zones =
     \<lparr>tm_PodTopologyCache = NewPodTopologyCache (30 * minute),
      tm_lister = (\<lambda>n. Inr \<lparr>topo_CPUManagerPolicy = ''Static'', topo_TopologyManagerPolicy = policy, topo_Zones = zones\<rparr>),
      tm_topologyAwareResources = [''cpu'']\<rparr>"

definition example_host :: "int NodeInfo" where
  "example_host =
     \<lparr>ni_Node = Some \<lparr>node_Name = ''host'', node_Annotations = None, node_Addresses = [], node_CpuCapacity = 8,
                     node_MemoryCapacity = 1\<rparr>, ni_Pods = []\<rparr>"

definition example_pod :: "int TopoPod" where
  "example_pod =
     \<lparr>pod_Namespace = ''ns'', pod_Name = ''p'', pod_OwnerReferences = [], pod_Annotations = None, pod_NodeName = '''',
      pod_DeletionTimestamp = None,
      pod_Containers = [\<lparr>con_Requests = Some [(''cpu'', 2000)], con_Limits = Some [(''cpu'', 2000)]\<rparr>]\<rparr>"

definition example_state :: "int stateData" where
  "example_state =
     \<lparr>st_aware = None, st_targetContainerIndices = [0], st_targetContainerResource = cpu_request 2000,
      st_podTopologyByNode = [], st_topologyResult = []\<rparr>"

lemma example_prefilter:
  "fst (Topology_PreFilter milli_api (example_topology policy zones) example_pod) = StateData example_state"
  by (simp add: Topology_PreFilter_def example_topology_def example_pod_def example_state_def cpu_request_def
      GetPodTargetContainerIndices_def GetPodCPUPolicy_def GuaranteedCPUs_def quantity_def entries_def
      milli_api_def computeContainerSpecifiedResourceRequest_def IsPodAwareOfTopology_def milli_resource_def
      zero_resource_def int64_def)

abbreviation example_single :: "int TopologyMatch" where
  "example_single \<equiv> example_topology ''SingleNUMANodePodLevel'' [example_zone ''node0'' 4000, example_zone ''node1'' 1000]"

theorem numa_filter_decision_witness:
  "\<exists>s' nw. Topology_Filter milli_api (\<lambda>p. Inr ''uid'') example_single (StateData example_state) example_pod example_host =
     Ok (StateData s', NilStatus) \<and> map_of (st_podTopologyByNode s') ''host'' = Some nw \<and>
     map zone_Name (nw_result nw) = [''node0'']"
proof -
  let ?nrt = "\<lparr>topo_CPUManagerPolicy = ''Static'', topo_TopologyManagerPolicy = ''SingleNUMANodePodLevel'',
    topo_Zones = [example_zone ''node0'' 4000, example_zone ''node1'' 1000]\<rparr>"
  have nodes: "nw_numaNodes (initializeNodeWrapper milli_api (\<lambda>p. Inr ''uid'') example_single example_state
      (the (ni_Node example_host)) (ni_Pods example_host) ?nrt) = [example_numa ''node0'' 4000 0, example_numa ''node1'' 1000 0]"
    by (simp add: initializeNodeWrapper_def Let_def newNodeWrapper_def newNumaNode_def example_host_def
        example_state_def example_zone_def milli_api_def milli_resource_def entries_def zero_resource_def
        int64_def example_numa_def)
  have fit: "filter (\<lambda>n. fitsRequestForNUMANode (cpu_request 2000) n = [])
      [example_numa ''node0'' 4000 0, example_numa ''node1'' 1000 0] = [example_numa ''node0'' 4000 0]"
    by (simp add: fits_iff) (simp add: cpu_request_def example_numa_def zero_resource_def entries_def freeCPU_def int64_def)
  show ?thesis
    using numa_filter_decision [of example_host "the (ni_Node example_host)" example_single ?nrt milli_api
        example_pod example_state "\<lambda>p. Inr ''uid''"] nodes fit
    by (auto simp: example_host_def example_topology_def milli_api_def IsDaemonsetPod_def 
        example_pod_def example_state_def isNodeAwareOfTopology_def Let_def numa_zone_def example_numa_def)
qed

section \<open>Panics\<close>

lemma assign_no_scalars:
  assumes "entries (res_ScalarResources r) = []"
  shows "\<exists>res rest fin. assignRequestForNUMANode r n = Ok (res, rest, fin) \<and> entries (res_ScalarResources rest) = []"
  using assms by (auto simp: assignRequestForNUMANode_def Let_def)

lemma returns_omap [simp]: "returns (omap f m) = returns m"
  by (cases m) auto

lemma assign_loop_returns:
  "entries (res_ScalarResources r) = [] \<Longrightarrow> returns (assign_loop api r ns result)"
proof (induction ns arbitrary: r result)
  case (Cons n ns)
  obtain res rest fin where a: "assignRequestForNUMANode r (whole_cpus n) = Ok (res, rest, fin)"
      "entries (res_ScalarResources rest) = []"
    using assign_no_scalars [OF Cons.prems] by blast
  have "returns (assign_loop api rest ns result')" for result' using Cons.IH a(2) by blast
  then show ?case using a(1) by (auto simp: Let_def)
qed simp

lemma assign_scalars_panic:
  "entries (res_ScalarResources r) \<noteq> [] \<Longrightarrow> assignRequestForNUMANode r n = Panic NilMapWrite"
  by (cases "entries (res_ScalarResources r)")
     (auto simp: assignRequestForNUMANode_def Let_def resource_is_zero_def zero_resource_def)

text \<open>C35. Assigning a request that may span NUMA nodes panics (a write to the nil map of scalar
  resources) exactly when the host has a NUMA node and the request names a scalar resource.\<close>

theorem numa_assign_panics:
  assumes "\<not> nw_aware nw"
  shows "assignTopologyResult api nw r = Panic NilMapWrite \<and>
           nw_numaNodes nw \<noteq> [] \<and> entries (res_ScalarResources r) \<noteq> [] \<or>
         returns (assignTopologyResult api nw r) \<and>
           (nw_numaNodes nw = [] \<or> entries (res_ScalarResources r) = [])"
proof (cases "nw_numaNodes nw = [] \<or> entries (res_ScalarResources r) = []")
  case True
  then have "returns (assignTopologyResult api nw r)"
    using assms assign_loop_returns by (auto simp: assignTopologyResult_def Let_def sort_slice_def shell_pass_def)
  with True show ?thesis by blast
next
  case False
  obtain m ms where "sort_slice (\<lambda>i j. freeCPU i > freeCPU j) (nw_numaNodes nw) = m # ms"
    using False by (metis neq_Nil_conv sort_slice_Nil_iff)
  then have "assignTopologyResult api nw r = Panic NilMapWrite"
    using assms False by (simp add: assignTopologyResult_def Let_def assign_scalars_panic)
  with False show ?thesis by blast
qed

theorem numa_assign_panics_witness:
  "assignTopologyResult milli_api example_wrapper (zero_resource\<lparr>res_ScalarResources := Some [(''nvidia.com/gpu'', 1)]\<rparr>) =
     Panic NilMapWrite"
  using numa_assign_panics [of example_wrapper milli_api
      "zero_resource\<lparr>res_ScalarResources := Some [(''nvidia.com/gpu'', 1)]\<rparr>"]
  by (simp add: example_wrapper_def entries_def)

section \<open>One scheduling cycle\<close>

text \<open>The states a scheduling cycle goes through: \<open>PreFilter\<close>, then \<open>Filter\<close> for some hosts in some order.\<close>

inductive cycle_reach ::
  "'q topo_api \<Rightarrow> ('q TopoPod \<Rightarrow> string fallible) \<Rightarrow> 'q TopologyMatch \<Rightarrow> 'q TopoPod \<Rightarrow> 'q cycle_state \<Rightarrow> bool"
  for api pod_key tm pod
where
  prefilter: "cycle_reach api pod_key tm pod (fst (Topology_PreFilter api tm pod))"
| filtered: "cycle_reach api pod_key tm pod st \<Longrightarrow>
    Topology_Filter api pod_key tm st pod ni = Ok (st', status) \<Longrightarrow> cycle_reach api pod_key tm pod st'"

definition only_numa_zones :: "'q topo_api \<Rightarrow> 'q Zone list \<Rightarrow> bool" where
  "only_numa_zones api zs \<longleftrightarrow> (\<forall>z \<in> set zs. zone_Type z = api_ZoneTypeNode api)"

definition cycle_inv :: "'q topo_api \<Rightarrow> 'q cycle_state \<Rightarrow> bool" where
  "cycle_inv api st \<longleftrightarrow>
     (\<exists>s. st = StateData s \<and> st_topologyResult s = [] \<and>
        (\<forall>k nw. map_of (st_podTopologyByNode s) k = Some nw \<longrightarrow> nw_node nw = k \<and> only_numa_zones api (nw_result nw)))"

lemma assign_loop_zones:
  "assign_loop api r ns result = Ok (ns', result') \<Longrightarrow> only_numa_zones api result \<Longrightarrow> only_numa_zones api result'"
proof (induction ns arbitrary: r result ns')
  case (Cons n ns)
  have ext: "only_numa_zones api (result @ [numa_zone api nm cap])" for nm cap
    using Cons.prems(2) by (simp add: only_numa_zones_def numa_zone_def)
  show ?case
    using Cons.prems ext
    by (auto simp: Let_def go_simps split: if_splits prod.splits dest: Cons.IH)
qed simp

lemma assign_result_zones:
  assumes "assignTopologyResult api nw r = Ok nw'" "nw_result nw = []"
  shows "only_numa_zones api (nw_result nw') \<and> nw_node nw' = nw_node nw"
  using assms assign_loop_zones [of api r _ "[]"]
  by (auto simp: assignTopologyResult_def Let_def go_simps only_numa_zones_def numa_zone_def split: if_splits)

lemma record_topology_inv:
  assumes "cycle_inv api (StateData s)" "record_topology api s nw = Ok (st', status)" "nw_result nw = []"
  shows "cycle_inv api st'"
proof -
  obtain nw' where nw': "assignTopologyResult api nw (st_targetContainerResource s) = Ok nw'"
      "st' = StateData (s\<lparr>st_podTopologyByNode := AList.update (nw_node nw') nw' (st_podTopologyByNode s)\<rparr>)"
    using assms(2) by (auto simp: record_topology_def go_simps)
  then show ?thesis
    using assms(1) assign_result_zones [OF nw'(1) assms(3)]
    by (auto simp: cycle_inv_def AList.update_conv')
qed

lemma Topology_Filter_inv:
  assumes "cycle_inv api st" "Topology_Filter api pod_key tm st pod ni = Ok (st', status)"
  shows "cycle_inv api st'"
proof -
  obtain s where s: "st = StateData s" using assms(1) by (auto simp: cycle_inv_def)
  have f: "nw_result (fst (filterNUMANodeResource s nw)) = nw_result nw" for nw
    by (simp add: filterNUMANodeResource_def Let_def)
  have rec: "cycle_inv api st'" if "record_topology api s nw = Ok (st', status)" "nw_result nw = []" for nw
    using record_topology_inv that assms(1) s by blast
  show ?thesis
    using assms(2) f unfolding s Topology_Filter_def getStateData_def
    by (auto simp: Let_def initializeNodeWrapper_fields filterNUMANodeResource_def
        split: option.splits sum.splits if_splits prod.splits Status.splits
        intro: rec assms(1) [unfolded s])
qed

lemma cycle_reach_inv: "cycle_reach api pod_key tm pod st \<Longrightarrow> cycle_inv api st"
proof (induction rule: cycle_reach.induct)
  case prefilter
  show ?case by (simp add: Topology_PreFilter_def cycle_inv_def Let_def)
qed (rule Topology_Filter_inv)

lemma Topology_Reserve_success:
  assumes "Topology_Reserve pod_key now tm (StateData s) pod nodeName = (tm', StateData s', NilStatus)"
    and "st_topologyResult s = []" "st_topologyResult s' \<noteq> []"
  obtains nw where "map_of (st_podTopologyByNode s) nodeName = Some nw" "st_topologyResult s' = nw_result nw"
    "AssumePod pod_key now (tm_PodTopologyCache tm) pod (nw_result nw) = (tm_PodTopologyCache tm', None)"
  using assms
  by (auto simp: Topology_Reserve_def getStateData_def Let_def split: option.splits if_splits prod.splits)

text \<open>A reserved pod is charged to its NUMA nodes from the reservation on, and by the same amount
  once its result is written to its annotations: for a cycle that went through the filter and a
  reservation that succeeded, a later pass over the host's pods adds the reserved zones both while the pod is
  only assumed and when it is bound. Reading back the written JSON is assumed to give the zones written.\<close>

lemma reserved_pod_accounted:
  assumes reach: "cycle_reach api pod_key tm pod st" and wf: "cache_wf (tm_PodTopologyCache tm)"
    and reserve: "Topology_Reserve pod_key now tm st pod nodeName = (tm', StateData s', NilStatus)"
    and result: "st_topologyResult s' \<noteq> []"
    and unbound: "GetPodNUMANodeResult api pod = []"
    and json: "json_of_zones api (st_topologyResult s') = Inr js"
      "json_read_zones api js = Some (st_topologyResult s')"
  shows "addPod api (GetPodTopology pod_key (tm_PodTopologyCache tm')) pod nw =
           addNUMAResources api nw (st_topologyResult s') \<and>
         addPod api assumed (with_topology_result api js pod) nw =
           addNUMAResources api nw (st_topologyResult s')"
proof -
  obtain s where s: "st = StateData s" "st_topologyResult s = []"
      "\<forall>k nw. map_of (st_podTopologyByNode s) k = Some nw \<longrightarrow> nw_node nw = k \<and> only_numa_zones api (nw_result nw)"
    using cycle_reach_inv [OF reach] unfolding cycle_inv_def by blast
  obtain nw1 where nw1: "map_of (st_podTopologyByNode s) nodeName = Some nw1" "st_topologyResult s' = nw_result nw1"
      "AssumePod pod_key now (tm_PodTopologyCache tm) pod (nw_result nw1) = (tm_PodTopologyCache tm', None)"
    using Topology_Reserve_success [OF reserve [unfolded s(1)] s(2) result] by blast
  have zones: "only_numa_zones api (st_topologyResult s')" using s(3) nw1 by simp
  have "GetPodTopology pod_key (tm_PodTopologyCache tm') pod = Inr (st_topologyResult s')"
    using impl.assume_get(1) [OF wf nw1(3)] nw1(2) by simp
  then have "addPod api (GetPodTopology pod_key (tm_PodTopologyCache tm')) pod nw =
      addNUMAResources api nw (st_topologyResult s')"
    using unbound by (simp add: addPod_def)
  moreover have "GetPodNUMANodeResult api (with_topology_result api js pod) = st_topologyResult s'"
    using zones json(2)
    by (simp add: GetPodNUMANodeResult_def GetPodTopologyResult_def with_topology_result_def only_numa_zones_def)
  ultimately show ?thesis using result by (simp add: addPod_def)
qed

definition example_reserved_wrapper :: "int nodeWrapper" where
  "example_reserved_wrapper =
     \<lparr>nw_aware = True, nw_node = ''host'', nw_numaNodes = [example_numa ''node0'' 4000 0],
      nw_topologyAwareResources = [''cpu''],
      nw_result = [numa_zone milli_api ''node0'' (Some [(''cpu'', 2000)])]\<rparr>"

lemma example_filtered:
  "Topology_Filter milli_api (\<lambda>p. Inr ''uid'') example_single (StateData example_state) example_pod example_host =
     Ok (StateData (example_state\<lparr>st_podTopologyByNode := [(''host'', example_reserved_wrapper)]\<rparr>), NilStatus)"
  by (simp add: Topology_Filter_def getStateData_def example_host_def IsDaemonsetPod_def example_pod_def
      example_state_def example_topology_def milli_api_def initializeNodeWrapper_def newNodeWrapper_def newNumaNode_def
      isNodeAwareOfTopology_def filterNUMANodeResource_def example_zone_def milli_resource_def entries_def
      zero_resource_def int64_def fits_iff cpu_request_def resource_is_zero_def freeCPU_def record_topology_def
      assignTopologyResult_def sort_slice_def shell_pass_def example_reserved_wrapper_def example_numa_def
      ResourceListIgnoreZeroResources_def numa_zone_def)

lemma reserved_pod_accounted_witness:
  "\<exists>tm' s'. Topology_Reserve (\<lambda>p. Inr ''uid'') 0 example_single
       (StateData (example_state\<lparr>st_podTopologyByNode := [(''host'', example_reserved_wrapper)]\<rparr>)) example_pod ''host'' =
       (tm', StateData s', NilStatus) \<and>
     addPod milli_api (GetPodTopology (\<lambda>p. Inr ''uid'') (tm_PodTopologyCache tm')) example_pod example_wrapper =
       addNUMAResources milli_api example_wrapper (st_topologyResult s')"
proof -
  let ?key = "\<lambda>p :: int TopoPod. Inr ''uid'' :: string fallible"
  let ?s = "example_state\<lparr>st_podTopologyByNode := [(''host'', example_reserved_wrapper)]\<rparr>"
  let ?s' = "?s\<lparr>st_topologyResult := nw_result example_reserved_wrapper\<rparr>"
  let ?tm = "example_single\<lparr>tm_PodTopologyCache := fst (AssumePod ?key 0 (tm_PodTopologyCache example_single)
     example_pod (nw_result example_reserved_wrapper))\<rparr>"
  have reach: "cycle_reach milli_api ?key example_single example_pod (StateData ?s)"
    using cycle_reach.filtered [OF cycle_reach.prefilter [of milli_api ?key example_single example_pod,
        unfolded example_prefilter] example_filtered] .
  have reserve: "Topology_Reserve ?key 0 example_single (StateData ?s) example_pod ''host'' = (?tm, StateData ?s', NilStatus)"
    by (simp add: Topology_Reserve_def getStateData_def example_reserved_wrapper_def AssumePod_def
        example_topology_def NewPodTopologyCache_def)
  have wf: "cache_wf (tm_PodTopologyCache example_single)"
    by (simp add: example_topology_def NewPodTopologyCache_wf)
  have "addPod milli_api (GetPodTopology ?key (tm_PodTopologyCache ?tm)) example_pod example_wrapper =
      addNUMAResources milli_api example_wrapper (st_topologyResult ?s')"
    by (rule conjunct1, rule reserved_pod_accounted [OF reach wf reserve, where js = "''node0:2''"])
       (simp_all add: example_reserved_wrapper_def milli_api_def numa_zone_def GetPodNUMANodeResult_def
         GetPodTopologyResult_def example_pod_def)
  with reserve show ?thesis by blast
qed

text \<open>Giving a reservation back restores the cache: when a reservation for a host succeeds, undoing it
  for that host leaves every pod's assumed zones and deadlines as they were before.\<close>

lemma reserve_unreserve_restores:
  assumes wf: "cache_wf (tm_PodTopologyCache tm)"
    and reserve: "Topology_Reserve pod_key now tm st pod nodeName = (tm', st', NilStatus)"
  shows "cached (tm_PodTopologyCache (Topology_Unreserve pod_key tm' st' pod nodeName)) = cached (tm_PodTopologyCache tm) \<and>
    deadline (tm_PodTopologyCache (Topology_Unreserve pod_key tm' st' pod nodeName)) = deadline (tm_PodTopologyCache tm)"
proof -
  obtain s where s: "st = StateData s"
    using reserve by (cases st) (auto simp: Topology_Reserve_def getStateData_def)
  show ?thesis
  proof (cases "map_of (st_podTopologyByNode s) nodeName")
    case None
    then show ?thesis using reserve s by (auto simp: Topology_Reserve_def Topology_Unreserve_def getStateData_def)
  next
    case (Some nw)
    have st': "st' = StateData (s\<lparr>st_topologyResult := nw_result nw\<rparr>)"
      and as: "AssumePod pod_key now (tm_PodTopologyCache tm) pod (nw_result nw) = (tm_PodTopologyCache tm', None)"
      using reserve Some s
      by (auto simp: Topology_Reserve_def getStateData_def Let_def split: if_splits prod.splits option.splits)
    then have un: "tm_PodTopologyCache (Topology_Unreserve pod_key tm' st' pod nodeName) =
        fst (ForgetPod pod_key (tm_PodTopologyCache tm') pod)"
      using Some by (simp add: Topology_Unreserve_def getStateData_def)
    show ?thesis unfolding un using impl.assume_forget [OF wf as] by blast
  qed
qed

lemma example_reserve:
  "Topology_Reserve (\<lambda>p. Inr ''uid'') 0 example_single
     (StateData (example_state\<lparr>st_podTopologyByNode := [(''host'', example_reserved_wrapper)]\<rparr>)) example_pod ''host'' =
   (example_single\<lparr>tm_PodTopologyCache := fst (AssumePod (\<lambda>p. Inr ''uid'') 0 (tm_PodTopologyCache example_single)
       example_pod (nw_result example_reserved_wrapper))\<rparr>,
    StateData (example_state\<lparr>st_podTopologyByNode := [(''host'', example_reserved_wrapper)],
       st_topologyResult := nw_result example_reserved_wrapper\<rparr>), NilStatus)"
  by (simp add: Topology_Reserve_def getStateData_def example_reserved_wrapper_def AssumePod_def
      example_topology_def NewPodTopologyCache_def)

lemma reserve_unreserve_restores_witness:
  "\<exists>tm' st'. Topology_Reserve (\<lambda>p. Inr ''uid'') 0 example_single
       (StateData (example_state\<lparr>st_podTopologyByNode := [(''host'', example_reserved_wrapper)]\<rparr>)) example_pod ''host'' =
       (tm', st', NilStatus) \<and>
     cached (tm_PodTopologyCache (Topology_Unreserve (\<lambda>p. Inr ''uid'') tm' st' example_pod ''host'')) =
       cached (tm_PodTopologyCache example_single)"
  using reserve_unreserve_restores [OF _ example_reserve] example_reserve
  by (auto simp: example_topology_def NewPodTopologyCache_wf)

section \<open>Scores\<close>

lemma greedy_nothing_free: "\<forall>e \<in> set fs. snd e = 0 \<Longrightarrow> greedy c fs = []"
  by (induction c fs rule: greedy.induct) auto

text \<open>C23. A host that passed the filter is scored 100 divided by the number of zones recorded for it, so the
  score lies between 0 and 100 and a result on one zone gets 100; a host that recorded nothing scores 0. The
  result recorded for a host names only NUMA nodes.\<close>

theorem topology_score:
  assumes "cycle_reach api pod_key tm pod st"
  shows "\<exists>s. st = StateData s \<and>
    (case map_of (st_podTopologyByNode s) n of
       None \<Rightarrow> Topology_Score st n = Ok (0, NilStatus)
     | Some nw \<Rightarrow> nw_node nw = n \<and> only_numa_zones api (nw_result nw) \<and>
         (if nw_result nw = [] then Topology_Score st n = Panic IntegerDivideByZero
          else \<exists>score. Topology_Score st n = Ok (score, NilStatus) \<and> 0 \<le> score \<and> score \<le> 100 \<and>
            score = 100 div int (length (nw_result nw))))"
proof -
  obtain s where s: "st = StateData s" "\<And>k nw. map_of (st_podTopologyByNode s) k = Some nw \<Longrightarrow>
      nw_node nw = k \<and> only_numa_zones api (nw_result nw)"
    using cycle_reach_inv [OF assms] unfolding cycle_inv_def by blast
  have score: "Topology_Score st n = Ok (100 div int (length (nw_result nw)), NilStatus)"
    if "map_of (st_podTopologyByNode s) n = Some nw" "nw_result nw \<noteq> []" for nw
    using that s(1) by (simp add: Topology_Score_def getStateData_def go_div_nonneg int64_def)
  have "100 div int k \<le> 100" "0 \<le> 100 div int k" for k
    using zdiv_mono2 [of 100 1 "int k"] by (cases "k = 0"; simp add: pos_imp_zdiv_nonneg_iff)+
  moreover have "Topology_Score st n = Panic IntegerDivideByZero"
    if "map_of (st_podTopologyByNode s) n = Some nw" "nw_result nw = []" for nw
    using that s(1) by (simp add: Topology_Score_def getStateData_def go_div_def)
  ultimately show ?thesis
    using s score
    by (cases "map_of (st_podTopologyByNode s) n") (simp_all add: Topology_Score_def getStateData_def)
qed

theorem topology_score_witness:
  "Topology_Score (StateData (example_state\<lparr>st_podTopologyByNode := [(''host'', example_reserved_wrapper)]\<rparr>)) ''host'' =
     Ok (100, NilStatus)"
  using topology_score [OF cycle_reach.filtered [OF cycle_reach.prefilter [of milli_api "\<lambda>p. Inr ''uid''" example_single example_pod,
        unfolded example_prefilter] example_filtered], of "''host''"]
  by (simp add: example_reserved_wrapper_def)

text \<open>C36. A pod that may span NUMA nodes, on a host none of whose NUMA nodes has a whole CPU free: the
  filter accepts the host, and scoring it divides by zero and panics.\<close>

theorem full_host_score_panics:
  assumes node: "ni_Node ni = Some node" "tm_lister tm (node_Name node) = Inr nrt"
      "topo_CPUManagerPolicy nrt = api_CPUManagerPolicyStatic api"
    and pod: "\<not> IsDaemonsetPod pod" "st_targetContainerIndices s \<noteq> []"
      "st_targetContainerResource s = cpu_request c" "0 \<le> c" "int64 c"
    and unaware: "\<not> (case st_aware s of Some b \<Rightarrow> b | None \<Rightarrow> isNodeAwareOfTopology api nrt)"
    and full: "\<forall>n \<in> set (nw_numaNodes (initializeNodeWrapper api pod_key tm s node (ni_Pods ni) nrt)).
      not_overdrawn n \<and> freeWholeCPU n = 0"
  shows "\<exists>st'. Topology_Filter api pod_key tm (StateData s) pod ni = Ok (st', NilStatus) \<and>
    Topology_Score st' (node_Name node) = Panic IntegerDivideByZero"
proof -
  let ?nw = "initializeNodeWrapper api pod_key tm s node (ni_Pods ni) nrt"
  let ?ns = "sort_slice (\<lambda>i j. freeCPU i > freeCPU j) (nw_numaNodes ?nw)"
  have aw: "\<not> nw_aware ?nw"
    using unaware by (simp add: initializeNodeWrapper_def Let_def split: option.splits)
  obtain nw' where nw': "assignTopologyResult api ?nw (cpu_request c) = Ok nw'"
      "mset (nw_result nw') = mset (map (cpu_zone api) (greedy c (map free_entry ?ns)))"
    by (rule assign_span_greedy [OF aw initializeNodeWrapper_fields(1) pod(4,5)]) (use full in blast)
  have "greedy c (map free_entry ?ns) = []"
    using full by (intro greedy_nothing_free) (auto simp: free_entry_def)
  then have empty: "nw_result nw' = []" using nw'(2) by simp
  have "nw_node nw' = node_Name node"
    using assign_result_zones [OF nw'(1)] by (simp add: initializeNodeWrapper_fields)
  then show ?thesis
    using node pod aw nw'(1) empty
    by (simp add: Topology_Filter_def getStateData_def Let_def record_topology_def Topology_Score_def
        AList.update_conv' go_div_def)
qed

theorem full_host_score_panics_witness:
  "\<exists>st'. Topology_Filter milli_api (\<lambda>p. Inr ''uid'') (example_topology ''None'' [example_zone ''node0'' 0])
      (StateData example_state) example_pod example_host = Ok (st', NilStatus) \<and>
    Topology_Score st' ''host'' = Panic IntegerDivideByZero"
  using full_host_score_panics [of example_host "the (ni_Node example_host)" "example_topology ''None'' [example_zone ''node0'' 0]"
      "\<lparr>topo_CPUManagerPolicy = ''Static'', topo_TopologyManagerPolicy = ''None'', topo_Zones = [example_zone ''node0'' 0]\<rparr>"
      milli_api example_pod example_state 2000 "\<lambda>p. Inr ''uid''"]
  by (simp add: example_host_def example_topology_def milli_api_def IsDaemonsetPod_def example_pod_def example_state_def
      isNodeAwareOfTopology_def initializeNodeWrapper_def Let_def newNodeWrapper_def newNumaNode_def example_zone_def
      milli_resource_def entries_def zero_resource_def int64_def not_overdrawn_def whole_cpus_def freeCPU_def)

text \<open>The quantity recorded for memory is made from the CPU field: for a request of CPUs and memory on one
  NUMA node the recorded memory is the number of thousandths of CPUs, whatever memory was asked for.\<close>

lemma numa_memory_recorded:
  assumes "0 < res_Memory r" "\<forall>e \<in> set (entries (res_ScalarResources r)). fst e \<noteq> ''memory''"
  shows "quantity api (ResourceListIgnoreZeroResources api (Some r)) ''memory'' = q_new_binary api (res_MilliCPU r)"
proof -
  have fold: "map_of (foldl (\<lambda>m (rName, rQuant). if 0 < rQuant then AList.update rName (f rName rQuant) m else m) m xs) ''memory'' =
      map_of m ''memory''" if "\<forall>e \<in> set xs. fst e \<noteq> ''memory''" for f m and xs :: "(string \<times> int) list"
    using that by (induction xs arbitrary: m) (auto simp: AList.update_conv')
  show ?thesis
    using assms(1)
    by (simp add: ResourceListIgnoreZeroResources_def Let_def quantity_def entries_def [of "Some _"]
        AList.update_conv' fold [OF assms(2)])
qed

lemma numa_memory_recorded_witness:
  "quantity milli_api (ResourceListIgnoreZeroResources milli_api
     (Some (zero_resource\<lparr>res_MilliCPU := 2000, res_Memory := 1073741824\<rparr>))) ''memory'' = 2000000"
  by (subst numa_memory_recorded) (simp_all add: zero_resource_def entries_def milli_api_def)

end
