(* ===== verification/Numa_Run.thy ===== *)
theory Numa_Run
  imports Numa_Topology
begin

text \<open>
  The NUMA plugin over many scheduling cycles. The scheduling framework is not part of the repository; how it calls the
  plugin is the labelled step relation \<open>numa_step\<close>: one scheduling cycle runs at a time on a snapshot of the pods that the
  scheduler knows, a reserved pod is assumed on its host and is bound in the background, bindings fail or reach the
  pod's annotations in any order, a pod whose binding failed is scheduled again with whatever is in its annotations,
  pods come and go, topologies are published again, and the clean-up of the cache runs in between.

  The reason for the plugin is that the pods of a host never hold more CPUs of a NUMA node than it has. The code
  does not achieve this for every run: \<open>orderly\<close> says, label by label, what a run has to avoid, and for orderly runs
  it is an invariant. One of the conditions is examined on its own: what happens to a pod that is scheduled again with
  an old result.
\<close>

section \<open>What a pod holds\<close>

text \<open>The zones that \<open>addPod\<close> charges for a pod: its own result, or else the assumed one.\<close>

definition pod_zones ::
  "'q topo_api \<Rightarrow> ('q TopoPod \<Rightarrow> string fallible) \<Rightarrow> 'q Zone list podTopologyCacheImpl \<Rightarrow> 'q TopoPod \<Rightarrow> 'q Zone list" where
  "pod_zones api pod_key cache pod =
     (if GetPodNUMANodeResult api pod \<noteq> [] then GetPodNUMANodeResult api pod
      else case GetPodTopology pod_key cache pod of Inl err \<Rightarrow> [] | Inr zones \<Rightarrow> zones)"

definition zone_charge :: "'q topo_api \<Rightarrow> 'q Zone list \<Rightarrow> string \<Rightarrow> int" where
  "zone_charge api zones name = (\<Sum>z \<leftarrow> filter (\<lambda>z. zone_Name z = name) zones. zone_cpu api z)"

text \<open>The CPUs of a NUMA node that pods hold, in thousandths and without wrap-around, and those it has.\<close>

definition committed ::
  "'q topo_api \<Rightarrow> ('q TopoPod \<Rightarrow> string fallible) \<Rightarrow> 'q Zone list podTopologyCacheImpl \<Rightarrow> 'q TopoPod list \<Rightarrow> string \<Rightarrow> int"
  where
  "committed api pod_key cache pods name = (\<Sum>p \<leftarrow> pods. zone_charge api (pod_zones api pod_key cache p) name)"

definition zone_alloc :: "'q topo_api \<Rightarrow> 'q Zone \<Rightarrow> int" where
  "zone_alloc api zone = res_MilliCPU (numa_allocatable (newNumaNode api zone))"

text \<open>What is used of \<open>resource.Quantity\<close> and \<open>framework.Resource\<close>: a quantity gives back the thousandths it was made from;
  \<open>Add\<close> adds the thousandths of the entry for CPUs to the 64-bit counter and never files CPUs under the scalar
  resources; counters are 64 bits wide.\<close>

definition resource_laws :: "'q topo_api \<Rightarrow> bool" where
  "resource_laws api \<longleftrightarrow>
     (\<forall>x. int64 x \<longrightarrow> q_milli api (q_new_milli api x) = x) \<and> q_milli api (q_zero api) = 0 \<and>
     (\<forall>r rl. int64 (res_MilliCPU r) \<longrightarrow> distinct (map fst (entries rl)) \<longrightarrow>
        res_MilliCPU (res_add api r rl) = wrap64 (res_MilliCPU r + q_milli api (quantity api rl ''cpu''))) \<and>
     (\<forall>r rl. ''cpu'' \<notin> fst ` set (entries (res_ScalarResources r)) \<longrightarrow> 
        ''cpu'' \<notin> fst ` set (entries (res_ScalarResources (res_add api r rl)))) \<and>
     (\<forall>r rl. int64 (res_MilliCPU r) \<longrightarrow> int64 (res_MilliCPU (res_add api r rl))) \<and>
     (\<forall>rl. int64 (res_MilliCPU (res_new api rl)))"

text \<open>A zone takes a nonnegative number of CPUs, and its capacity is a map.\<close>

definition sound_zone :: "'q topo_api \<Rightarrow> 'q Zone \<Rightarrow> bool" where
  "sound_zone api z \<longleftrightarrow> 0 \<le> zone_cpu api z \<and>
     (case zone_Resources z of None \<Rightarrow> True | Some i \<Rightarrow> distinct (map fst (entries (info_Capacity i))))"

lemma addPod_zones:
  "addPod api (GetPodTopology pod_key cache) pod nw = addNUMAResources api nw (pod_zones api pod_key cache pod)"
  by (simp add: addPod_def pod_zones_def Let_def addNUMAResources_def split: sum.split)

lemma zone_charge_simps [simp]:
  "zone_charge api [] n = 0"
  "zone_charge api (z # zs) n = (if zone_Name z = n then zone_cpu api z else 0) + zone_charge api zs n"
  "zone_charge api (xs @ ys) n = zone_charge api xs n + zone_charge api ys n"
  by (simp_all add: zone_charge_def)

lemma zone_charge_nonneg: "\<forall>z \<in> set zs. sound_zone api z \<Longrightarrow> 0 \<le> zone_charge api zs n"
  by (induction zs) (auto simp: sound_zone_def)

lemma zone_charge_mset: "mset xs = mset ys \<Longrightarrow> zone_charge api xs n = zone_charge api ys n"
  unfolding zone_charge_def by (intro sum_list_map_mset_eq) (metis mset_filter)

lemma zone_charge_other: "n \<notin> zone_Name ` set zs \<Longrightarrow> zone_charge api zs n = 0"
  by (induction zs) auto

section \<open>What the filter reads\<close>

definition charge_node :: "'q topo_api \<Rightarrow> numaNode \<Rightarrow> 'q Zone list \<Rightarrow> numaNode" where
  "charge_node api n zs =
     foldl (\<lambda>n z. if numa_name n = zone_Name z then addResource api n (zone_Resources z) else n) n zs"

text \<open>The NUMA node of a zone once the pods of the host are charged to it.\<close>

abbreviation host_node ::
  "'q topo_api \<Rightarrow> ('q TopoPod \<Rightarrow> string fallible) \<Rightarrow> 'q Zone list podTopologyCacheImpl \<Rightarrow> 'q TopoPod list \<Rightarrow> 'q Zone \<Rightarrow> numaNode"
  where
  "host_node api pod_key cache pods z \<equiv>
     charge_node api (newNumaNode api z) (concat (map (pod_zones api pod_key cache) pods))"

lemma addResource_fields [simp]:
  "numa_name (addResource api n i) = numa_name n" "numa_allocatable (addResource api n i) = numa_allocatable n"
  by (simp_all add: addResource_def split: option.split)

lemma charge_node_fields [simp]:
  "numa_name (charge_node api n zs) = numa_name n" "numa_allocatable (charge_node api n zs) = numa_allocatable n"
  unfolding charge_node_def by (induction zs arbitrary: n) simp_all

lemma addNUMAResources_nodes:
  "nw_numaNodes (addNUMAResources api nw zs) = map (\<lambda>n. charge_node api n zs) (nw_numaNodes nw)"
  unfolding addNUMAResources_def charge_node_def by (induction zs arbitrary: nw) (simp_all add: comp_def)

lemma initializeNodeWrapper_nodes:
  "nw_numaNodes (initializeNodeWrapper api pod_key tm s node pods nrt) =
     map (host_node api pod_key (tm_PodTopologyCache tm) pods) (topo_Zones nrt)"
proof -
  have "nw_numaNodes (foldl (\<lambda>nw pod. addPod api (GetPodTopology pod_key (tm_PodTopologyCache tm)) pod nw) nw pods) =
      map (\<lambda>n. charge_node api n (concat (map (pod_zones api pod_key (tm_PodTopologyCache tm)) pods))) (nw_numaNodes nw)" for nw
    by (induction pods arbitrary: nw) (simp_all add: addPod_zones addNUMAResources_nodes charge_node_def comp_def)
  then show ?thesis
    by (simp add: initializeNodeWrapper_def Let_def newNodeWrapper_def comp_def split: option.split)
qed

lemma charge_node_requested:
  assumes "resource_laws api" "\<forall>z \<in> set zs. sound_zone api z" "int64 (res_MilliCPU (numa_requested n))"
  shows "res_MilliCPU (numa_requested (charge_node api n zs)) =
    wrap64 (res_MilliCPU (numa_requested n) + zone_charge api zs (numa_name n))"
  using assms(2,3)
proof (induction zs arbitrary: n)
  case (Cons z zs)
  have add: "res_MilliCPU (numa_requested (addResource api n (zone_Resources z))) =
      wrap64 (res_MilliCPU (numa_requested n) + zone_cpu api z)"
    using assms(1) Cons.prems
    by (auto simp: addResource_def zone_cpu_def sound_zone_def resource_laws_def split: option.splits)
  have rec: "charge_node api n (z # zs) =
      charge_node api (if numa_name n = zone_Name z then addResource api n (zone_Resources z) else n) zs"
    by (simp add: charge_node_def)
  show ?case
  proof (cases "numa_name n = zone_Name z")
    case True
    have "int64 (res_MilliCPU (numa_requested (addResource api n (zone_Resources z))))"
      unfolding add by (rule wrap64_range)
    then show ?thesis
      using Cons.IH [of "addResource api n (zone_Resources z)"] Cons.prems True
      by (simp add: rec add add.assoc)
  next
    case False
    then show ?thesis using Cons.IH [of n] Cons.prems by (auto simp: rec)
  qed
qed (simp add: charge_node_def)

lemma charged_node_requested:
  assumes "resource_laws api" "\<forall>p \<in> set pods. \<forall>z \<in> set (pod_zones api pod_key cache p). sound_zone api z"
  shows "res_MilliCPU (numa_requested (host_node api pod_key cache pods zone)) =
    wrap64 (committed api pod_key cache pods (zone_Name zone))"
proof -
  have "zone_charge api (concat (map (pod_zones api pod_key cache) pods)) n = committed api pod_key cache pods n" for n
    by (induction pods) (simp_all add: committed_def)
  moreover have "res_MilliCPU (numa_requested (newNumaNode api zone)) = 0" "numa_name (newNumaNode api zone) = zone_Name zone"
    by (simp_all add: newNumaNode_def zero_resource_def Let_def)
  ultimately show ?thesis
    using charge_node_requested [OF assms(1), of "concat (map (pod_zones api pod_key cache) pods)" "newNumaNode api zone"]
      assms(2) by (auto simp: int64_def)
qed

section \<open>What the filter records\<close>

text \<open>Recorded zones are sound, and for every NUMA node of the host what they take fits on top of what the pods hold.\<close>

definition result_fits :: "'q topo_api \<Rightarrow> (string \<Rightarrow> int) \<Rightarrow> 'q NodeResourceTopology \<Rightarrow> 'q Zone list \<Rightarrow> bool" where
  "result_fits api held nrt result \<longleftrightarrow> (\<forall>z \<in> set result. sound_zone api z) \<and>
     (\<forall>z \<in> set (topo_Zones nrt). held (zone_Name z) + zone_charge api result (zone_Name z) \<le> zone_alloc api z)"

definition cpu_not_scalar :: "Resource \<Rightarrow> bool" where
  "cpu_not_scalar r \<longleftrightarrow> ''cpu'' \<notin> fst ` set (entries (res_ScalarResources r)) \<and> int64 (res_MilliCPU r)"

lemma zone_cpu_numa_zone:
  "zone_cpu api (numa_zone api n c) = q_milli api (quantity api c ''cpu'')"
  by (simp add: zone_cpu_def numa_zone_def)

lemma numa_zone_name [simp]: "zone_Name (numa_zone api n c) = n"
  by (simp add: numa_zone_def)

lemma capacity_cpu:
  assumes "cpu_not_scalar r"
  shows "quantity api (ResourceListIgnoreZeroResources api (Some r)) ''cpu'' =
      (if 0 < res_MilliCPU r then q_new_milli api (res_MilliCPU r) else q_zero api)"
    "distinct (map fst (entries (ResourceListIgnoreZeroResources api (Some r))))"
proof -
  let ?f = "\<lambda>m (rName, rQuant). if rQuant > 0 then AList.update rName
    (if is_hugepage api rName then q_new_binary api rQuant else q_new_decimal api rQuant) m else m"
  have "''cpu'' \<notin> fst ` set xs \<Longrightarrow> map_of (foldl ?f m xs) ''cpu'' = map_of m ''cpu''"
    "distinct (map fst m) \<Longrightarrow> distinct (map fst (foldl ?f m xs))" for m and xs :: "(string \<times> int) list"
    by (induction xs arbitrary: m) (auto simp: AList.update_conv' distinct_update split: if_splits)
  then show "quantity api (ResourceListIgnoreZeroResources api (Some r)) ''cpu'' =
      (if 0 < res_MilliCPU r then q_new_milli api (res_MilliCPU r) else q_zero api)"
    "distinct (map fst (entries (ResourceListIgnoreZeroResources api (Some r))))"
    using assms
    by (simp_all add: cpu_not_scalar_def quantity_def ResourceListIgnoreZeroResources_def Let_def entries_def [of "Some _"]
        AList.update_conv' distinct_update)
qed

lemma capacity_zone:
  assumes "resource_laws api" "cpu_not_scalar r"
  shows "zone_cpu api (numa_zone api n (ResourceListIgnoreZeroResources api (Some r))) = max 0 (res_MilliCPU r)"
    "sound_zone api (numa_zone api n (ResourceListIgnoreZeroResources api (Some r)))"
proof -
  show cpu: "zone_cpu api (numa_zone api n (ResourceListIgnoreZeroResources api (Some r))) = max 0 (res_MilliCPU r)"
    using assms by (auto simp: zone_cpu_numa_zone capacity_cpu resource_laws_def cpu_not_scalar_def)
  show "sound_zone api (numa_zone api n (ResourceListIgnoreZeroResources api (Some r)))"
    unfolding sound_zone_def cpu by (simp add: numa_zone_def capacity_cpu(2) [OF assms(2)])
qed

text \<open>One NUMA node of a pod that may span several, for any request.\<close>

lemma assign_node_cpu:
  assumes "assignRequestForNUMANode r m = Ok (res, rest, fin)" "int64 (res_MilliCPU r)"
  shows "int64 (res_MilliCPU rest) \<and>
    (res = None \<or> (\<exists>a. res = Some a \<and> cpu_not_scalar a \<and> res_MilliCPU a \<le> freeCPU m))"
proof (cases "entries (res_ScalarResources r) = []")
  case True
  have "int64 (min (res_MilliCPU r) (freeCPU m))"
    using assms(2) wrap64_range [of "res_MilliCPU (numa_allocatable m) - res_MilliCPU (numa_requested m)"]
    by (auto simp: min_def freeCPU_def)
  then show ?thesis
    using assms True
    by (auto simp: assignRequestForNUMANode_def Let_def freeCPU_def wrap64_range cpu_not_scalar_def zero_resource_def
        entries_def [of None] split: if_splits)
next
  case False
  then show ?thesis using assms assign_scalars_panic [OF False, of m] by simp
qed

lemma assign_loop_fits:
  assumes "resource_laws api" "assign_loop api r ns result = Ok (ns', result')" "int64 (res_MilliCPU r)"
    "distinct (map numa_name ns)"
  obtains new where "result' = result @ new" "\<forall>z \<in> set new. sound_zone api z" "zone_Name ` set new \<subseteq> numa_name ` set ns"
    "\<forall>n \<in> set ns. zone_charge api new (numa_name n) \<le> max 0 (freeWholeCPU n)"
proof -
  have "\<exists>new. result' = result @ new \<and> (\<forall>z \<in> set new. sound_zone api z) \<and> zone_Name ` set new \<subseteq> numa_name ` set ns \<and>
      (\<forall>n \<in> set ns. zone_charge api new (numa_name n) \<le> max 0 (freeWholeCPU n))"
    using assms(2-4)
  proof (induction ns arbitrary: r result ns')
    case (Cons n ns)
    obtain res rest fin where a: "assignRequestForNUMANode r (whole_cpus n) = Ok (res, rest, fin)"
      using Cons.prems(1) by (auto simp: Let_def go_simps)
    note c = assign_node_cpu [OF a Cons.prems(2)]
    define one where "one = (if entries (ResourceListIgnoreZeroResources api res) \<noteq> []
      then [numa_zone api (numa_name n) (ResourceListIgnoreZeroResources api res)] else [])"
    have one: "\<forall>z \<in> set one. sound_zone api z" "zone_charge api one (numa_name n) \<le> max 0 (freeWholeCPU n)"
        "zone_Name ` set one \<subseteq> {numa_name n}"
      using c capacity_zone [OF assms(1)]
      by (auto simp: one_def ResourceListIgnoreZeroResources_def [of api None] entries_def [of None])
    have other: "numa_name m \<noteq> numa_name n" if "m \<in> set ns" for m using that Cons.prems(3) by (metis distinct.simps(2) image_eqI list.set_map list.simps(9))
    then have one_other: "zone_charge api one (numa_name m) = 0" if "m \<in> set ns" for m
      using that one(3) by (intro zone_charge_other) blast
    have step: "assign_loop api r (n # ns) result = (if fin then Ok (whole_cpus n # ns, result @ one)
        else omap (\<lambda>(ns, r). (whole_cpus n # ns, r)) (assign_loop api rest ns (result @ one)))"
      by (simp add: a Let_def one_def)
    show ?case
    proof (cases fin)
      case True
      then have "result' = result @ one" using Cons.prems(1) unfolding step by simp
      moreover have "zone_charge api one (numa_name m) \<le> max 0 (freeWholeCPU m)" if "m \<in> set (n # ns)" for m
        using that one(2) one_other by auto
      ultimately show ?thesis using one(1,3) by (intro exI [of _ one]) auto
    next
      case False
      then obtain ns2 where "assign_loop api rest ns (result @ one) = Ok (ns2, result')"
        using Cons.prems(1) unfolding step by (auto simp: go_simps)
      from Cons.IH [OF this] c Cons.prems(3) obtain new where new: "result' = result @ one @ new"
          "\<forall>z \<in> set new. sound_zone api z" "zone_Name ` set new \<subseteq> numa_name ` set ns"
          "\<forall>m \<in> set ns. zone_charge api new (numa_name m) \<le> max 0 (freeWholeCPU m)" by auto
      have "zone_charge api (one @ new) (numa_name m) \<le> max 0 (freeWholeCPU m)" if "m \<in> set (n # ns)" for m
      proof (cases "m = n")
        case True
        have "zone_charge api new (numa_name n) = 0"
          using new(3) Cons.prems(3) by (intro zone_charge_other) auto
        then show ?thesis using one(2) True by simp
      next
        case False
        then show ?thesis using new(4) one_other that by simp
      qed
      then show ?thesis using new one by (intro exI [of _ "one @ new"]) auto
    qed
  qed simp
  then show thesis using that by blast
qed

text \<open>On a host that is not overcommitted the filter computes what is free without wrap-around.\<close>

lemma charged_node_free:
  assumes laws: "resource_laws api"
    and sound: "\<forall>p \<in> set pods. \<forall>z \<in> set (pod_zones api pod_key cache p). sound_zone api z"
    and room: "committed api pod_key cache pods (zone_Name zone) \<le> zone_alloc api zone"
  defines "n \<equiv> host_node api pod_key cache pods zone"
  shows "freeCPU n = zone_alloc api zone - committed api pod_key cache pods (zone_Name zone)"
    "max 0 (freeWholeCPU n) \<le> zone_alloc api zone - committed api pod_key cache pods (zone_Name zone)"
    "numa_name n = zone_Name zone"
proof -
  let ?a = "zone_alloc api zone" and ?c = "committed api pod_key cache pods (zone_Name zone)"
  have c: "0 \<le> ?c" using sound by (auto simp: committed_def intro!: sum_list_nonneg zone_charge_nonneg)
  have a: "int64 ?a" using laws by (simp add: resource_laws_def zone_alloc_def newNumaNode_def Let_def)
  have al: "res_MilliCPU (numa_allocatable n) = ?a" by (simp add: n_def zone_alloc_def)
  have rq: "res_MilliCPU (numa_requested n) = ?c"
    using charged_node_requested [OF laws sound, of zone] c room a unfolding n_def by (simp add: int64_def)
  show free: "freeCPU n = ?a - ?c" unfolding freeCPU_def al rq using c room a by (intro wrap64_id) (simp add: int64_def)
  have d: "0 \<le> ?a div 1000 * 1000" "?a div 1000 * 1000 \<le> ?a" using c room by auto
  have w: "wrap64 (?a sdiv 1000) = ?a div 1000" "wrap64 (?a div 1000 * 1000) = ?a div 1000 * 1000"
    "wrap64 (?a div 1000 * 1000 - ?c) = ?a div 1000 * 1000 - ?c"
    using c room d a by (auto simp: sdiv_nonneg int64_def intro!: wrap64_id)
  have "freeWholeCPU n = ?a div 1000 * 1000 - ?c"
    using rq by (simp add: freeCPU_def whole_cpus_def al w)
  then show "max 0 (freeWholeCPU n) \<le> ?a - ?c" using d room by simp
  show "numa_name n = zone_Name zone" by (simp add: n_def newNumaNode_def Let_def)
qed

text \<open>It is enough to look at the NUMA nodes the wrapper keeps.\<close>

lemma result_fitsI:
  assumes room: "\<forall>z \<in> set (topo_Zones nrt). held (zone_Name z) \<le> zone_alloc api z"
    and dist: "distinct (map zone_Name (topo_Zones nrt))"
    and nodes: "ns \<subseteq> node_of ` set (topo_Zones nrt)" "\<And>z. numa_name (node_of z) = zone_Name z"
    and result: "\<forall>z \<in> set result. sound_zone api z" "zone_Name ` set result \<subseteq> numa_name ` ns"
      "\<And>z. z \<in> set (topo_Zones nrt) \<Longrightarrow> node_of z \<in> ns \<Longrightarrow>
        zone_charge api result (zone_Name z) \<le> zone_alloc api z - held (zone_Name z)"
  shows "result_fits api held nrt result"
  unfolding result_fits_def
proof (intro conjI ballI)
  fix z assume z: "z \<in> set (topo_Zones nrt)"
  show "held (zone_Name z) + zone_charge api result (zone_Name z) \<le> zone_alloc api z"
  proof (cases "node_of z \<in> ns")
    case True
    then show ?thesis using result(3) [OF z] by simp
  next
    case False
    have "zone_Name z \<notin> numa_name ` ns"
    proof
      assume "zone_Name z \<in> numa_name ` ns"
      then obtain y where y: "y \<in> set (topo_Zones nrt)" "node_of y \<in> ns" "zone_Name y = zone_Name z"
        using nodes by (metis (no_types, lifting) image_iff subset_iff)
      then have "y = z" using dist z by (metis (no_types) distinct_map inj_onD)
      then show False using y False by simp
    qed
    then have "zone_charge api result (zone_Name z) = 0" using result(2) by (intro zone_charge_other) auto
    then show ?thesis using room z by simp
  qed
qed (use result(1) in auto)

lemma assigned_result_fits:
  assumes laws: "resource_laws api" and r: "cpu_not_scalar r"
    and sound: "\<forall>p \<in> set pods. \<forall>z \<in> set (pod_zones api pod_key cache p). sound_zone api z"
    and room: "\<forall>z \<in> set (topo_Zones nrt). committed api pod_key cache pods (zone_Name z) \<le> zone_alloc api z"
    and dist: "distinct (map zone_Name (topo_Zones nrt))"
    and nodes: "set (nw_numaNodes nw) \<subseteq> host_node api pod_key cache pods ` set (topo_Zones nrt)"
      "distinct (map numa_name (nw_numaNodes nw))" "nw_result nw = []"
    and aware: "nw_aware nw \<Longrightarrow> \<forall>n \<in> set (nw_numaNodes nw). fitsRequestForNUMANode r n = []"
    and assigned: "assignTopologyResult api nw r = Ok nw'"
  shows "result_fits api (committed api pod_key cache pods) nrt (nw_result nw')"
proof -
  let ?held = "committed api pod_key cache pods" and ?node = "host_node api pod_key cache pods"
  note free = charged_node_free [OF laws sound]
  have name: "numa_name (?node z) = zone_Name z" for z by (simp add: newNumaNode_def Let_def)
  note fitsI = result_fitsI [where held = ?held and node_of = ?node and api = api, OF room dist nodes(1) name]
  show ?thesis
  proof (cases "nw_aware nw")
    case True
    then have "nw_numaNodes nw \<noteq> []" using assigned by (auto simp: assignTopologyResult_def Let_def)
    from assign_aware [OF True this, of api r] assigned obtain m where m: "m \<in> set (nw_numaNodes nw)"
        "nw_result nw' = [numa_zone api (numa_name m) (ResourceListIgnoreZeroResources api (Some r))]" by auto
    have fit: "max 0 (res_MilliCPU r) \<le> max 0 (freeCPU m)"
      using aware [OF True] m(1) by (auto simp: fits_iff resource_is_zero_def)
    show ?thesis
    proof (rule fitsI)
      fix z assume z: "z \<in> set (topo_Zones nrt)" "?node z \<in> set (nw_numaNodes nw)"
      have "?node z = m" if "zone_Name z = numa_name m"
        using that nodes(2) z(2) m(1) name by (metis distinct_map inj_onD)
      then show "zone_charge api (nw_result nw') (zone_Name z) \<le> zone_alloc api z - ?held (zone_Name z)"
        using m(2) fit free(1) [of z] room z(1) capacity_zone(1) [OF laws r] by auto
    qed (use m capacity_zone [OF laws r] in auto)
  next
    case False
    let ?ns = "sort_slice (\<lambda>i j. freeCPU i > freeCPU j) (nw_numaNodes nw)"
    obtain ns' res where loop: "assign_loop api r ?ns [] = Ok (ns', res)" "mset (nw_result nw') = mset res"
      using assigned False nodes(3) by (auto simp: assignTopologyResult_def Let_def go_simps)
    have "mset (map numa_name ?ns) = mset (map numa_name (nw_numaNodes nw))" by simp
    then have "distinct (map numa_name ?ns)" using nodes(2) by (metis mset_eq_imp_distinct_iff)
    then obtain new where new: "res = new" "\<forall>z \<in> set new. sound_zone api z" "zone_Name ` set new \<subseteq> numa_name ` set ?ns"
        "\<forall>n \<in> set ?ns. zone_charge api new (numa_name n) \<le> max 0 (freeWholeCPU n)"
      using assign_loop_fits [OF laws loop(1)] r by (auto simp: cpu_not_scalar_def)
    have "result_fits api ?held nrt new"
    proof (rule fitsI)
      fix z assume z: "z \<in> set (topo_Zones nrt)" "?node z \<in> set (nw_numaNodes nw)"
      then show "zone_charge api new (zone_Name z) \<le> zone_alloc api z - ?held (zone_Name z)"
        using new(4) free(2) [of z] room name [of z] by force
    qed (use new in auto)
    then show ?thesis
      using loop(2) new(1) zone_charge_mset [OF loop(2)] mset_eq_setD [OF loop(2)] by (simp add: result_fits_def)
  qed
qed

text \<open>One call of \<open>Filter\<close>: it leaves the state of the cycle, or records for the host a result that fits on top of
  what the pods of the snapshot hold.\<close>

lemma Topology_Filter_fits:
  assumes laws: "resource_laws api" and r: "cpu_not_scalar (st_targetContainerResource s)"
    and filter: "Topology_Filter api pod_key tm (StateData s) pod ni = Ok (st', status)" "ni_Node ni = Some node"
    and sound: "\<forall>p \<in> set (ni_Pods ni). \<forall>z \<in> set (pod_zones api pod_key (tm_PodTopologyCache tm) p). sound_zone api z"
    and host: "\<And>nrt. tm_lister tm (node_Name node) = Inr nrt \<Longrightarrow> distinct (map zone_Name (topo_Zones nrt)) \<and>
      (\<forall>z \<in> set (topo_Zones nrt). committed api pod_key (tm_PodTopologyCache tm) (ni_Pods ni) (zone_Name z) \<le> zone_alloc api z)"
  obtains "st' = StateData s"
  | nw nrt where "st' = StateData (s\<lparr>st_podTopologyByNode := AList.update (node_Name node) nw (st_podTopologyByNode s)\<rparr>)"
    "tm_lister tm (node_Name node) = Inr nrt" "only_numa_zones api (nw_result nw)"
    "result_fits api (committed api pod_key (tm_PodTopologyCache tm) (ni_Pods ni)) nrt (nw_result nw)"
proof (cases "st' = StateData s")
  case False
  let ?r = "st_targetContainerResource s" and ?node = "host_node api pod_key (tm_PodTopologyCache tm) (ni_Pods ni)"
  obtain nrt where nrt: "tm_lister tm (node_Name node) = Inr nrt"
    using False filter by (auto simp: Topology_Filter_def getStateData_def split: if_splits sum.splits)
  let ?nw = "initializeNodeWrapper api pod_key tm s node (ni_Pods ni) nrt"
  let ?ns = "if nw_aware ?nw then filter (\<lambda>n. fitsRequestForNUMANode ?r n = []) (nw_numaNodes ?nw) else nw_numaNodes ?nw"
  have "record_topology api s (?nw\<lparr>nw_numaNodes := ?ns\<rparr>) = Ok (st', status)"
    using False filter nrt
    by (auto simp: Topology_Filter_def getStateData_def Let_def filterNUMANodeResource_def split: if_splits)
  then obtain nw where nw: "assignTopologyResult api (?nw\<lparr>nw_numaNodes := ?ns\<rparr>) ?r = Ok nw"
      "st' = StateData (s\<lparr>st_podTopologyByNode := AList.update (nw_node nw) nw (st_podTopologyByNode s)\<rparr>)"
    by (auto simp: record_topology_def go_simps)
  have "map numa_name (nw_numaNodes ?nw) = map zone_Name (topo_Zones nrt)"
    by (simp add: initializeNodeWrapper_nodes newNumaNode_def Let_def)
  then have "distinct (map numa_name (nw_numaNodes ?nw))" using host [OF nrt] by simp
  then have "distinct (map numa_name ?ns)" by (auto simp: distinct_map_filter)
  moreover have "set ?ns \<subseteq> ?node ` set (topo_Zones nrt)" by (auto simp: initializeNodeWrapper_nodes)
  ultimately have "result_fits api (committed api pod_key (tm_PodTopologyCache tm) (ni_Pods ni)) nrt (nw_result nw)"
    using host [OF nrt] by (intro assigned_result_fits [OF laws r sound _ _ _ _ _ _ nw(1)])
      (auto simp: initializeNodeWrapper_fields)
  then show thesis
    using that(2) nw(2) nrt assign_result_zones [OF nw(1)] by (simp add: initializeNodeWrapper_fields)
qed (use that(1) in blast)

section \<open>Scheduling cycles and bindings\<close>

text \<open>The pods the scheduler knows, each with its host; the pod that is being scheduled, with the snapshot of its cycle
  and the cycle's state; and the pods that passed \<open>Reserve\<close>, with their hosts and states.\<close>

type_synonym 'q placed = "(string \<times> 'q TopoPod) list"

record 'q numa_run =
  run_tm :: "'q TopologyMatch"
  run_pods :: "'q placed"
  run_cycle :: "('q TopoPod \<times> 'q placed \<times> 'q cycle_state) option"
  run_binding :: "('q TopoPod \<times> string \<times> 'q cycle_state) list"

abbreviation run_cache :: "'q numa_run \<Rightarrow> 'q Zone list podTopologyCacheImpl" where
  "run_cache s \<equiv> tm_PodTopologyCache (run_tm s)"

definition pods_of :: "'q placed \<Rightarrow> string \<Rightarrow> 'q TopoPod list" where
  "pods_of placed host = map snd (filter (\<lambda>e. fst e = host) placed)"

definition run_keys :: "('q TopoPod \<Rightarrow> string fallible) \<Rightarrow> 'q numa_run \<Rightarrow> string set" where
  "run_keys pod_key s = dom (cached (run_cache s)) \<union>
     {k. Inr k \<in> (\<lambda>e. pod_key (snd e)) ` set (run_pods s) \<union> (\<lambda>b. pod_key (fst b)) ` set (run_binding s)}"

definition remove_key :: "('q TopoPod \<Rightarrow> string fallible) \<Rightarrow> string fallible \<Rightarrow> 'q placed \<Rightarrow> 'q placed" where
  "remove_key pod_key k placed = filter (\<lambda>e. pod_key (snd e) \<noteq> k) placed"

text \<open>The pods of a run that hold zones only through the cache are not due for the clean-up at \<open>now\<close>: a reserved pod is
  bound, and its annotation seen, within the half hour that the cache keeps it.\<close>

definition bound_in_time :: "'q topo_api \<Rightarrow> ('q TopoPod \<Rightarrow> string fallible) \<Rightarrow> 'q numa_run \<Rightarrow> instant \<Rightarrow> bool" where
  "bound_in_time api pod_key s now \<longleftrightarrow>
     (\<forall>e \<in> set (run_pods s) \<union> (case run_cycle s of None \<Rightarrow> {} | Some (p, snap, st) \<Rightarrow> set snap).
        GetPodNUMANodeResult api (snd e) = [] \<longrightarrow>
        (\<forall>k dl. pod_key (snd e) = Inr k \<longrightarrow> deadline (run_cache s) k = Some dl \<longrightarrow> \<not> dl < now))"

datatype 'q numa_label =
    StartCycle "'q TopoPod"
  | FilterHost
  | AbandonCycle
  | ReservePod
  | RefusePod
  | BindPod
  | UnreservePod
  | DeletePod
  | PlacedByOthers "'q TopoPod"
  | CleanUpCache instant
  | Republish "string \<Rightarrow> 'q NodeResourceTopology fallible"

inductive numa_step ::
  "'q topo_api \<Rightarrow> ('q TopoPod \<Rightarrow> string fallible) \<Rightarrow> 'q numa_run \<Rightarrow> 'q numa_label \<Rightarrow> 'q numa_run \<Rightarrow> bool"
  for api pod_key
where
  start: \<comment> \<open>a cycle for a pod that is not placed begins with a snapshot\<close>
    "\<lbrakk>run_cycle s = None; pod_key p = Inr k; k \<notin> run_keys pod_key s\<rbrakk> \<Longrightarrow>
     numa_step api pod_key s (StartCycle p)
       (s\<lparr>run_cycle := Some (p, run_pods s, fst (Topology_PreFilter api (run_tm s) p))\<rparr>)"
| filtered: \<comment> \<open>a host of the snapshot is filtered\<close>
    "\<lbrakk>run_cycle s = Some (p, snap, st); ni_Node ni = Some node; ni_Pods ni = pods_of snap (node_Name node);
      Topology_Filter api pod_key (run_tm s) st p ni = Ok (st', status)\<rbrakk> \<Longrightarrow>
     numa_step api pod_key s FilterHost (s\<lparr>run_cycle := Some (p, snap, st')\<rparr>)"
| abandoned: \<comment> \<open>no host is found\<close>
    "run_cycle s = Some c \<Longrightarrow> numa_step api pod_key s AbandonCycle (s\<lparr>run_cycle := None\<rparr>)"
| reserved: \<comment> \<open>the pod is assumed on a host and bound in the background\<close>
    "\<lbrakk>run_cycle s = Some (p, snap, st);
      Topology_Reserve pod_key now (run_tm s) st p host = (tm', st', status); is_success status\<rbrakk> \<Longrightarrow>
     numa_step api pod_key s ReservePod
       (s\<lparr>run_tm := tm', run_pods := (host, p\<lparr>pod_NodeName := host\<rparr>) # run_pods s, run_cycle := None,
          run_binding := (p, host, st') # run_binding s\<rparr>)"
| refused: \<comment> \<open>a failed reservation is taken back\<close>
    "\<lbrakk>run_cycle s = Some (p, snap, st);
      Topology_Reserve pod_key now (run_tm s) st p host = (tm', st', status); \<not> is_success status\<rbrakk> \<Longrightarrow>
     numa_step api pod_key s RefusePod (s\<lparr>run_tm := Topology_Unreserve pod_key tm' st' p host, run_cycle := None\<rparr>)"
| bound: \<comment> \<open>the result that \<open>PreBind\<close> wrote reaches the scheduler\<close>
    "\<lbrakk>(p, host, StateData d) \<in> set (run_binding s);
      Topology_PreBind api client (StateData d) p = ([req], NilStatus); json_of_zones api (st_topologyResult d) = Inr js\<rbrakk> \<Longrightarrow>
     numa_step api pod_key s BindPod
       (s\<lparr>run_pods := map (\<lambda>e. if pod_key (snd e) = pod_key p then (fst e, with_topology_result api js (snd e)) else e)
          (run_pods s)\<rparr>)"
| unreserved: \<comment> \<open>a binding fails\<close>
    "(p, host, st) \<in> set (run_binding s) \<Longrightarrow>
     numa_step api pod_key s UnreservePod
       (s\<lparr>run_tm := Topology_Unreserve pod_key (run_tm s) st p host,
          run_pods := remove_key pod_key (pod_key p) (run_pods s),
          run_binding := filter (\<lambda>b. pod_key (fst b) \<noteq> pod_key p) (run_binding s)\<rparr>)"
| deleted: \<comment> \<open>a pod ends\<close>
    "numa_step api pod_key s DeletePod (s\<lparr>run_pods := remove_key pod_key k (run_pods s)\<rparr>)"
| other: \<comment> \<open>a pod is placed by someone else\<close>
    "\<lbrakk>pod_key p = Inr k; k \<notin> run_keys pod_key s;
      \<forall>q snap st. run_cycle s = Some (q, snap, st) \<longrightarrow> pod_key q \<noteq> Inr k\<rbrakk> \<Longrightarrow>
     numa_step api pod_key s (PlacedByOthers p) (s\<lparr>run_pods := (host, p) # run_pods s\<rparr>)"
| cleaned: \<comment> \<open>the goroutine of the cache ticks\<close>
    "numa_step api pod_key s (CleanUpCache (sys_now sys))
       (s\<lparr>run_tm := (run_tm s)\<lparr>tm_PodTopologyCache := cleanupExpiredAssumedPods sys (run_cache s)\<rparr>\<rparr>)"
| republished: \<comment> \<open>the informer delivers other topologies\<close>
    "numa_step api pod_key s (Republish lister) (s\<lparr>run_tm := (run_tm s)\<lparr>tm_lister := lister\<rparr>\<rparr>)"

text \<open>Topologies that keep their hosts and the names of their zones and do not shrink; a host whose topology is new has
  no pods.\<close>

definition topologies_grow ::
  "'q topo_api \<Rightarrow> 'q numa_run \<Rightarrow> (string \<Rightarrow> 'q NodeResourceTopology fallible) \<Rightarrow> bool" where
  "topologies_grow api s lister \<longleftrightarrow>
     (\<forall>host nrt. tm_lister (run_tm s) host = Inr nrt \<longrightarrow> (\<exists>nrt'. lister host = Inr nrt')) \<and>
     (\<forall>host nrt'. lister host = Inr nrt' \<longrightarrow> distinct (map zone_Name (topo_Zones nrt')) \<and>
        (\<forall>z \<in> set (topo_Zones nrt').
           (\<exists>nrt old. tm_lister (run_tm s) host = Inr nrt \<and> old \<in> set (topo_Zones nrt) \<and> zone_Name old = zone_Name z \<and>
              zone_alloc api old \<le> zone_alloc api z) \<or>
           (\<nexists>nrt. tm_lister (run_tm s) host = Inr nrt) \<and> 0 \<le> zone_alloc api z \<and>
              host \<notin> fst ` (set (run_pods s) \<union>
                (case run_cycle s of None \<Rightarrow> {} | Some (p, snap, st) \<Rightarrow> set snap))))"

text \<open>The steps of a run in which nothing is overcommitted: pods come without a result of an earlier attempt or of another
  scheduler, the clean-up does not overtake a binding, and topologies do not shrink.\<close>

fun orderly :: "'q topo_api \<Rightarrow> ('q TopoPod \<Rightarrow> string fallible) \<Rightarrow> 'q numa_run \<Rightarrow> 'q numa_label \<Rightarrow> bool" where
  "orderly api pod_key s (StartCycle p) = (GetPodNUMANodeResult api p = [])"
| "orderly api pod_key s (PlacedByOthers p) = (GetPodNUMANodeResult api p = [])"
| "orderly api pod_key s (CleanUpCache now) = bound_in_time api pod_key s now"
| "orderly api pod_key s (Republish lister) = topologies_grow api s lister"
| "orderly api pod_key s _ = True"

definition orderly_step :: "'q topo_api \<Rightarrow> ('q TopoPod \<Rightarrow> string fallible) \<Rightarrow> 'q numa_run \<Rightarrow> 'q numa_run \<Rightarrow> bool" where
  "orderly_step api pod_key s s' \<longleftrightarrow> (\<exists>l. numa_step api pod_key s l s' \<and> orderly api pod_key s l)"

section \<open>The invariant\<close>

abbreviation holds :: "'q topo_api \<Rightarrow> ('q TopoPod \<Rightarrow> string fallible) \<Rightarrow> 'q numa_run \<Rightarrow> 'q TopoPod \<Rightarrow> 'q Zone list" where
  "holds api pod_key s \<equiv> pod_zones api pod_key (run_cache s)"

text \<open>Placed pods have distinct keys and sound zones, and no NUMA node is overcommitted.\<close>

definition well_placed ::
  "'q topo_api \<Rightarrow> ('q TopoPod \<Rightarrow> string fallible) \<Rightarrow> 'q TopologyMatch \<Rightarrow> 'q placed \<Rightarrow> bool" where
  "well_placed api pod_key tm placed \<longleftrightarrow>
     distinct (map (\<lambda>e. pod_key (snd e)) placed) \<and>
     (\<forall>e \<in> set placed. \<forall>z \<in> set (pod_zones api pod_key (tm_PodTopologyCache tm) (snd e)). sound_zone api z) \<and>
     (\<forall>host nrt. tm_lister tm host = Inr nrt \<longrightarrow> (\<forall>z \<in> set (topo_Zones nrt).
        committed api pod_key (tm_PodTopologyCache tm) (pods_of placed host) (zone_Name z) \<le> zone_alloc api z))"

text \<open>Every pod that holds zones is in the snapshot and holds the same there.\<close>

definition covered :: "('q TopoPod \<Rightarrow> string fallible) \<Rightarrow> ('q TopoPod \<Rightarrow> 'q Zone list) \<Rightarrow> ('q TopoPod \<Rightarrow> 'q Zone list) \<Rightarrow>
    'q placed \<Rightarrow> 'q placed \<Rightarrow> bool" where
  "covered pod_key zones zones' placed snap \<longleftrightarrow>
     (\<forall>(host, q) \<in> set placed. zones q = [] \<or>
        (\<exists>q'. (host, q') \<in> set snap \<and> pod_key q' = pod_key q \<and> zones' q' = zones q))"

text \<open>A cycle: its pod is new, the snapshot covers the placed pods, and recorded results fit on top of these.\<close>

definition cycle_fits :: "'q topo_api \<Rightarrow> ('q TopoPod \<Rightarrow> string fallible) \<Rightarrow> 'q numa_run \<Rightarrow> 'q stateData \<Rightarrow> bool" where
  "cycle_fits api pod_key s d \<longleftrightarrow> st_topologyResult d = [] \<and> cpu_not_scalar (st_targetContainerResource d) \<and>
     (\<forall>host nw. map_of (st_podTopologyByNode d) host = Some nw \<longrightarrow> only_numa_zones api (nw_result nw) \<and>
        (\<exists>nrt. tm_lister (run_tm s) host = Inr nrt \<and>
           result_fits api (committed api pod_key (run_cache s) (pods_of (run_pods s) host)) nrt (nw_result nw)))"

definition cycle_ok :: "'q topo_api \<Rightarrow> ('q TopoPod \<Rightarrow> string fallible) \<Rightarrow> 'q numa_run \<Rightarrow> bool" where
  "cycle_ok api pod_key s \<longleftrightarrow>
     (\<forall>p snap st. run_cycle s = Some (p, snap, st) \<longrightarrow>
        (\<exists>k. pod_key p = Inr k \<and> k \<notin> run_keys pod_key s) \<and> GetPodNUMANodeResult api p = [] \<and>
        (\<exists>d. st = StateData d \<and> cycle_fits api pod_key s d) \<and> well_placed api pod_key (run_tm s) snap \<and>
        covered pod_key (holds api pod_key s) (holds api pod_key s) (run_pods s) snap)"

text \<open>A pod in a binding cycle holds the result of its cycle.\<close>

definition bindings_ok :: "'q topo_api \<Rightarrow> ('q TopoPod \<Rightarrow> string fallible) \<Rightarrow> 'q numa_run \<Rightarrow> bool" where
  "bindings_ok api pod_key s \<longleftrightarrow>
     (\<forall>(p, host, st) \<in> set (run_binding s). \<exists>k d. pod_key p = Inr k \<and> st = StateData d \<and>
        only_numa_zones api (st_topologyResult d) \<and>
        (\<forall>e \<in> set (run_pods s). pod_key (snd e) = pod_key p \<longrightarrow> holds api pod_key s (snd e) = st_topologyResult d))"

definition numa_inv :: "'q topo_api \<Rightarrow> ('q TopoPod \<Rightarrow> string fallible) \<Rightarrow> 'q numa_run \<Rightarrow> bool" where
  "numa_inv api pod_key s \<longleftrightarrow> cache_wf (run_cache s) \<and> well_placed api pod_key (run_tm s) (run_pods s) \<and>
     cycle_ok api pod_key s \<and> bindings_ok api pod_key s"

subsection \<open>Comparing what pods hold\<close>

lemma sum_list_dominated:
  fixes f :: "'a \<Rightarrow> int"
  assumes "distinct (map key xs)" "\<forall>y \<in> set ys. 0 \<le> g y"
    "\<forall>x \<in> set xs. f x = 0 \<or> (\<exists>y \<in> set ys. key y = key x \<and> f x = g y)"
  shows "sum_list (map f xs) \<le> sum_list (map g ys)"
  using assms
proof (induction xs arbitrary: ys)
  case Nil
  then show ?case by (auto intro!: sum_list_nonneg)
next
  case (Cons x xs)
  show ?case
  proof (cases "f x = 0")
    case True
    then show ?thesis using Cons.IH [of ys] Cons.prems by simp
  next
    case False
    then obtain y where y: "y \<in> set ys" "key y = key x" "f x = g y" using Cons.prems(3) by auto
    have "\<forall>x' \<in> set xs. f x' = 0 \<or> (\<exists>y' \<in> set (remove1 y ys). key y' = key x' \<and> f x' = g y')"
    proof
      fix x' assume x': "x' \<in> set xs"
      then have "key x' \<noteq> key x" using Cons.prems(1) by (metis distinct.simps(2) image_eqI list.set_map list.simps(9))
      then show "f x' = 0 \<or> (\<exists>y' \<in> set (remove1 y ys). key y' = key x' \<and> f x' = g y')"
        using Cons.prems(3) x' y(2) by (metis in_set_remove1 list.set_intros(2))
    qed
    moreover have "\<forall>y' \<in> set (remove1 y ys). 0 \<le> g y'" using Cons.prems(2) by (meson notin_set_remove1)
    ultimately have "sum_list (map f xs) \<le> sum_list (map g (remove1 y ys))"
      using Cons.IH [of "remove1 y ys"] Cons.prems(1) by simp
    then show ?thesis using y sum_list_map_remove1 [OF y(1), of g] by simp
  qed
qed

lemma coveredD:
  assumes "covered pod_key zones zones' placed snap" "(host, q) \<in> set placed" "zones q \<noteq> []"
  obtains q' where "(host, q') \<in> set snap" "pod_key q' = pod_key q" "zones' q' = zones q"
  using assms unfolding covered_def by blast

lemma set_pods_of: "q \<in> set (pods_of placed host) \<longleftrightarrow> (host, q) \<in> set placed"
  by (force simp: pods_of_def)

lemma committed_covered:
  assumes "covered pod_key (pod_zones api pod_key c) (pod_zones api pod_key c') placed snap"
    and "distinct (map (\<lambda>e. pod_key (snd e)) placed)"
    and "\<forall>e \<in> set snap. \<forall>z \<in> set (pod_zones api pod_key c' (snd e)). sound_zone api z"
  shows "committed api pod_key c (pods_of placed host) n \<le> committed api pod_key c' (pods_of snap host) n"
  unfolding committed_def
proof (rule sum_list_dominated)
  have "map (\<lambda>e. pod_key (snd e)) (filter (\<lambda>e. fst e = host) placed) = map pod_key (pods_of placed host)"
    by (simp add: pods_of_def)
  then show "distinct (map pod_key (pods_of placed host))" using assms(2) by (metis distinct_map_filter)
  show "\<forall>q \<in> set (pods_of snap host). 0 \<le> zone_charge api (pod_zones api pod_key c' q) n"
    using assms(3) by (auto simp: set_pods_of intro!: zone_charge_nonneg)
  show "\<forall>q \<in> set (pods_of placed host). zone_charge api (pod_zones api pod_key c q) n = 0 \<or>
      (\<exists>q' \<in> set (pods_of snap host). pod_key q' = pod_key q \<and>
        zone_charge api (pod_zones api pod_key c q) n = zone_charge api (pod_zones api pod_key c' q') n)"
    using assms(1) unfolding covered_def set_pods_of by (fastforce simp: set_pods_of)
qed

lemma result_fits_mono:
  "result_fits api held nrt result \<Longrightarrow> (\<And>n. held' n \<le> held n) \<Longrightarrow> result_fits api held' nrt result"
  unfolding result_fits_def by (meson add_right_mono order_trans)

text \<open>Steps after which no pod holds more than before: the snapshot may forget pods that are gone.\<close>

lemma well_placed_covered:
  assumes "well_placed api pod_key tm snap" "tm_lister tm' = tm_lister tm"
    and cov: "covered pod_key (pod_zones api pod_key (tm_PodTopologyCache tm')) (pod_zones api pod_key (tm_PodTopologyCache tm))
      placed snap"
    and dist: "distinct (map (\<lambda>e. pod_key (snd e)) placed)"
  shows "well_placed api pod_key tm' placed"
proof -
  have sound: "\<forall>e \<in> set snap. \<forall>z \<in> set (pod_zones api pod_key (tm_PodTopologyCache tm) (snd e)). sound_zone api z"
    using assms(1) by (simp add: well_placed_def)
  have "sound_zone api z" if "(host, q) \<in> set placed" "z \<in> set (pod_zones api pod_key (tm_PodTopologyCache tm') q)" for host q z
  proof -
    have "pod_zones api pod_key (tm_PodTopologyCache tm') q \<noteq> []" using that(2) by auto
    then obtain q' where "(host, q') \<in> set snap"
        "pod_zones api pod_key (tm_PodTopologyCache tm) q' = pod_zones api pod_key (tm_PodTopologyCache tm') q"
      by (metis coveredD [OF cov \<open>(host, q) \<in> set placed\<close>])
    then show ?thesis using sound that(2) by fastforce
  qed
  moreover have "committed api pod_key (tm_PodTopologyCache tm') (pods_of placed host) (zone_Name z) \<le> zone_alloc api z"
    if "tm_lister tm' host = Inr nrt" "z \<in> set (topo_Zones nrt)" for host nrt z
    using committed_covered [OF cov dist sound, of host "zone_Name z"] assms(1,2) that unfolding well_placed_def by force
  ultimately show ?thesis using dist unfolding well_placed_def by auto
qed

lemma cycle_ok_shrink:
  assumes ok: "cycle_ok api pod_key s"
    and same: "tm_lister (run_tm s') = tm_lister (run_tm s)" "run_cycle s' = run_cycle s"
    and cov: "covered pod_key (holds api pod_key s') (holds api pod_key s) (run_pods s') (run_pods s)"
    and le: "\<And>host n. committed api pod_key (run_cache s') (pods_of (run_pods s') host) n \<le>
      committed api pod_key (run_cache s) (pods_of (run_pods s) host) n"
    and cycle: "\<And>p snap st k. run_cycle s = Some (p, snap, st) \<Longrightarrow> pod_key p = Inr k \<Longrightarrow> k \<notin> run_keys pod_key s \<Longrightarrow>
      k \<notin> run_keys pod_key s'"
    and snap: "\<And>p snap st e. run_cycle s = Some (p, snap, st) \<Longrightarrow> e \<in> set snap \<Longrightarrow>
      holds api pod_key s' (snd e) = holds api pod_key s (snd e) \<or>
      holds api pod_key s' (snd e) = [] \<and> pod_key (snd e) \<notin> (\<lambda>e. pod_key (snd e)) ` set (run_pods s')"
  shows "cycle_ok api pod_key s'"
  unfolding cycle_ok_def same
proof (intro allI impI)
  let ?h = "holds api pod_key s" and ?h' = "holds api pod_key s'"
  fix p sn st assume run: "run_cycle s = Some (p, sn, st)"
  then obtain k d where d: "pod_key p = Inr k" "k \<notin> run_keys pod_key s" "GetPodNUMANodeResult api p = []" "st = StateData d"
      "cycle_fits api pod_key s d" "well_placed api pod_key (run_tm s) sn" "covered pod_key ?h ?h (run_pods s) sn"
    using ok unfolding cycle_ok_def by blast
  have "covered pod_key ?h' ?h sn sn" using snap [OF run] unfolding covered_def by fastforce
  then have "well_placed api pod_key (run_tm s') sn"
    using d(6) by (intro well_placed_covered [OF d(6) same(1)]) (auto simp: well_placed_def)
  moreover have "cycle_fits api pod_key s' d"
    unfolding cycle_fits_def same
  proof (intro conjI allI impI)
    fix host nw assume "map_of (st_podTopologyByNode d) host = Some nw"
    with d(5) obtain nrt where nrt: "only_numa_zones api (nw_result nw)" "tm_lister (run_tm s) host = Inr nrt"
        "result_fits api (committed api pod_key (run_cache s) (pods_of (run_pods s) host)) nrt (nw_result nw)"
      unfolding cycle_fits_def by blast
    show "only_numa_zones api (nw_result nw)" by (rule nrt(1))
    show "\<exists>nrt. tm_lister (run_tm s) host = Inr nrt \<and>
        result_fits api (committed api pod_key (run_cache s') (pods_of (run_pods s') host)) nrt (nw_result nw)"
      using nrt(2) result_fits_mono [OF nrt(3) le] by blast
  qed (use d(5) in \<open>auto simp: cycle_fits_def\<close>)
  moreover have "covered pod_key ?h' ?h' (run_pods s') sn"
    unfolding covered_def
  proof (clarify, rule ccontr)
    fix host q assume q: "(host, q) \<in> set (run_pods s')" "?h' q \<noteq> []"
      "\<nexists>q'. (host, q') \<in> set sn \<and> pod_key q' = pod_key q \<and> ?h' q' = ?h' q"
    then obtain q1 where q1: "(host, q1) \<in> set (run_pods s)" "pod_key q1 = pod_key q" "?h q1 = ?h' q"
      by (blast elim: coveredD [OF cov])
    then obtain q2 where "(host, q2) \<in> set sn" "pod_key q2 = pod_key q" "?h q2 = ?h' q"
      using q(2) by (metis coveredD [OF d(7)])
    then show False using snap [OF run, of "(host, q2)"] q by (auto simp: image_iff)
  qed
  ultimately show "(\<exists>k. pod_key p = Inr k \<and> k \<notin> run_keys pod_key s') \<and> GetPodNUMANodeResult api p = [] \<and>
      (\<exists>d. st = StateData d \<and> cycle_fits api pod_key s' d) \<and> well_placed api pod_key (run_tm s') sn \<and>
      covered pod_key ?h' ?h' (run_pods s') sn"
    using d(1,3,4) cycle [OF run d(1,2)] by blast
qed

lemma numa_inv_shrink:
  assumes inv: "numa_inv api pod_key s"
    and same: "tm_lister (run_tm s') = tm_lister (run_tm s)" "run_cycle s' = run_cycle s"
      "set (run_binding s') \<subseteq> set (run_binding s)"
    and wf: "cache_wf (run_cache s')"
    and dist: "distinct (map (\<lambda>e. pod_key (snd e)) (run_pods s'))"
    and pods: "\<And>host q. (host, q) \<in> set (run_pods s') \<Longrightarrow>
      (\<exists>q'. (host, q') \<in> set (run_pods s) \<and> pod_key q' = pod_key q \<and> holds api pod_key s q' = holds api pod_key s' q) \<or>
      holds api pod_key s' q = [] \<and> pod_key q \<notin> (\<lambda>b. pod_key (fst b)) ` set (run_binding s)"
    and cycle: "\<And>p snap st k. run_cycle s = Some (p, snap, st) \<Longrightarrow> pod_key p = Inr k \<Longrightarrow> k \<notin> run_keys pod_key s \<Longrightarrow>
      k \<notin> run_keys pod_key s'"
    and snap: "\<And>p snap st e. run_cycle s = Some (p, snap, st) \<Longrightarrow> e \<in> set snap \<Longrightarrow>
      holds api pod_key s' (snd e) = holds api pod_key s (snd e) \<or>
      holds api pod_key s' (snd e) = [] \<and> pod_key (snd e) \<notin> (\<lambda>e. pod_key (snd e)) ` set (run_pods s')"
  shows "numa_inv api pod_key s'"
proof -
  have placed: "well_placed api pod_key (run_tm s) (run_pods s)" using inv by (simp add: numa_inv_def)
  have cov: "covered pod_key (holds api pod_key s') (holds api pod_key s) (run_pods s') (run_pods s)"
    unfolding covered_def using pods by blast
  have le: "committed api pod_key (run_cache s') (pods_of (run_pods s') host) n \<le>
      committed api pod_key (run_cache s) (pods_of (run_pods s) host) n" for host n
    using placed by (intro committed_covered [OF cov dist]) (auto simp: well_placed_def)
  have "cycle_ok api pod_key s'"
    using inv by (intro cycle_ok_shrink [OF _ same(1,2) cov le cycle snap]) (simp add: numa_inv_def)
  moreover have "bindings_ok api pod_key s'"
    unfolding bindings_ok_def
  proof (clarify)
    fix p host st assume b: "(p, host, st) \<in> set (run_binding s')"
    then obtain k d where d: "pod_key p = Inr k" "st = StateData d" "only_numa_zones api (st_topologyResult d)"
        "\<forall>e \<in> set (run_pods s). pod_key (snd e) = pod_key p \<longrightarrow> holds api pod_key s (snd e) = st_topologyResult d"
      using inv same(3) unfolding numa_inv_def bindings_ok_def by blast
    have "pod_key p \<in> (\<lambda>b. pod_key (fst b)) ` set (run_binding s)" using b same(3) by force
    then have "holds api pod_key s' q = st_topologyResult d" if "(h, q) \<in> set (run_pods s')" "pod_key q = pod_key p" for h q
      using pods [OF that(1)] d(4) that(2) by force
    then show "\<exists>k d. pod_key p = Inr k \<and> st = StateData d \<and> only_numa_zones api (st_topologyResult d) \<and>
        (\<forall>e \<in> set (run_pods s'). pod_key (snd e) = pod_key p \<longrightarrow> holds api pod_key s' (snd e) = st_topologyResult d)"
      using d(1-3) by fastforce
  qed
  ultimately show ?thesis
    using wf well_placed_covered [OF placed same(1) cov dist] by (simp add: numa_inv_def)
qed

subsection \<open>Every step keeps the invariant\<close>

text \<open>Keys are made from the UID, written results can be read back, and the zones of a host have distinct names.\<close>

definition keys_stable :: "('q TopoPod \<Rightarrow> string fallible) \<Rightarrow> bool" where
  "keys_stable pod_key \<longleftrightarrow> (\<forall>p a n. pod_key (p\<lparr>pod_Annotations := a\<rparr>) = pod_key p \<and> pod_key (p\<lparr>pod_NodeName := n\<rparr>) = pod_key p)"

definition zones_round_trip :: "'q topo_api \<Rightarrow> bool" where
  "zones_round_trip api \<longleftrightarrow> (\<forall>zs js. json_of_zones api zs = Inr js \<longrightarrow> json_read_zones api js = Some zs)"

definition topologies_ok :: "'q TopologyMatch \<Rightarrow> bool" where
  "topologies_ok tm \<longleftrightarrow> (\<forall>host nrt. tm_lister tm host = Inr nrt \<longrightarrow> distinct (map zone_Name (topo_Zones nrt)))"

lemma pod_zones_cong:
  "(\<And>k. pod_key q = Inr k \<Longrightarrow> GetPodNUMANodeResult api q = [] \<Longrightarrow> cached c' k = cached c k) \<Longrightarrow>
   pod_zones api pod_key c' q = pod_zones api pod_key c q"
  by (cases "pod_key q") (auto simp: pod_zones_def GetPodTopology_def)

lemma pod_zones_node_name [simp]:
  "keys_stable pod_key \<Longrightarrow> pod_zones api pod_key c (p\<lparr>pod_NodeName := n\<rparr>) = pod_zones api pod_key c p"
  by (simp add: pod_zones_def GetPodNUMANodeResult_def GetPodTopologyResult_def GetPodTopology_def keys_stable_def)

lemma start_inv:
  assumes inv: "numa_inv api pod_key s" and laws: "resource_laws api"
    and "run_cycle s = None" "pod_key p = Inr k" "k \<notin> run_keys pod_key s" "GetPodNUMANodeResult api p = []"
  shows "numa_inv api pod_key (s\<lparr>run_cycle := Some (p, run_pods s, fst (Topology_PreFilter api (run_tm s) p))\<rparr>)"
proof -
  have "cpu_not_scalar (foldl (\<lambda>r i. res_add api r (f i)) r is)" if "cpu_not_scalar r" for f r and "is" :: "nat list"
    using that laws by (induction "is" arbitrary: r) (auto simp: cpu_not_scalar_def resource_laws_def)
  then have "cpu_not_scalar (computeContainerSpecifiedResourceRequest api p is names)" for "is" names
    by (simp add: computeContainerSpecifiedResourceRequest_def cpu_not_scalar_def zero_resource_def entries_def int64_def)
  then show ?thesis
    using assms unfolding numa_inv_def cycle_ok_def bindings_ok_def
    by (auto simp: Topology_PreFilter_def Let_def cycle_fits_def run_keys_def covered_def)
qed

lemma filtered_inv:
  assumes inv: "numa_inv api pod_key s" and laws: "resource_laws api" and topo: "topologies_ok (run_tm s)"
    and run: "run_cycle s = Some (p, snap, st)" and ni: "ni_Node ni = Some node" "ni_Pods ni = pods_of snap (node_Name node)"
    and filter: "Topology_Filter api pod_key (run_tm s) st p ni = Ok (st', status)"
  shows "numa_inv api pod_key (s\<lparr>run_cycle := Some (p, snap, st')\<rparr>)"
proof -
  let ?s = "s\<lparr>run_cycle := Some (p, snap, st')\<rparr>"
  obtain k d where d: "pod_key p = Inr k" "k \<notin> run_keys pod_key s" "GetPodNUMANodeResult api p = []" "st = StateData d"
      "cycle_fits api pod_key s d" "well_placed api pod_key (run_tm s) snap"
      "covered pod_key (holds api pod_key s) (holds api pod_key s) (run_pods s) snap"
    using inv run unfolding numa_inv_def cycle_ok_def by blast
  have sound: "\<forall>e \<in> set snap. \<forall>z \<in> set (holds api pod_key s (snd e)). sound_zone api z"
    using d(6) by (simp add: well_placed_def)
  have le: "committed api pod_key (run_cache s) (pods_of (run_pods s) host) n \<le>
      committed api pod_key (run_cache s) (pods_of snap host) n" for host n
    using inv by (intro committed_covered [OF d(7) _ sound]) (simp add: numa_inv_def well_placed_def)
  obtain d' where "st' = StateData d'" "cycle_fits api pod_key s d'"
  proof (rule Topology_Filter_fits [OF laws _ filter [unfolded d(4)] ni(1)])
    show "cpu_not_scalar (st_targetContainerResource d)" using d(5) by (simp add: cycle_fits_def)
    show "\<forall>p \<in> set (ni_Pods ni). \<forall>z \<in> set (holds api pod_key s p). sound_zone api z"
      using sound by (auto simp: ni(2) set_pods_of)
    show "distinct (map zone_Name (topo_Zones nrt)) \<and> (\<forall>z \<in> set (topo_Zones nrt).
        committed api pod_key (run_cache s) (ni_Pods ni) (zone_Name z) \<le> zone_alloc api z)"
      if "tm_lister (run_tm s) (node_Name node) = Inr nrt" for nrt
      using that d(6) topo by (simp add: ni(2) well_placed_def topologies_ok_def)
  next
    fix nw nrt
    assume "st' = StateData (d\<lparr>st_podTopologyByNode := AList.update (node_Name node) nw (st_podTopologyByNode d)\<rparr>)"
      and nw: "tm_lister (run_tm s) (node_Name node) = Inr nrt" "only_numa_zones api (nw_result nw)"
      "result_fits api (committed api pod_key (run_cache s) (ni_Pods ni)) nrt (nw_result nw)"
    moreover have "result_fits api (committed api pod_key (run_cache s) (pods_of (run_pods s) (node_Name node))) nrt (nw_result nw)"
      by (rule result_fits_mono [OF nw(3) [unfolded ni(2)] le])
    ultimately show thesis
      using that d(5) by (simp add: cycle_fits_def AList.update_conv')
  qed (use that d(5) in blast)
  moreover from this have "cycle_fits api pod_key ?s d'" by (simp add: cycle_fits_def)
  moreover have "run_keys pod_key ?s = run_keys pod_key s" by (simp add: run_keys_def)
  ultimately show ?thesis
    using inv d unfolding numa_inv_def cycle_ok_def bindings_ok_def by auto
qed

lemma placed_inv:
  assumes inv: "numa_inv api pod_key s" and stable: "keys_stable pod_key"
    and p: "pod_key p = Inr k" "k \<notin> run_keys pod_key s" "GetPodNUMANodeResult api p = []"
    and cache: "cache_wf (tm_PodTopologyCache tm')" "tm_lister tm' = tm_lister (run_tm s)"
      "\<And>j. j \<noteq> k \<Longrightarrow> cached (tm_PodTopologyCache tm') j = cached (run_cache s) j"
    and zones: "pod_zones api pod_key (tm_PodTopologyCache tm') p = st_topologyResult d"
      "only_numa_zones api (st_topologyResult d)"
      "st_topologyResult d = [] \<or> (\<exists>nrt. tm_lister (run_tm s) host = Inr nrt \<and>
         result_fits api (committed api pod_key (run_cache s) (pods_of (run_pods s) host)) nrt (st_topologyResult d))"
  shows "numa_inv api pod_key (s\<lparr>run_tm := tm', run_pods := (host, p\<lparr>pod_NodeName := host\<rparr>) # run_pods s, run_cycle := None,
    run_binding := (p, host, StateData d) # run_binding s\<rparr>)"
proof -
  let ?c = "tm_PodTopologyCache tm'" and ?Z = "st_topologyResult d"
  have new: "pod_key (p\<lparr>pod_NodeName := host\<rparr>) = Inr k" using p(1) stable by (simp add: keys_stable_def)
  have old: "pod_key (snd e) \<noteq> Inr k" "pod_zones api pod_key ?c (snd e) = holds api pod_key s (snd e)"
    if "e \<in> set (run_pods s)" for e
  proof -
    show key: "pod_key (snd e) \<noteq> Inr k" using that p(2) by (force simp: run_keys_def)
    show "pod_zones api pod_key ?c (snd e) = holds api pod_key s (snd e)"
      by (rule pod_zones_cong) (use cache(3) key in metis)
  qed
  have placed: "well_placed api pod_key (run_tm s) (run_pods s)" using inv by (simp add: numa_inv_def)
  have sum: "committed api pod_key ?c (pods_of ((host, p\<lparr>pod_NodeName := host\<rparr>) # run_pods s) h) n =
      (if h = host then zone_charge api ?Z n else 0) + committed api pod_key (run_cache s) (pods_of (run_pods s) h) n" for h n
  proof -
    have "committed api pod_key ?c (pods_of (run_pods s) h) n = committed api pod_key (run_cache s) (pods_of (run_pods s) h) n"
      unfolding committed_def by (intro arg_cong [of _ _ sum_list] map_cong) (use old(2) in \<open>force simp: set_pods_of\<close>)+
    then show ?thesis using zones(1) stable by (auto simp: committed_def pods_of_def)
  qed
  have "well_placed api pod_key tm' ((host, p\<lparr>pod_NodeName := host\<rparr>) # run_pods s)"
    unfolding well_placed_def
  proof (intro conjI allI impI ballI)
    show "distinct (map (\<lambda>e. pod_key (snd e)) ((host, p\<lparr>pod_NodeName := host\<rparr>) # run_pods s))"
      using placed new by (simp add: well_placed_def image_iff) (metis old(1))
    show "sound_zone api z" if "e \<in> set ((host, p\<lparr>pod_NodeName := host\<rparr>) # run_pods s)"
      "z \<in> set (pod_zones api pod_key ?c (snd e))" for e z
    proof (cases "e \<in> set (run_pods s)")
      case True
      then show ?thesis using that(2) placed old(2) [OF True] by (auto simp: well_placed_def)
    next
      case False
      then show ?thesis using that zones(1,3) stable by (auto simp: result_fits_def)
    qed
    show "committed api pod_key ?c (pods_of ((host, p\<lparr>pod_NodeName := host\<rparr>) # run_pods s) h) (zone_Name z) \<le> zone_alloc api z"
      if "tm_lister tm' h = Inr nrt" "z \<in> set (topo_Zones nrt)" for h nrt z
      unfolding sum using that placed zones(3) cache(2) by (auto simp: well_placed_def result_fits_def add.commute)
  qed
  moreover have "pod_key q \<noteq> Inr k" if "(q, h, st) \<in> set (run_binding s)" for q h st
    using that p(2) by (force simp: run_keys_def)
  ultimately show ?thesis
    using inv cache(1) p(1) new old zones(1,2) stable unfolding numa_inv_def cycle_ok_def bindings_ok_def by fastforce
qed

lemma reserved_inv:
  assumes inv: "numa_inv api pod_key s" and stable: "keys_stable pod_key"
    and run: "run_cycle s = Some (p, snap, st)"
    and reserve: "Topology_Reserve pod_key now (run_tm s) st p host = (tm', st', status)" "is_success status"
  shows "numa_inv api pod_key (s\<lparr>run_tm := tm', run_pods := (host, p\<lparr>pod_NodeName := host\<rparr>) # run_pods s, run_cycle := None,
    run_binding := (p, host, st') # run_binding s\<rparr>)"
proof -
  obtain k d where d: "pod_key p = Inr k" "k \<notin> run_keys pod_key s" "GetPodNUMANodeResult api p = []" "st = StateData d"
      "cycle_fits api pod_key s d"
    using inv run unfolding numa_inv_def cycle_ok_def by blast
  have free: "cached (run_cache s) k = None" using d(2) by (auto simp: run_keys_def)
  have wf: "cache_wf (run_cache s)" using inv by (simp add: numa_inv_def)
  show ?thesis
  proof (cases "map_of (st_podTopologyByNode d) host")
    case None
    then have "tm' = run_tm s" "st' = StateData d" using reserve by (auto simp: Topology_Reserve_def getStateData_def d(4))
    moreover have "holds api pod_key s p = []" using d(1,3) free by (simp add: pod_zones_def GetPodTopology_def)
    ultimately show ?thesis
      using inv d(5) placed_inv [OF inv stable d(1-3), of "run_tm s" d host]
      by (simp add: numa_inv_def cycle_fits_def only_numa_zones_def)
  next
    case (Some nw)
    let ?d = "d\<lparr>st_topologyResult := nw_result nw\<rparr>"
    obtain c where c: "AssumePod pod_key now (run_cache s) p (nw_result nw) = (c, None)" "cache_wf c"
        "cached c = (cached (run_cache s))(k \<mapsto> nw_result nw)"
      using impl.assume_new [where c = "run_cache s" and p = p and k = k and now = now and z = "nw_result nw"] wf d(1) free by auto
    then have "tm' = (run_tm s)\<lparr>tm_PodTopologyCache := c\<rparr>" "st' = StateData ?d"
      using reserve Some by (auto simp: Topology_Reserve_def getStateData_def d(4) Let_def split: if_splits)
    moreover have "pod_zones api pod_key c p = nw_result nw" using c(3) d(1,3) by (simp add: pod_zones_def GetPodTopology_def)
    ultimately show ?thesis
      using c(2,3) d(5) Some placed_inv [OF inv stable d(1-3), of "(run_tm s)\<lparr>tm_PodTopologyCache := c\<rparr>" ?d host]
      by (simp add: cycle_fits_def)
  qed
qed

lemma Unreserve_cached:
  assumes "pod_key p = Inr k" "cache_wf (tm_PodTopologyCache tm)"
  shows "cache_wf (tm_PodTopologyCache (Topology_Unreserve pod_key tm st p host)) \<and>
    tm_lister (Topology_Unreserve pod_key tm st p host) = tm_lister tm \<and>
    (cached (tm_PodTopologyCache (Topology_Unreserve pod_key tm st p host)) = cached (tm_PodTopologyCache tm) \<or>
     cached (tm_PodTopologyCache (Topology_Unreserve pod_key tm st p host)) = (cached (tm_PodTopologyCache tm))(k := None))"
  using assms by (auto simp: Topology_Unreserve_def ForgetPod_def removePod_maps removePod_wf split: sum.split option.split)

lemma Reserve_refused:
  assumes "Topology_Reserve pod_key now tm st p host = (tm', st', status)" "\<not> is_success status"
  shows "tm' = tm"
proof (cases "\<exists>d nw. getStateData st = Inr d \<and> map_of (st_podTopologyByNode d) host = Some nw \<and> nw_result nw \<noteq> []")
  case True
  then obtain d nw where d: "getStateData st = Inr d" "map_of (st_podTopologyByNode d) host = Some nw" "nw_result nw \<noteq> []" by blast
  obtain c err where a: "AssumePod pod_key now (tm_PodTopologyCache tm) p (nw_result nw) = (c, err)" by force
  then have "err \<noteq> None" "tm' = tm\<lparr>tm_PodTopologyCache := c\<rparr>"
    using assms d by (auto simp: Topology_Reserve_def Let_def split: option.splits)
  moreover have "c = tm_PodTopologyCache tm" if "err \<noteq> None"
    using a that by (auto simp: AssumePod_def split: sum.splits if_splits)
  ultimately show ?thesis by simp
qed (use assms in \<open>auto simp: Topology_Reserve_def split: sum.splits option.splits\<close>)

text \<open>Without a cycle the snapshot imposes nothing.\<close>

lemma no_cycle_inv:
  "numa_inv api pod_key s \<Longrightarrow> numa_inv api pod_key (s\<lparr>run_cycle := None\<rparr>)"
  by (simp add: numa_inv_def cycle_ok_def bindings_ok_def)

lemma refused_inv:
  assumes inv: "numa_inv api pod_key s" and run: "run_cycle s = Some (p, snap, st)"
    and reserve: "Topology_Reserve pod_key now (run_tm s) st p host = (tm', st', status)" "\<not> is_success status"
  shows "numa_inv api pod_key (s\<lparr>run_tm := Topology_Unreserve pod_key tm' st' p host, run_cycle := None\<rparr>)"
proof -
  have same: "tm' = run_tm s" by (rule Reserve_refused [OF reserve])
  let ?tm = "Topology_Unreserve pod_key tm' st' p host" and ?s = "s\<lparr>run_cycle := None\<rparr>"
  obtain k where k: "pod_key p = Inr k" "k \<notin> run_keys pod_key s"
    using inv run unfolding numa_inv_def cycle_ok_def by blast
  have tm: "cache_wf (tm_PodTopologyCache ?tm)" "tm_lister ?tm = tm_lister (run_tm s)"
      "cached (tm_PodTopologyCache ?tm) = cached (run_cache s)"
    using Unreserve_cached [where pod_key = pod_key and p = p and k = k and tm = tm' and st = st' and host = host] inv k same
    by (auto simp: numa_inv_def run_keys_def)
  have "pod_zones api pod_key (tm_PodTopologyCache ?tm) q = holds api pod_key s q" for q
    by (rule pod_zones_cong) (simp add: tm(3))
  then show ?thesis
    using inv tm by (intro numa_inv_shrink [OF no_cycle_inv [OF inv]])
      (auto simp: numa_inv_def well_placed_def)
qed

lemma bound_inv:
  fixes s :: "'a numa_run"
  assumes inv: "numa_inv api pod_key s" and stable: "keys_stable pod_key" and json: "zones_round_trip api"
    and binding: "(p, host, StateData d) \<in> set (run_binding s)"
      "Topology_PreBind api client (StateData d) p = ([req], NilStatus)" "json_of_zones api (st_topologyResult d) = Inr js"
  shows "numa_inv api pod_key (s\<lparr>run_pods :=
    map (\<lambda>e. if pod_key (snd e) = pod_key p then (fst e, with_topology_result api js (snd e)) else e) (run_pods s)\<rparr>)"
proof -
  define f where "f = (\<lambda>e :: string \<times> 'a TopoPod. if pod_key (snd e) = pod_key p then (fst e, with_topology_result api js (snd e)) else e)"
  have b: "only_numa_zones api (st_topologyResult d)" "\<And>e. e \<in> set (run_pods s) \<Longrightarrow> pod_key (snd e) = pod_key p \<Longrightarrow>
      holds api pod_key s (snd e) = st_topologyResult d"
    using inv binding(1) unfolding numa_inv_def bindings_ok_def by fastforce+
  have "st_topologyResult d \<noteq> []" using binding(2) by (auto simp: Topology_PreBind_def getStateData_def)
  then have res: "holds api pod_key s (with_topology_result api js q) = st_topologyResult d" for q
    using json binding(3) b(1)
    by (auto simp: pod_zones_def GetPodNUMANodeResult_def GetPodTopologyResult_def with_topology_result_def
        only_numa_zones_def zones_round_trip_def)
  have key: "pod_key (snd (f e)) = pod_key (snd e)" for e
    using stable by (simp add: f_def with_topology_result_def keys_stable_def)
  have f: "fst (f e) = fst e" "e \<in> set (run_pods s) \<Longrightarrow> holds api pod_key s (snd (f e)) = holds api pod_key s (snd e)" for e
    using res b(2) by (auto simp: f_def)
  have keys: "map (\<lambda>e. pod_key (snd e)) (map f (run_pods s)) = map (\<lambda>e. pod_key (snd e)) (run_pods s)"
    by (simp add: key comp_def)
  have match: "\<exists>q'. (h, q') \<in> set (run_pods s) \<and> pod_key q' = pod_key q \<and> holds api pod_key s q' = holds api pod_key s q"
    if mem: "(h, q) \<in> set (map f (run_pods s))" for h q
  proof -
    obtain e where e: "e \<in> set (run_pods s)" "(h, q) = f e" using mem unfolding set_map by (elim imageE)
    from arg_cong [OF e(2), of fst] arg_cong [OF e(2), of snd] have "h = fst e" "q = snd (f e)" by (simp_all add: f(1))
    then show ?thesis using e(1) key [of e] f(2) [of e] by (intro exI [of _ "snd e"]) simp
  qed
  have "run_keys pod_key (s\<lparr>run_pods := map f (run_pods s)\<rparr>) = run_keys pod_key s"
    using arg_cong [OF keys, of set] by (simp add: run_keys_def image_image)
  then show ?thesis
    unfolding f_def [symmetric] using inv match
    by (intro numa_inv_shrink [OF inv]) (auto simp: numa_inv_def well_placed_def key comp_def)
qed

lemma remove_key_simps:
  "e \<in> set (remove_key pod_key k placed) \<longleftrightarrow> e \<in> set placed \<and> pod_key (snd e) \<noteq> k"
  "distinct (map (\<lambda>e. pod_key (snd e)) placed) \<Longrightarrow> distinct (map (\<lambda>e. pod_key (snd e)) (remove_key pod_key k placed))"
  by (auto simp: remove_key_def distinct_map_filter)

lemma unreserved_inv:
  assumes inv: "numa_inv api pod_key s" and binding: "(p, host, st) \<in> set (run_binding s)"
  shows "numa_inv api pod_key (s\<lparr>run_tm := Topology_Unreserve pod_key (run_tm s) st p host,
    run_pods := remove_key pod_key (pod_key p) (run_pods s),
    run_binding := filter (\<lambda>b. pod_key (fst b) \<noteq> pod_key p) (run_binding s)\<rparr>)"
proof -
  let ?tm = "Topology_Unreserve pod_key (run_tm s) st p host"
  obtain k where k: "pod_key p = Inr k" using inv binding unfolding numa_inv_def bindings_ok_def by fastforce
  have tm: "cache_wf (tm_PodTopologyCache ?tm)" "tm_lister ?tm = tm_lister (run_tm s)"
      "cached (tm_PodTopologyCache ?tm) = cached (run_cache s) \<or>
       cached (tm_PodTopologyCache ?tm) = (cached (run_cache s))(k := None)"
    using Unreserve_cached [where pod_key = pod_key and p = p and k = k and tm = "run_tm s" and st = st and host = host] inv k
    by (auto simp: numa_inv_def)
  have other: "pod_zones api pod_key (tm_PodTopologyCache ?tm) q = holds api pod_key s q" if "pod_key q \<noteq> Inr k" for q
    by (rule pod_zones_cong) (use tm(3) that in auto)
  have own: "pod_zones api pod_key (tm_PodTopologyCache ?tm) q = holds api pod_key s q \<or>
      pod_zones api pod_key (tm_PodTopologyCache ?tm) q = []" if "pod_key q = Inr k" for q
    using tm(3) that by (auto simp: pod_zones_def GetPodTopology_def)
  show ?thesis
  proof (rule numa_inv_shrink [OF inv], goal_cases)
    case (5)
    then show ?case using inv by (simp add: numa_inv_def well_placed_def remove_key_simps)
  next
    case (6 h q)
    then show ?case using other k by (auto simp: remove_key_simps)
  next
    case (7 p' snap st' j)
    then show ?case using tm(3) by (auto simp: run_keys_def remove_key_simps split: if_splits)
  next
    case (8 p' snap st' e)
    then show ?case using own [of "snd e"] other [of "snd e"] k by (cases "pod_key (snd e) = Inr k") (auto simp: remove_key_simps)
  qed (use tm in auto)
qed

lemma deleted_inv:
  assumes inv: "numa_inv api pod_key s"
  shows "numa_inv api pod_key (s\<lparr>run_pods := remove_key pod_key k (run_pods s)\<rparr>)"
  using inv by (intro numa_inv_shrink [OF inv]) (auto simp: numa_inv_def well_placed_def remove_key_simps run_keys_def)

lemma other_inv:
  assumes inv: "numa_inv api pod_key s" and p: "pod_key p = Inr k" "k \<notin> run_keys pod_key s" "GetPodNUMANodeResult api p = []"
    and cycle: "\<forall>q snap st. run_cycle s = Some (q, snap, st) \<longrightarrow> pod_key q \<noteq> Inr k"
  shows "numa_inv api pod_key (s\<lparr>run_pods := (host, p) # run_pods s\<rparr>)"
proof (rule numa_inv_shrink [OF inv], goal_cases)
  case 5
  then show ?case using inv p by (force simp: numa_inv_def well_placed_def run_keys_def)
next
  case (6 h q)
  have "holds api pod_key s p = []" using p by (auto simp: pod_zones_def GetPodTopology_def run_keys_def)
  moreover have "pod_key p \<notin> (\<lambda>b. pod_key (fst b)) ` set (run_binding s)" using p by (auto simp: run_keys_def)
  ultimately show ?case using 6 by auto
next
  case (7 q snap st j)
  then show ?case using cycle p by (auto simp: run_keys_def)
qed (use inv in \<open>auto simp: numa_inv_def\<close>)

lemma cleaned_inv:
  assumes inv: "numa_inv api pod_key s" and time: "bound_in_time api pod_key s (sys_now sys)"
  shows "numa_inv api pod_key
    (s\<lparr>run_tm := (run_tm s)\<lparr>tm_PodTopologyCache := cleanupExpiredAssumedPods sys (run_cache s)\<rparr>\<rparr>)"
proof -
  let ?c = "cleanupExpiredAssumedPods sys (run_cache s)"
  have wf: "cache_wf (run_cache s)" using inv by (simp add: numa_inv_def)
  note maps = cleanup_maps(1) [OF wf, of "sys_now sys", folded cleanupExpiredAssumedPods_def]
  have keep: "pod_zones api pod_key ?c (snd e) = holds api pod_key s (snd e)"
    if "e \<in> set (run_pods s) \<union> (case run_cycle s of None \<Rightarrow> {} | Some (p, snap, st) \<Rightarrow> set snap)" for e
    by (rule pod_zones_cong) (use that time in \<open>auto simp: maps bound_in_time_def\<close>)
  show ?thesis
  proof (rule numa_inv_shrink [OF inv], goal_cases)
    case (6 h q)
    then show ?case using keep [of "(h, q)"] by auto
  next
    case (7 q snap st j)
    then show ?case by (auto simp: run_keys_def maps split: if_splits)
  next
    case (8 q snap st e)
    then show ?case using keep [of e] by auto
  qed (use inv wf in \<open>auto simp: cleanupExpiredAssumedPods_def cleanup_wf numa_inv_def well_placed_def\<close>)
qed

lemma grown_zone:
  assumes "topologies_grow api s lister" "lister host = Inr nrt'" "z \<in> set (topo_Zones nrt')"
  shows "tm_lister (run_tm s) host = Inr nrt \<Longrightarrow>
      \<exists>old \<in> set (topo_Zones nrt). zone_Name old = zone_Name z \<and> zone_alloc api old \<le> zone_alloc api z"
    and "\<forall>nrt. tm_lister (run_tm s) host \<noteq> Inr nrt \<Longrightarrow> 0 \<le> zone_alloc api z \<and>
      host \<notin> fst ` (set (run_pods s) \<union> (case run_cycle s of None \<Rightarrow> {} | Some (p, snap, st) \<Rightarrow> set snap))"
  using assms(1) [unfolded topologies_grow_def, THEN conjunct2, rule_format, OF assms(2)] assms(3) by force+

lemma kept_topology:
  "topologies_grow api s lister \<Longrightarrow> tm_lister (run_tm s) host = Inr nrt \<Longrightarrow> \<exists>nrt'. lister host = Inr nrt'"
  by (simp add: topologies_grow_def)

lemma republished_placed:
  assumes "topologies_grow api s lister" "well_placed api pod_key (run_tm s) placed"
    and "fst ` set placed \<subseteq> fst ` (set (run_pods s) \<union> (case run_cycle s of None \<Rightarrow> {} | Some (p, snap, st) \<Rightarrow> set snap))"
  shows "well_placed api pod_key ((run_tm s)\<lparr>tm_lister := lister\<rparr>) placed"
proof -
  have "committed api pod_key (run_cache s) (pods_of placed host) (zone_Name z) \<le> zone_alloc api z"
    if z: "lister host = Inr nrt'" "z \<in> set (topo_Zones nrt')" for host nrt' z
  proof (cases "\<exists>nrt. tm_lister (run_tm s) host = Inr nrt")
    case True
    then obtain nrt old where "tm_lister (run_tm s) host = Inr nrt" "old \<in> set (topo_Zones nrt)" "zone_Name old = zone_Name z"
        "zone_alloc api old \<le> zone_alloc api z"
      using grown_zone(1) [OF assms(1) z] by blast
    then show ?thesis using assms(2) unfolding well_placed_def by (metis order_trans)
  next
    case False
    then have "0 \<le> zone_alloc api z" "host \<notin> fst ` set placed"
      using grown_zone(2) [OF assms(1) z] assms(3) by blast+
    moreover from this(2) have "pods_of placed host = []" by (auto simp: pods_of_def filter_empty_conv)
    ultimately show ?thesis by (simp add: committed_def)
  qed
  then show ?thesis using assms(2) by (simp add: well_placed_def)
qed

lemma republished_inv:
  assumes inv: "numa_inv api pod_key s" and grow: "topologies_grow api s lister"
  shows "numa_inv api pod_key (s\<lparr>run_tm := (run_tm s)\<lparr>tm_lister := lister\<rparr>\<rparr>)"
proof -
  let ?s = "s\<lparr>run_tm := (run_tm s)\<lparr>tm_lister := lister\<rparr>\<rparr>"
  have fits: "\<exists>nrt'. lister host = Inr nrt' \<and> result_fits api held nrt' result"
    if old: "tm_lister (run_tm s) host = Inr nrt" "result_fits api held nrt result" for host nrt held result
  proof -
    obtain nrt' where nrt': "lister host = Inr nrt'" using kept_topology [OF grow old(1)] by blast
    have "held (zone_Name z) + zone_charge api result (zone_Name z) \<le> zone_alloc api z" if z: "z \<in> set (topo_Zones nrt')" for z
    proof -
      obtain old where "old \<in> set (topo_Zones nrt)" "zone_Name old = zone_Name z" "zone_alloc api old \<le> zone_alloc api z"
        using grown_zone(1) [OF grow nrt' z old(1)] by blast
      then show ?thesis using old(2) unfolding result_fits_def by (metis order_trans)
    qed
    then show ?thesis using nrt' old(2) by (simp add: result_fits_def)
  qed
  have "well_placed api pod_key (run_tm ?s) (run_pods ?s)"
    using inv republished_placed [OF grow, of pod_key "run_pods s"] by (auto simp: numa_inv_def)
  moreover have "cycle_ok api pod_key ?s"
    unfolding cycle_ok_def
  proof (intro allI impI)
    fix p snap st assume "run_cycle ?s = Some (p, snap, st)"
    then have run: "run_cycle s = Some (p, snap, st)" by simp
    then obtain k d where d: "pod_key p = Inr k" "k \<notin> run_keys pod_key s" "GetPodNUMANodeResult api p = []" "st = StateData d"
        "cycle_fits api pod_key s d" "well_placed api pod_key (run_tm s) snap"
        "covered pod_key (holds api pod_key s) (holds api pod_key s) (run_pods s) snap"
      using inv unfolding numa_inv_def cycle_ok_def by blast
    have "cycle_fits api pod_key ?s d" using d(5) fits unfolding cycle_fits_def by (simp; meson)
    moreover have "well_placed api pod_key (run_tm ?s) snap" using republished_placed [OF grow d(6)] run by auto
    moreover have "run_keys pod_key ?s = run_keys pod_key s" by (simp add: run_keys_def)
    ultimately show "(\<exists>k. pod_key p = Inr k \<and> k \<notin> run_keys pod_key ?s) \<and> GetPodNUMANodeResult api p = [] \<and>
        (\<exists>d. st = StateData d \<and> cycle_fits api pod_key ?s d) \<and> well_placed api pod_key (run_tm ?s) snap \<and>
        covered pod_key (holds api pod_key ?s) (holds api pod_key ?s) (run_pods ?s) snap"
      using d by simp
  qed
  ultimately show ?thesis using inv by (simp add: numa_inv_def bindings_ok_def)
qed

lemma orderly_step_inv:
  assumes "resource_laws api" "zones_round_trip api" "keys_stable pod_key"
    and "orderly_step api pod_key s s'" "numa_inv api pod_key s" "topologies_ok (run_tm s)"
  shows "numa_inv api pod_key s' \<and> topologies_ok (run_tm s')"
proof -
  have lister: "tm_lister (Topology_Unreserve pod_key tm st p host) = tm_lister tm" for tm st p host
    by (simp add: Topology_Unreserve_def split: sum.split option.split)
  have "tm_lister (fst (Topology_Reserve pod_key now tm st p host)) = tm_lister tm" for now tm st p host
    by (simp add: Topology_Reserve_def Let_def split: sum.split option.split prod.split)
  then have reserve: "tm_lister tm' = tm_lister tm" if "Topology_Reserve pod_key now tm st p host = (tm', r)" for now tm st p host tm' r
    using that by (metis fst_conv)
  obtain l where l: "numa_step api pod_key s l s'" "orderly api pod_key s l" using assms(4) unfolding orderly_step_def by blast
  show ?thesis
    using l(1)
  proof cases
    case start
    then show ?thesis using start_inv [OF assms(5,1)] l(2) assms(6) by simp
  next
    case filtered
    then show ?thesis using filtered_inv [OF assms(5,1,6)] assms(6) by simp
  next
    case abandoned
    then show ?thesis using no_cycle_inv [OF assms(5)] assms(6) by simp
  next
    case reserved
    then show ?thesis using reserved_inv [OF assms(5,3)] reserve assms(6) by (simp add: topologies_ok_def)
  next
    case refused
    then show ?thesis using refused_inv [OF assms(5)] reserve lister assms(6) by (simp add: topologies_ok_def)
  next
    case bound
    then show ?thesis using bound_inv [OF assms(5,3,2)] assms(6) by simp
  next
    case unreserved
    then show ?thesis using unreserved_inv [OF assms(5)] lister assms(6) by (simp add: topologies_ok_def)
  next
    case deleted
    then show ?thesis using deleted_inv [OF assms(5)] assms(6) by simp
  next
    case other
    then show ?thesis using other_inv [OF assms(5)] l(2) assms(6) by simp
  next
    case cleaned
    then show ?thesis using cleaned_inv [OF assms(5)] l(2) assms(6) by (simp add: topologies_ok_def)
  next
    case republished
    then show ?thesis using republished_inv [OF assms(5)] l(2) by (auto simp: topologies_ok_def topologies_grow_def)
  qed
qed

definition run_start :: "'q TopologyMatch \<Rightarrow> 'q placed \<Rightarrow> 'q numa_run" where
  "run_start tm pods = \<lparr>run_tm = tm, run_pods = pods, run_cycle = None, run_binding = []\<rparr>"

lemma numa_run_inv:
  assumes "resource_laws api" "zones_round_trip api" "keys_stable pod_key" "topologies_ok tm"
    and "cache_wf (tm_PodTopologyCache tm)" "well_placed api pod_key tm pods"
    and "(orderly_step api pod_key)\<^sup>*\<^sup>* (run_start tm pods) s"
  shows "numa_inv api pod_key s \<and> topologies_ok (run_tm s)"
  using assms(7)
proof (induction rule: rtranclp_induct)
  case base
  then show ?case using assms(4-6) by (simp add: run_start_def numa_inv_def cycle_ok_def bindings_ok_def)
next
  case (step s s')
  then show ?case using orderly_step_inv [OF assms(1-3)] by blast
qed

section \<open>Properties\<close>

text \<open>C3. In an orderly run no NUMA node is overcommitted. The run starts with a plugin that was just built, on hosts whose
  pods hold no more CPUs than there are, and interleaves scheduling cycles on their snapshots, bindings that succeed or
  fail, deletions, pods of others, republished topologies and clean-ups of the cache in any way that is orderly: no pod
  is scheduled or placed with a result that it brings along (so a pod whose failed binding had already written one is
  excluded, see the next property for what happens to it), no clean-up of the cache comes before a reserved pod is bound,
  and no topology shrinks. Then in every state the pods of a host, bound or only assumed, together hold at most the CPUs
  that each of its NUMA nodes has, and the free CPUs that the filter computes for a NUMA node are exactly what is left.\<close>

theorem numa_never_overcommitted:
  assumes "resource_laws api" "zones_round_trip api" "keys_stable pod_key"
    and "TopologyMatch_New client args = Inr tm" "topologies_ok tm" "well_placed api pod_key tm pods"
    and "(orderly_step api pod_key)\<^sup>*\<^sup>* (run_start tm pods) s"
    and "tm_lister (run_tm s) host = Inr nrt" "z \<in> set (topo_Zones nrt)"
  shows "committed api pod_key (run_cache s) (pods_of (run_pods s) host) (zone_Name z) \<le> zone_alloc api z \<and>
    (\<exists>n \<in> set (nw_numaNodes (initializeNodeWrapper api pod_key (run_tm s) st node (pods_of (run_pods s) host) nrt)).
       numa_name n = zone_Name z \<and>
       freeCPU n = zone_alloc api z - committed api pod_key (run_cache s) (pods_of (run_pods s) host) (zone_Name z))"
proof -
  have "cache_wf (tm_PodTopologyCache tm)"
    using assms(4) by (auto simp: TopologyMatch_New_def NewPodTopologyCache_wf split: runtime_object.splits sum.splits)
  from numa_run_inv [OF assms(1-3,5) this assms(6,7)]
  have inv: "well_placed api pod_key (run_tm s) (run_pods s)" by (simp add: numa_inv_def)
  then have le: "committed api pod_key (run_cache s) (pods_of (run_pods s) host) (zone_Name z) \<le> zone_alloc api z"
    using assms(8,9) by (simp add: well_placed_def)
  have "\<forall>p \<in> set (pods_of (run_pods s) host). \<forall>z \<in> set (holds api pod_key s p). sound_zone api z"
    using inv by (auto simp: well_placed_def set_pods_of)
  from charged_node_free [OF assms(1) this le] le assms(9) show ?thesis
    by (auto simp: initializeNodeWrapper_nodes)
qed

text \<open>The laws hold for quantities in thousandths.\<close>

lemma milli_api_fields:
  "q_milli milli_api = (\<lambda>q. q)" "q_new_milli milli_api = (\<lambda>q. q)" "q_zero milli_api = 0"
  "res_add milli_api = milli_resource" "res_new milli_api = milli_resource zero_resource"
  by (simp_all add: milli_api_def)

lemma milli_resource_cpu:
  assumes "int64 (res_MilliCPU r)" "distinct (map fst (entries rl))"
  shows "res_MilliCPU (milli_resource r rl) = wrap64 (res_MilliCPU r + quantity milli_api rl ''cpu'')"
proof -
  let ?f = "\<lambda>r (n, q). if n = ''cpu'' then r\<lparr>res_MilliCPU := wrap64 (res_MilliCPU r + q)\<rparr>
    else if n = ''memory'' then r\<lparr>res_Memory := wrap64 (res_Memory r + q div 1000)\<rparr> else r"
  have none: "''cpu'' \<notin> fst ` set xs \<Longrightarrow> res_MilliCPU (foldl ?f r xs) = res_MilliCPU r" for r xs
    by (induction xs arbitrary: r) auto
  have "int64 (res_MilliCPU r) \<Longrightarrow> distinct (map fst xs) \<Longrightarrow> res_MilliCPU (foldl ?f r xs) =
      wrap64 (res_MilliCPU r + (case map_of xs ''cpu'' of None \<Rightarrow> 0 | Some q \<Rightarrow> q))" for xs
  proof (induction xs arbitrary: r)
    case (Cons x xs)
    show ?case
    proof (cases "fst x = ''cpu''")
      case True
      then have "''cpu'' \<notin> fst ` set xs" using Cons.prems(2) by (metis distinct.simps(2) list.set_map list.simps(9))
      then show ?thesis using True none [of xs "?f r x"] by (cases x) simp
    next
      case False
      then show ?thesis using Cons.IH [of "?f r x"] Cons.prems by (cases x) auto
    qed
  qed simp
  from this [OF assms] show ?thesis by (simp add: milli_resource_def quantity_def milli_api_fields cong: option.case_cong)
qed

lemma milli_resource_keeps:
  "res_ScalarResources (milli_resource r rl) = res_ScalarResources r"
  "int64 (res_MilliCPU r) \<Longrightarrow> int64 (res_MilliCPU (milli_resource r rl))"
proof -
  let ?f = "\<lambda>r (n, q). if n = ''cpu'' then r\<lparr>res_MilliCPU := wrap64 (res_MilliCPU r + q)\<rparr>
    else if n = ''memory'' then r\<lparr>res_Memory := wrap64 (res_Memory r + q div 1000)\<rparr> else r"
  have "res_ScalarResources (foldl ?f r xs) = res_ScalarResources r \<and>
      (int64 (res_MilliCPU r) \<longrightarrow> int64 (res_MilliCPU (foldl ?f r xs)))" for r xs
    by (induction xs arbitrary: r) (auto simp: wrap64_range split: if_splits)
  then show "res_ScalarResources (milli_resource r rl) = res_ScalarResources r"
    "int64 (res_MilliCPU r) \<Longrightarrow> int64 (res_MilliCPU (milli_resource r rl))"
    by (auto simp: milli_resource_def)
qed

lemma milli_api_laws: "resource_laws milli_api" "zones_round_trip milli_api"
proof -
  have "int64 (res_MilliCPU (milli_resource zero_resource rl))" for rl
    by (intro milli_resource_keeps(2)) (simp add: zero_resource_def int64_def)
  then show "resource_laws milli_api"
    using milli_resource_cpu milli_resource_keeps by (auto simp: resource_laws_def milli_api_fields)
  show "zones_round_trip milli_api" by (simp add: zones_round_trip_def milli_api_def)
qed

abbreviation example_key :: "int TopoPod \<Rightarrow> string fallible" where
  "example_key \<equiv> \<lambda>p. Inr ''uid''"

lemma example_placed_run:
  "\<exists>s. (orderly_step milli_api example_key)\<^sup>*\<^sup>* (run_start example_single []) s \<and>
     run_pods s = [(''host'', example_pod\<lparr>pod_NodeName := ''host''\<rparr>)] \<and>
     cached (run_cache s) = [''uid'' \<mapsto> nw_result example_reserved_wrapper] \<and>
     tm_lister (run_tm s) = tm_lister example_single"
proof -
  let ?s0 = "run_start example_single []"
  let ?s1 = "?s0\<lparr>run_cycle := Some (example_pod, run_pods ?s0, fst (Topology_PreFilter milli_api (run_tm ?s0) example_pod))\<rparr>"
  let ?st = "StateData (example_state\<lparr>st_podTopologyByNode := [(''host'', example_reserved_wrapper)]\<rparr>)"
  let ?s2 = "?s1\<lparr>run_cycle := Some (example_pod, [], ?st)\<rparr>"
  have none: "GetPodNUMANodeResult milli_api example_pod = []"
    by (simp add: GetPodNUMANodeResult_def GetPodTopologyResult_def example_pod_def)
  have "numa_step milli_api example_key ?s0 (StartCycle example_pod) ?s1"
    by (rule numa_step.start [where k = "''uid''"])
       (simp_all add: run_start_def run_keys_def example_topology_def NewPodTopologyCache_def GetPodNUMANodeResult_def
         GetPodTopologyResult_def example_pod_def)
  then have "orderly_step milli_api example_key ?s0 ?s1" using none unfolding orderly_step_def by (metis orderly.simps(1))
  moreover have "numa_step milli_api example_key ?s1 FilterHost (?s1\<lparr>run_cycle := Some (example_pod, [], ?st)\<rparr>)"
    by (rule numa_step.filtered [where ni = example_host and node = "the (ni_Node example_host)" and st = "StateData example_state"
          and status = NilStatus])
       (simp_all add: run_start_def example_filtered example_prefilter, simp_all add: pods_of_def example_host_def)
  then have "orderly_step milli_api example_key ?s1 ?s2" unfolding orderly_step_def by (metis orderly.simps(5))
  moreover have "\<exists>s. numa_step milli_api example_key ?s2 ReservePod s \<and> run_pods s = [(''host'', example_pod\<lparr>pod_NodeName := ''host''\<rparr>)] \<and>
      cached (run_cache s) = [''uid'' \<mapsto> nw_result example_reserved_wrapper] \<and>
      tm_lister (run_tm s) = tm_lister example_single"
    by (rule exI, rule conjI, rule numa_step.reserved [where p = example_pod and snap = "[]" and st = ?st and host = "''host''"
          and now = 0])
       (simp_all add: run_start_def example_reserve, simp_all add: AssumePod_def example_topology_def NewPodTopologyCache_def)
  then have "\<exists>s. orderly_step milli_api example_key ?s2 s \<and> run_pods s = [(''host'', example_pod\<lparr>pod_NodeName := ''host''\<rparr>)] \<and>
      cached (run_cache s) = [''uid'' \<mapsto> nw_result example_reserved_wrapper] \<and>
      tm_lister (run_tm s) = tm_lister example_single"
    unfolding orderly_step_def by (metis orderly.simps(7))
  ultimately show ?thesis by (meson rtranclp.rtrancl_into_rtrancl rtranclp.rtrancl_refl)
qed

theorem numa_never_overcommitted_witness:
  "\<exists>s. (orderly_step milli_api example_key)\<^sup>*\<^sup>* (run_start example_single []) s \<and>
     committed milli_api example_key (run_cache s) (pods_of (run_pods s) ''host'') ''node0'' = 2000 \<and>
     committed milli_api example_key (run_cache s) (pods_of (run_pods s) ''host'') ''node0'' \<le>
       zone_alloc milli_api (example_zone ''node0'' 4000)"
proof -
  let ?args = "TopologyArgsObject \<lparr>nrt_TypeMeta = no_meta, nrt_TopologyAwareResources = [''cpu'']\<rparr>"
  obtain s where s: "(orderly_step milli_api example_key)\<^sup>*\<^sup>* (run_start example_single []) s"
      "run_pods s = [(''host'', example_pod\<lparr>pod_NodeName := ''host''\<rparr>)]"
      "cached (run_cache s) = [''uid'' \<mapsto> nw_result example_reserved_wrapper]"
      "tm_lister (run_tm s) = tm_lister example_single"
    using example_placed_run by blast
  have "pod_zones milli_api example_key (run_cache s) (example_pod\<lparr>pod_NodeName := ''host''\<rparr>) = nw_result example_reserved_wrapper"
    by (simp add: pod_zones_def GetPodTopology_def s(3) GetPodNUMANodeResult_def GetPodTopologyResult_def example_pod_def)
  then have "committed milli_api example_key (run_cache s) (pods_of (run_pods s) ''host'') ''node0'' = 2000"
    by (simp add: committed_def pods_of_def s(2) example_reserved_wrapper_def zone_cpu_numa_zone quantity_def entries_def
        milli_api_fields)
  moreover have new: "TopologyMatch_New (Inr (tm_lister example_single)) ?args = Inr example_single"
    by (simp add: TopologyMatch_New_def example_topology_def)
  have "zone_alloc milli_api (example_zone ''node0'' 4000) = 4000" "zone_alloc milli_api (example_zone ''node1'' 1000) = 1000"
    by (simp_all add: zone_alloc_def newNumaNode_def example_zone_def milli_api_fields milli_resource_def entries_def
        zero_resource_def int64_def)
  then have placed: "well_placed milli_api example_key example_single []"
    by (auto simp: well_placed_def pods_of_def committed_def example_topology_def)
  have "topologies_ok example_single" by (simp add: topologies_ok_def example_topology_def example_zone_def)
  moreover have "keys_stable example_key" by (simp add: keys_stable_def)
  ultimately have "committed milli_api example_key (run_cache s) (pods_of (run_pods s) ''host'') (zone_Name (example_zone ''node0'' 4000)) \<le>
      zone_alloc milli_api (example_zone ''node0'' 4000)"
    using numa_never_overcommitted [OF milli_api_laws _ new _ placed s(1), of "''host''" _ "example_zone ''node0'' 4000"]
    by (simp add: s(4) example_topology_def)
  with \<open>committed _ _ _ _ _ = 2000\<close> s(1) show ?thesis by (auto simp: example_zone_def)
qed

text \<open>C40. A retried pod is not charged: when a binding failed after its result was written, the pod comes back with the
  old result in its annotations, and a new reservation makes no difference to the filter. Whatever is reserved for
  it, every other pod is filtered as if nothing had been reserved.\<close>

theorem retried_pod_not_charged:
  assumes "Topology_Reserve pod_key now tm st p host = (tm', st', status)"
    and "\<forall>q \<in> set (ni_Pods ni). pod_key q = pod_key p \<longrightarrow> GetPodNUMANodeResult api q \<noteq> []"
  shows "Topology_Filter api pod_key tm' st2 pod ni = Topology_Filter api pod_key tm st2 pod ni"
proof -
  have fields: "tm_lister tm' = tm_lister tm" "tm_topologyAwareResources tm' = tm_topologyAwareResources tm"
    using assms(1) by (auto simp: Topology_Reserve_def Let_def split: sum.splits option.splits prod.splits if_splits)
  have "cached (tm_PodTopologyCache tm') k = cached (tm_PodTopologyCache tm) k" if "pod_key p \<noteq> Inr k" for k
    using assms(1) that
    by (auto simp: Topology_Reserve_def AssumePod_def Let_def AList.update_conv' split: sum.splits option.splits prod.splits if_splits)
  then have "pod_zones api pod_key (tm_PodTopologyCache tm') q = pod_zones api pod_key (tm_PodTopologyCache tm) q"
    if "q \<in> set (ni_Pods ni)" for q
    using assms(2) that by (intro pod_zones_cong) metis
  then have "foldl (\<lambda>nw pod. addPod api (GetPodTopology pod_key (tm_PodTopologyCache tm')) pod nw) nw (ni_Pods ni) =
      foldl (\<lambda>nw pod. addPod api (GetPodTopology pod_key (tm_PodTopologyCache tm)) pod nw) nw (ni_Pods ni)" for nw
    unfolding addPod_zones by (intro foldl_cong) simp_all
  then have "initializeNodeWrapper api pod_key tm' s node (ni_Pods ni) nrt = initializeNodeWrapper api pod_key tm s node (ni_Pods ni) nrt"
    for s node nrt by (simp add: initializeNodeWrapper_def fields Let_def)
  then show ?thesis by (simp only: Topology_Filter_def fields)
qed

text \<open>A host with one NUMA node of two CPUs, and a pod of two CPUs that carries a result from another host: reserving the NUMA
  node for it leaves the NUMA node free for the next pod of two CPUs.\<close>

definition example_retried :: "int TopoPod" where
  "example_retried = example_pod\<lparr>pod_Name := ''retried'', pod_Annotations := Some [(''topology-result'', ''node0:2'')]\<rparr>"

abbreviation example_small :: "int TopologyMatch" where
  "example_small \<equiv> example_topology ''SingleNUMANodePodLevel'' [example_zone ''node1'' 2000]"

definition example_granted :: "int cycle_state" where
  "example_granted = StateData (example_state\<lparr>st_podTopologyByNode := [(''host'',
     \<lparr>nw_aware = True, nw_node = ''host'', nw_numaNodes = [example_numa ''node1'' 2000 0], nw_topologyAwareResources = [''cpu''],
      nw_result = [numa_zone milli_api ''node1'' (Some [(''cpu'', 2000)])]\<rparr>)]\<rparr>)"

lemma example_granted_filter:
  assumes "pod = example_pod \<or> pod = example_retried" "pods = [] \<or> pods = [example_retried]"
  shows "Topology_Filter milli_api (\<lambda>p. Inr (pod_Name p)) example_small (StateData example_state) pod (example_host\<lparr>ni_Pods := pods\<rparr>) =
    Ok (example_granted, NilStatus)"
proof -
  have own: "GetPodNUMANodeResult milli_api example_retried = [numa_zone milli_api ''node0'' (Some [(''cpu'', 2000)])]"
    by (simp add: GetPodNUMANodeResult_def GetPodTopologyResult_def example_retried_def milli_api_def
        anno_get_def anno_entries_def numa_zone_def)
  let ?nw = "\<lparr>nw_aware = False, nw_node = ''host'', nw_numaNodes = [example_numa ''node1'' 2000 0],
    nw_topologyAwareResources = [''cpu''], nw_result = []\<rparr> :: int nodeWrapper"
  have new: "newNodeWrapper milli_api ''host'' [''cpu''] [example_zone ''node1'' 2000] = ?nw"
    by (simp add: newNodeWrapper_def newNumaNode_def example_zone_def milli_api_fields milli_resource_def entries_def
        zero_resource_def int64_def example_numa_def)
  have add: "addPod milli_api f example_retried ?nw = ?nw" for f
    by (simp add: addPod_def own addNUMAResources_def numa_zone_def example_numa_def)
  have api: "api_SingleNUMANodePodLevel milli_api = ''SingleNUMANodePodLevel''" "api_CPUManagerPolicyStatic milli_api = ''Static''"
    by (simp_all add: milli_api_def)
  have aware: "\<not> IsDaemonsetPod pod" using assms(1) by (auto simp: IsDaemonsetPod_def example_pod_def example_retried_def)
  have "initializeNodeWrapper milli_api (\<lambda>p. Inr (pod_Name p)) example_small example_state (the (ni_Node example_host)) pods
      \<lparr>topo_CPUManagerPolicy = ''Static'', topo_TopologyManagerPolicy = ''SingleNUMANodePodLevel'',
       topo_Zones = [example_zone ''node1'' 2000]\<rparr> = ?nw\<lparr>nw_aware := True\<rparr>"
    using assms(2)
    by (auto simp: initializeNodeWrapper_def new add isNodeAwareOfTopology_def example_state_def example_host_def
        example_topology_def api)
  moreover have "fitsRequestForNUMANode (cpu_request 2000) (example_numa ''node1'' 2000 0) = []"
    by (simp add: fits_iff) (simp add: cpu_request_def example_numa_def zero_resource_def entries_def freeCPU_def int64_def)
  moreover have "numa_name (example_numa ''node1'' 2000 0) = ''node1''" by (simp add: example_numa_def)
  ultimately show ?thesis
    using aware
    by (simp add: Topology_Filter_def getStateData_def example_host_def example_state_def example_topology_def api
        milli_api_fields filterNUMANodeResource_def record_topology_def assignTopologyResult_def sort_slice_def shell_pass_def
        example_granted_def cpu_request_zones numa_zone_def)
qed

theorem retried_pod_not_charged_witness:
  "\<exists>tm' s'. Topology_Filter milli_api (\<lambda>p. Inr (pod_Name p)) example_small (StateData example_state) example_retried example_host =
       Ok (example_granted, NilStatus) \<and>
     Topology_Reserve (\<lambda>p. Inr (pod_Name p)) 0 example_small example_granted example_retried ''host'' = (tm', StateData s', NilStatus) \<and>
     st_topologyResult s' = [numa_zone milli_api ''node1'' (Some [(''cpu'', 2000)])] \<and>
     Topology_Filter milli_api (\<lambda>p. Inr (pod_Name p)) tm' (StateData example_state) example_pod
       (example_host\<lparr>ni_Pods := [example_retried]\<rparr>) = Ok (example_granted, NilStatus)"
proof -
  let ?key = "\<lambda>p :: int TopoPod. Inr (pod_Name p) :: string fallible" and ?host = "example_host\<lparr>ni_Pods := [example_retried]\<rparr>"
  obtain tm' s' where r: "Topology_Reserve ?key 0 example_small example_granted example_retried ''host'' = (tm', StateData s', NilStatus)"
      "st_topologyResult s' = [numa_zone milli_api ''node1'' (Some [(''cpu'', 2000)])]"
    by (simp add: Topology_Reserve_def getStateData_def example_granted_def AssumePod_def example_topology_def NewPodTopologyCache_def)
  have "\<forall>q \<in> set (ni_Pods ?host). ?key q = ?key example_retried \<longrightarrow> GetPodNUMANodeResult milli_api q \<noteq> []"
    by (simp add: GetPodNUMANodeResult_def GetPodTopologyResult_def example_retried_def milli_api_def anno_get_def anno_entries_def)
  from retried_pod_not_charged [OF r(1) this, of "StateData example_state" example_pod]
    example_granted_filter [of example_pod "[example_retried]"] example_granted_filter [of example_retried "[]"]
  have "Topology_Filter milli_api ?key tm' (StateData example_state) example_pod ?host = Ok (example_granted, NilStatus)"
    "Topology_Filter milli_api ?key example_small (StateData example_state) example_retried example_host = Ok (example_granted, NilStatus)"
    by (simp_all add: example_host_def)
  with r show ?thesis by blast
qed

end
