(* ===== verification/Go_Memory.thy ===== *)
theory Go_Memory
  imports Plugin_Args
begin

text \<open>
  An explicit memory for the code whose meaning depends on sharing: the generated deep copies and
  the conversions that reinterpret slices. The memory is the list of the arrays and string cells
  allocated so far; an address is a position in it and an allocation appends to it. A struct is
  its value, with a slice header in place of each slice and an address in place of each pointer
  field. A slice header has no capacity, since none of this code appends. An array of a versioned
  policy type has the layout of the internal one, so both are arrays of the internal type and the
  versioned code reads them through the reinterpretation of its elements.

  The locale \<open>deep_copy\<close> is the contract of a \<open>DeepCopyInto\<close>: it only allocates, its result has
  the value of its argument and refers to fresh memory only. From it follows that neither can
  observe a write through the other.
\<close>

section \<open>Memory\<close>

datatype go_array =
    SyncArray "SyncPolicy list"
  | PredicateArray "PredicatePolicy list"
  | PriorityArray "PriorityPolicy list"
  | HotArray "HotValuePolicy list"
  | StringArray "string list"
  | StringCell string

type_synonym memory = "go_array list"

fun sync_elems :: "go_array \<Rightarrow> SyncPolicy list" where
  "sync_elems (SyncArray xs) = xs"
| "sync_elems _ = []"

fun predicate_elems :: "go_array \<Rightarrow> PredicatePolicy list" where
  "predicate_elems (PredicateArray xs) = xs"
| "predicate_elems _ = []"

fun priority_elems :: "go_array \<Rightarrow> PriorityPolicy list" where
  "priority_elems (PriorityArray xs) = xs"
| "priority_elems _ = []"

fun hot_elems :: "go_array \<Rightarrow> HotValuePolicy list" where
  "hot_elems (HotArray xs) = xs"
| "hot_elems _ = []"

fun string_elems :: "go_array \<Rightarrow> string list" where
  "string_elems (StringArray xs) = xs"
| "string_elems _ = []"

fun string_cell :: "go_array \<Rightarrow> string option" where
  "string_cell (StringCell s) = Some s"
| "string_cell _ = None"

section \<open>Slices\<close>

text \<open>The nil slice, or the address of an array, the offset of the first element and the length.\<close>

datatype slice = NilSlice | Slice nat nat nat

fun slice_addrs :: "slice \<Rightarrow> nat list" where
  "slice_addrs NilSlice = []"
| "slice_addrs (Slice a off n) = [a]"

text \<open>The elements of a slice, \<open>None\<close> for the nil slice. The first argument says how the elements
  of an array are read.\<close>

fun slice_value :: "(go_array \<Rightarrow> 'a list) \<Rightarrow> memory \<Rightarrow> slice \<Rightarrow> 'a list option" where
  "slice_value elems mem NilSlice = None"
| "slice_value elems mem (Slice a off n) = Some (take n (drop off (elems (mem ! a))))"

definition slice_elems :: "(go_array \<Rightarrow> 'a list) \<Rightarrow> memory \<Rightarrow> slice \<Rightarrow> 'a list" where
  "slice_elems elems mem s = (case slice_value elems mem s of None \<Rightarrow> [] | Some xs \<Rightarrow> xs)"

text \<open>A slice lies within an allocated array.\<close>

fun slice_valid :: "(go_array \<Rightarrow> 'a list) \<Rightarrow> memory \<Rightarrow> slice \<Rightarrow> bool" where
  "slice_valid elems mem NilSlice = True"
| "slice_valid elems mem (Slice a off n) = (a < length mem \<and> off + n \<le> length (elems (mem ! a)))"

text \<open>The block deep-copy generates for a slice: nothing when it is nil, otherwise a new array of the
  same length into which every element is copied.\<close>

fun copy_slice ::
  "('a list \<Rightarrow> go_array) \<Rightarrow> (go_array \<Rightarrow> 'a list) \<Rightarrow> ('a \<Rightarrow> 'a) \<Rightarrow> memory \<Rightarrow> slice \<Rightarrow> memory \<times> slice"
  where
  "copy_slice mk elems f mem NilSlice = (mem, NilSlice)"
| "copy_slice mk elems f mem (Slice a off n) =
     (mem @ [mk (map f (take n (drop off (elems (mem ! a)))))], Slice (length mem) 0 n)"

text \<open>The block for a pointer to a string, given as an address.\<close>

fun copy_string_pointer :: "memory \<Rightarrow> nat option \<Rightarrow> memory \<times> nat option" where
  "copy_string_pointer mem None = (mem, None)"
| "copy_string_pointer mem (Some a) = (mem @ [mem ! a], Some (length mem))"

definition pointer_value :: "memory \<Rightarrow> nat option \<Rightarrow> string option option" where
  "pointer_value mem p = map_option (\<lambda>a. string_cell (mem ! a)) p"

definition pointer_valid :: "memory \<Rightarrow> nat option \<Rightarrow> bool" where
  "pointer_valid mem p = (case p of None \<Rightarrow> True | Some a \<Rightarrow> a < length mem \<and> string_cell (mem ! a) \<noteq> None)"

definition pointer_addrs :: "nat option \<Rightarrow> nat list" where
  "pointer_addrs p = (case p of None \<Rightarrow> [] | Some a \<Rightarrow> [a])"

section \<open>Writes\<close>

text \<open>Assignments through slices and pointers: each replaces the content of one array or cell.\<close>

type_synonym mem_write = "nat \<times> go_array"

fun perform_writes :: "memory \<Rightarrow> mem_write list \<Rightarrow> memory" where
  "perform_writes mem [] = mem"
| "perform_writes mem ((a, x) # ws) = perform_writes (mem[a := x]) ws"

lemma perform_writes_length [simp]: "length (perform_writes mem ws) = length mem"
  by (induction mem ws rule: perform_writes.induct) simp_all

lemma perform_writes_elsewhere:
  "a \<notin> fst ` set ws \<Longrightarrow> perform_writes mem ws ! a = mem ! a"
  by (induction mem ws rule: perform_writes.induct) (simp_all add: nth_list_update)

section \<open>The contract of a deep copy\<close>

locale deep_copy =
  fixes copy_into :: "memory \<Rightarrow> 's \<Rightarrow> memory \<times> 's"
    and value_of :: "memory \<Rightarrow> 's \<Rightarrow> 'v"
    and addrs :: "'s \<Rightarrow> nat list"
    and valid :: "memory \<Rightarrow> 's \<Rightarrow> bool"
  assumes addrs_allocated: "\<lbrakk>valid mem s; a \<in> set (addrs s)\<rbrakk> \<Longrightarrow> a < length mem"
    and value_local: "(\<And>a. a \<in> set (addrs s) \<Longrightarrow> mem' ! a = mem ! a) \<Longrightarrow> value_of mem' s = value_of mem s"
    and valid_local:
      "\<lbrakk>valid mem s; length mem \<le> length mem'; \<And>a. a \<in> set (addrs s) \<Longrightarrow> mem' ! a = mem ! a\<rbrakk>
        \<Longrightarrow> valid mem' s"
    and copies: "\<lbrakk>valid mem s; copy_into mem s = (mem', s')\<rbrakk> \<Longrightarrow>
      (\<exists>new. mem' = mem @ new) \<and> value_of mem' s' = value_of mem s \<and> valid mem' s' \<and>
      distinct (addrs s') \<and> set (addrs s') \<subseteq> {length mem ..< length mem'}"
begin

lemma survives:
  assumes "valid mem s"
  shows "value_of (mem @ new) s = value_of mem s" "valid (mem @ new) s"
proof -
  have *: "(mem @ new) ! a = mem ! a" if "a \<in> set (addrs s)" for a
    using addrs_allocated [OF assms that] by (simp add: nth_append)
  show "value_of (mem @ new) s = value_of mem s" by (rule value_local) (rule *)
  show "valid (mem @ new) s" by (rule valid_local [OF assms]) (simp_all add: *)
qed

lemma copyE:
  assumes "valid mem s" "copy_into mem s = (mem', s')"
  obtains new where "mem' = mem @ new" "value_of mem' s' = value_of mem s" "valid mem' s'"
    "distinct (addrs s')" "set (addrs s') \<subseteq> {length mem ..< length mem'}"
  using copies [OF assms] by blast

lemma original_kept:
  assumes "valid mem s" "copy_into mem s = (mem', s')"
  shows "value_of mem' s = value_of mem s" "valid mem' s"
  using assms by (metis copyE survives)+

lemma disjoint:
  assumes "valid mem s" "copy_into mem s = (mem', s')"
  shows "set (addrs s) \<inter> set (addrs s') = {}"
proof -
  have "a < length mem" if "a \<in> set (addrs s)" for a
    using addrs_allocated [OF assms(1) that] .
  moreover have "length mem \<le> a" if "a \<in> set (addrs s')" for a
    using copyE [OF assms] that by (metis atLeastLessThan_iff subsetD)
  ultimately show ?thesis by fastforce
qed

lemma value_unwritten:
  "fst ` set ws \<inter> set (addrs s) = {} \<Longrightarrow> value_of (perform_writes mem ws) s = value_of mem s"
  by (rule value_local) (rule perform_writes_elsewhere, blast)

text \<open>Writes to memory that existed before the copy do not reach the copy; writes through the copy
  do not reach anything that existed before it.\<close>

lemma copy_isolated:
  assumes "valid mem s" "copy_into mem s = (mem', s')" "fst ` set ws \<subseteq> {..< length mem}"
  shows "value_of (perform_writes mem' ws) s' = value_of mem s"
proof -
  have "fst ` set ws \<inter> set (addrs s') = {}"
    using copyE [OF assms(1,2)] assms(3)
    by (metis (no_types, lifting) Int_emptyI atLeastLessThan_iff lessThan_iff linorder_not_le subsetD)
  then show ?thesis
    using value_unwritten copyE [OF assms(1,2)] by metis
qed

lemma original_isolated:
  assumes "valid mem s" "copy_into mem s = (mem', s')" "fst ` set ws \<subseteq> set (addrs s')"
  shows "value_of (perform_writes mem' ws) s = value_of mem s"
proof -
  have "fst ` set ws \<inter> set (addrs s) = {}"
    using disjoint [OF assms(1,2)] assms(3) by blast
  then show ?thesis
    using value_unwritten original_kept(1) [OF assms(1,2)] by simp
qed

end

text \<open>The two generated blocks satisfy the contract, the one for slices for every element type whose
  arrays are read as they were made.\<close>

locale array_type =
  fixes mk :: "'a list \<Rightarrow> go_array" and elems :: "go_array \<Rightarrow> 'a list"
  assumes elems_mk [simp]: "elems (mk xs) = xs"
begin

lemma slice_copy_contract:
  "deep_copy (copy_slice mk elems (\<lambda>x. x)) (slice_value elems) slice_addrs (slice_valid elems)"
proof
  show "a < length mem" if "slice_valid elems mem s" "a \<in> set (slice_addrs s)" for mem s a
    using that by (cases s) auto
  show "slice_value elems mem' s = slice_value elems mem s"
    if "\<And>a. a \<in> set (slice_addrs s) \<Longrightarrow> mem' ! a = mem ! a" for s mem mem'
    using that by (cases s) auto
  show "slice_valid elems mem' s"
    if "slice_valid elems mem s" "length mem \<le> length mem'"
      "\<And>a. a \<in> set (slice_addrs s) \<Longrightarrow> mem' ! a = mem ! a" for s mem mem'
    using that by (cases s) auto
  show "(\<exists>new. mem' = mem @ new) \<and> slice_value elems mem' s' = slice_value elems mem s \<and>
      slice_valid elems mem' s' \<and> distinct (slice_addrs s') \<and>
      set (slice_addrs s') \<subseteq> {length mem ..< length mem'}"
    if "slice_valid elems mem s" "copy_slice mk elems (\<lambda>x. x) mem s = (mem', s')" for s s' mem mem'
    using that by (cases s) auto
qed

end

text \<open>Copying one part after the other: the second copy starts in the memory the first one left.\<close>

definition pair_copy ::
  "(memory \<Rightarrow> 's \<Rightarrow> memory \<times> 's) \<Rightarrow> (memory \<Rightarrow> 't \<Rightarrow> memory \<times> 't) \<Rightarrow>
   memory \<Rightarrow> 's \<times> 't \<Rightarrow> memory \<times> 's \<times> 't" where
  "pair_copy c1 c2 mem st =
     (let (mem1, s') = c1 mem (fst st); (mem2, t') = c2 mem1 (snd st) in (mem2, s', t'))"

locale deep_copy_pair =
  fst: deep_copy c1 v1 a1 w1 + snd: deep_copy c2 v2 a2 w2
  for c1 :: "memory \<Rightarrow> 's \<Rightarrow> memory \<times> 's" and v1 :: "memory \<Rightarrow> 's \<Rightarrow> 'v"
    and a1 :: "'s \<Rightarrow> nat list" and w1 :: "memory \<Rightarrow> 's \<Rightarrow> bool"
    and c2 :: "memory \<Rightarrow> 't \<Rightarrow> memory \<times> 't" and v2 :: "memory \<Rightarrow> 't \<Rightarrow> 'w"
    and a2 :: "'t \<Rightarrow> nat list" and w2 :: "memory \<Rightarrow> 't \<Rightarrow> bool"
begin

lemma pair_copies:
  assumes "w1 mem s" "w2 mem t" "pair_copy c1 c2 mem (s, t) = (mem2, s', t')"
  shows "(\<exists>new. mem2 = mem @ new) \<and> v1 mem2 s' = v1 mem s \<and> v2 mem2 t' = v2 mem t \<and>
    w1 mem2 s' \<and> w2 mem2 t' \<and> distinct (a1 s' @ a2 t') \<and>
    set (a1 s' @ a2 t') \<subseteq> {length mem ..< length mem2}"
proof -
  obtain mem1 where c1: "c1 mem s = (mem1, s')" and c2: "c2 mem1 t = (mem2, t')"
    using assms(3) by (auto simp: pair_copy_def split: prod.splits)
  obtain n1 where 1: "mem1 = mem @ n1" "v1 mem1 s' = v1 mem s" "w1 mem1 s'" "distinct (a1 s')"
      "set (a1 s') \<subseteq> {length mem ..< length mem1}"
    using fst.copyE [OF assms(1) c1] .
  have "w2 mem1 t" "v2 mem1 t = v2 mem t"
    using snd.survives [OF assms(2)] 1(1) by auto
  then obtain n2 where 2: "mem2 = mem1 @ n2" "v2 mem2 t' = v2 mem t" "w2 mem2 t'" "distinct (a2 t')"
      "set (a2 t') \<subseteq> {length mem1 ..< length mem2}"
    using snd.copyE [OF _ c2] by metis
  have "v1 mem2 s' = v1 mem s" "w1 mem2 s'"
    using fst.survives [OF 1(3), of n2] 1(2) 2(1) by simp_all
  moreover have "set (a1 s') \<inter> set (a2 t') = {}"
    using 1(5) 2(5) by (meson Int_emptyI atLeastLessThan_iff linorder_not_le subsetD)
  moreover have "set (a1 s') \<subseteq> {length mem ..< length mem2}" "set (a2 t') \<subseteq> {length mem ..< length mem2}"
    using 1(1,5) 2(1,5) by auto
  ultimately show ?thesis
    using 1 2 by auto
qed

lemma pair_contract:
  "deep_copy (pair_copy c1 c2) (\<lambda>mem st. (v1 mem (fst st), v2 mem (snd st)))
     (\<lambda>st. a1 (fst st) @ a2 (snd st)) (\<lambda>mem st. w1 mem (fst st) \<and> w2 mem (snd st))"
proof
  show "(\<exists>new. mem' = mem @ new) \<and>
      (v1 mem' (fst st'), v2 mem' (snd st')) = (v1 mem (fst st), v2 mem (snd st)) \<and>
      (w1 mem' (fst st') \<and> w2 mem' (snd st')) \<and> distinct (a1 (fst st') @ a2 (snd st')) \<and>
      set (a1 (fst st') @ a2 (snd st')) \<subseteq> {length mem ..< length mem'}"
    if "w1 mem (fst st) \<and> w2 mem (snd st)" "pair_copy c1 c2 mem st = (mem', st')" for mem st mem' st'
    using pair_copies [of mem "fst st" "snd st" mem' "fst st'" "snd st'"] that by simp
  show "a < length mem"
    if "w1 mem (fst st) \<and> w2 mem (snd st)" "a \<in> set (a1 (fst st) @ a2 (snd st))" for mem st a
    using that fst.addrs_allocated snd.addrs_allocated by auto
  show "(v1 mem' (fst st), v2 mem' (snd st)) = (v1 mem (fst st), v2 mem (snd st))"
    if "\<And>a. a \<in> set (a1 (fst st) @ a2 (snd st)) \<Longrightarrow> mem' ! a = mem ! a" for mem mem' st
    using that fst.value_local [of "fst st" mem' mem] snd.value_local [of "snd st" mem' mem] by auto
  show "w1 mem' (fst st) \<and> w2 mem' (snd st)"
    if "w1 mem (fst st) \<and> w2 mem (snd st)" "length mem \<le> length mem'"
      "\<And>a. a \<in> set (a1 (fst st) @ a2 (snd st)) \<Longrightarrow> mem' ! a = mem ! a" for mem mem' st
    using that fst.valid_local [of mem "fst st" mem'] snd.valid_local [of mem "snd st" mem'] by auto
qed

end

text \<open>A struct with some fields that are copied deeply and others copied by the assignment
  \<open>*out = *in\<close>.\<close>

definition struct_copy ::
  "('r \<Rightarrow> 's) \<Rightarrow> ('s \<Rightarrow> 'r \<Rightarrow> 'r) \<Rightarrow> (memory \<Rightarrow> 's \<Rightarrow> memory \<times> 's) \<Rightarrow> memory \<Rightarrow> 'r \<Rightarrow> memory \<times> 'r" where
  "struct_copy part set_part c mem r =
     (let (mem', x) = c mem (part r) in (mem', set_part x r))"

locale deep_copy_struct =
  deep_copy copy_into value_of addrs valid
  for copy_into :: "memory \<Rightarrow> 's \<Rightarrow> memory \<times> 's" and value_of :: "memory \<Rightarrow> 's \<Rightarrow> 'v"
    and addrs :: "'s \<Rightarrow> nat list" and valid :: "memory \<Rightarrow> 's \<Rightarrow> bool" +
  fixes part :: "'r \<Rightarrow> 's" and set_part :: "'s \<Rightarrow> 'r \<Rightarrow> 'r" and rest :: "'r \<Rightarrow> 'm"
    and whole :: "'m \<Rightarrow> 'v \<Rightarrow> 'u"
  assumes part_set [simp]: "part (set_part x r) = x"
    and rest_with [simp]: "rest (set_part x r) = rest r"
begin

lemma struct_contract:
  "deep_copy (struct_copy part set_part copy_into)
     (\<lambda>mem r. whole (rest r) (value_of mem (part r))) (\<lambda>r. addrs (part r)) (\<lambda>mem r. valid mem (part r))"
proof
  show "(\<exists>new. mem' = mem @ new) \<and>
      whole (rest r') (value_of mem' (part r')) = whole (rest r) (value_of mem (part r)) \<and>
      valid mem' (part r') \<and> distinct (addrs (part r')) \<and>
      set (addrs (part r')) \<subseteq> {length mem ..< length mem'}"
    if "valid mem (part r)" "struct_copy part set_part copy_into mem r = (mem', r')"
    for mem r mem' r'
  proof -
    note copied = that
    obtain x where "copy_into mem (part r) = (mem', x)" "r' = set_part x r"
      using copied(2) by (auto simp: struct_copy_def split: prod.splits)
    then show ?thesis using copies [OF copied(1)] by simp
  qed
  show "whole (rest r) (value_of mem' (part r)) = whole (rest r) (value_of mem (part r))"
    if "\<And>a. a \<in> set (addrs (part r)) \<Longrightarrow> mem' ! a = mem ! a" for mem mem' r
    using value_local [OF that] by simp
qed (use addrs_allocated valid_local in blast)+

end

lemmas deep_copy_pairI = deep_copy_pair.pair_contract [OF deep_copy_pair.intro]

lemmas deep_copy_structI =
  deep_copy_struct.struct_contract [OF deep_copy_struct.intro, OF _ deep_copy_struct_axioms.intro]

interpretation string_copy: deep_copy copy_string_pointer pointer_value pointer_addrs pointer_valid
proof
  show "a < length mem" if "pointer_valid mem p" "a \<in> set (pointer_addrs p)" for mem p a
    using that by (cases p) (auto simp: pointer_valid_def pointer_addrs_def)
  show "pointer_value mem' p = pointer_value mem p"
    if "\<And>a. a \<in> set (pointer_addrs p) \<Longrightarrow> mem' ! a = mem ! a" for p mem mem'
    using that by (cases p) (auto simp: pointer_value_def pointer_addrs_def)
  show "pointer_valid mem' p"
    if "pointer_valid mem p" "length mem \<le> length mem'"
      "\<And>a. a \<in> set (pointer_addrs p) \<Longrightarrow> mem' ! a = mem ! a" for p mem mem'
    using that by (cases p) (auto simp: pointer_valid_def pointer_addrs_def)
  show "(\<exists>new. mem' = mem @ new) \<and> pointer_value mem' p' = pointer_value mem p \<and>
      pointer_valid mem' p' \<and> distinct (pointer_addrs p') \<and>
      set (pointer_addrs p') \<subseteq> {length mem ..< length mem'}"
    if "pointer_valid mem p" "copy_string_pointer mem p = (mem', p')" for p p' mem mem'
    using that by (cases p) (auto simp: pointer_valid_def pointer_addrs_def pointer_value_def)
qed

interpretation sync_array: array_type SyncArray sync_elems
  by unfold_locales simp

interpretation predicate_array: array_type PredicateArray predicate_elems
  by unfold_locales simp

interpretation priority_array: array_type PriorityArray priority_elems
  by unfold_locales simp

interpretation hot_array: array_type HotArray hot_elems
  by unfold_locales simp

interpretation string_array: array_type StringArray string_elems
  by unfold_locales simp

interpretation sync_copy: deep_copy "copy_slice SyncArray sync_elems (\<lambda>x. x)"
  "slice_value sync_elems" slice_addrs "slice_valid sync_elems"
  by (rule sync_array.slice_copy_contract)

interpretation predicate_copy: deep_copy "copy_slice PredicateArray predicate_elems (\<lambda>x. x)"
  "slice_value predicate_elems" slice_addrs "slice_valid predicate_elems"
  by (rule predicate_array.slice_copy_contract)

interpretation priority_copy: deep_copy "copy_slice PriorityArray priority_elems (\<lambda>x. x)"
  "slice_value priority_elems" slice_addrs "slice_valid priority_elems"
  by (rule priority_array.slice_copy_contract)

interpretation hot_copy: deep_copy "copy_slice HotArray hot_elems (\<lambda>x. x)"
  "slice_value hot_elems" slice_addrs "slice_valid hot_elems"
  by (rule hot_array.slice_copy_contract)

interpretation strings_copy: deep_copy "copy_slice StringArray string_elems (\<lambda>x. x)"
  "slice_value string_elems" slice_addrs "slice_valid string_elems"
  by (rule string_array.slice_copy_contract)

end
