(* ===== verification/Deep_Copy.thy ===== *)
theory Deep_Copy
  imports Go_Memory
begin

text \<open>
  The deep copies that \<open>deepcopy-gen\<close> writes for the policy types (internal and \<open>v1alpha1\<close>) and for
  the plugin arguments (internal, \<open>v1beta2\<close> and \<open>v1beta3\<close>), over the memory of \<open>Go_Memory\<close>, and the
  conversions of the policy at the level of memory, which share the arrays they reinterpret. So does the defaulting of the
  topology arguments, which hands out one array of the process.

  A \<open>DeepCopyInto\<close> starts with \<open>*out = *in\<close>, so it is a function of the memory and of its receiver
  that returns the memory and the content of \<open>out\<close>. A pointer to a struct is the content of the
  struct, nil is \<open>None\<close>. \<open>metav1.Duration.DeepCopyInto\<close> belongs to apimachinery: it is the
  parameter \<open>copy_duration\<close>, given the receiver and the old content of its target.
\<close>

section \<open>Structs in memory\<close>

record PolicySpecMem =
  specm_SyncPeriod :: slice
  specm_SyncAppPeriod :: slice
  specm_Predicate :: slice
  specm_Priority :: slice
  specm_HotValue :: slice

record DynamicSchedulerPolicyMem =
  policym_TypeMeta :: TypeMeta
  policym_Spec :: PolicySpecMem

record PolicySpecMemV1alpha1 =
  specm1_SyncPeriod :: slice
  specm1_SyncAppPeriod :: slice
  specm1_Predicate :: slice
  specm1_Priority :: slice
  specm1_HotValue :: slice

record DynamicSchedulerPolicyMemV1alpha1 =
  policym1_TypeMeta :: TypeMeta
  policym1_Spec :: PolicySpecMemV1alpha1

record NodeResourceTopologyMatchArgsMem =
  nrtm_TypeMeta :: TypeMeta
  nrtm_TopologyAwareResources :: slice

record NodeResourceTopologyMatchArgsMemV1beta2 =
  nrtm2_TypeMeta :: TypeMeta
  nrtm2_TopologyAwareResources :: slice

record NodeResourceTopologyMatchArgsMemV1beta3 =
  nrtm3_TypeMeta :: TypeMeta
  nrtm3_TopologyAwareResources :: slice

record DynamicArgsMemV1beta3 =
  dynm3_TypeMeta :: TypeMeta
  dynm3_PolicyConfigPath :: "nat option"

record ApplicationResourceAwareArgsMemV1beta3 =
  aram3_TypeMeta :: TypeMeta
  aram3_PolicyConfigPath :: "nat option"

text \<open>A value of the interface \<open>runtime.Object\<close>: the nil interface, or a type and a pointer, which can
  itself be nil.\<close>

datatype object_interface =
    NilInterface
  | PolicyPtr "DynamicSchedulerPolicyMem option"
  | PolicyPtrV1alpha1 "DynamicSchedulerPolicyMemV1alpha1 option"
  | DynamicArgsPtr "DynamicArgs option"
  | TopologyArgsPtr "NodeResourceTopologyMatchArgsMem option"
  | AraArgsPtr "ApplicationResourceAwareArgs option"
  | DynamicArgsPtrV1beta2 "DynamicArgsV1beta2 option"
  | TopologyArgsPtrV1beta2 "NodeResourceTopologyMatchArgsMemV1beta2 option"
  | AraArgsPtrV1beta2 "ApplicationResourceAwareArgsV1beta2 option"
  | DynamicArgsPtrV1beta3 "DynamicArgsMemV1beta3 option"
  | TopologyArgsPtrV1beta3 "NodeResourceTopologyMatchArgsMemV1beta3 option"
  | AraArgsPtrV1beta3 "ApplicationResourceAwareArgsMemV1beta3 option"

text \<open>How the versioned code makes and reads an array.\<close>

definition SyncArrayV1alpha1 :: "SyncPolicyV1alpha1 list \<Rightarrow> go_array" where
  "SyncArrayV1alpha1 xs = SyncArray (map sync_of_v1alpha1 xs)"

definition sync_elems_v1alpha1 :: "go_array \<Rightarrow> SyncPolicyV1alpha1 list" where
  "sync_elems_v1alpha1 a = map sync_to_v1alpha1 (sync_elems a)"

definition PredicateArrayV1alpha1 :: "PredicatePolicyV1alpha1 list \<Rightarrow> go_array" where
  "PredicateArrayV1alpha1 xs = PredicateArray (map predicate_of_v1alpha1 xs)"

definition predicate_elems_v1alpha1 :: "go_array \<Rightarrow> PredicatePolicyV1alpha1 list" where
  "predicate_elems_v1alpha1 a = map predicate_to_v1alpha1 (predicate_elems a)"

definition PriorityArrayV1alpha1 :: "PriorityPolicyV1alpha1 list \<Rightarrow> go_array" where
  "PriorityArrayV1alpha1 xs = PriorityArray (map priority_of_v1alpha1 xs)"

definition priority_elems_v1alpha1 :: "go_array \<Rightarrow> PriorityPolicyV1alpha1 list" where
  "priority_elems_v1alpha1 a = map priority_to_v1alpha1 (priority_elems a)"

definition HotArrayV1alpha1 :: "HotValuePolicyV1alpha1 list \<Rightarrow> go_array" where
  "HotArrayV1alpha1 xs = HotArray (map hot_of_v1alpha1 xs)"

definition hot_elems_v1alpha1 :: "go_array \<Rightarrow> HotValuePolicyV1alpha1 list" where
  "hot_elems_v1alpha1 a = map hot_to_v1alpha1 (hot_elems a)"

section \<open>Deep copies of the internal policy\<close>

definition SyncPolicy_DeepCopyInto :: "(duration \<Rightarrow> duration \<Rightarrow> duration) \<Rightarrow> SyncPolicy \<Rightarrow> SyncPolicy" where
  "SyncPolicy_DeepCopyInto copy_duration i =
     (let out = i in out\<lparr>sync_Period := copy_duration (sync_Period i) (sync_Period out)\<rparr>)"

definition SyncPolicy_DeepCopy :: "(duration \<Rightarrow> duration \<Rightarrow> duration) \<Rightarrow> SyncPolicy option \<Rightarrow> SyncPolicy option" where
  "SyncPolicy_DeepCopy copy_duration i =
     (case i of None \<Rightarrow> None | Some i \<Rightarrow> Some (SyncPolicy_DeepCopyInto copy_duration i))"

definition PredicatePolicy_DeepCopyInto :: "PredicatePolicy \<Rightarrow> PredicatePolicy" where
  "PredicatePolicy_DeepCopyInto i = i"

definition PredicatePolicy_DeepCopy :: "PredicatePolicy option \<Rightarrow> PredicatePolicy option" where
  "PredicatePolicy_DeepCopy i =
     (case i of None \<Rightarrow> None | Some i \<Rightarrow> Some (PredicatePolicy_DeepCopyInto i))"

definition PriorityPolicy_DeepCopyInto :: "PriorityPolicy \<Rightarrow> PriorityPolicy" where
  "PriorityPolicy_DeepCopyInto i = i"

definition PriorityPolicy_DeepCopy :: "PriorityPolicy option \<Rightarrow> PriorityPolicy option" where
  "PriorityPolicy_DeepCopy i =
     (case i of None \<Rightarrow> None | Some i \<Rightarrow> Some (PriorityPolicy_DeepCopyInto i))"

definition HotValuePolicy_DeepCopyInto :: "(duration \<Rightarrow> duration \<Rightarrow> duration) \<Rightarrow> HotValuePolicy \<Rightarrow> HotValuePolicy" where
  "HotValuePolicy_DeepCopyInto copy_duration i =
     (let out = i in out\<lparr>hot_TimeRange := copy_duration (hot_TimeRange i) (hot_TimeRange out)\<rparr>)"

definition HotValuePolicy_DeepCopy :: "(duration \<Rightarrow> duration \<Rightarrow> duration) \<Rightarrow> HotValuePolicy option \<Rightarrow> HotValuePolicy option" where
  "HotValuePolicy_DeepCopy copy_duration i =
     (case i of None \<Rightarrow> None | Some i \<Rightarrow> Some (HotValuePolicy_DeepCopyInto copy_duration i))"

text \<open>The predicates and priorities are copied with \<open>copy\<close>, which assigns element by element.\<close>

definition PolicySpec_DeepCopyInto ::
  "(duration \<Rightarrow> duration \<Rightarrow> duration) \<Rightarrow> memory \<Rightarrow> PolicySpecMem \<Rightarrow> memory \<times> PolicySpecMem" where
  "PolicySpec_DeepCopyInto copy_duration mem i =
     (let out = i;
          (mem, period) = copy_slice SyncArray sync_elems
             (SyncPolicy_DeepCopyInto copy_duration) mem (specm_SyncPeriod i);
          out = out\<lparr>specm_SyncPeriod := period\<rparr>;
          (mem, appPeriod) = copy_slice SyncArray sync_elems
             (SyncPolicy_DeepCopyInto copy_duration) mem (specm_SyncAppPeriod i);
          out = out\<lparr>specm_SyncAppPeriod := appPeriod\<rparr>;
          (mem, predicate) = copy_slice PredicateArray predicate_elems
             (\<lambda>x. x) mem (specm_Predicate i);
          out = out\<lparr>specm_Predicate := predicate\<rparr>;
          (mem, priority) = copy_slice PriorityArray priority_elems
             (\<lambda>x. x) mem (specm_Priority i);
          out = out\<lparr>specm_Priority := priority\<rparr>;
          (mem, hotValue) = copy_slice HotArray hot_elems
             (HotValuePolicy_DeepCopyInto copy_duration) mem (specm_HotValue i);
          out = out\<lparr>specm_HotValue := hotValue\<rparr>
      in (mem, out))"

definition PolicySpec_DeepCopy ::
  "(duration \<Rightarrow> duration \<Rightarrow> duration) \<Rightarrow> memory \<Rightarrow> PolicySpecMem option \<Rightarrow> memory \<times> PolicySpecMem option" where
  "PolicySpec_DeepCopy copy_duration mem i =
     (case i of
        None \<Rightarrow> (mem, None)
      | Some i \<Rightarrow> (let (mem, out) = PolicySpec_DeepCopyInto copy_duration mem i in (mem, Some out)))"

definition DynamicSchedulerPolicy_DeepCopyInto ::
  "(duration \<Rightarrow> duration \<Rightarrow> duration) \<Rightarrow> memory \<Rightarrow> DynamicSchedulerPolicyMem \<Rightarrow> memory \<times> DynamicSchedulerPolicyMem" where
  "DynamicSchedulerPolicy_DeepCopyInto copy_duration mem i =
     (let out = i;
          out = out\<lparr>policym_TypeMeta := policym_TypeMeta i\<rparr>;
          (mem, spec) = PolicySpec_DeepCopyInto copy_duration mem (policym_Spec i)
      in (mem, out\<lparr>policym_Spec := spec\<rparr>))"

definition DynamicSchedulerPolicy_DeepCopy ::
  "(duration \<Rightarrow> duration \<Rightarrow> duration) \<Rightarrow> memory \<Rightarrow> DynamicSchedulerPolicyMem option \<Rightarrow> memory \<times> DynamicSchedulerPolicyMem option" where
  "DynamicSchedulerPolicy_DeepCopy copy_duration mem i =
     (case i of
        None \<Rightarrow> (mem, None)
      | Some i \<Rightarrow> (let (mem, out) = DynamicSchedulerPolicy_DeepCopyInto copy_duration mem i in (mem, Some out)))"

definition DynamicSchedulerPolicy_DeepCopyObject ::
  "(duration \<Rightarrow> duration \<Rightarrow> duration) \<Rightarrow> memory \<Rightarrow> DynamicSchedulerPolicyMem option \<Rightarrow> memory \<times> object_interface" where
  "DynamicSchedulerPolicy_DeepCopyObject copy_duration mem i =
     (case DynamicSchedulerPolicy_DeepCopy copy_duration mem i of
        (mem, None) \<Rightarrow> (mem, NilInterface)
      | (mem, Some c) \<Rightarrow> (mem, PolicyPtr (Some c)))"

section \<open>Deep copies of the policy of \<open>v1alpha1\<close>\<close>

definition SyncPolicy_DeepCopyInto_v1alpha1 :: "(duration \<Rightarrow> duration \<Rightarrow> duration) \<Rightarrow> SyncPolicyV1alpha1 \<Rightarrow> SyncPolicyV1alpha1" where
  "SyncPolicy_DeepCopyInto_v1alpha1 copy_duration i =
     (let out = i in out\<lparr>sync1_Period := copy_duration (sync1_Period i) (sync1_Period out)\<rparr>)"

definition SyncPolicy_DeepCopy_v1alpha1 :: "(duration \<Rightarrow> duration \<Rightarrow> duration) \<Rightarrow> SyncPolicyV1alpha1 option \<Rightarrow> SyncPolicyV1alpha1 option" where
  "SyncPolicy_DeepCopy_v1alpha1 copy_duration i =
     (case i of None \<Rightarrow> None | Some i \<Rightarrow> Some (SyncPolicy_DeepCopyInto_v1alpha1 copy_duration i))"

definition PredicatePolicy_DeepCopyInto_v1alpha1 :: "PredicatePolicyV1alpha1 \<Rightarrow> PredicatePolicyV1alpha1" where
  "PredicatePolicy_DeepCopyInto_v1alpha1 i = i"

definition PredicatePolicy_DeepCopy_v1alpha1 :: "PredicatePolicyV1alpha1 option \<Rightarrow> PredicatePolicyV1alpha1 option" where
  "PredicatePolicy_DeepCopy_v1alpha1 i =
     (case i of None \<Rightarrow> None | Some i \<Rightarrow> Some (PredicatePolicy_DeepCopyInto_v1alpha1 i))"

definition PriorityPolicy_DeepCopyInto_v1alpha1 :: "PriorityPolicyV1alpha1 \<Rightarrow> PriorityPolicyV1alpha1" where
  "PriorityPolicy_DeepCopyInto_v1alpha1 i = i"

definition PriorityPolicy_DeepCopy_v1alpha1 :: "PriorityPolicyV1alpha1 option \<Rightarrow> PriorityPolicyV1alpha1 option" where
  "PriorityPolicy_DeepCopy_v1alpha1 i =
     (case i of None \<Rightarrow> None | Some i \<Rightarrow> Some (PriorityPolicy_DeepCopyInto_v1alpha1 i))"

definition HotValuePolicy_DeepCopyInto_v1alpha1 :: "(duration \<Rightarrow> duration \<Rightarrow> duration) \<Rightarrow> HotValuePolicyV1alpha1 \<Rightarrow> HotValuePolicyV1alpha1" where
  "HotValuePolicy_DeepCopyInto_v1alpha1 copy_duration i =
     (let out = i in out\<lparr>hot1_TimeRange := copy_duration (hot1_TimeRange i) (hot1_TimeRange out)\<rparr>)"

definition HotValuePolicy_DeepCopy_v1alpha1 :: "(duration \<Rightarrow> duration \<Rightarrow> duration) \<Rightarrow> HotValuePolicyV1alpha1 option \<Rightarrow> HotValuePolicyV1alpha1 option" where
  "HotValuePolicy_DeepCopy_v1alpha1 copy_duration i =
     (case i of None \<Rightarrow> None | Some i \<Rightarrow> Some (HotValuePolicy_DeepCopyInto_v1alpha1 copy_duration i))"

text \<open>The predicates and priorities are copied with \<open>copy\<close>, which assigns element by element.\<close>

definition PolicySpec_DeepCopyInto_v1alpha1 ::
  "(duration \<Rightarrow> duration \<Rightarrow> duration) \<Rightarrow> memory \<Rightarrow> PolicySpecMemV1alpha1 \<Rightarrow> memory \<times> PolicySpecMemV1alpha1" where
  "PolicySpec_DeepCopyInto_v1alpha1 copy_duration mem i =
     (let out = i;
          (mem, period) = copy_slice SyncArrayV1alpha1 sync_elems_v1alpha1
             (SyncPolicy_DeepCopyInto_v1alpha1 copy_duration) mem (specm1_SyncPeriod i);
          out = out\<lparr>specm1_SyncPeriod := period\<rparr>;
          (mem, appPeriod) = copy_slice SyncArrayV1alpha1 sync_elems_v1alpha1
             (SyncPolicy_DeepCopyInto_v1alpha1 copy_duration) mem (specm1_SyncAppPeriod i);
          out = out\<lparr>specm1_SyncAppPeriod := appPeriod\<rparr>;
          (mem, predicate) = copy_slice PredicateArrayV1alpha1 predicate_elems_v1alpha1
             (\<lambda>x. x) mem (specm1_Predicate i);
          out = out\<lparr>specm1_Predicate := predicate\<rparr>;
          (mem, priority) = copy_slice PriorityArrayV1alpha1 priority_elems_v1alpha1
             (\<lambda>x. x) mem (specm1_Priority i);
          out = out\<lparr>specm1_Priority := priority\<rparr>;
          (mem, hotValue) = copy_slice HotArrayV1alpha1 hot_elems_v1alpha1
             (HotValuePolicy_DeepCopyInto_v1alpha1 copy_duration) mem (specm1_HotValue i);
          out = out\<lparr>specm1_HotValue := hotValue\<rparr>
      in (mem, out))"

definition PolicySpec_DeepCopy_v1alpha1 ::
  "(duration \<Rightarrow> duration \<Rightarrow> duration) \<Rightarrow> memory \<Rightarrow> PolicySpecMemV1alpha1 option \<Rightarrow> memory \<times> PolicySpecMemV1alpha1 option" where
  "PolicySpec_DeepCopy_v1alpha1 copy_duration mem i =
     (case i of
        None \<Rightarrow> (mem, None)
      | Some i \<Rightarrow> (let (mem, out) = PolicySpec_DeepCopyInto_v1alpha1 copy_duration mem i in (mem, Some out)))"

definition DynamicSchedulerPolicy_DeepCopyInto_v1alpha1 ::
  "(duration \<Rightarrow> duration \<Rightarrow> duration) \<Rightarrow> memory \<Rightarrow> DynamicSchedulerPolicyMemV1alpha1 \<Rightarrow> memory \<times> DynamicSchedulerPolicyMemV1alpha1" where
  "DynamicSchedulerPolicy_DeepCopyInto_v1alpha1 copy_duration mem i =
     (let out = i;
          out = out\<lparr>policym1_TypeMeta := policym1_TypeMeta i\<rparr>;
          (mem, spec) = PolicySpec_DeepCopyInto_v1alpha1 copy_duration mem (policym1_Spec i)
      in (mem, out\<lparr>policym1_Spec := spec\<rparr>))"

definition DynamicSchedulerPolicy_DeepCopy_v1alpha1 ::
  "(duration \<Rightarrow> duration \<Rightarrow> duration) \<Rightarrow> memory \<Rightarrow> DynamicSchedulerPolicyMemV1alpha1 option \<Rightarrow> memory \<times> DynamicSchedulerPolicyMemV1alpha1 option" where
  "DynamicSchedulerPolicy_DeepCopy_v1alpha1 copy_duration mem i =
     (case i of
        None \<Rightarrow> (mem, None)
      | Some i \<Rightarrow> (let (mem, out) = DynamicSchedulerPolicy_DeepCopyInto_v1alpha1 copy_duration mem i in (mem, Some out)))"

definition DynamicSchedulerPolicy_DeepCopyObject_v1alpha1 ::
  "(duration \<Rightarrow> duration \<Rightarrow> duration) \<Rightarrow> memory \<Rightarrow> DynamicSchedulerPolicyMemV1alpha1 option \<Rightarrow> memory \<times> object_interface" where
  "DynamicSchedulerPolicy_DeepCopyObject_v1alpha1 copy_duration mem i =
     (case DynamicSchedulerPolicy_DeepCopy_v1alpha1 copy_duration mem i of
        (mem, None) \<Rightarrow> (mem, NilInterface)
      | (mem, Some c) \<Rightarrow> (mem, PolicyPtrV1alpha1 (Some c)))"

section \<open>Deep copies of the internal arguments\<close>

definition DynamicArgs_DeepCopyInto :: "DynamicArgs \<Rightarrow> DynamicArgs" where
  "DynamicArgs_DeepCopyInto i = (let out = i in out\<lparr>dyn_TypeMeta := dyn_TypeMeta i\<rparr>)"

definition DynamicArgs_DeepCopy :: "DynamicArgs option \<Rightarrow> DynamicArgs option" where
  "DynamicArgs_DeepCopy i =
     (case i of None \<Rightarrow> None | Some i \<Rightarrow> Some (DynamicArgs_DeepCopyInto i))"

definition DynamicArgs_DeepCopyObject :: "DynamicArgs option \<Rightarrow> object_interface" where
  "DynamicArgs_DeepCopyObject i =
     (case DynamicArgs_DeepCopy i of None \<Rightarrow> NilInterface | Some c \<Rightarrow> DynamicArgsPtr (Some c))"

definition NodeResourceTopologyMatchArgs_DeepCopyInto ::
  "memory \<Rightarrow> NodeResourceTopologyMatchArgsMem \<Rightarrow> memory \<times> NodeResourceTopologyMatchArgsMem" where
  "NodeResourceTopologyMatchArgs_DeepCopyInto mem i =
     (let out = i;
          out = out\<lparr>nrtm_TypeMeta := nrtm_TypeMeta i\<rparr>;
          (mem, resources) = copy_slice StringArray string_elems (\<lambda>x. x) mem (nrtm_TopologyAwareResources i)
      in (mem, out\<lparr>nrtm_TopologyAwareResources := resources\<rparr>))"

definition NodeResourceTopologyMatchArgs_DeepCopy ::
  "memory \<Rightarrow> NodeResourceTopologyMatchArgsMem option \<Rightarrow> memory \<times> NodeResourceTopologyMatchArgsMem option" where
  "NodeResourceTopologyMatchArgs_DeepCopy mem i =
     (case i of
        None \<Rightarrow> (mem, None)
      | Some i \<Rightarrow> (let (mem, out) = NodeResourceTopologyMatchArgs_DeepCopyInto mem i in (mem, Some out)))"

definition NodeResourceTopologyMatchArgs_DeepCopyObject ::
  "memory \<Rightarrow> NodeResourceTopologyMatchArgsMem option \<Rightarrow> memory \<times> object_interface" where
  "NodeResourceTopologyMatchArgs_DeepCopyObject mem i =
     (case NodeResourceTopologyMatchArgs_DeepCopy mem i of
        (mem, None) \<Rightarrow> (mem, NilInterface)
      | (mem, Some c) \<Rightarrow> (mem, TopologyArgsPtr (Some c)))"

definition ApplicationResourceAwareArgs_DeepCopyInto :: "ApplicationResourceAwareArgs \<Rightarrow> ApplicationResourceAwareArgs" where
  "ApplicationResourceAwareArgs_DeepCopyInto i = (let out = i in out\<lparr>ara_TypeMeta := ara_TypeMeta i\<rparr>)"

definition ApplicationResourceAwareArgs_DeepCopy :: "ApplicationResourceAwareArgs option \<Rightarrow> ApplicationResourceAwareArgs option" where
  "ApplicationResourceAwareArgs_DeepCopy i =
     (case i of None \<Rightarrow> None | Some i \<Rightarrow> Some (ApplicationResourceAwareArgs_DeepCopyInto i))"

definition ApplicationResourceAwareArgs_DeepCopyObject :: "ApplicationResourceAwareArgs option \<Rightarrow> object_interface" where
  "ApplicationResourceAwareArgs_DeepCopyObject i =
     (case ApplicationResourceAwareArgs_DeepCopy i of None \<Rightarrow> NilInterface | Some c \<Rightarrow> AraArgsPtr (Some c))"

section \<open>Deep copies of the arguments of \<open>v1beta2\<close>\<close>

definition DynamicArgs_DeepCopyInto_v1beta2 :: "DynamicArgsV1beta2 \<Rightarrow> DynamicArgsV1beta2" where
  "DynamicArgs_DeepCopyInto_v1beta2 i = (let out = i in out\<lparr>dyn2_TypeMeta := dyn2_TypeMeta i\<rparr>)"

definition DynamicArgs_DeepCopy_v1beta2 :: "DynamicArgsV1beta2 option \<Rightarrow> DynamicArgsV1beta2 option" where
  "DynamicArgs_DeepCopy_v1beta2 i =
     (case i of None \<Rightarrow> None | Some i \<Rightarrow> Some (DynamicArgs_DeepCopyInto_v1beta2 i))"

definition DynamicArgs_DeepCopyObject_v1beta2 :: "DynamicArgsV1beta2 option \<Rightarrow> object_interface" where
  "DynamicArgs_DeepCopyObject_v1beta2 i =
     (case DynamicArgs_DeepCopy_v1beta2 i of None \<Rightarrow> NilInterface | Some c \<Rightarrow> DynamicArgsPtrV1beta2 (Some c))"

definition NodeResourceTopologyMatchArgs_DeepCopyInto_v1beta2 ::
  "memory \<Rightarrow> NodeResourceTopologyMatchArgsMemV1beta2 \<Rightarrow> memory \<times> NodeResourceTopologyMatchArgsMemV1beta2" where
  "NodeResourceTopologyMatchArgs_DeepCopyInto_v1beta2 mem i =
     (let out = i;
          out = out\<lparr>nrtm2_TypeMeta := nrtm2_TypeMeta i\<rparr>;
          (mem, resources) = copy_slice StringArray string_elems (\<lambda>x. x) mem (nrtm2_TopologyAwareResources i)
      in (mem, out\<lparr>nrtm2_TopologyAwareResources := resources\<rparr>))"

definition NodeResourceTopologyMatchArgs_DeepCopy_v1beta2 ::
  "memory \<Rightarrow> NodeResourceTopologyMatchArgsMemV1beta2 option \<Rightarrow> memory \<times> NodeResourceTopologyMatchArgsMemV1beta2 option" where
  "NodeResourceTopologyMatchArgs_DeepCopy_v1beta2 mem i =
     (case i of
        None \<Rightarrow> (mem, None)
      | Some i \<Rightarrow> (let (mem, out) = NodeResourceTopologyMatchArgs_DeepCopyInto_v1beta2 mem i in (mem, Some out)))"

definition NodeResourceTopologyMatchArgs_DeepCopyObject_v1beta2 ::
  "memory \<Rightarrow> NodeResourceTopologyMatchArgsMemV1beta2 option \<Rightarrow> memory \<times> object_interface" where
  "NodeResourceTopologyMatchArgs_DeepCopyObject_v1beta2 mem i =
     (case NodeResourceTopologyMatchArgs_DeepCopy_v1beta2 mem i of
        (mem, None) \<Rightarrow> (mem, NilInterface)
      | (mem, Some c) \<Rightarrow> (mem, TopologyArgsPtrV1beta2 (Some c)))"

definition ApplicationResourceAwareArgs_DeepCopyInto_v1beta2 :: "ApplicationResourceAwareArgsV1beta2 \<Rightarrow> ApplicationResourceAwareArgsV1beta2" where
  "ApplicationResourceAwareArgs_DeepCopyInto_v1beta2 i = (let out = i in out\<lparr>ara2_TypeMeta := ara2_TypeMeta i\<rparr>)"

definition ApplicationResourceAwareArgs_DeepCopy_v1beta2 :: "ApplicationResourceAwareArgsV1beta2 option \<Rightarrow> ApplicationResourceAwareArgsV1beta2 option" where
  "ApplicationResourceAwareArgs_DeepCopy_v1beta2 i =
     (case i of None \<Rightarrow> None | Some i \<Rightarrow> Some (ApplicationResourceAwareArgs_DeepCopyInto_v1beta2 i))"

definition ApplicationResourceAwareArgs_DeepCopyObject_v1beta2 :: "ApplicationResourceAwareArgsV1beta2 option \<Rightarrow> object_interface" where
  "ApplicationResourceAwareArgs_DeepCopyObject_v1beta2 i =
     (case ApplicationResourceAwareArgs_DeepCopy_v1beta2 i of None \<Rightarrow> NilInterface | Some c \<Rightarrow> AraArgsPtrV1beta2 (Some c))"

section \<open>Deep copies of the arguments of \<open>v1beta3\<close>\<close>

definition DynamicArgs_DeepCopyInto_v1beta3 ::
  "memory \<Rightarrow> DynamicArgsMemV1beta3 \<Rightarrow> memory \<times> DynamicArgsMemV1beta3" where
  "DynamicArgs_DeepCopyInto_v1beta3 mem i =
     (let out = i;
          out = out\<lparr>dynm3_TypeMeta := dynm3_TypeMeta i\<rparr>;
          (mem, path) = copy_string_pointer mem (dynm3_PolicyConfigPath i)
      in (mem, out\<lparr>dynm3_PolicyConfigPath := path\<rparr>))"

definition DynamicArgs_DeepCopy_v1beta3 ::
  "memory \<Rightarrow> DynamicArgsMemV1beta3 option \<Rightarrow> memory \<times> DynamicArgsMemV1beta3 option" where
  "DynamicArgs_DeepCopy_v1beta3 mem i =
     (case i of
        None \<Rightarrow> (mem, None)
      | Some i \<Rightarrow> (let (mem, out) = DynamicArgs_DeepCopyInto_v1beta3 mem i in (mem, Some out)))"

definition DynamicArgs_DeepCopyObject_v1beta3 ::
  "memory \<Rightarrow> DynamicArgsMemV1beta3 option \<Rightarrow> memory \<times> object_interface" where
  "DynamicArgs_DeepCopyObject_v1beta3 mem i =
     (case DynamicArgs_DeepCopy_v1beta3 mem i of
        (mem, None) \<Rightarrow> (mem, NilInterface)
      | (mem, Some c) \<Rightarrow> (mem, DynamicArgsPtrV1beta3 (Some c)))"

definition NodeResourceTopologyMatchArgs_DeepCopyInto_v1beta3 ::
  "memory \<Rightarrow> NodeResourceTopologyMatchArgsMemV1beta3 \<Rightarrow> memory \<times> NodeResourceTopologyMatchArgsMemV1beta3" where
  "NodeResourceTopologyMatchArgs_DeepCopyInto_v1beta3 mem i =
     (let out = i;
          out = out\<lparr>nrtm3_TypeMeta := nrtm3_TypeMeta i\<rparr>;
          (mem, resources) = copy_slice StringArray string_elems (\<lambda>x. x) mem (nrtm3_TopologyAwareResources i)
      in (mem, out\<lparr>nrtm3_TopologyAwareResources := resources\<rparr>))"

definition NodeResourceTopologyMatchArgs_DeepCopy_v1beta3 ::
  "memory \<Rightarrow> NodeResourceTopologyMatchArgsMemV1beta3 option \<Rightarrow> memory \<times> NodeResourceTopologyMatchArgsMemV1beta3 option" where
  "NodeResourceTopologyMatchArgs_DeepCopy_v1beta3 mem i =
     (case i of
        None \<Rightarrow> (mem, None)
      | Some i \<Rightarrow> (let (mem, out) = NodeResourceTopologyMatchArgs_DeepCopyInto_v1beta3 mem i in (mem, Some out)))"

definition NodeResourceTopologyMatchArgs_DeepCopyObject_v1beta3 ::
  "memory \<Rightarrow> NodeResourceTopologyMatchArgsMemV1beta3 option \<Rightarrow> memory \<times> object_interface" where
  "NodeResourceTopologyMatchArgs_DeepCopyObject_v1beta3 mem i =
     (case NodeResourceTopologyMatchArgs_DeepCopy_v1beta3 mem i of
        (mem, None) \<Rightarrow> (mem, NilInterface)
      | (mem, Some c) \<Rightarrow> (mem, TopologyArgsPtrV1beta3 (Some c)))"

definition ApplicationResourceAwareArgs_DeepCopyInto_v1beta3 ::
  "memory \<Rightarrow> ApplicationResourceAwareArgsMemV1beta3 \<Rightarrow> memory \<times> ApplicationResourceAwareArgsMemV1beta3" where
  "ApplicationResourceAwareArgs_DeepCopyInto_v1beta3 mem i =
     (let out = i;
          out = out\<lparr>aram3_TypeMeta := aram3_TypeMeta i\<rparr>;
          (mem, path) = copy_string_pointer mem (aram3_PolicyConfigPath i)
      in (mem, out\<lparr>aram3_PolicyConfigPath := path\<rparr>))"

definition ApplicationResourceAwareArgs_DeepCopy_v1beta3 ::
  "memory \<Rightarrow> ApplicationResourceAwareArgsMemV1beta3 option \<Rightarrow> memory \<times> ApplicationResourceAwareArgsMemV1beta3 option" where
  "ApplicationResourceAwareArgs_DeepCopy_v1beta3 mem i =
     (case i of
        None \<Rightarrow> (mem, None)
      | Some i \<Rightarrow> (let (mem, out) = ApplicationResourceAwareArgs_DeepCopyInto_v1beta3 mem i in (mem, Some out)))"

definition ApplicationResourceAwareArgs_DeepCopyObject_v1beta3 ::
  "memory \<Rightarrow> ApplicationResourceAwareArgsMemV1beta3 option \<Rightarrow> memory \<times> object_interface" where
  "ApplicationResourceAwareArgs_DeepCopyObject_v1beta3 mem i =
     (case ApplicationResourceAwareArgs_DeepCopy_v1beta3 mem i of
        (mem, None) \<Rightarrow> (mem, NilInterface)
      | (mem, Some c) \<Rightarrow> (mem, AraArgsPtrV1beta3 (Some c)))"

section \<open>Conversions of the policy in memory\<close>

text \<open>The generated conversions read the slice header of one version as that of the other.\<close>

definition spec_mem_of_v1alpha1 :: "PolicySpecMemV1alpha1 \<Rightarrow> PolicySpecMem \<Rightarrow> PolicySpecMem" where
  "spec_mem_of_v1alpha1 i out =
     out\<lparr>specm_SyncPeriod := specm1_SyncPeriod i,
         specm_SyncAppPeriod := specm1_SyncAppPeriod i,
         specm_Predicate := specm1_Predicate i,
         specm_Priority := specm1_Priority i,
         specm_HotValue := specm1_HotValue i\<rparr>"

definition spec_mem_to_v1alpha1 :: "PolicySpecMem \<Rightarrow> PolicySpecMemV1alpha1 \<Rightarrow> PolicySpecMemV1alpha1" where
  "spec_mem_to_v1alpha1 i out =
     out\<lparr>specm1_SyncPeriod := specm_SyncPeriod i,
         specm1_SyncAppPeriod := specm_SyncAppPeriod i,
         specm1_Predicate := specm_Predicate i,
         specm1_Priority := specm_Priority i,
         specm1_HotValue := specm_HotValue i\<rparr>"

section \<open>The values of structs in memory\<close>

definition spec_slices :: "PolicySpecMem \<Rightarrow> slice \<times> slice \<times> slice \<times> slice \<times> slice" where
  "spec_slices s =
     (specm_SyncPeriod s, specm_SyncAppPeriod s, specm_Predicate s, specm_Priority s, specm_HotValue s)"

definition spec_value :: "memory \<Rightarrow> PolicySpecMem \<Rightarrow>
  SyncPolicy list option \<times> SyncPolicy list option \<times> PredicatePolicy list option *
  PriorityPolicy list option \<times> HotValuePolicy list option" where
  "spec_value mem s =
     (slice_value sync_elems mem (specm_SyncPeriod s), slice_value sync_elems mem (specm_SyncAppPeriod s),
      slice_value predicate_elems mem (specm_Predicate s), slice_value priority_elems mem (specm_Priority s),
      slice_value hot_elems mem (specm_HotValue s))"

definition spec_addrs :: "PolicySpecMem \<Rightarrow> nat list" where
  "spec_addrs s =
     slice_addrs (specm_SyncPeriod s) @ slice_addrs (specm_SyncAppPeriod s) @
     slice_addrs (specm_Predicate s) @ slice_addrs (specm_Priority s) @ slice_addrs (specm_HotValue s)"

definition spec_valid :: "memory \<Rightarrow> PolicySpecMem \<Rightarrow> bool" where
  "spec_valid mem s =
     (slice_valid sync_elems mem (specm_SyncPeriod s) \<and> slice_valid sync_elems mem (specm_SyncAppPeriod s) \<and>
      slice_valid predicate_elems mem (specm_Predicate s) \<and> slice_valid priority_elems mem (specm_Priority s) \<and>
      slice_valid hot_elems mem (specm_HotValue s))"

text \<open>The value that lies in memory; a nil and an empty slice are the same list.\<close>

definition spec_of_mem :: "memory \<Rightarrow> PolicySpecMem \<Rightarrow> PolicySpec" where
  "spec_of_mem mem s =
     \<lparr>spec_SyncPeriod = slice_elems sync_elems mem (specm_SyncPeriod s),
      spec_SyncAppPeriod = slice_elems sync_elems mem (specm_SyncAppPeriod s),
      spec_Predicate = slice_elems predicate_elems mem (specm_Predicate s),
      spec_Priority = slice_elems priority_elems mem (specm_Priority s),
      spec_HotValue = slice_elems hot_elems mem (specm_HotValue s)\<rparr>"

definition spec_slices_v1alpha1 :: "PolicySpecMemV1alpha1 \<Rightarrow> slice \<times> slice \<times> slice \<times> slice \<times> slice" where
  "spec_slices_v1alpha1 s =
     (specm1_SyncPeriod s, specm1_SyncAppPeriod s, specm1_Predicate s, specm1_Priority s, specm1_HotValue s)"

definition spec_value_v1alpha1 :: "memory \<Rightarrow> PolicySpecMemV1alpha1 \<Rightarrow>
  SyncPolicyV1alpha1 list option \<times> SyncPolicyV1alpha1 list option \<times> PredicatePolicyV1alpha1 list option *
  PriorityPolicyV1alpha1 list option \<times> HotValuePolicyV1alpha1 list option" where
  "spec_value_v1alpha1 mem s =
     (slice_value sync_elems_v1alpha1 mem (specm1_SyncPeriod s), slice_value sync_elems_v1alpha1 mem (specm1_SyncAppPeriod s),
      slice_value predicate_elems_v1alpha1 mem (specm1_Predicate s), slice_value priority_elems_v1alpha1 mem (specm1_Priority s),
      slice_value hot_elems_v1alpha1 mem (specm1_HotValue s))"

definition spec_addrs_v1alpha1 :: "PolicySpecMemV1alpha1 \<Rightarrow> nat list" where
  "spec_addrs_v1alpha1 s =
     slice_addrs (specm1_SyncPeriod s) @ slice_addrs (specm1_SyncAppPeriod s) @
     slice_addrs (specm1_Predicate s) @ slice_addrs (specm1_Priority s) @ slice_addrs (specm1_HotValue s)"

definition spec_valid_v1alpha1 :: "memory \<Rightarrow> PolicySpecMemV1alpha1 \<Rightarrow> bool" where
  "spec_valid_v1alpha1 mem s =
     (slice_valid sync_elems_v1alpha1 mem (specm1_SyncPeriod s) \<and> slice_valid sync_elems_v1alpha1 mem (specm1_SyncAppPeriod s) \<and>
      slice_valid predicate_elems_v1alpha1 mem (specm1_Predicate s) \<and> slice_valid priority_elems_v1alpha1 mem (specm1_Priority s) \<and>
      slice_valid hot_elems_v1alpha1 mem (specm1_HotValue s))"

definition spec_of_mem_v1alpha1 :: "memory \<Rightarrow> PolicySpecMemV1alpha1 \<Rightarrow> PolicySpecV1alpha1" where
  "spec_of_mem_v1alpha1 mem s =
     \<lparr>spec1_SyncPeriod = slice_elems sync_elems_v1alpha1 mem (specm1_SyncPeriod s),
      spec1_SyncAppPeriod = slice_elems sync_elems_v1alpha1 mem (specm1_SyncAppPeriod s),
      spec1_Predicate = slice_elems predicate_elems_v1alpha1 mem (specm1_Predicate s),
      spec1_Priority = slice_elems priority_elems_v1alpha1 mem (specm1_Priority s),
      spec1_HotValue = slice_elems hot_elems_v1alpha1 mem (specm1_HotValue s)\<rparr>"

section \<open>The copies of the elements\<close>

text \<open>The documented behaviour of \<open>metav1.Duration.DeepCopyInto\<close>.\<close>

definition copies_duration :: "(duration \<Rightarrow> duration \<Rightarrow> duration) \<Rightarrow> bool" where
  "copies_duration copy_duration \<longleftrightarrow> (\<forall>d old. copy_duration d old = d)"

lemma copies_duration_iff: "copies_duration cd \<longleftrightarrow> cd = (\<lambda>d old. d)"
  by (auto simp: copies_duration_def fun_eq_iff)

lemma element_copies [simp]:
  "SyncPolicy_DeepCopyInto (\<lambda>d old. d) = (\<lambda>x. x)"
  "HotValuePolicy_DeepCopyInto (\<lambda>d old. d) = (\<lambda>x. x)"
  "SyncPolicy_DeepCopyInto_v1alpha1 (\<lambda>d old. d) = (\<lambda>x. x)"
  "HotValuePolicy_DeepCopyInto_v1alpha1 (\<lambda>d old. d) = (\<lambda>x. x)"
  by (simp_all add: fun_eq_iff SyncPolicy_DeepCopyInto_def HotValuePolicy_DeepCopyInto_def
      SyncPolicy_DeepCopyInto_v1alpha1_def HotValuePolicy_DeepCopyInto_v1alpha1_def)

interpretation sync_array1: array_type SyncArrayV1alpha1 sync_elems_v1alpha1
  by unfold_locales (simp add: SyncArrayV1alpha1_def sync_elems_v1alpha1_def comp_def)

interpretation predicate_array1: array_type PredicateArrayV1alpha1 predicate_elems_v1alpha1
  by unfold_locales (simp add: PredicateArrayV1alpha1_def predicate_elems_v1alpha1_def comp_def)

interpretation priority_array1: array_type PriorityArrayV1alpha1 priority_elems_v1alpha1
  by unfold_locales (simp add: PriorityArrayV1alpha1_def priority_elems_v1alpha1_def comp_def)

interpretation hot_array1: array_type HotArrayV1alpha1 hot_elems_v1alpha1
  by unfold_locales (simp add: HotArrayV1alpha1_def hot_elems_v1alpha1_def comp_def)

section \<open>The copies of the structs\<close>

text \<open>Each struct keeps the contract because its parts, copied one after the other, do.\<close>

lemma deep_copy_eqI:
  assumes "deep_copy c v a w" "\<And>mem s. c' mem s = c mem s" "\<And>mem s. v' mem s = v mem s"
    "\<And>s. a' s = a s" "\<And>mem s. w' mem s = w mem s"
  shows "deep_copy c' v' a' w'"
proof -
  have "c' = c" "v' = v" "a' = a" "w' = w" using assms(2-5) by (simp_all add: fun_eq_iff)
  then show ?thesis using assms(1) by simp
qed

definition with_slices ::
  "slice \<times> slice \<times> slice \<times> slice \<times> slice \<Rightarrow> PolicySpecMem \<Rightarrow> PolicySpecMem" where
  "with_slices = (\<lambda>(a, b, c, d, e) s. s\<lparr>specm_SyncPeriod := a, specm_SyncAppPeriod := b,
     specm_Predicate := c, specm_Priority := d, specm_HotValue := e\<rparr>)"

interpretation priorities_then_hot: deep_copy_pair
  "copy_slice PriorityArray priority_elems (\<lambda>x. x)" "slice_value priority_elems" slice_addrs "slice_valid priority_elems"
  "copy_slice HotArray hot_elems (\<lambda>x. x)" "slice_value hot_elems" slice_addrs "slice_valid hot_elems"
  by unfold_locales

lemma PolicySpec_contract:
  "deep_copy (PolicySpec_DeepCopyInto (\<lambda>d old. d)) spec_value spec_addrs spec_valid"
proof (rule deep_copy_eqI [OF deep_copy_structI [OF
    deep_copy_pairI [OF sync_copy.deep_copy_axioms
    deep_copy_pairI [OF sync_copy.deep_copy_axioms deep_copy_pairI [OF predicate_copy.deep_copy_axioms
    priorities_then_hot.pair_contract]]],
    where part = spec_slices and set_part = with_slices and rest = "\<lambda>s. ()" and whole = "\<lambda>u v. v"]])
qed (auto simp: with_slices_def spec_slices_def struct_copy_def pair_copy_def
        PolicySpec_DeepCopyInto_def spec_value_def spec_addrs_def spec_valid_def Let_def
        split: prod.splits)

definition with_slices_v1alpha1 ::
  "slice \<times> slice \<times> slice \<times> slice \<times> slice \<Rightarrow> PolicySpecMemV1alpha1 \<Rightarrow> PolicySpecMemV1alpha1" where
  "with_slices_v1alpha1 = (\<lambda>(a, b, c, d, e) s. s\<lparr>specm1_SyncPeriod := a, specm1_SyncAppPeriod := b,
     specm1_Predicate := c, specm1_Priority := d, specm1_HotValue := e\<rparr>)"

lemma PolicySpec_contract_v1alpha1:
  "deep_copy (PolicySpec_DeepCopyInto_v1alpha1 (\<lambda>d old. d))
     spec_value_v1alpha1 spec_addrs_v1alpha1 spec_valid_v1alpha1"
proof (rule deep_copy_eqI [OF deep_copy_structI [OF
    deep_copy_pairI [OF sync_array1.slice_copy_contract
    deep_copy_pairI [OF sync_array1.slice_copy_contract deep_copy_pairI [OF predicate_array1.slice_copy_contract
    deep_copy_pairI [OF priority_array1.slice_copy_contract hot_array1.slice_copy_contract]]]],
    where part = spec_slices_v1alpha1 and set_part = with_slices_v1alpha1 and rest = "\<lambda>s. ()"
      and whole = "\<lambda>u v. v"]])
qed (auto simp: with_slices_v1alpha1_def spec_slices_v1alpha1_def struct_copy_def pair_copy_def
        PolicySpec_DeepCopyInto_v1alpha1_def spec_value_v1alpha1_def spec_addrs_v1alpha1_def
        spec_valid_v1alpha1_def Let_def split: prod.splits)

lemma policy_contracts:
  "deep_copy (DynamicSchedulerPolicy_DeepCopyInto (\<lambda>d old. d))
     (\<lambda>mem p. (policym_TypeMeta p, spec_value mem (policym_Spec p))) (\<lambda>p. spec_addrs (policym_Spec p))
     (\<lambda>mem p. spec_valid mem (policym_Spec p))"
  "deep_copy (DynamicSchedulerPolicy_DeepCopyInto_v1alpha1 (\<lambda>d old. d))
     (\<lambda>mem p. (policym1_TypeMeta p, spec_value_v1alpha1 mem (policym1_Spec p)))
     (\<lambda>p. spec_addrs_v1alpha1 (policym1_Spec p)) (\<lambda>mem p. spec_valid_v1alpha1 mem (policym1_Spec p))"
  by (rule deep_copy_eqI [OF deep_copy_structI [OF PolicySpec_contract,
        where part = policym_Spec and set_part = "\<lambda>x p. p\<lparr>policym_Spec := x\<rparr>"
          and rest = policym_TypeMeta and whole = Pair]];
      simp add: struct_copy_def DynamicSchedulerPolicy_DeepCopyInto_def)
    (rule deep_copy_eqI [OF deep_copy_structI [OF PolicySpec_contract_v1alpha1,
        where part = policym1_Spec and set_part = "\<lambda>x p. p\<lparr>policym1_Spec := x\<rparr>"
          and rest = policym1_TypeMeta and whole = Pair]];
      simp add: struct_copy_def DynamicSchedulerPolicy_DeepCopyInto_v1alpha1_def)

lemma topology_args_contracts:
  "deep_copy NodeResourceTopologyMatchArgs_DeepCopyInto
     (\<lambda>mem p. (nrtm_TypeMeta p, slice_value string_elems mem (nrtm_TopologyAwareResources p)))
     (\<lambda>p. slice_addrs (nrtm_TopologyAwareResources p))
     (\<lambda>mem p. slice_valid string_elems mem (nrtm_TopologyAwareResources p))"
  "deep_copy NodeResourceTopologyMatchArgs_DeepCopyInto_v1beta2
     (\<lambda>mem p. (nrtm2_TypeMeta p, slice_value string_elems mem (nrtm2_TopologyAwareResources p)))
     (\<lambda>p. slice_addrs (nrtm2_TopologyAwareResources p))
     (\<lambda>mem p. slice_valid string_elems mem (nrtm2_TopologyAwareResources p))"
  "deep_copy NodeResourceTopologyMatchArgs_DeepCopyInto_v1beta3
     (\<lambda>mem p. (nrtm3_TypeMeta p, slice_value string_elems mem (nrtm3_TopologyAwareResources p)))
     (\<lambda>p. slice_addrs (nrtm3_TopologyAwareResources p))
     (\<lambda>mem p. slice_valid string_elems mem (nrtm3_TopologyAwareResources p))"
  subgoal
    by (rule deep_copy_eqI [OF deep_copy_structI [OF strings_copy.deep_copy_axioms,
          where part = nrtm_TopologyAwareResources
            and set_part = "\<lambda>x p. p\<lparr>nrtm_TopologyAwareResources := x\<rparr>"
            and rest = nrtm_TypeMeta and whole = Pair]];
        simp add: struct_copy_def NodeResourceTopologyMatchArgs_DeepCopyInto_def)
  subgoal
    by (rule deep_copy_eqI [OF deep_copy_structI [OF strings_copy.deep_copy_axioms,
          where part = nrtm2_TopologyAwareResources
            and set_part = "\<lambda>x p. p\<lparr>nrtm2_TopologyAwareResources := x\<rparr>"
            and rest = nrtm2_TypeMeta and whole = Pair]];
        simp add: struct_copy_def NodeResourceTopologyMatchArgs_DeepCopyInto_v1beta2_def)
  subgoal
    by (rule deep_copy_eqI [OF deep_copy_structI [OF strings_copy.deep_copy_axioms,
          where part = nrtm3_TopologyAwareResources
            and set_part = "\<lambda>x p. p\<lparr>nrtm3_TopologyAwareResources := x\<rparr>"
            and rest = nrtm3_TypeMeta and whole = Pair]];
        simp add: struct_copy_def NodeResourceTopologyMatchArgs_DeepCopyInto_v1beta3_def)
  done

interpretation dynamic_args3: deep_copy_struct copy_string_pointer pointer_value pointer_addrs pointer_valid
  dynm3_PolicyConfigPath "\<lambda>x p. p\<lparr>dynm3_PolicyConfigPath := x\<rparr>" dynm3_TypeMeta Pair
  by unfold_locales simp_all

interpretation ara_args3: deep_copy_struct copy_string_pointer pointer_value pointer_addrs pointer_valid
  aram3_PolicyConfigPath "\<lambda>x p. p\<lparr>aram3_PolicyConfigPath := x\<rparr>" aram3_TypeMeta Pair
  by unfold_locales simp_all

lemma path_args_contracts:
  "deep_copy DynamicArgs_DeepCopyInto_v1beta3
     (\<lambda>mem p. (dynm3_TypeMeta p, pointer_value mem (dynm3_PolicyConfigPath p)))
     (\<lambda>p. pointer_addrs (dynm3_PolicyConfigPath p)) (\<lambda>mem p. pointer_valid mem (dynm3_PolicyConfigPath p))"
  "deep_copy ApplicationResourceAwareArgs_DeepCopyInto_v1beta3
     (\<lambda>mem p. (aram3_TypeMeta p, pointer_value mem (aram3_PolicyConfigPath p)))
     (\<lambda>p. pointer_addrs (aram3_PolicyConfigPath p)) (\<lambda>mem p. pointer_valid mem (aram3_PolicyConfigPath p))"
  by (rule deep_copy_eqI [OF dynamic_args3.struct_contract];
      simp add: struct_copy_def DynamicArgs_DeepCopyInto_v1beta3_def)
    (rule deep_copy_eqI [OF ara_args3.struct_contract];
      simp add: struct_copy_def ApplicationResourceAwareArgs_DeepCopyInto_v1beta3_def)

text \<open>With this every client lemma of \<open>deep_copy\<close> holds of every struct that refers to memory; the
  other arguments have no references and their copy is equal to them.\<close>

interpretation spec_copy: deep_copy "PolicySpec_DeepCopyInto (\<lambda>d old. d)"
  spec_value spec_addrs spec_valid
  by (rule PolicySpec_contract)

interpretation spec_copy1: deep_copy "PolicySpec_DeepCopyInto_v1alpha1 (\<lambda>d old. d)"
  spec_value_v1alpha1 spec_addrs_v1alpha1 spec_valid_v1alpha1
  by (rule PolicySpec_contract_v1alpha1)

interpretation policy_copy: deep_copy "DynamicSchedulerPolicy_DeepCopyInto (\<lambda>d old. d)"
  "\<lambda>mem p. (policym_TypeMeta p, spec_value mem (policym_Spec p))" "\<lambda>p. spec_addrs (policym_Spec p)"
  "\<lambda>mem p. spec_valid mem (policym_Spec p)"
  by (rule policy_contracts)

interpretation policy_copy1: deep_copy "DynamicSchedulerPolicy_DeepCopyInto_v1alpha1 (\<lambda>d old. d)"
  "\<lambda>mem p. (policym1_TypeMeta p, spec_value_v1alpha1 mem (policym1_Spec p))"
  "\<lambda>p. spec_addrs_v1alpha1 (policym1_Spec p)" "\<lambda>mem p. spec_valid_v1alpha1 mem (policym1_Spec p)"
  by (rule policy_contracts)

interpretation topology_copy: deep_copy NodeResourceTopologyMatchArgs_DeepCopyInto
  "\<lambda>mem p. (nrtm_TypeMeta p, slice_value string_elems mem (nrtm_TopologyAwareResources p))"
  "\<lambda>p. slice_addrs (nrtm_TopologyAwareResources p)"
  "\<lambda>mem p. slice_valid string_elems mem (nrtm_TopologyAwareResources p)"
  by (rule topology_args_contracts)

interpretation topology_copy2: deep_copy NodeResourceTopologyMatchArgs_DeepCopyInto_v1beta2
  "\<lambda>mem p. (nrtm2_TypeMeta p, slice_value string_elems mem (nrtm2_TopologyAwareResources p))"
  "\<lambda>p. slice_addrs (nrtm2_TopologyAwareResources p)"
  "\<lambda>mem p. slice_valid string_elems mem (nrtm2_TopologyAwareResources p)"
  by (rule topology_args_contracts)

interpretation topology_copy3: deep_copy NodeResourceTopologyMatchArgs_DeepCopyInto_v1beta3
  "\<lambda>mem p. (nrtm3_TypeMeta p, slice_value string_elems mem (nrtm3_TopologyAwareResources p))"
  "\<lambda>p. slice_addrs (nrtm3_TopologyAwareResources p)"
  "\<lambda>mem p. slice_valid string_elems mem (nrtm3_TopologyAwareResources p)"
  by (rule topology_args_contracts)

interpretation dynamic_copy3: deep_copy DynamicArgs_DeepCopyInto_v1beta3
  "\<lambda>mem p. (dynm3_TypeMeta p, pointer_value mem (dynm3_PolicyConfigPath p))"
  "\<lambda>p. pointer_addrs (dynm3_PolicyConfigPath p)" "\<lambda>mem p. pointer_valid mem (dynm3_PolicyConfigPath p)"
  by (rule path_args_contracts)

interpretation ara_copy3: deep_copy ApplicationResourceAwareArgs_DeepCopyInto_v1beta3
  "\<lambda>mem p. (aram3_TypeMeta p, pointer_value mem (aram3_PolicyConfigPath p))"
  "\<lambda>p. pointer_addrs (aram3_PolicyConfigPath p)" "\<lambda>mem p. pointer_valid mem (aram3_PolicyConfigPath p)"
  by (rule path_args_contracts)

lemma value_args_copies [simp]:
  "DynamicArgs_DeepCopyInto a = a" "DynamicArgs_DeepCopyInto_v1beta2 b = b"
  "ApplicationResourceAwareArgs_DeepCopyInto c = c" "ApplicationResourceAwareArgs_DeepCopyInto_v1beta2 d = d"
  by (simp_all add: DynamicArgs_DeepCopyInto_def DynamicArgs_DeepCopyInto_v1beta2_def
      ApplicationResourceAwareArgs_DeepCopyInto_def ApplicationResourceAwareArgs_DeepCopyInto_v1beta2_def)

section \<open>Sharing by the conversions\<close>

lemma slice_value_v1alpha1:
  "slice_value sync_elems_v1alpha1 mem s = map_option (map sync_to_v1alpha1) (slice_value sync_elems mem s)"
  "slice_value predicate_elems_v1alpha1 mem s =
     map_option (map predicate_to_v1alpha1) (slice_value predicate_elems mem s)"
  "slice_value priority_elems_v1alpha1 mem s =
     map_option (map priority_to_v1alpha1) (slice_value priority_elems mem s)"
  "slice_value hot_elems_v1alpha1 mem s = map_option (map hot_to_v1alpha1) (slice_value hot_elems mem s)"
  by (cases s; simp add: sync_elems_v1alpha1_def predicate_elems_v1alpha1_def priority_elems_v1alpha1_def
      hot_elems_v1alpha1_def take_map drop_map)+

lemma slice_elems_v1alpha1:
  "slice_elems sync_elems_v1alpha1 mem s = map sync_to_v1alpha1 (slice_elems sync_elems mem s)"
  "slice_elems predicate_elems_v1alpha1 mem s = map predicate_to_v1alpha1 (slice_elems predicate_elems mem s)"
  "slice_elems priority_elems_v1alpha1 mem s = map priority_to_v1alpha1 (slice_elems priority_elems mem s)"
  "slice_elems hot_elems_v1alpha1 mem s = map hot_to_v1alpha1 (slice_elems hot_elems mem s)"
  by (simp_all add: slice_elems_def slice_value_v1alpha1 split: option.split)

lemma slice_valid_v1alpha1 [simp]:
  "slice_valid sync_elems_v1alpha1 mem s = slice_valid sync_elems mem s"
  "slice_valid predicate_elems_v1alpha1 mem s = slice_valid predicate_elems mem s"
  "slice_valid priority_elems_v1alpha1 mem s = slice_valid priority_elems mem s"
  "slice_valid hot_elems_v1alpha1 mem s = slice_valid hot_elems mem s"
  by (cases s; simp add: sync_elems_v1alpha1_def predicate_elems_v1alpha1_def priority_elems_v1alpha1_def
      hot_elems_v1alpha1_def)+

lemma converted_valid:
  "spec_valid mem (spec_mem_of_v1alpha1 s out) = spec_valid_v1alpha1 mem s"
  "spec_valid_v1alpha1 mem (spec_mem_to_v1alpha1 t out') = spec_valid mem t"
  by (simp_all add: spec_valid_def spec_valid_v1alpha1_def spec_mem_of_v1alpha1_def spec_mem_to_v1alpha1_def)

text \<open>The conversion of values is what the conversion in memory computes, in every memory: the
  converted struct follows the writes through the original.\<close>

lemma conversion_in_memory:
  "spec_of_mem mem (spec_mem_of_v1alpha1 s out) =
     Convert_v1alpha1_PolicySpec_To_policy_PolicySpec (spec_of_mem_v1alpha1 mem s) u"
  "spec_of_mem_v1alpha1 mem (spec_mem_to_v1alpha1 t out') =
     Convert_policy_PolicySpec_To_v1alpha1_PolicySpec (spec_of_mem mem t) u'"
  by (simp_all add: spec_of_mem_def spec_of_mem_v1alpha1_def spec_mem_of_v1alpha1_def
      spec_mem_to_v1alpha1_def Convert_v1alpha1_PolicySpec_To_policy_PolicySpec_def
      Convert_policy_PolicySpec_To_v1alpha1_PolicySpec_def slice_elems_v1alpha1 comp_def)

lemma spec_of_value:
  "spec_value mem s = spec_value mem' s' \<Longrightarrow> spec_of_mem mem s = spec_of_mem mem' s'"
  by (simp add: spec_value_def spec_of_mem_def slice_elems_def)

section \<open>Sharing by the defaults\<close>

text \<open>\<open>SetDefaults_NodeResourceTopologyMatchArgs\<close> in memory, where \<open>defaultNodeResource\<close> is one slice of the process. It
  computes the default of values; all arguments that are defaulted hold the array of the process, whatever is written to
  it later, and a deep copy does not.\<close>

fun slice_len :: "slice \<Rightarrow> nat" where
  "slice_len NilSlice = 0"
| "slice_len (Slice a off n) = n"

lemma slice_elems_Nil_iff: "slice_valid elems mem s \<Longrightarrow> slice_elems elems mem s = [] \<longleftrightarrow> slice_len s = 0"
  by (cases s) (auto simp: slice_elems_def)

definition topology_args_of_mem_v1beta2 ::
  "memory \<Rightarrow> NodeResourceTopologyMatchArgsMemV1beta2 \<Rightarrow> NodeResourceTopologyMatchArgsV1beta2" where
  "topology_args_of_mem_v1beta2 mem obj =
     \<lparr>nrt2_TypeMeta = nrtm2_TypeMeta obj,
      nrt2_TopologyAwareResources = slice_elems string_elems mem (nrtm2_TopologyAwareResources obj)\<rparr>"

definition topology_args_of_mem_v1beta3 ::
  "memory \<Rightarrow> NodeResourceTopologyMatchArgsMemV1beta3 \<Rightarrow> NodeResourceTopologyMatchArgsV1beta3" where
  "topology_args_of_mem_v1beta3 mem obj =
     \<lparr>nrt3_TypeMeta = nrtm3_TypeMeta obj,
      nrt3_TopologyAwareResources = slice_elems string_elems mem (nrtm3_TopologyAwareResources obj)\<rparr>"

definition SetDefaults_NodeResourceTopologyMatchArgs_mem_v1beta2 ::
  "slice \<Rightarrow> NodeResourceTopologyMatchArgsMemV1beta2 \<Rightarrow> NodeResourceTopologyMatchArgsMemV1beta2" where
  "SetDefaults_NodeResourceTopologyMatchArgs_mem_v1beta2 defaults obj =
     (if slice_len (nrtm2_TopologyAwareResources obj) = 0
      then obj\<lparr>nrtm2_TopologyAwareResources := defaults\<rparr> else obj)"

definition SetDefaults_NodeResourceTopologyMatchArgs_mem_v1beta3 ::
  "slice \<Rightarrow> NodeResourceTopologyMatchArgsMemV1beta3 \<Rightarrow> NodeResourceTopologyMatchArgsMemV1beta3" where
  "SetDefaults_NodeResourceTopologyMatchArgs_mem_v1beta3 defaults obj =
     (if slice_len (nrtm3_TopologyAwareResources obj) = 0
      then obj\<lparr>nrtm3_TopologyAwareResources := defaults\<rparr> else obj)"

lemma defaults_in_memory:
  assumes "slice_elems string_elems mem defaults = defaultNodeResource"
  shows "slice_valid string_elems mem (nrtm2_TopologyAwareResources obj) \<Longrightarrow>
    topology_args_of_mem_v1beta2 mem (SetDefaults_NodeResourceTopologyMatchArgs_mem_v1beta2 defaults obj) =
      SetDefaults_NodeResourceTopologyMatchArgs_v1beta2 (topology_args_of_mem_v1beta2 mem obj)"
    and "slice_valid string_elems mem (nrtm3_TopologyAwareResources obj3) \<Longrightarrow>
    topology_args_of_mem_v1beta3 mem (SetDefaults_NodeResourceTopologyMatchArgs_mem_v1beta3 defaults obj3) =
      SetDefaults_NodeResourceTopologyMatchArgs_v1beta3 (topology_args_of_mem_v1beta3 mem obj3)"
  using assms slice_elems_Nil_iff [of string_elems mem]
  by (simp_all add: topology_args_of_mem_v1beta2_def topology_args_of_mem_v1beta3_def
      SetDefaults_NodeResourceTopologyMatchArgs_mem_v1beta2_def SetDefaults_NodeResourceTopologyMatchArgs_v1beta2_def
      SetDefaults_NodeResourceTopologyMatchArgs_mem_v1beta3_def SetDefaults_NodeResourceTopologyMatchArgs_v1beta3_def)

lemma defaulted_args_share:
  assumes "slice_len (nrtm2_TopologyAwareResources obj) = 0" "slice_valid string_elems mem defaults"
    and "args = SetDefaults_NodeResourceTopologyMatchArgs_mem_v1beta2 defaults obj"
    and "NodeResourceTopologyMatchArgs_DeepCopyInto_v1beta2 mem args = (mem', c)"
    and "fst ` set ws \<subseteq> {..< length mem}"
  shows "nrt2_TopologyAwareResources (topology_args_of_mem_v1beta2 (perform_writes mem' ws) args) =
      slice_elems string_elems (perform_writes mem' ws) defaults"
    and "nrt2_TopologyAwareResources (topology_args_of_mem_v1beta2 (perform_writes mem' ws) c) =
      slice_elems string_elems mem defaults"
proof -
  have args: "nrtm2_TopologyAwareResources args = defaults"
    using assms(1,3) by (simp add: SetDefaults_NodeResourceTopologyMatchArgs_mem_v1beta2_def)
  then show "nrt2_TopologyAwareResources (topology_args_of_mem_v1beta2 (perform_writes mem' ws) args) =
      slice_elems string_elems (perform_writes mem' ws) defaults" by (simp add: topology_args_of_mem_v1beta2_def)
  have "slice_value string_elems (perform_writes mem' ws) (nrtm2_TopologyAwareResources c) = slice_value string_elems mem defaults"
    using topology_copy2.copy_isolated [OF _ assms(4,5)] args assms(2) by simp
  then show "nrt2_TopologyAwareResources (topology_args_of_mem_v1beta2 (perform_writes mem' ws) c) =
      slice_elems string_elems mem defaults" by (simp add: topology_args_of_mem_v1beta2_def slice_elems_def)
qed

section \<open>Properties\<close>

text \<open>C27. A deep copy of a policy that lies in memory has the type meta and the values of the policy,
  nil slices staying nil and empty ones empty, and leaves the policy as it was. Its five slices lie
  in five different arrays that did not exist before, so no sequence of writes to memory that existed
  before changes the copy, and no sequence of writes through the copy changes the policy. A nil
  policy is copied to nil and its object is the nil interface.\<close>

theorem deep_copy_independent:
  assumes "copies_duration cd"
    and "spec_valid mem (policym_Spec p)"
    and "DynamicSchedulerPolicy_DeepCopy cd mem (Some p) = (mem', q)"
  shows "\<exists>c. q = Some c \<and> DynamicSchedulerPolicy_DeepCopyObject cd mem (Some p) = (mem', PolicyPtr (Some c)) \<and>
    policym_TypeMeta c = policym_TypeMeta p \<and>
    spec_value mem' (policym_Spec c) = spec_value mem (policym_Spec p) \<and>
    spec_value mem' (policym_Spec p) = spec_value mem (policym_Spec p) \<and>
    distinct (spec_addrs (policym_Spec c)) \<and>
    set (spec_addrs (policym_Spec c)) \<subseteq> {length mem ..< length mem'} \<and>
    (\<forall>ws. fst ` set ws \<subseteq> {..< length mem} \<longrightarrow>
       spec_value (perform_writes mem' ws) (policym_Spec c) = spec_value mem (policym_Spec p)) \<and>
    (\<forall>ws. fst ` set ws \<subseteq> set (spec_addrs (policym_Spec c)) \<longrightarrow>
       spec_value (perform_writes mem' ws) (policym_Spec p) = spec_value mem (policym_Spec p)) \<and>
    DynamicSchedulerPolicy_DeepCopyObject cd mem None = (mem, NilInterface)"
proof -
  have cd: "cd = (\<lambda>d old. d)" using assms(1) by (simp add: copies_duration_iff)
  obtain c where into: "DynamicSchedulerPolicy_DeepCopyInto (\<lambda>d old. d) mem p = (mem', c)"
      and q: "q = Some c"
    using assms(3) by (auto simp: cd DynamicSchedulerPolicy_DeepCopy_def split: prod.splits)
  note facts = policy_copy.copies [OF assms(2) into] policy_copy.original_kept(1) [OF assms(2) into]
    policy_copy.copy_isolated [OF assms(2) into] policy_copy.original_isolated [OF assms(2) into]
  have "DynamicSchedulerPolicy_DeepCopyObject cd mem (Some p) = (mem', PolicyPtr (Some c))"
    "DynamicSchedulerPolicy_DeepCopyObject cd mem None = (mem, NilInterface)"
    using assms(3) q
    by (simp_all add: DynamicSchedulerPolicy_DeepCopyObject_def DynamicSchedulerPolicy_DeepCopy_def)
  then show ?thesis using facts q by auto
qed

definition example_memory :: memory where
  "example_memory =
     [SyncArray [\<lparr>sync_Name = ''cpu_usage_avg_5m'', sync_Period = 180\<rparr>, \<lparr>sync_Name = ''mem'', sync_Period = 60\<rparr>],
      HotArray [\<lparr>hot_TimeRange = 300, hot_Count = 5\<rparr>], PriorityArray []]"

text \<open>Both sync periods share one array, the predicates are nil and the priorities empty.\<close>

definition example_policy_mem :: DynamicSchedulerPolicyMem where
  "example_policy_mem =
     \<lparr>policym_TypeMeta = \<lparr>meta_Kind = ''DynamicSchedulerPolicy'', meta_APIVersion = ''''\<rparr>,
      policym_Spec = \<lparr>specm_SyncPeriod = Slice 0 0 2, specm_SyncAppPeriod = Slice 0 1 1,
        specm_Predicate = NilSlice, specm_Priority = Slice 2 0 0, specm_HotValue = Slice 1 0 1\<rparr>\<rparr>"

theorem deep_copy_independent_witness:
  "\<exists>mem' c. DynamicSchedulerPolicy_DeepCopy (\<lambda>d old. d) example_memory (Some example_policy_mem) = (mem', Some c) \<and>
    distinct (spec_addrs (policym_Spec c)) \<and>
    spec_value (perform_writes mem' [(0, SyncArray []), (1, HotArray [])]) (policym_Spec c) =
      spec_value example_memory (policym_Spec example_policy_mem)"
proof -
  obtain mem' q where copy:
    "DynamicSchedulerPolicy_DeepCopy (\<lambda>d old. d) example_memory (Some example_policy_mem) = (mem', q)"
    by fastforce
  have hyps: "copies_duration (\<lambda>d old. d)" "spec_valid example_memory (policym_Spec example_policy_mem)"
    by (simp_all add: copies_duration_def spec_valid_def example_memory_def example_policy_mem_def)
  obtain c where c: "q = Some c" "distinct (spec_addrs (policym_Spec c))"
    "\<And>ws. fst ` set ws \<subseteq> {..< length example_memory} \<Longrightarrow>
       spec_value (perform_writes mem' ws) (policym_Spec c) =
       spec_value example_memory (policym_Spec example_policy_mem)"
    using deep_copy_independent [OF hyps copy] by blast
  have "fst ` set [(0::nat, SyncArray []), (1, HotArray [])] \<subseteq> {..< length example_memory}"
    by (simp add: example_memory_def)
  from c(3) [OF this] c(1,2) copy show ?thesis by blast
qed

text \<open>C31. Converting a policy of \<open>v1alpha1\<close> to the internal type computes the conversion of its values
  and shares its arrays: after any writes the converted policy is the conversion of what the original
  then is. A deep copy of the converted policy keeps the values it had when it was made, whatever is
  written to the memory that existed then.\<close>

theorem converted_policy_shares:
  assumes "copies_duration cd"
    and "spec_valid_v1alpha1 mem s"
    and "PolicySpec_DeepCopyInto cd mem (spec_mem_of_v1alpha1 s out) = (mem', c)"
    and "fst ` set ws \<subseteq> {..< length mem}"
  shows "spec_of_mem (perform_writes mem' ws) (spec_mem_of_v1alpha1 s out) =
      Convert_v1alpha1_PolicySpec_To_policy_PolicySpec
        (spec_of_mem_v1alpha1 (perform_writes mem' ws) s) (spec_of_mem mem out) \<and>
    spec_of_mem (perform_writes mem' ws) c =
      Convert_v1alpha1_PolicySpec_To_policy_PolicySpec (spec_of_mem_v1alpha1 mem s) (spec_of_mem mem out)"
proof -
  have cd: "cd = (\<lambda>d old. d)" using assms(1) by (simp add: copies_duration_iff)
  have valid: "spec_valid mem (spec_mem_of_v1alpha1 s out)" using assms(2) by (simp add: converted_valid)
  have "spec_of_mem (perform_writes mem' ws) c = spec_of_mem mem (spec_mem_of_v1alpha1 s out)"
    using spec_copy.copy_isolated [OF valid assms(3) [unfolded cd] assms(4)] by (rule spec_of_value)
  then show ?thesis by (simp add: conversion_in_memory)
qed

definition example_spec_mem1 :: PolicySpecMemV1alpha1 where
  "example_spec_mem1 =
     \<lparr>specm1_SyncPeriod = Slice 0 0 2, specm1_SyncAppPeriod = Slice 0 1 1, specm1_Predicate = NilSlice,
      specm1_Priority = NilSlice, specm1_HotValue = Slice 1 0 1\<rparr>"

theorem converted_policy_shares_witness:
  "let shared = spec_mem_of_v1alpha1 example_spec_mem1 (policym_Spec example_policy_mem);
       (mem', c) = PolicySpec_DeepCopyInto (\<lambda>d old. d) example_memory shared;
       written = perform_writes mem' [(1, HotArray [\<lparr>hot_TimeRange = 300, hot_Count = 0\<rparr>])]
   in map hot_Count (spec_HotValue (spec_of_mem written shared)) = [0] \<and>
      map hot_Count (spec_HotValue (spec_of_mem written c)) = [5]"
proof -
  let ?out = "policym_Spec example_policy_mem" and ?ws = "[(1::nat, HotArray [\<lparr>hot_TimeRange = 300, hot_Count = 0\<rparr>])]"
  obtain mem' c where copy:
    "PolicySpec_DeepCopyInto (\<lambda>d old. d) example_memory (spec_mem_of_v1alpha1 example_spec_mem1 ?out) = (mem', c)"
    by fastforce
  have hyps: "copies_duration (\<lambda>d old. d)" "spec_valid_v1alpha1 example_memory example_spec_mem1"
    "fst ` set ?ws \<subseteq> {..< length example_memory}"
    by (simp_all add: copies_duration_def spec_valid_v1alpha1_def example_memory_def example_spec_mem1_def
        sync_elems_v1alpha1_def hot_elems_v1alpha1_def)
  have "perform_writes mem' ?ws ! 1 = HotArray [\<lparr>hot_TimeRange = 300, hot_Count = 0\<rparr>]"
    using spec_copy.copies [OF _ copy] hyps(2) by (auto simp: converted_valid example_memory_def)
  then show ?thesis
    using converted_policy_shares [OF hyps(1,2) copy hyps(3)] copy
    by (simp add: spec_of_mem_v1alpha1_def example_spec_mem1_def example_memory_def slice_elems_def
        Convert_v1alpha1_PolicySpec_To_policy_PolicySpec_def hot_elems_v1alpha1_def hot_of_v1alpha1_def
        hot_to_v1alpha1_def)
qed

end
