(* ===== verification/Api_Scheme.thy ===== *)
theory Api_Scheme
  imports Plugin_Args
begin

text \<open>
  What the packages under \<open>pkg/plugins/apis\<close> register with the schemes of apimachinery: their types,
  the generated conversions (\<open>RegisterConversions\<close>) and defaulting functions (\<open>RegisterDefaults\<close>),
  collected by the \<open>init\<close> functions and run by the two \<open>AddToScheme\<close> of the scheme packages.

  A registered function takes interface values and asserts their dynamic types; a failing assertion
  panics. The object datatype has a constructor for each registered type, with the content of
  the object a pointer refers to; a registered conversion returns the new content of its second
  object. The scheme, its builder and \<open>utilruntime.Must\<close> belong to apimachinery: they are the
  record \<open>scheme_api\<close>, over a type of schemes \<open>'s\<close>, and what the code relies on is
  \<open>scheme_laws\<close>.
\<close>

section \<open>Objects and their types\<close>

datatype api_package = PolicyPkg | V1alpha1Pkg | ConfigPkg | V1beta2Pkg | V1beta3Pkg

text \<open>A pointer type, given by the package and the name of the struct.\<close>

type_synonym api_type = "api_package \<times> string"

datatype api_object =
    DynamicSchedulerPolicyObj DynamicSchedulerPolicy
  | HotValuePolicyObj HotValuePolicy
  | PolicySpecObj PolicySpec
  | PredicatePolicyObj PredicatePolicy
  | PriorityPolicyObj PriorityPolicy
  | SyncPolicyObj SyncPolicy
  | DynamicSchedulerPolicyV1alpha1Obj DynamicSchedulerPolicyV1alpha1
  | HotValuePolicyV1alpha1Obj HotValuePolicyV1alpha1
  | PolicySpecV1alpha1Obj PolicySpecV1alpha1
  | PredicatePolicyV1alpha1Obj PredicatePolicyV1alpha1
  | PriorityPolicyV1alpha1Obj PriorityPolicyV1alpha1
  | SyncPolicyV1alpha1Obj SyncPolicyV1alpha1
  | DynamicArgsObj DynamicArgs
  | NodeResourceTopologyMatchArgsObj NodeResourceTopologyMatchArgs
  | ApplicationResourceAwareArgsObj ApplicationResourceAwareArgs
  | DynamicArgsV1beta2Obj DynamicArgsV1beta2
  | NodeResourceTopologyMatchArgsV1beta2Obj NodeResourceTopologyMatchArgsV1beta2
  | ApplicationResourceAwareArgsV1beta2Obj ApplicationResourceAwareArgsV1beta2
  | DynamicArgsV1beta3Obj DynamicArgsV1beta3
  | NodeResourceTopologyMatchArgsV1beta3Obj NodeResourceTopologyMatchArgsV1beta3
  | ApplicationResourceAwareArgsV1beta3Obj ApplicationResourceAwareArgsV1beta3

fun go_type :: "api_object \<Rightarrow> api_type" where
  "go_type (DynamicSchedulerPolicyObj x) = (PolicyPkg, ''DynamicSchedulerPolicy'')"
| "go_type (HotValuePolicyObj x) = (PolicyPkg, ''HotValuePolicy'')"
| "go_type (PolicySpecObj x) = (PolicyPkg, ''PolicySpec'')"
| "go_type (PredicatePolicyObj x) = (PolicyPkg, ''PredicatePolicy'')"
| "go_type (PriorityPolicyObj x) = (PolicyPkg, ''PriorityPolicy'')"
| "go_type (SyncPolicyObj x) = (PolicyPkg, ''SyncPolicy'')"
| "go_type (DynamicSchedulerPolicyV1alpha1Obj x) = (V1alpha1Pkg, ''DynamicSchedulerPolicy'')"
| "go_type (HotValuePolicyV1alpha1Obj x) = (V1alpha1Pkg, ''HotValuePolicy'')"
| "go_type (PolicySpecV1alpha1Obj x) = (V1alpha1Pkg, ''PolicySpec'')"
| "go_type (PredicatePolicyV1alpha1Obj x) = (V1alpha1Pkg, ''PredicatePolicy'')"
| "go_type (PriorityPolicyV1alpha1Obj x) = (V1alpha1Pkg, ''PriorityPolicy'')"
| "go_type (SyncPolicyV1alpha1Obj x) = (V1alpha1Pkg, ''SyncPolicy'')"
| "go_type (DynamicArgsObj x) = (ConfigPkg, ''DynamicArgs'')"
| "go_type (NodeResourceTopologyMatchArgsObj x) = (ConfigPkg, ''NodeResourceTopologyMatchArgs'')"
| "go_type (ApplicationResourceAwareArgsObj x) = (ConfigPkg, ''ApplicationResourceAwareArgs'')"
| "go_type (DynamicArgsV1beta2Obj x) = (V1beta2Pkg, ''DynamicArgs'')"
| "go_type (NodeResourceTopologyMatchArgsV1beta2Obj x) = (V1beta2Pkg, ''NodeResourceTopologyMatchArgs'')"
| "go_type (ApplicationResourceAwareArgsV1beta2Obj x) = (V1beta2Pkg, ''ApplicationResourceAwareArgs'')"
| "go_type (DynamicArgsV1beta3Obj x) = (V1beta3Pkg, ''DynamicArgs'')"
| "go_type (NodeResourceTopologyMatchArgsV1beta3Obj x) = (V1beta3Pkg, ''NodeResourceTopologyMatchArgs'')"
| "go_type (ApplicationResourceAwareArgsV1beta3Obj x) = (V1beta3Pkg, ''ApplicationResourceAwareArgs'')"

text \<open>Type assertions \<open>obj.(*T)\<close>.\<close>

definition as_DynamicSchedulerPolicy :: "api_object \<Rightarrow> DynamicSchedulerPolicy outcome" where
  "as_DynamicSchedulerPolicy obj = (case obj of DynamicSchedulerPolicyObj x \<Rightarrow> Ok x | _ \<Rightarrow> Panic InterfaceConversion)"

definition as_HotValuePolicy :: "api_object \<Rightarrow> HotValuePolicy outcome" where
  "as_HotValuePolicy obj = (case obj of HotValuePolicyObj x \<Rightarrow> Ok x | _ \<Rightarrow> Panic InterfaceConversion)"

definition as_PolicySpec :: "api_object \<Rightarrow> PolicySpec outcome" where
  "as_PolicySpec obj = (case obj of PolicySpecObj x \<Rightarrow> Ok x | _ \<Rightarrow> Panic InterfaceConversion)"

definition as_PredicatePolicy :: "api_object \<Rightarrow> PredicatePolicy outcome" where
  "as_PredicatePolicy obj = (case obj of PredicatePolicyObj x \<Rightarrow> Ok x | _ \<Rightarrow> Panic InterfaceConversion)"

definition as_PriorityPolicy :: "api_object \<Rightarrow> PriorityPolicy outcome" where
  "as_PriorityPolicy obj = (case obj of PriorityPolicyObj x \<Rightarrow> Ok x | _ \<Rightarrow> Panic InterfaceConversion)"

definition as_SyncPolicy :: "api_object \<Rightarrow> SyncPolicy outcome" where
  "as_SyncPolicy obj = (case obj of SyncPolicyObj x \<Rightarrow> Ok x | _ \<Rightarrow> Panic InterfaceConversion)"

definition as_DynamicSchedulerPolicyV1alpha1 :: "api_object \<Rightarrow> DynamicSchedulerPolicyV1alpha1 outcome" where
  "as_DynamicSchedulerPolicyV1alpha1 obj = (case obj of DynamicSchedulerPolicyV1alpha1Obj x \<Rightarrow> Ok x | _ \<Rightarrow> Panic InterfaceConversion)"

definition as_HotValuePolicyV1alpha1 :: "api_object \<Rightarrow> HotValuePolicyV1alpha1 outcome" where
  "as_HotValuePolicyV1alpha1 obj = (case obj of HotValuePolicyV1alpha1Obj x \<Rightarrow> Ok x | _ \<Rightarrow> Panic InterfaceConversion)"

definition as_PolicySpecV1alpha1 :: "api_object \<Rightarrow> PolicySpecV1alpha1 outcome" where
  "as_PolicySpecV1alpha1 obj = (case obj of PolicySpecV1alpha1Obj x \<Rightarrow> Ok x | _ \<Rightarrow> Panic InterfaceConversion)"

definition as_PredicatePolicyV1alpha1 :: "api_object \<Rightarrow> PredicatePolicyV1alpha1 outcome" where
  "as_PredicatePolicyV1alpha1 obj = (case obj of PredicatePolicyV1alpha1Obj x \<Rightarrow> Ok x | _ \<Rightarrow> Panic InterfaceConversion)"

definition as_PriorityPolicyV1alpha1 :: "api_object \<Rightarrow> PriorityPolicyV1alpha1 outcome" where
  "as_PriorityPolicyV1alpha1 obj = (case obj of PriorityPolicyV1alpha1Obj x \<Rightarrow> Ok x | _ \<Rightarrow> Panic InterfaceConversion)"

definition as_SyncPolicyV1alpha1 :: "api_object \<Rightarrow> SyncPolicyV1alpha1 outcome" where
  "as_SyncPolicyV1alpha1 obj = (case obj of SyncPolicyV1alpha1Obj x \<Rightarrow> Ok x | _ \<Rightarrow> Panic InterfaceConversion)"

definition as_DynamicArgs :: "api_object \<Rightarrow> DynamicArgs outcome" where
  "as_DynamicArgs obj = (case obj of DynamicArgsObj x \<Rightarrow> Ok x | _ \<Rightarrow> Panic InterfaceConversion)"

definition as_NodeResourceTopologyMatchArgs :: "api_object \<Rightarrow> NodeResourceTopologyMatchArgs outcome" where
  "as_NodeResourceTopologyMatchArgs obj = (case obj of NodeResourceTopologyMatchArgsObj x \<Rightarrow> Ok x | _ \<Rightarrow> Panic InterfaceConversion)"

definition as_ApplicationResourceAwareArgs :: "api_object \<Rightarrow> ApplicationResourceAwareArgs outcome" where
  "as_ApplicationResourceAwareArgs obj = (case obj of ApplicationResourceAwareArgsObj x \<Rightarrow> Ok x | _ \<Rightarrow> Panic InterfaceConversion)"

definition as_DynamicArgsV1beta2 :: "api_object \<Rightarrow> DynamicArgsV1beta2 outcome" where
  "as_DynamicArgsV1beta2 obj = (case obj of DynamicArgsV1beta2Obj x \<Rightarrow> Ok x | _ \<Rightarrow> Panic InterfaceConversion)"

definition as_NodeResourceTopologyMatchArgsV1beta2 :: "api_object \<Rightarrow> NodeResourceTopologyMatchArgsV1beta2 outcome" where
  "as_NodeResourceTopologyMatchArgsV1beta2 obj = (case obj of NodeResourceTopologyMatchArgsV1beta2Obj x \<Rightarrow> Ok x | _ \<Rightarrow> Panic InterfaceConversion)"

definition as_ApplicationResourceAwareArgsV1beta2 :: "api_object \<Rightarrow> ApplicationResourceAwareArgsV1beta2 outcome" where
  "as_ApplicationResourceAwareArgsV1beta2 obj = (case obj of ApplicationResourceAwareArgsV1beta2Obj x \<Rightarrow> Ok x | _ \<Rightarrow> Panic InterfaceConversion)"

definition as_DynamicArgsV1beta3 :: "api_object \<Rightarrow> DynamicArgsV1beta3 outcome" where
  "as_DynamicArgsV1beta3 obj = (case obj of DynamicArgsV1beta3Obj x \<Rightarrow> Ok x | _ \<Rightarrow> Panic InterfaceConversion)"

definition as_NodeResourceTopologyMatchArgsV1beta3 :: "api_object \<Rightarrow> NodeResourceTopologyMatchArgsV1beta3 outcome" where
  "as_NodeResourceTopologyMatchArgsV1beta3 obj = (case obj of NodeResourceTopologyMatchArgsV1beta3Obj x \<Rightarrow> Ok x | _ \<Rightarrow> Panic InterfaceConversion)"

definition as_ApplicationResourceAwareArgsV1beta3 :: "api_object \<Rightarrow> ApplicationResourceAwareArgsV1beta3 outcome" where
  "as_ApplicationResourceAwareArgsV1beta3 obj = (case obj of ApplicationResourceAwareArgsV1beta3Obj x \<Rightarrow> Ok x | _ \<Rightarrow> Panic InterfaceConversion)"

section \<open>Registered functions\<close>

type_synonym conversion_func = "api_object \<Rightarrow> api_object \<Rightarrow> api_object fallible outcome"

type_synonym defaulting_func = "api_object \<Rightarrow> api_object outcome"

text \<open>The closure around a conversion: both assertions, then the conversion. The conversions that return
  a nil error are lifted by \<open>never_fails\<close>.\<close>

definition never_fails :: "('a \<Rightarrow> 'b \<Rightarrow> 'b) \<Rightarrow> 'a \<Rightarrow> 'b \<Rightarrow> 'b fallible" where
  "never_fails conv x y = Inr (conv x y)"

definition conversion_closure ::
  "(api_object \<Rightarrow> 'a outcome) \<Rightarrow> (api_object \<Rightarrow> 'b outcome) \<Rightarrow> ('b \<Rightarrow> api_object) \<Rightarrow>
   ('a \<Rightarrow> 'b \<Rightarrow> 'b fallible) \<Rightarrow> conversion_func" where
  "conversion_closure assert_a assert_b obj conv a b =
     obind (assert_a a) (\<lambda>x. obind (assert_b b) (\<lambda>y. Ok (map_sum id obj (conv x y))))"

definition defaulting_closure ::
  "(api_object \<Rightarrow> 'a outcome) \<Rightarrow> ('a \<Rightarrow> api_object) \<Rightarrow> ('a \<Rightarrow> 'a) \<Rightarrow> defaulting_func" where
  "defaulting_closure assert_obj obj set_defaults a = omap (\<lambda>x. obj (set_defaults x)) (assert_obj a)"

text \<open>The conversions each package registers, in order.\<close>

definition conversions_v1alpha1 :: "(api_type \<times> api_type \<times> conversion_func) list" where
  "conversions_v1alpha1 =
     [((V1alpha1Pkg, ''DynamicSchedulerPolicy''), (PolicyPkg, ''DynamicSchedulerPolicy''),
        conversion_closure as_DynamicSchedulerPolicyV1alpha1 as_DynamicSchedulerPolicy DynamicSchedulerPolicyObj
          (never_fails Convert_v1alpha1_DynamicSchedulerPolicy_To_policy_DynamicSchedulerPolicy)),
      ((PolicyPkg, ''DynamicSchedulerPolicy''), (V1alpha1Pkg, ''DynamicSchedulerPolicy''),
        conversion_closure as_DynamicSchedulerPolicy as_DynamicSchedulerPolicyV1alpha1 DynamicSchedulerPolicyV1alpha1Obj
          (never_fails Convert_policy_DynamicSchedulerPolicy_To_v1alpha1_DynamicSchedulerPolicy)),
      ((V1alpha1Pkg, ''HotValuePolicy''), (PolicyPkg, ''HotValuePolicy''),
        conversion_closure as_HotValuePolicyV1alpha1 as_HotValuePolicy HotValuePolicyObj
          (never_fails Convert_v1alpha1_HotValuePolicy_To_policy_HotValuePolicy)),
      ((PolicyPkg, ''HotValuePolicy''), (V1alpha1Pkg, ''HotValuePolicy''),
        conversion_closure as_HotValuePolicy as_HotValuePolicyV1alpha1 HotValuePolicyV1alpha1Obj
          (never_fails Convert_policy_HotValuePolicy_To_v1alpha1_HotValuePolicy)),
      ((V1alpha1Pkg, ''PolicySpec''), (PolicyPkg, ''PolicySpec''),
        conversion_closure as_PolicySpecV1alpha1 as_PolicySpec PolicySpecObj
          (never_fails Convert_v1alpha1_PolicySpec_To_policy_PolicySpec)),
      ((PolicyPkg, ''PolicySpec''), (V1alpha1Pkg, ''PolicySpec''),
        conversion_closure as_PolicySpec as_PolicySpecV1alpha1 PolicySpecV1alpha1Obj
          (never_fails Convert_policy_PolicySpec_To_v1alpha1_PolicySpec)),
      ((V1alpha1Pkg, ''PredicatePolicy''), (PolicyPkg, ''PredicatePolicy''),
        conversion_closure as_PredicatePolicyV1alpha1 as_PredicatePolicy PredicatePolicyObj
          (never_fails Convert_v1alpha1_PredicatePolicy_To_policy_PredicatePolicy)),
      ((PolicyPkg, ''PredicatePolicy''), (V1alpha1Pkg, ''PredicatePolicy''),
        conversion_closure as_PredicatePolicy as_PredicatePolicyV1alpha1 PredicatePolicyV1alpha1Obj
          (never_fails Convert_policy_PredicatePolicy_To_v1alpha1_PredicatePolicy)),
      ((V1alpha1Pkg, ''PriorityPolicy''), (PolicyPkg, ''PriorityPolicy''),
        conversion_closure as_PriorityPolicyV1alpha1 as_PriorityPolicy PriorityPolicyObj
          (never_fails Convert_v1alpha1_PriorityPolicy_To_policy_PriorityPolicy)),
      ((PolicyPkg, ''PriorityPolicy''), (V1alpha1Pkg, ''PriorityPolicy''),
        conversion_closure as_PriorityPolicy as_PriorityPolicyV1alpha1 PriorityPolicyV1alpha1Obj
          (never_fails Convert_policy_PriorityPolicy_To_v1alpha1_PriorityPolicy)),
      ((V1alpha1Pkg, ''SyncPolicy''), (PolicyPkg, ''SyncPolicy''),
        conversion_closure as_SyncPolicyV1alpha1 as_SyncPolicy SyncPolicyObj
          (never_fails Convert_v1alpha1_SyncPolicy_To_policy_SyncPolicy)),
      ((PolicyPkg, ''SyncPolicy''), (V1alpha1Pkg, ''SyncPolicy''),
        conversion_closure as_SyncPolicy as_SyncPolicyV1alpha1 SyncPolicyV1alpha1Obj
          (never_fails Convert_policy_SyncPolicy_To_v1alpha1_SyncPolicy))]"

definition conversions_v1beta2 :: "(api_type \<times> api_type \<times> conversion_func) list" where
  "conversions_v1beta2 =
     [((V1beta2Pkg, ''DynamicArgs''), (ConfigPkg, ''DynamicArgs''),
        conversion_closure as_DynamicArgsV1beta2 as_DynamicArgs DynamicArgsObj
          (never_fails Convert_v1beta2_DynamicArgs_To_config_DynamicArgs)),
      ((ConfigPkg, ''DynamicArgs''), (V1beta2Pkg, ''DynamicArgs''),
        conversion_closure as_DynamicArgs as_DynamicArgsV1beta2 DynamicArgsV1beta2Obj
          (never_fails Convert_config_DynamicArgs_To_v1beta2_DynamicArgs)),
      ((V1beta2Pkg, ''NodeResourceTopologyMatchArgs''), (ConfigPkg, ''NodeResourceTopologyMatchArgs''),
        conversion_closure as_NodeResourceTopologyMatchArgsV1beta2 as_NodeResourceTopologyMatchArgs NodeResourceTopologyMatchArgsObj
          (never_fails Convert_v1beta2_NodeResourceTopologyMatchArgs_To_config)),
      ((ConfigPkg, ''NodeResourceTopologyMatchArgs''), (V1beta2Pkg, ''NodeResourceTopologyMatchArgs''),
        conversion_closure as_NodeResourceTopologyMatchArgs as_NodeResourceTopologyMatchArgsV1beta2 NodeResourceTopologyMatchArgsV1beta2Obj
          (never_fails Convert_config_NodeResourceTopologyMatchArgs_To_v1beta2)),
      ((V1beta2Pkg, ''ApplicationResourceAwareArgs''), (ConfigPkg, ''ApplicationResourceAwareArgs''),
        conversion_closure as_ApplicationResourceAwareArgsV1beta2 as_ApplicationResourceAwareArgs ApplicationResourceAwareArgsObj
          (never_fails Convert_v1beta2_ApplicationResourceAwareArgs_To_config)),
      ((ConfigPkg, ''ApplicationResourceAwareArgs''), (V1beta2Pkg, ''ApplicationResourceAwareArgs''),
        conversion_closure as_ApplicationResourceAwareArgs as_ApplicationResourceAwareArgsV1beta2 ApplicationResourceAwareArgsV1beta2Obj
          (never_fails Convert_config_ApplicationResourceAwareArgs_To_v1beta2))]"

definition conversions_v1beta3 ::
  "(string option \<Rightarrow> string \<Rightarrow> string fallible) \<Rightarrow> (string \<Rightarrow> string option \<Rightarrow> string option fallible) \<Rightarrow>
   (api_type \<times> api_type \<times> conversion_func) list" where
  "conversions_v1beta3 from_ptr to_ptr =
     [((V1beta3Pkg, ''DynamicArgs''), (ConfigPkg, ''DynamicArgs''),
        conversion_closure as_DynamicArgsV1beta3 as_DynamicArgs DynamicArgsObj
          (Convert_v1beta3_DynamicArgs_To_config_DynamicArgs from_ptr)),
      ((ConfigPkg, ''DynamicArgs''), (V1beta3Pkg, ''DynamicArgs''),
        conversion_closure as_DynamicArgs as_DynamicArgsV1beta3 DynamicArgsV1beta3Obj
          (Convert_config_DynamicArgs_To_v1beta3_DynamicArgs to_ptr)),
      ((V1beta3Pkg, ''NodeResourceTopologyMatchArgs''), (ConfigPkg, ''NodeResourceTopologyMatchArgs''),
        conversion_closure as_NodeResourceTopologyMatchArgsV1beta3 as_NodeResourceTopologyMatchArgs NodeResourceTopologyMatchArgsObj
          (never_fails Convert_v1beta3_NodeResourceTopologyMatchArgs_To_config)),
      ((ConfigPkg, ''NodeResourceTopologyMatchArgs''), (V1beta3Pkg, ''NodeResourceTopologyMatchArgs''),
        conversion_closure as_NodeResourceTopologyMatchArgs as_NodeResourceTopologyMatchArgsV1beta3 NodeResourceTopologyMatchArgsV1beta3Obj
          (never_fails Convert_config_NodeResourceTopologyMatchArgs_To_v1beta3)),
      ((V1beta3Pkg, ''ApplicationResourceAwareArgs''), (ConfigPkg, ''ApplicationResourceAwareArgs''),
        conversion_closure as_ApplicationResourceAwareArgsV1beta3 as_ApplicationResourceAwareArgs ApplicationResourceAwareArgsObj
          (Convert_v1beta3_ApplicationResourceAwareArgs_To_config from_ptr)),
      ((ConfigPkg, ''ApplicationResourceAwareArgs''), (V1beta3Pkg, ''ApplicationResourceAwareArgs''),
        conversion_closure as_ApplicationResourceAwareArgs as_ApplicationResourceAwareArgsV1beta3 ApplicationResourceAwareArgsV1beta3Obj
          (Convert_config_ApplicationResourceAwareArgs_To_v1beta3 to_ptr))]"

definition SetObjectDefaults_DynamicArgs_v1beta2 :: "DynamicArgsV1beta2 \<Rightarrow> DynamicArgsV1beta2" where
  "SetObjectDefaults_DynamicArgs_v1beta2 i = SetDefaults_DynamicArgs_v1beta2 i"

definition SetObjectDefaults_NodeResourceTopologyMatchArgs_v1beta2 :: "NodeResourceTopologyMatchArgsV1beta2 \<Rightarrow> NodeResourceTopologyMatchArgsV1beta2" where
  "SetObjectDefaults_NodeResourceTopologyMatchArgs_v1beta2 i = SetDefaults_NodeResourceTopologyMatchArgs_v1beta2 i"

definition SetObjectDefaults_ApplicationResourceAwareArgs_v1beta2 :: "ApplicationResourceAwareArgsV1beta2 \<Rightarrow> ApplicationResourceAwareArgsV1beta2" where
  "SetObjectDefaults_ApplicationResourceAwareArgs_v1beta2 i = SetDefaults_ApplicationResourceAwareArgs_v1beta2 i"

definition defaults_v1beta2 :: "(api_type \<times> defaulting_func) list" where
  "defaults_v1beta2 =
     [((V1beta2Pkg, ''DynamicArgs''),
        defaulting_closure as_DynamicArgsV1beta2 DynamicArgsV1beta2Obj SetObjectDefaults_DynamicArgs_v1beta2),
      ((V1beta2Pkg, ''NodeResourceTopologyMatchArgs''),
        defaulting_closure as_NodeResourceTopologyMatchArgsV1beta2 NodeResourceTopologyMatchArgsV1beta2Obj SetObjectDefaults_NodeResourceTopologyMatchArgs_v1beta2),
      ((V1beta2Pkg, ''ApplicationResourceAwareArgs''),
        defaulting_closure as_ApplicationResourceAwareArgsV1beta2 ApplicationResourceAwareArgsV1beta2Obj SetObjectDefaults_ApplicationResourceAwareArgs_v1beta2)]"

definition SetObjectDefaults_DynamicArgs_v1beta3 :: "DynamicArgsV1beta3 \<Rightarrow> DynamicArgsV1beta3" where
  "SetObjectDefaults_DynamicArgs_v1beta3 i = SetDefaults_DynamicArgs_v1beta3 i"

definition SetObjectDefaults_NodeResourceTopologyMatchArgs_v1beta3 :: "NodeResourceTopologyMatchArgsV1beta3 \<Rightarrow> NodeResourceTopologyMatchArgsV1beta3" where
  "SetObjectDefaults_NodeResourceTopologyMatchArgs_v1beta3 i = SetDefaults_NodeResourceTopologyMatchArgs_v1beta3 i"

definition SetObjectDefaults_ApplicationResourceAwareArgs_v1beta3 :: "ApplicationResourceAwareArgsV1beta3 \<Rightarrow> ApplicationResourceAwareArgsV1beta3" where
  "SetObjectDefaults_ApplicationResourceAwareArgs_v1beta3 i = SetDefaults_ApplicationResourceAwareArgs_v1beta3 i"

definition defaults_v1beta3 :: "(api_type \<times> defaulting_func) list" where
  "defaults_v1beta3 =
     [((V1beta3Pkg, ''DynamicArgs''),
        defaulting_closure as_DynamicArgsV1beta3 DynamicArgsV1beta3Obj SetObjectDefaults_DynamicArgs_v1beta3),
      ((V1beta3Pkg, ''NodeResourceTopologyMatchArgs''),
        defaulting_closure as_NodeResourceTopologyMatchArgsV1beta3 NodeResourceTopologyMatchArgsV1beta3Obj SetObjectDefaults_NodeResourceTopologyMatchArgs_v1beta3),
      ((V1beta3Pkg, ''ApplicationResourceAwareArgs''),
        defaulting_closure as_ApplicationResourceAwareArgsV1beta3 ApplicationResourceAwareArgsV1beta3Obj SetObjectDefaults_ApplicationResourceAwareArgs_v1beta3)]"

section \<open>Registration\<close>

text \<open>A registration changes a scheme and returns an error or nil; it can panic. \<open>AddKnownTypes\<close> gets
  the types of the objects it is passed. \<open>api_AddToScheme\<close> is the method of \<open>runtime.SchemeBuilder\<close>.\<close>

type_synonym 's registration = "'s \<Rightarrow> ('s \<times> go_error option) outcome"

record GroupVersion =
  gv_Group :: string
  gv_Version :: string

record 's scheme_api =
  api_AddKnownTypes :: "GroupVersion \<Rightarrow> api_type list \<Rightarrow> 's \<Rightarrow> 's outcome"
  api_AddGeneratedConversionFunc :: "api_type \<Rightarrow> api_type \<Rightarrow> conversion_func \<Rightarrow> 's \<Rightarrow> 's \<times> go_error option"
  api_AddTypeDefaultingFunc :: "api_type \<Rightarrow> defaulting_func \<Rightarrow> 's \<Rightarrow> 's"
  api_AddToScheme :: "'s registration list \<Rightarrow> 's registration"
  api_Must :: "go_error option \<Rightarrow> unit outcome"
  api_GroupName :: string
  api_APIVersionInternal :: string

text \<open>\<open>GroupName\<close> of the scheduler's configuration and \<open>runtime.APIVersionInternal\<close> are constants of the
  libraries; the policy packages have a group of their own.\<close>

abbreviation policy_GroupName :: string where
  "policy_GroupName \<equiv> ''scheduler.policy.crane.io''"

definition SchemeGroupVersion_policy :: "'s scheme_api \<Rightarrow> GroupVersion" where
  "SchemeGroupVersion_policy api = \<lparr>gv_Group = policy_GroupName, gv_Version = api_APIVersionInternal api\<rparr>"

definition SchemeGroupVersion_v1alpha1 :: "'s scheme_api \<Rightarrow> GroupVersion" where
  "SchemeGroupVersion_v1alpha1 api = \<lparr>gv_Group = policy_GroupName, gv_Version = ''v1alpha1''\<rparr>"

definition SchemeGroupVersion_config :: "'s scheme_api \<Rightarrow> GroupVersion" where
  "SchemeGroupVersion_config api = \<lparr>gv_Group = api_GroupName api, gv_Version = api_APIVersionInternal api\<rparr>"

definition SchemeGroupVersion_v1beta2 :: "'s scheme_api \<Rightarrow> GroupVersion" where
  "SchemeGroupVersion_v1beta2 api = \<lparr>gv_Group = api_GroupName api, gv_Version = ''v1beta2''\<rparr>"

definition SchemeGroupVersion_v1beta3 :: "'s scheme_api \<Rightarrow> GroupVersion" where
  "SchemeGroupVersion_v1beta3 api = \<lparr>gv_Group = api_GroupName api, gv_Version = ''v1beta3''\<rparr>"

definition addKnownTypes_policy :: "'s scheme_api \<Rightarrow> 's registration" where
  "addKnownTypes_policy api scheme =
     omap (\<lambda>scheme. (scheme, None))
       (api_AddKnownTypes api (SchemeGroupVersion_policy api)
          [(PolicyPkg, ''DynamicSchedulerPolicy'')] scheme)"

definition addKnownTypes_v1alpha1 :: "'s scheme_api \<Rightarrow> 's registration" where
  "addKnownTypes_v1alpha1 api scheme =
     omap (\<lambda>scheme. (scheme, None))
       (api_AddKnownTypes api (SchemeGroupVersion_v1alpha1 api)
          [(V1alpha1Pkg, ''DynamicSchedulerPolicy'')] scheme)"

definition addKnownTypes_config :: "'s scheme_api \<Rightarrow> 's registration" where
  "addKnownTypes_config api scheme =
     omap (\<lambda>scheme. (scheme, None))
       (api_AddKnownTypes api (SchemeGroupVersion_config api)
          [(ConfigPkg, ''DynamicArgs''), (ConfigPkg, ''NodeResourceTopologyMatchArgs''), (ConfigPkg, ''ApplicationResourceAwareArgs'')] scheme)"

definition addKnownTypes_v1beta2 :: "'s scheme_api \<Rightarrow> 's registration" where
  "addKnownTypes_v1beta2 api scheme =
     omap (\<lambda>scheme. (scheme, None))
       (api_AddKnownTypes api (SchemeGroupVersion_v1beta2 api)
          [(V1beta2Pkg, ''DynamicArgs''), (V1beta2Pkg, ''NodeResourceTopologyMatchArgs''), (V1beta2Pkg, ''ApplicationResourceAwareArgs'')] scheme)"

definition addKnownTypes_v1beta3 :: "'s scheme_api \<Rightarrow> 's registration" where
  "addKnownTypes_v1beta3 api scheme =
     omap (\<lambda>scheme. (scheme, None))
       (api_AddKnownTypes api (SchemeGroupVersion_v1beta3 api)
          [(V1beta3Pkg, ''DynamicArgs''), (V1beta3Pkg, ''NodeResourceTopologyMatchArgs''), (V1beta3Pkg, ''ApplicationResourceAwareArgs'')] scheme)"

text \<open>Registering conversions one after the other, until the first error.\<close>

fun register_conversions ::
  "'s scheme_api \<Rightarrow> (api_type \<times> api_type \<times> conversion_func) list \<Rightarrow> 's \<Rightarrow> 's \<times> go_error option" where
  "register_conversions api [] s = (s, None)"
| "register_conversions api ((a, b, f) # rest) s =
     (case api_AddGeneratedConversionFunc api a b f s of
        (s, Some err) \<Rightarrow> (s, Some err)
      | (s, None) \<Rightarrow> register_conversions api rest s)"

fun register_defaults :: "'s scheme_api \<Rightarrow> (api_type \<times> defaulting_func) list \<Rightarrow> 's \<Rightarrow> 's" where
  "register_defaults api [] s = s"
| "register_defaults api ((a, f) # rest) s = register_defaults api rest (api_AddTypeDefaultingFunc api a f s)"

definition RegisterConversions_v1alpha1 :: "'s scheme_api \<Rightarrow> 's registration" where
  "RegisterConversions_v1alpha1 api s = Ok (register_conversions api conversions_v1alpha1 s)"

definition RegisterConversions_v1beta2 :: "'s scheme_api \<Rightarrow> 's registration" where
  "RegisterConversions_v1beta2 api s = Ok (register_conversions api conversions_v1beta2 s)"

definition RegisterConversions_v1beta3 ::
  "'s scheme_api \<Rightarrow> (string option \<Rightarrow> string \<Rightarrow> string fallible) \<Rightarrow>
   (string \<Rightarrow> string option \<Rightarrow> string option fallible) \<Rightarrow> 's registration" where
  "RegisterConversions_v1beta3 api from_ptr to_ptr s =
     Ok (register_conversions api (conversions_v1beta3 from_ptr to_ptr) s)"

definition RegisterDefaults_v1beta2 :: "'s scheme_api \<Rightarrow> 's registration" where
  "RegisterDefaults_v1beta2 api s = Ok (register_defaults api defaults_v1beta2 s, None)"

definition RegisterDefaults_v1beta3 :: "'s scheme_api \<Rightarrow> 's registration" where
  "RegisterDefaults_v1beta3 api s = Ok (register_defaults api defaults_v1beta3 s, None)"

text \<open>The builders after the \<open>init\<close> functions. The two policy packages make their own; the argument
  packages append to the builders of the scheduler, given as what they hold before. In \<open>v1beta2\<close> and
  \<open>v1beta3\<close> both \<open>register.go\<close> and the generated file register the conversions.\<close>

definition SchemeBuilder_policy :: "'s scheme_api \<Rightarrow> 's registration list" where
  "SchemeBuilder_policy api = [addKnownTypes_policy api]"

definition SchemeBuilder_v1alpha1 :: "'s scheme_api \<Rightarrow> 's registration list" where
  "SchemeBuilder_v1alpha1 api = [addKnownTypes_v1alpha1 api]"

definition init_conversions_v1alpha1 :: "'s scheme_api \<Rightarrow> 's registration list \<Rightarrow> 's registration list" where
  "init_conversions_v1alpha1 api builder = builder @ [RegisterConversions_v1alpha1 api]"

definition init_register_config :: "'s scheme_api \<Rightarrow> 's registration list \<Rightarrow> 's registration list" where
  "init_register_config api builder = builder @ [addKnownTypes_config api]"

definition init_register_v1beta2 :: "'s scheme_api \<Rightarrow> 's registration list \<Rightarrow> 's registration list" where
  "init_register_v1beta2 api builder =
     builder @ [addKnownTypes_v1beta2 api] @ [RegisterDefaults_v1beta2 api] @ [RegisterConversions_v1beta2 api]"

definition init_conversions_v1beta2 :: "'s scheme_api \<Rightarrow> 's registration list \<Rightarrow> 's registration list" where
  "init_conversions_v1beta2 api builder = builder @ [RegisterConversions_v1beta2 api]"

definition init_register_v1beta3 ::
  "'s scheme_api \<Rightarrow> (string option \<Rightarrow> string \<Rightarrow> string fallible) \<Rightarrow>
   (string \<Rightarrow> string option \<Rightarrow> string option fallible) \<Rightarrow> 's registration list \<Rightarrow> 's registration list" where
  "init_register_v1beta3 api from_ptr to_ptr builder =
     builder @ [addKnownTypes_v1beta3 api] @ [RegisterDefaults_v1beta3 api] @
     [RegisterConversions_v1beta3 api from_ptr to_ptr]"

definition init_conversions_v1beta3 ::
  "'s scheme_api \<Rightarrow> (string option \<Rightarrow> string \<Rightarrow> string fallible) \<Rightarrow>
   (string \<Rightarrow> string option \<Rightarrow> string option fallible) \<Rightarrow> 's registration list \<Rightarrow> 's registration list" where
  "init_conversions_v1beta3 api from_ptr to_ptr builder =
     builder @ [RegisterConversions_v1beta3 api from_ptr to_ptr]"

text \<open>\<open>utilruntime.Must(builder.AddToScheme(scheme))\<close>.\<close>

definition must_add :: "'s scheme_api \<Rightarrow> 's registration list \<Rightarrow> 's \<Rightarrow> 's outcome" where
  "must_add api builder scheme =
     obind (api_AddToScheme api builder scheme) (\<lambda>(scheme, err). omap (\<lambda>u. scheme) (api_Must api err))"

definition policy_AddToScheme :: "'s scheme_api \<Rightarrow> 's \<Rightarrow> 's outcome" where
  "policy_AddToScheme api scheme =
     obind (must_add api (SchemeBuilder_policy api) scheme)
       (\<lambda>scheme. must_add api (init_conversions_v1alpha1 api (SchemeBuilder_v1alpha1 api)) scheme)"

definition config_AddToScheme ::
  "'s scheme_api \<Rightarrow> (string option \<Rightarrow> string \<Rightarrow> string fallible) \<Rightarrow>
   (string \<Rightarrow> string option \<Rightarrow> string option fallible) \<Rightarrow>
   's registration list \<Rightarrow> 's registration list \<Rightarrow> 's registration list \<Rightarrow> 's \<Rightarrow> 's outcome" where
  "config_AddToScheme api from_ptr to_ptr builder builder2 builder3 scheme =
     obind (must_add api (init_register_config api builder) scheme)
       (\<lambda>scheme. obind (must_add api (init_conversions_v1beta2 api (init_register_v1beta2 api builder2)) scheme)
          (\<lambda>scheme. must_add api
             (init_conversions_v1beta3 api from_ptr to_ptr (init_register_v1beta3 api from_ptr to_ptr builder3))
             scheme))"

section \<open>Lemmas\<close>

text \<open>The contract of a registered type: its assertion succeeds exactly on its own objects.\<close>

locale api_kind =
  fixes ty :: api_type and obj :: "'a \<Rightarrow> api_object" and assert_obj :: "api_object \<Rightarrow> 'a outcome"
  assumes type_obj: "go_type (obj x) = ty"
    and assert_own: "assert_obj (obj x) = Ok x"
    and only_own: "go_type a = ty \<Longrightarrow> \<exists>x. a = obj x"
    and assert_other: "go_type a \<noteq> ty \<Longrightarrow> assert_obj a = Panic InterfaceConversion"
begin

lemma assert_of_type: "go_type a = ty \<Longrightarrow> \<exists>x. a = obj x \<and> assert_obj a = Ok x"
  using only_own assert_own by blast

end

interpretation kind_DynamicSchedulerPolicy: api_kind "(PolicyPkg, ''DynamicSchedulerPolicy'')" DynamicSchedulerPolicyObj as_DynamicSchedulerPolicy
  by unfold_locales (auto simp: as_DynamicSchedulerPolicy_def elim: go_type.elims split: api_object.splits)

interpretation kind_HotValuePolicy: api_kind "(PolicyPkg, ''HotValuePolicy'')" HotValuePolicyObj as_HotValuePolicy
  by unfold_locales (auto simp: as_HotValuePolicy_def elim: go_type.elims split: api_object.splits)

interpretation kind_PolicySpec: api_kind "(PolicyPkg, ''PolicySpec'')" PolicySpecObj as_PolicySpec
  by unfold_locales (auto simp: as_PolicySpec_def elim: go_type.elims split: api_object.splits)

interpretation kind_PredicatePolicy: api_kind "(PolicyPkg, ''PredicatePolicy'')" PredicatePolicyObj as_PredicatePolicy
  by unfold_locales (auto simp: as_PredicatePolicy_def elim: go_type.elims split: api_object.splits)

interpretation kind_PriorityPolicy: api_kind "(PolicyPkg, ''PriorityPolicy'')" PriorityPolicyObj as_PriorityPolicy
  by unfold_locales (auto simp: as_PriorityPolicy_def elim: go_type.elims split: api_object.splits)

interpretation kind_SyncPolicy: api_kind "(PolicyPkg, ''SyncPolicy'')" SyncPolicyObj as_SyncPolicy
  by unfold_locales (auto simp: as_SyncPolicy_def elim: go_type.elims split: api_object.splits)

interpretation kind_DynamicSchedulerPolicyV1alpha1: api_kind "(V1alpha1Pkg, ''DynamicSchedulerPolicy'')" DynamicSchedulerPolicyV1alpha1Obj as_DynamicSchedulerPolicyV1alpha1
  by unfold_locales (auto simp: as_DynamicSchedulerPolicyV1alpha1_def elim: go_type.elims split: api_object.splits)

interpretation kind_HotValuePolicyV1alpha1: api_kind "(V1alpha1Pkg, ''HotValuePolicy'')" HotValuePolicyV1alpha1Obj as_HotValuePolicyV1alpha1
  by unfold_locales (auto simp: as_HotValuePolicyV1alpha1_def elim: go_type.elims split: api_object.splits)

interpretation kind_PolicySpecV1alpha1: api_kind "(V1alpha1Pkg, ''PolicySpec'')" PolicySpecV1alpha1Obj as_PolicySpecV1alpha1
  by unfold_locales (auto simp: as_PolicySpecV1alpha1_def elim: go_type.elims split: api_object.splits)

interpretation kind_PredicatePolicyV1alpha1: api_kind "(V1alpha1Pkg, ''PredicatePolicy'')" PredicatePolicyV1alpha1Obj as_PredicatePolicyV1alpha1
  by unfold_locales (auto simp: as_PredicatePolicyV1alpha1_def elim: go_type.elims split: api_object.splits)

interpretation kind_PriorityPolicyV1alpha1: api_kind "(V1alpha1Pkg, ''PriorityPolicy'')" PriorityPolicyV1alpha1Obj as_PriorityPolicyV1alpha1
  by unfold_locales (auto simp: as_PriorityPolicyV1alpha1_def elim: go_type.elims split: api_object.splits)

interpretation kind_SyncPolicyV1alpha1: api_kind "(V1alpha1Pkg, ''SyncPolicy'')" SyncPolicyV1alpha1Obj as_SyncPolicyV1alpha1
  by unfold_locales (auto simp: as_SyncPolicyV1alpha1_def elim: go_type.elims split: api_object.splits)

interpretation kind_DynamicArgs: api_kind "(ConfigPkg, ''DynamicArgs'')" DynamicArgsObj as_DynamicArgs
  by unfold_locales (auto simp: as_DynamicArgs_def elim: go_type.elims split: api_object.splits)

interpretation kind_NodeResourceTopologyMatchArgs: api_kind "(ConfigPkg, ''NodeResourceTopologyMatchArgs'')" NodeResourceTopologyMatchArgsObj as_NodeResourceTopologyMatchArgs
  by unfold_locales (auto simp: as_NodeResourceTopologyMatchArgs_def elim: go_type.elims split: api_object.splits)

interpretation kind_ApplicationResourceAwareArgs: api_kind "(ConfigPkg, ''ApplicationResourceAwareArgs'')" ApplicationResourceAwareArgsObj as_ApplicationResourceAwareArgs
  by unfold_locales (auto simp: as_ApplicationResourceAwareArgs_def elim: go_type.elims split: api_object.splits)

interpretation kind_DynamicArgsV1beta2: api_kind "(V1beta2Pkg, ''DynamicArgs'')" DynamicArgsV1beta2Obj as_DynamicArgsV1beta2
  by unfold_locales (auto simp: as_DynamicArgsV1beta2_def elim: go_type.elims split: api_object.splits)

interpretation kind_NodeResourceTopologyMatchArgsV1beta2: api_kind "(V1beta2Pkg, ''NodeResourceTopologyMatchArgs'')" NodeResourceTopologyMatchArgsV1beta2Obj as_NodeResourceTopologyMatchArgsV1beta2
  by unfold_locales (auto simp: as_NodeResourceTopologyMatchArgsV1beta2_def elim: go_type.elims split: api_object.splits)

interpretation kind_ApplicationResourceAwareArgsV1beta2: api_kind "(V1beta2Pkg, ''ApplicationResourceAwareArgs'')" ApplicationResourceAwareArgsV1beta2Obj as_ApplicationResourceAwareArgsV1beta2
  by unfold_locales (auto simp: as_ApplicationResourceAwareArgsV1beta2_def elim: go_type.elims split: api_object.splits)

interpretation kind_DynamicArgsV1beta3: api_kind "(V1beta3Pkg, ''DynamicArgs'')" DynamicArgsV1beta3Obj as_DynamicArgsV1beta3
  by unfold_locales (auto simp: as_DynamicArgsV1beta3_def elim: go_type.elims split: api_object.splits)

interpretation kind_NodeResourceTopologyMatchArgsV1beta3: api_kind "(V1beta3Pkg, ''NodeResourceTopologyMatchArgs'')" NodeResourceTopologyMatchArgsV1beta3Obj as_NodeResourceTopologyMatchArgsV1beta3
  by unfold_locales (auto simp: as_NodeResourceTopologyMatchArgsV1beta3_def elim: go_type.elims split: api_object.splits)

interpretation kind_ApplicationResourceAwareArgsV1beta3: api_kind "(V1beta3Pkg, ''ApplicationResourceAwareArgs'')" ApplicationResourceAwareArgsV1beta3Obj as_ApplicationResourceAwareArgsV1beta3
  by unfold_locales (auto simp: as_ApplicationResourceAwareArgsV1beta3_def elim: go_type.elims split: api_object.splits)

lemmas api_kinds =
  kind_DynamicSchedulerPolicy.api_kind_axioms
  kind_HotValuePolicy.api_kind_axioms
  kind_PolicySpec.api_kind_axioms
  kind_PredicatePolicy.api_kind_axioms
  kind_PriorityPolicy.api_kind_axioms
  kind_SyncPolicy.api_kind_axioms
  kind_DynamicSchedulerPolicyV1alpha1.api_kind_axioms
  kind_HotValuePolicyV1alpha1.api_kind_axioms
  kind_PolicySpecV1alpha1.api_kind_axioms
  kind_PredicatePolicyV1alpha1.api_kind_axioms
  kind_PriorityPolicyV1alpha1.api_kind_axioms
  kind_SyncPolicyV1alpha1.api_kind_axioms
  kind_DynamicArgs.api_kind_axioms
  kind_NodeResourceTopologyMatchArgs.api_kind_axioms
  kind_ApplicationResourceAwareArgs.api_kind_axioms
  kind_DynamicArgsV1beta2.api_kind_axioms
  kind_NodeResourceTopologyMatchArgsV1beta2.api_kind_axioms
  kind_ApplicationResourceAwareArgsV1beta2.api_kind_axioms
  kind_DynamicArgsV1beta3.api_kind_axioms
  kind_NodeResourceTopologyMatchArgsV1beta3.api_kind_axioms
  kind_ApplicationResourceAwareArgsV1beta3.api_kind_axioms

section \<open>The registered conversions\<close>

definition all_conversions ::
  "(string option \<Rightarrow> string \<Rightarrow> string fallible) \<Rightarrow> (string \<Rightarrow> string option \<Rightarrow> string option fallible) \<Rightarrow>
   (api_type \<times> api_type \<times> conversion_func) list" where
  "all_conversions from_ptr to_ptr =
     conversions_v1alpha1 @ conversions_v1beta2 @ conversions_v1beta3 from_ptr to_ptr"

text \<open>What \<open>metav1.Convert_Pointer_string_To_string\<close> and its inverse document.\<close>

definition pointer_conversions ::
  "(string option \<Rightarrow> string \<Rightarrow> string fallible) \<Rightarrow> (string \<Rightarrow> string option \<Rightarrow> string option fallible) \<Rightarrow> bool"
  where
  "pointer_conversions from_ptr to_ptr \<longleftrightarrow>
     (\<forall>s old. from_ptr (Some s) old = Inr s) \<and> (\<forall>old. from_ptr None old = Inr '''') \<and>
     (\<forall>s old. to_ptr s old = Inr (Some s))"

text \<open>An object without its type meta, which the conversions leave to their caller.\<close>

abbreviation no_meta :: TypeMeta where
  "no_meta \<equiv> \<lparr>meta_Kind = '''', meta_APIVersion = ''''\<rparr>"

fun strip_meta :: "api_object \<Rightarrow> api_object" where
  "strip_meta (DynamicSchedulerPolicyObj x) = DynamicSchedulerPolicyObj (x\<lparr>policy_TypeMeta := no_meta\<rparr>)"
| "strip_meta (DynamicSchedulerPolicyV1alpha1Obj x) =
     DynamicSchedulerPolicyV1alpha1Obj (x\<lparr>policy1_TypeMeta := no_meta\<rparr>)"
| "strip_meta (DynamicArgsObj x) = DynamicArgsObj (x\<lparr>dyn_TypeMeta := no_meta\<rparr>)"
| "strip_meta (DynamicArgsV1beta2Obj x) = DynamicArgsV1beta2Obj (x\<lparr>dyn2_TypeMeta := no_meta\<rparr>)"
| "strip_meta (DynamicArgsV1beta3Obj x) = DynamicArgsV1beta3Obj (x\<lparr>dyn3_TypeMeta := no_meta\<rparr>)"
| "strip_meta (NodeResourceTopologyMatchArgsObj x) =
     NodeResourceTopologyMatchArgsObj (x\<lparr>nrt_TypeMeta := no_meta\<rparr>)"
| "strip_meta (NodeResourceTopologyMatchArgsV1beta2Obj x) =
     NodeResourceTopologyMatchArgsV1beta2Obj (x\<lparr>nrt2_TypeMeta := no_meta\<rparr>)"
| "strip_meta (NodeResourceTopologyMatchArgsV1beta3Obj x) =
     NodeResourceTopologyMatchArgsV1beta3Obj (x\<lparr>nrt3_TypeMeta := no_meta\<rparr>)"
| "strip_meta (ApplicationResourceAwareArgsObj x) =
     ApplicationResourceAwareArgsObj (x\<lparr>ara_TypeMeta := no_meta\<rparr>)"
| "strip_meta (ApplicationResourceAwareArgsV1beta2Obj x) =
     ApplicationResourceAwareArgsV1beta2Obj (x\<lparr>ara2_TypeMeta := no_meta\<rparr>)"
| "strip_meta (ApplicationResourceAwareArgsV1beta3Obj x) =
     ApplicationResourceAwareArgsV1beta3Obj (x\<lparr>ara3_TypeMeta := no_meta\<rparr>)"
| "strip_meta a = a"

text \<open>What there and back makes of an object: an unset path of \<open>v1beta3\<close> becomes a pointer to the empty string, everything
  else is as it was.\<close>

definition path_of_pointer :: "string option \<Rightarrow> string" where
  "path_of_pointer p = (case p of None \<Rightarrow> '''' | Some path \<Rightarrow> path)"

fun restored :: "api_object \<Rightarrow> api_object" where
  "restored (DynamicArgsV1beta3Obj x) =
     DynamicArgsV1beta3Obj (x\<lparr>dyn3_PolicyConfigPath := Some (path_of_pointer (dyn3_PolicyConfigPath x))\<rparr>)"
| "restored (ApplicationResourceAwareArgsV1beta3Obj x) =
     ApplicationResourceAwareArgsV1beta3Obj (x\<lparr>ara3_PolicyConfigPath := Some (path_of_pointer (ara3_PolicyConfigPath x))\<rparr>)"
| "restored a = a"

text \<open>A registered conversion is faithful: on objects of its types it succeeds with an object of its
  target type, on others it panics, and some registered conversion takes its results back to \<open>restored\<close> objects.\<close>

fun faithful :: "(api_type \<times> api_type \<times> conversion_func) list \<Rightarrow> api_type \<times> api_type \<times> conversion_func \<Rightarrow> bool"
  where
  "faithful registered (s, d, f) \<longleftrightarrow>
     (\<forall>a b. go_type a \<noteq> s \<or> go_type b \<noteq> d \<longrightarrow> f a b = Panic InterfaceConversion) \<and>
     (\<exists>g. (d, s, g) \<in> set registered \<and>
       (\<forall>a b. go_type a = s \<longrightarrow> go_type b = d \<longrightarrow>
          (\<exists>b'. f a b = Ok (Inr b') \<and> go_type b' = d \<and>
            (\<forall>a'. go_type a' = s \<longrightarrow>
              (\<exists>a''. g b' a' = Ok (Inr a'') \<and> go_type a'' = s \<and> strip_meta a'' = strip_meta (restored a))))))"

lemma closure_other_type:
  assumes "api_kind s obj_a as_a" "api_kind d obj_b as_b" "go_type a \<noteq> s \<or> go_type b \<noteq> d"
  shows "conversion_closure as_a as_b obj c a b = Panic InterfaceConversion"
proof (cases "go_type a = s")
  case True
  then have "go_type b \<noteq> d" using assms(3) by simp
  then show ?thesis
    using api_kind.assert_of_type [OF assms(1) True] api_kind.assert_other [OF assms(2)]
    by (auto simp: conversion_closure_def)
next
  case False
  then show ?thesis using api_kind.assert_other [OF assms(1)] by (simp add: conversion_closure_def)
qed

lemma closure_same_type:
  assumes "api_kind s obj_a as_a" "api_kind d obj_b as_b"
  shows "conversion_closure as_a as_b obj_b c (obj_a x) (obj_b y) = Ok (map_sum id obj_b (c x y))"
  by (simp add: conversion_closure_def api_kind.assert_own [OF assms(1)] api_kind.assert_own [OF assms(2)])

lemma faithfulI:
  assumes a: "api_kind s obj_a as_a" and b: "api_kind d obj_b as_b"
    and inv: "(d, s, conversion_closure as_b as_a obj_a c') \<in> set registered"
    and round: "\<And>x y. \<exists>y'. c x y = Inr y' \<and>
      (\<forall>x'. \<exists>x''. c' y' x' = Inr x'' \<and> strip_meta (obj_a x'') = strip_meta (restored (obj_a x)))"
  shows "faithful registered (s, d, conversion_closure as_a as_b obj_b c)"
proof -
  have "\<exists>b'. conversion_closure as_a as_b obj_b c o1 o2 = Ok (Inr b') \<and> go_type b' = d \<and>
      (\<forall>a'. go_type a' = s \<longrightarrow>
        (\<exists>a''. conversion_closure as_b as_a obj_a c' b' a' = Ok (Inr a'') \<and> go_type a'' = s \<and>
          strip_meta a'' = strip_meta (restored o1)))"
    if types: "go_type o1 = s" "go_type o2 = d" for o1 o2
  proof -
    obtain x y where xy: "o1 = obj_a x" "o2 = obj_b y"
      using api_kind.only_own [OF a types(1)] api_kind.only_own [OF b types(2)] by blast
    obtain y' where y': "c x y = Inr y'"
      "\<And>x'. \<exists>x''. c' y' x' = Inr x'' \<and> strip_meta (obj_a x'') = strip_meta (restored (obj_a x))"
      using round [of x y] by blast
    have "\<exists>a''. conversion_closure as_b as_a obj_a c' (obj_b y') a' = Ok (Inr a'') \<and> go_type a'' = s \<and>
        strip_meta a'' = strip_meta (restored o1)" if a': "go_type a' = s" for a'
    proof -
      obtain x' where x': "a' = obj_a x'" using api_kind.only_own [OF a a'] by blast
      obtain x'' where "c' y' x' = Inr x''" "strip_meta (obj_a x'') = strip_meta (restored (obj_a x))"
        using y'(2) by blast
      then show ?thesis
        by (simp add: x' xy(1) closure_same_type [OF b a] api_kind.type_obj [OF a])
    qed
    then show ?thesis
      by (simp add: xy y'(1) closure_same_type [OF a b] api_kind.type_obj [OF b])
  qed
  then show ?thesis
    using inv closure_other_type [OF a b] by auto
qed

lemmas round_trip_simps =
  never_fails_def pointer_conversions_def args_conversion_defs spec_round_trip
  Convert_v1alpha1_DynamicSchedulerPolicy_To_policy_DynamicSchedulerPolicy_def
  Convert_policy_DynamicSchedulerPolicy_To_v1alpha1_DynamicSchedulerPolicy_def
  Convert_v1alpha1_HotValuePolicy_To_policy_HotValuePolicy_def
  Convert_policy_HotValuePolicy_To_v1alpha1_HotValuePolicy_def
  Convert_v1alpha1_PredicatePolicy_To_policy_PredicatePolicy_def
  Convert_policy_PredicatePolicy_To_v1alpha1_PredicatePolicy_def
  Convert_v1alpha1_PriorityPolicy_To_policy_PriorityPolicy_def
  Convert_policy_PriorityPolicy_To_v1alpha1_PriorityPolicy_def
  Convert_v1alpha1_SyncPolicy_To_policy_SyncPolicy_def
  Convert_policy_SyncPolicy_To_v1alpha1_SyncPolicy_def

text \<open>The generated lists hold each conversion next to its inverse.\<close>

lemma faithful_pairs:
  assumes "api_kind s obj_a as_a" "api_kind d obj_b as_b"
    and "set ((s, d, conversion_closure as_a as_b obj_b c) # (d, s, conversion_closure as_b as_a obj_a c') # rest)
      \<subseteq> set registered"
    and "\<And>x y. \<exists>y'. c x y = Inr y' \<and>
      (\<forall>x'. \<exists>x''. c' y' x' = Inr x'' \<and> strip_meta (obj_a x'') = strip_meta (restored (obj_a x)))"
    and "\<And>x y. \<exists>y'. c' x y = Inr y' \<and>
      (\<forall>x'. \<exists>x''. c y' x' = Inr x'' \<and> strip_meta (obj_b x'') = strip_meta (restored (obj_b x)))"
    and "set rest \<subseteq> set registered \<Longrightarrow> list_all (faithful registered) rest"
  shows "list_all (faithful registered)
    ((s, d, conversion_closure as_a as_b obj_b c) # (d, s, conversion_closure as_b as_a obj_a c') # rest)"
proof -
  have "faithful registered (s, d, conversion_closure as_a as_b obj_b c)"
    by (rule faithfulI [OF assms(1,2) _ assms(4)]) (use assms(3) in simp)
  moreover have "faithful registered (d, s, conversion_closure as_b as_a obj_a c')"
    by (rule faithfulI [OF assms(2,1) _ assms(5)]) (use assms(3) in simp)
  moreover have "list_all (faithful registered) rest"
    using assms(3,6) by simp
  ultimately show ?thesis by simp
qed

lemma faithful_nil: "list_all (faithful registered) []"
  by simp

lemma conversions_v1alpha1_faithful:
  "set conversions_v1alpha1 \<subseteq> set registered \<Longrightarrow> list_all (faithful registered) conversions_v1alpha1"
  unfolding conversions_v1alpha1_def
  by (intro faithful_pairs faithful_nil; (rule api_kinds)?; (assumption)?; simp add: round_trip_simps)

lemma conversions_v1beta2_faithful:
  "set conversions_v1beta2 \<subseteq> set registered \<Longrightarrow> list_all (faithful registered) conversions_v1beta2"
  unfolding conversions_v1beta2_def
  by (intro faithful_pairs faithful_nil; (rule api_kinds)?; (assumption)?; simp add: round_trip_simps)

lemma path_round_trips:
  assumes "pointer_conversions from_ptr to_ptr"
  shows "\<exists>y'. Convert_v1beta3_DynamicArgs_To_config_DynamicArgs from_ptr x y = Inr y' \<and>
      (\<forall>x'. \<exists>x''. Convert_config_DynamicArgs_To_v1beta3_DynamicArgs to_ptr y' x' = Inr x'' \<and>
        strip_meta (DynamicArgsV1beta3Obj x'') = strip_meta (restored (DynamicArgsV1beta3Obj x)))"
    and "\<exists>y'. Convert_v1beta3_ApplicationResourceAwareArgs_To_config from_ptr u v = Inr y' \<and>
      (\<forall>x'. \<exists>x''. Convert_config_ApplicationResourceAwareArgs_To_v1beta3 to_ptr y' x' = Inr x'' \<and>
        strip_meta (ApplicationResourceAwareArgsV1beta3Obj x'') =
        strip_meta (restored (ApplicationResourceAwareArgsV1beta3Obj u)))"
  using assms
  by (cases "dyn3_PolicyConfigPath x"; simp add: round_trip_simps path_of_pointer_def)
    (use assms in \<open>cases "ara3_PolicyConfigPath u"; simp add: round_trip_simps path_of_pointer_def\<close>)

lemma conversions_v1beta3_faithful:
  "\<lbrakk>pointer_conversions from_ptr to_ptr; set (conversions_v1beta3 from_ptr to_ptr) \<subseteq> set registered\<rbrakk> \<Longrightarrow>
    list_all (faithful registered) (conversions_v1beta3 from_ptr to_ptr)"
  unfolding conversions_v1beta3_def
  by (intro faithful_pairs faithful_nil; (rule api_kinds)?; (assumption)?; (erule path_round_trips)?;
      simp add: round_trip_simps)

section \<open>Building a scheme\<close>

text \<open>What the registrations rely on, with \<open>known\<close> for the type of a kind, \<open>conv\<close> for the conversion
  and \<open>dflt\<close> for the defaulting function a scheme holds: known types are added unless the version is
  empty or a kind has another type, functions are recorded under their types, a builder runs its
  registrations in order until one returns an error, and a nil error passes \<open>Must\<close>.\<close>

definition scheme_laws ::
  "'s scheme_api \<Rightarrow> ('s \<Rightarrow> GroupVersion \<Rightarrow> string \<Rightarrow> api_type option) \<Rightarrow>
   ('s \<Rightarrow> api_type \<Rightarrow> api_type \<Rightarrow> conversion_func option) \<Rightarrow> ('s \<Rightarrow> api_type \<Rightarrow> defaulting_func option) \<Rightarrow> bool"
  where
  "scheme_laws api known conv dflt \<longleftrightarrow>
     (\<forall>gv ts s. gv_Version gv \<noteq> '''' \<longrightarrow> (\<forall>t \<in> set ts. known s gv (snd t) \<in> {None, Some t}) \<longrightarrow>
        distinct (map snd ts) \<longrightarrow>
        (\<exists>s'. api_AddKnownTypes api gv ts s = Ok s' \<and> conv s' = conv s \<and> dflt s' = dflt s \<and>
          (\<forall>t \<in> set ts. known s' gv (snd t) = Some t) \<and>
          (\<forall>gv' k. gv' \<noteq> gv \<or> k \<notin> snd ` set ts \<longrightarrow> known s' gv' k = known s gv' k))) \<and>
     (\<forall>a b f s. \<exists>s'. api_AddGeneratedConversionFunc api a b f s = (s', None) \<and>
        known s' = known s \<and> dflt s' = dflt s \<and> conv s' = (conv s)(a := (conv s a)(b \<mapsto> f))) \<and>
     (\<forall>a f s. known (api_AddTypeDefaultingFunc api a f s) = known s \<and>
        conv (api_AddTypeDefaultingFunc api a f s) = conv s \<and>
        dflt (api_AddTypeDefaultingFunc api a f s) = (dflt s)(a \<mapsto> f)) \<and>
     (\<forall>s. api_AddToScheme api [] s = Ok (s, None)) \<and>
     (\<forall>r rs s. api_AddToScheme api (r # rs) s =
        obind (r s) (\<lambda>(s', err). if err = None then api_AddToScheme api rs s' else Ok (s', err))) \<and>
     api_Must api None = Ok ()"

lemma scheme_lawsD:
  assumes "scheme_laws api known conv dflt"
  shows "\<lbrakk>gv_Version gv \<noteq> ''''; \<And>t. t \<in> set ts \<Longrightarrow> known s gv (snd t) \<in> {None, Some t}; distinct (map snd ts)\<rbrakk> \<Longrightarrow>
      \<exists>s'. api_AddKnownTypes api gv ts s = Ok s' \<and> conv s' = conv s \<and> dflt s' = dflt s \<and>
        (\<forall>t \<in> set ts. known s' gv (snd t) = Some t) \<and>
        (\<forall>gv' k. gv' \<noteq> gv \<or> k \<notin> snd ` set ts \<longrightarrow> known s' gv' k = known s gv' k)"
    and "\<exists>s'. api_AddGeneratedConversionFunc api a b f s = (s', None) \<and>
        known s' = known s \<and> dflt s' = dflt s \<and> conv s' = (conv s)(a := (conv s a)(b \<mapsto> f))"
    and "known (api_AddTypeDefaultingFunc api c h s) = known s"
      "conv (api_AddTypeDefaultingFunc api c h s) = conv s"
      "dflt (api_AddTypeDefaultingFunc api c h s) = (dflt s)(c \<mapsto> h)"
    and "api_AddToScheme api [] s = Ok (s, None)"
    and "api_AddToScheme api (r # rs) s =
        obind (r s) (\<lambda>(s', err). if err = None then api_AddToScheme api rs s' else Ok (s', err))"
    and "api_Must api None = Ok ()"
proof -
  note laws = assms [unfolded scheme_laws_def]
  show "\<lbrakk>gv_Version gv \<noteq> ''''; \<And>t. t \<in> set ts \<Longrightarrow> known s gv (snd t) \<in> {None, Some t}; distinct (map snd ts)\<rbrakk> \<Longrightarrow>
      \<exists>s'. api_AddKnownTypes api gv ts s = Ok s' \<and> conv s' = conv s \<and> dflt s' = dflt s \<and>
        (\<forall>t \<in> set ts. known s' gv (snd t) = Some t) \<and>
        (\<forall>gv' k. gv' \<noteq> gv \<or> k \<notin> snd ` set ts \<longrightarrow> known s' gv' k = known s gv' k)"
    using laws [THEN conjunct1] by simp
  show "\<exists>s'. api_AddGeneratedConversionFunc api a b f s = (s', None) \<and>
        known s' = known s \<and> dflt s' = dflt s \<and> conv s' = (conv s)(a := (conv s a)(b \<mapsto> f))"
    using laws [THEN conjunct2, THEN conjunct1] by (elim allE)
qed (use assms [unfolded scheme_laws_def, THEN conjunct2, THEN conjunct2] in \<open>simp_all del: split_paired_All\<close>)

text \<open>The effect of registering a list of conversions whose type pairs are distinct.\<close>

definition provides :: "(api_type \<Rightarrow> api_type \<Rightarrow> conversion_func option) \<Rightarrow>
  (api_type \<times> api_type \<times> conversion_func) list \<Rightarrow> bool" where
  "provides cs entries \<longleftrightarrow> (\<forall>(a, b, f) \<in> set entries. cs a b = Some f)"

abbreviation type_pairs :: "(api_type \<times> api_type \<times> conversion_func) list \<Rightarrow> (api_type \<times> api_type) list" where
  "type_pairs \<equiv> map (\<lambda>(a, b, f). (a, b))"

lemma register_conversions_adds:
  assumes "scheme_laws api known conv dflt" "distinct (type_pairs entries)"
  shows "\<exists>s'. register_conversions api entries s = (s', None) \<and> known s' = known s \<and> dflt s' = dflt s \<and>
    provides (conv s') entries \<and> (\<forall>a b. (a, b) \<notin> set (type_pairs entries) \<longrightarrow> conv s' a b = conv s a b)"
  using assms(2)
proof (induction entries arbitrary: s)
  case Nil
  then show ?case by (simp add: provides_def)
next
  case (Cons e rest)
  obtain a b f where e: "e = (a, b, f)" by (cases e)
  obtain s1 where s1: "api_AddGeneratedConversionFunc api a b f s = (s1, None)" "known s1 = known s"
      "dflt s1 = dflt s" "conv s1 = (conv s)(a := (conv s a)(b \<mapsto> f))"
    using scheme_lawsD(2) [OF assms(1)] by blast
  obtain s' where s': "register_conversions api rest s1 = (s', None)" "known s' = known s1" "dflt s' = dflt s1"
      "provides (conv s') rest" "\<And>x y. (x, y) \<notin> set (type_pairs rest) \<Longrightarrow> conv s' x y = conv s1 x y"
    using Cons.IH [of s1] Cons.prems by auto
  have "conv s' a b = Some f"
    using s'(5) [of a b] Cons.prems s1(4) by (simp add: e)
  then show ?case
    using s1 s' by (auto simp: e provides_def)
qed

lemma register_defaults_adds:
  assumes "scheme_laws api known conv dflt" "distinct (map fst entries)"
  shows "known (register_defaults api entries s) = known s" "conv (register_defaults api entries s) = conv s"
    "dflt (register_defaults api entries s) = dflt s ++ map_of entries"
  using assms(2)
proof (induction entries arbitrary: s)
  case (Cons e rest)
  { case 1 then show ?case using Cons scheme_lawsD(3) [OF assms(1)] by (cases e) simp
  next
    case 2 then show ?case using Cons scheme_lawsD(4) [OF assms(1)] by (cases e) simp
  next
    case 3 then show ?case
      using Cons(3) scheme_lawsD(5) [OF assms(1)]
      by (cases e) (auto simp: map_add_def fun_eq_iff map_of_eq_None_iff rev_image_eqI split: option.split)
  }
qed simp_all

lemma conversion_types_distinct:
  "distinct (type_pairs conversions_v1alpha1)" "distinct (type_pairs conversions_v1beta2)"
  "distinct (type_pairs (conversions_v1beta3 from_ptr to_ptr))"
  "distinct (type_pairs (all_conversions from_ptr to_ptr))"
  by (simp_all add: conversions_v1alpha1_def conversions_v1beta2_def conversions_v1beta3_def all_conversions_def)

lemma default_types_distinct: "distinct (map fst defaults_v1beta2)" "distinct (map fst defaults_v1beta3)"
  by (simp_all add: defaults_v1beta2_def defaults_v1beta3_def)

lemma must_add_Nil:
  "scheme_laws api known conv dflt \<Longrightarrow> must_add api [] s = Ok s"
  by (simp add: must_add_def scheme_lawsD(6,8))

lemma must_add_Cons:
  "\<lbrakk>scheme_laws api known conv dflt; r s = Ok (s1, None)\<rbrakk> \<Longrightarrow> must_add api (r # rs) s = must_add api rs s1"
  by (simp add: must_add_def scheme_lawsD(7))

text \<open>The registrations other packages put into a shared builder do not touch the kinds and functions
  registered here.\<close>

definition args_kinds :: "string list" where
  "args_kinds = [''DynamicArgs'', ''NodeResourceTopologyMatchArgs'', ''ApplicationResourceAwareArgs'']"

definition neutral ::
  "('s \<Rightarrow> GroupVersion \<Rightarrow> string \<Rightarrow> api_type option) \<Rightarrow>
   ('s \<Rightarrow> api_type \<Rightarrow> api_type \<Rightarrow> conversion_func option) \<Rightarrow> ('s \<Rightarrow> api_type \<Rightarrow> defaulting_func option) \<Rightarrow>
   's registration \<Rightarrow> bool" where
  "neutral known conv dflt r \<longleftrightarrow>
     (\<forall>s. \<exists>s'. r s = Ok (s', None) \<and> conv s' = conv s \<and> dflt s' = dflt s \<and>
        (\<forall>gv. \<forall>k \<in> set args_kinds. known s' gv k = known s gv k))"

lemma must_add_neutral:
  assumes "scheme_laws api known conv dflt" "list_all (neutral known conv dflt) ext"
  shows "\<exists>s1. must_add api (ext @ rs) s = must_add api rs s1 \<and> conv s1 = conv s \<and> dflt s1 = dflt s \<and>
    (\<forall>gv. \<forall>k \<in> set args_kinds. known s1 gv k = known s gv k)"
  using assms(2)
proof (induction ext arbitrary: s)
  case (Cons r ext)
  then obtain s1 where s1: "r s = Ok (s1, None)" "conv s1 = conv s" "dflt s1 = dflt s"
      "\<forall>gv. \<forall>k \<in> set args_kinds. known s1 gv k = known s gv k"
    unfolding neutral_def list.pred_inject by blast
  obtain s2 where s2: "must_add api (ext @ rs) s1 = must_add api rs s2" "conv s2 = conv s1" "dflt s2 = dflt s1"
      "\<forall>gv. \<forall>k \<in> set args_kinds. known s2 gv k = known s1 gv k"
    using Cons.IH [of s1] Cons.prems unfolding list.pred_inject by blast
  show ?case
    using s1 s2 by (intro exI [of _ s2]) (simp add: must_add_Cons [where r = r, OF assms(1) s1(1)])
qed auto

lemma known_types_added:
  assumes "scheme_laws api known conv dflt" "gv_Version gv \<noteq> ''''" "distinct (map snd ts)"
    and "\<And>t. t \<in> set ts \<Longrightarrow> known s gv (snd t) = None"
    and "\<And>s. r s = omap (\<lambda>s. (s, None)) (api_AddKnownTypes api gv ts s)"
  shows "\<exists>s1. must_add api (r # rs) s = must_add api rs s1 \<and> conv s1 = conv s \<and> dflt s1 = dflt s \<and>
    (\<forall>t \<in> set ts. known s1 gv (snd t) = Some t) \<and>
    (\<forall>gv' k. gv' \<noteq> gv \<or> k \<notin> snd ` set ts \<longrightarrow> known s1 gv' k = known s gv' k)"
proof -
  have "known s gv (snd t) \<in> {None, Some t}" if "t \<in> set ts" for t
    using assms(4) [OF that] by simp
  then obtain s1 where s1: "api_AddKnownTypes api gv ts s = Ok s1" "conv s1 = conv s" "dflt s1 = dflt s"
      "\<forall>t \<in> set ts. known s1 gv (snd t) = Some t"
      "\<forall>gv' k. gv' \<noteq> gv \<or> k \<notin> snd ` set ts \<longrightarrow> known s1 gv' k = known s gv' k"
    using scheme_lawsD(1) [OF assms(1,2) _ assms(3)] by blast
  have "r s = Ok (s1, None)" using assms(5) s1(1) by simp
  then show ?thesis using must_add_Cons [OF assms(1)] s1 by blast
qed

lemma conversions_added:
  assumes "scheme_laws api known conv dflt" "distinct (type_pairs entries)"
    and "\<And>s. r s = Ok (register_conversions api entries s)"
  shows "\<exists>s1. must_add api (r # rs) s = must_add api rs s1 \<and> known s1 = known s \<and> dflt s1 = dflt s \<and>
    provides (conv s1) entries \<and> (\<forall>a b. (a, b) \<notin> set (type_pairs entries) \<longrightarrow> conv s1 a b = conv s a b)"
proof -
  obtain s1 where s1: "register_conversions api entries s = (s1, None)" "known s1 = known s" "dflt s1 = dflt s"
      "provides (conv s1) entries"
      "\<forall>a b. (a, b) \<notin> set (type_pairs entries) \<longrightarrow> conv s1 a b = conv s a b"
    using register_conversions_adds [OF assms(1,2)] by blast
  have "r s = Ok (s1, None)" using assms(3) s1(1) by simp
  then show ?thesis using must_add_Cons [OF assms(1)] s1 by blast
qed

lemma policy_scheme_complete:
  assumes laws: "scheme_laws api known conv dflt"
    and versions: "api_APIVersionInternal api \<notin> {'''', ''v1alpha1''}"
    and fresh: "\<And>gv. known s gv ''DynamicSchedulerPolicy'' = None"
  shows "\<exists>s'. policy_AddToScheme api s = Ok s' \<and>
    known s' (SchemeGroupVersion_policy api) ''DynamicSchedulerPolicy'' =
      Some (PolicyPkg, ''DynamicSchedulerPolicy'') \<and>
    known s' (SchemeGroupVersion_v1alpha1 api) ''DynamicSchedulerPolicy'' =
      Some (V1alpha1Pkg, ''DynamicSchedulerPolicy'') \<and>
    provides (conv s') conversions_v1alpha1"
proof -
  obtain s1 where s1: "must_add api (SchemeBuilder_policy api) s = Ok s1"
      "known s1 (SchemeGroupVersion_policy api) ''DynamicSchedulerPolicy'' =
        Some (PolicyPkg, ''DynamicSchedulerPolicy'')"
      "\<And>gv. gv \<noteq> SchemeGroupVersion_policy api \<Longrightarrow> known s1 gv ''DynamicSchedulerPolicy'' = None"
    using known_types_added [OF laws, where gv = "SchemeGroupVersion_policy api" and r = "addKnownTypes_policy api"
        and ts = "[(PolicyPkg, ''DynamicSchedulerPolicy'')]" and s = s and rs = "[]"] versions fresh
    by (auto simp: SchemeGroupVersion_policy_def addKnownTypes_policy_def SchemeBuilder_policy_def
        must_add_Nil [OF laws])
  have other: "SchemeGroupVersion_v1alpha1 api \<noteq> SchemeGroupVersion_policy api"
    using versions by (auto simp: SchemeGroupVersion_policy_def SchemeGroupVersion_v1alpha1_def)
  obtain s2 where s2: "must_add api (init_conversions_v1alpha1 api (SchemeBuilder_v1alpha1 api)) s1 =
        must_add api [RegisterConversions_v1alpha1 api] s2"
      "known s2 (SchemeGroupVersion_v1alpha1 api) ''DynamicSchedulerPolicy'' =
        Some (V1alpha1Pkg, ''DynamicSchedulerPolicy'')"
      "known s2 (SchemeGroupVersion_policy api) = known s1 (SchemeGroupVersion_policy api)"
    using known_types_added [OF laws, where gv = "SchemeGroupVersion_v1alpha1 api" and r = "addKnownTypes_v1alpha1 api"
        and ts = "[(V1alpha1Pkg, ''DynamicSchedulerPolicy'')]" and s = s1
        and rs = "[RegisterConversions_v1alpha1 api]"] s1(3) [OF other] other
    by (auto simp: SchemeGroupVersion_v1alpha1_def addKnownTypes_v1alpha1_def SchemeBuilder_v1alpha1_def
        init_conversions_v1alpha1_def fun_eq_iff)
  obtain s3 where "must_add api [RegisterConversions_v1alpha1 api] s2 = Ok s3" "known s3 = known s2"
      "provides (conv s3) conversions_v1alpha1"
    using conversions_added [OF laws conversion_types_distinct(1), where r = "RegisterConversions_v1alpha1 api"
        and s = s2 and rs = "[]"]
    by (auto simp: RegisterConversions_v1alpha1_def must_add_Nil [OF laws])
  then show ?thesis
    using s1(1,2) s2 by (auto simp: policy_AddToScheme_def)
qed

lemma defaults_added:
  assumes "scheme_laws api known conv dflt" "distinct (map fst entries)"
    and "\<And>s. r s = Ok (register_defaults api entries s, None)"
  shows "\<exists>s1. must_add api (r # rs) s = must_add api rs s1 \<and> known s1 = known s \<and> conv s1 = conv s \<and>
    dflt s1 = dflt s ++ map_of entries"
  using must_add_Cons [OF assms(1), where r = r, OF assms(3)] register_defaults_adds [OF assms(1,2)] by blast

text \<open>A version of the arguments is registered with its types, defaults and, twice, its conversions.\<close>

lemma version_added:
  assumes laws: "scheme_laws api known conv dflt" and ext: "list_all (neutral known conv dflt) ext"
    and gv: "gv_Version gv \<noteq> ''''" and fresh: "\<And>k. k \<in> set args_kinds \<Longrightarrow> known s gv k = None"
    and types: "\<And>s. r1 s = omap (\<lambda>s. (s, None)) (api_AddKnownTypes api gv (map (Pair pkg) args_kinds) s)"
    and defaults: "\<And>s. r2 s = Ok (register_defaults api ds s, None)" "distinct (map fst ds)"
    and conversions: "\<And>s. r3 s = Ok (register_conversions api cs s)" "distinct (type_pairs cs)"
  shows "\<exists>s'. must_add api (ext @ [r1, r2, r3, r3]) s = Ok s' \<and> provides (conv s') cs \<and>
    (\<forall>a b. (a, b) \<notin> set (type_pairs cs) \<longrightarrow> conv s' a b = conv s a b) \<and>
    dflt s' = dflt s ++ map_of ds \<and> (\<forall>k \<in> set args_kinds. known s' gv k = Some (pkg, k)) \<and>
    (\<forall>gv'. \<forall>k \<in> set args_kinds. gv' \<noteq> gv \<longrightarrow> known s' gv' k = known s gv' k)"
proof -
  obtain s1 where s1: "must_add api (ext @ [r1, r2, r3, r3]) s = must_add api [r1, r2, r3, r3] s1"
      "conv s1 = conv s" "dflt s1 = dflt s" "\<And>gv k. k \<in> set args_kinds \<Longrightarrow> known s1 gv k = known s gv k"
    using must_add_neutral [OF laws ext, where rs = "[r1, r2, r3, r3]" and s = s] by blast
  have distinct: "distinct (map snd (map (Pair pkg) args_kinds))" by (simp add: args_kinds_def)
  have "known s1 gv (snd t) = None" if "t \<in> set (map (Pair pkg) args_kinds)" for t
    using that s1(4) fresh by auto
  from known_types_added [OF laws gv distinct this types, where rs = "[r2, r3, r3]"]
  obtain s2 where s2: "must_add api [r1, r2, r3, r3] s1 = must_add api [r2, r3, r3] s2"
      "conv s2 = conv s1" "dflt s2 = dflt s1" "\<And>k. k \<in> set args_kinds \<Longrightarrow> known s2 gv k = Some (pkg, k)"
      "\<And>gv' k. gv' \<noteq> gv \<Longrightarrow> known s2 gv' k = known s1 gv' k"
    by auto
  obtain s3 where s3: "must_add api [r2, r3, r3] s2 = must_add api [r3, r3] s3" "known s3 = known s2"
      "conv s3 = conv s2" "dflt s3 = dflt s2 ++ map_of ds"
    using defaults_added [OF laws defaults(2,1)] by blast
  note once = conversions_added [OF laws conversions(2,1)]
  obtain s4 where s4: "must_add api [r3, r3] s3 = must_add api [r3] s4" "known s4 = known s3" "dflt s4 = dflt s3"
      "\<forall>a b. (a, b) \<notin> set (type_pairs cs) \<longrightarrow> conv s4 a b = conv s3 a b"
    using once [where rs = "[r3]" and s = s3] by blast
  obtain s5 where s5: "must_add api [r3] s4 = Ok s5" "known s5 = known s4" "dflt s5 = dflt s4"
      "provides (conv s5) cs" "\<forall>a b. (a, b) \<notin> set (type_pairs cs) \<longrightarrow> conv s5 a b = conv s4 a b"
    using once [where rs = "[]" and s = s4] must_add_Nil [OF laws] by metis
  show ?thesis
  proof (intro exI conjI)
    show "must_add api (ext @ [r1, r2, r3, r3]) s = Ok s5"
      by (simp only: s1(1) s2(1) s3(1) s4(1) s5(1))
    show "\<forall>a b. (a, b) \<notin> set (type_pairs cs) \<longrightarrow> conv s5 a b = conv s a b"
      using s5(5) s4(4) s3(3) s2(2) s1(2) by simp
    show "dflt s5 = dflt s ++ map_of ds"
      using s5(3) s4(3) s3(4) s2(3) s1(3) by simp
    show "\<forall>k \<in> set args_kinds. known s5 gv k = Some (pkg, k)"
      using s5(2) s4(2) s3(2) s2(4) by simp
    show "\<forall>gv'. \<forall>k \<in> set args_kinds. gv' \<noteq> gv \<longrightarrow> known s5 gv' k = known s gv' k"
      using s5(2) s4(2) s3(2) s2(5) s1(4) by simp
  qed (rule s5(4))
qed

lemma args_known_types:
  "addKnownTypes_config api s =
     omap (\<lambda>s. (s, None)) (api_AddKnownTypes api (SchemeGroupVersion_config api) (map (Pair ConfigPkg) args_kinds) s)"
  "addKnownTypes_v1beta2 api s =
     omap (\<lambda>s. (s, None)) (api_AddKnownTypes api (SchemeGroupVersion_v1beta2 api) (map (Pair V1beta2Pkg) args_kinds) s)"
  "addKnownTypes_v1beta3 api s =
     omap (\<lambda>s. (s, None)) (api_AddKnownTypes api (SchemeGroupVersion_v1beta3 api) (map (Pair V1beta3Pkg) args_kinds) s)"
  by (simp_all add: addKnownTypes_config_def addKnownTypes_v1beta2_def addKnownTypes_v1beta3_def args_kinds_def)

lemma internal_args_added:
  assumes laws: "scheme_laws api known conv dflt" and ext: "list_all (neutral known conv dflt) ext"
    and version: "api_APIVersionInternal api \<noteq> ''''"
    and fresh: "\<And>gv k. k \<in> set args_kinds \<Longrightarrow> known s gv k = None"
  shows "\<exists>s'. must_add api (init_register_config api ext) s = Ok s' \<and> dflt s' = dflt s \<and>
    (\<forall>k \<in> set args_kinds. known s' (SchemeGroupVersion_config api) k = Some (ConfigPkg, k)) \<and>
    (\<forall>gv. \<forall>k \<in> set args_kinds. gv \<noteq> SchemeGroupVersion_config api \<longrightarrow> known s' gv k = None)"
proof -
  let ?ts = "map (Pair ConfigPkg) args_kinds" and ?gv = "SchemeGroupVersion_config api"
  obtain s1 where s1: "must_add api (ext @ [addKnownTypes_config api]) s = must_add api [addKnownTypes_config api] s1"
      "dflt s1 = dflt s" "\<And>gv k. k \<in> set args_kinds \<Longrightarrow> known s1 gv k = None"
    using must_add_neutral [OF laws ext, where rs = "[addKnownTypes_config api]" and s = s] fresh by metis
  have none: "known s1 ?gv (snd t) = None" if "t \<in> set ?ts" for t
    using that s1(3) by auto
  have gv: "gv_Version ?gv \<noteq> ''''" and distinct: "distinct (map snd ?ts)"
    using version by (simp_all add: SchemeGroupVersion_config_def args_kinds_def)
  from known_types_added [OF laws gv distinct none args_known_types(1), where rs = "[]"]
  obtain s2 where "must_add api [addKnownTypes_config api] s1 = Ok s2" "dflt s2 = dflt s1"
      "\<forall>t \<in> set ?ts. known s2 ?gv (snd t) = Some t"
      "\<forall>gv' k. gv' \<noteq> ?gv \<or> k \<notin> snd ` set ?ts \<longrightarrow> known s2 gv' k = known s1 gv' k"
    unfolding must_add_Nil [OF laws] by blast
  moreover have "snd ` set ?ts = set args_kinds" by force
  ultimately show ?thesis
    using s1 unfolding init_register_config_def by (intro exI [of _ s2]) auto
qed

lemma provides_kept:
  "\<lbrakk>provides cs entries; \<And>a b. (a, b) \<in> set (type_pairs entries) \<Longrightarrow> cs' a b = cs a b\<rbrakk> \<Longrightarrow> provides cs' entries"
proof -
  assume cs: "provides cs entries" and same: "\<And>a b. (a, b) \<in> set (type_pairs entries) \<Longrightarrow> cs' a b = cs a b"
  have "cs' a b = Some f" if e: "(a, b, f) \<in> set entries" for a b f
  proof -
    have "(a, b) \<in> set (type_pairs entries)" using e by force
    then show ?thesis using same cs e by (auto simp: provides_def)
  qed
  then show "provides cs' entries" unfolding provides_def by blast
qed

lemma args_scheme_complete:
  assumes laws: "scheme_laws api known conv dflt"
    and ext: "list_all (neutral known conv dflt) (builder @ builder2 @ builder3)"
    and version: "api_APIVersionInternal api \<notin> {'''', ''v1beta2'', ''v1beta3''}"
    and fresh: "\<And>gv k. k \<in> set args_kinds \<Longrightarrow> known s gv k = None"
  shows "\<exists>s'. config_AddToScheme api from_ptr to_ptr builder builder2 builder3 s = Ok s' \<and>
    (\<forall>k \<in> set args_kinds. known s' (SchemeGroupVersion_config api) k = Some (ConfigPkg, k) \<and>
       known s' (SchemeGroupVersion_v1beta2 api) k = Some (V1beta2Pkg, k) \<and>
       known s' (SchemeGroupVersion_v1beta3 api) k = Some (V1beta3Pkg, k)) \<and>
    provides (conv s') (conversions_v1beta2 @ conversions_v1beta3 from_ptr to_ptr) \<and>
    dflt s' = dflt s ++ map_of (defaults_v1beta3 @ defaults_v1beta2)"
proof -
  let ?gv = "SchemeGroupVersion_config api" and ?gv2 = "SchemeGroupVersion_v1beta2 api"
    and ?gv3 = "SchemeGroupVersion_v1beta3 api"
  have gvs: "?gv2 \<noteq> ?gv" "?gv3 \<noteq> ?gv" "?gv3 \<noteq> ?gv2" "gv_Version ?gv2 \<noteq> ''''" "gv_Version ?gv3 \<noteq> ''''"
    using version by (auto simp: SchemeGroupVersion_config_def SchemeGroupVersion_v1beta2_def
        SchemeGroupVersion_v1beta3_def)
  obtain s1 where s1: "must_add api (init_register_config api builder) s = Ok s1" "dflt s1 = dflt s"
      "\<And>k. k \<in> set args_kinds \<Longrightarrow> known s1 ?gv k = Some (ConfigPkg, k)"
      "\<And>gv k. \<lbrakk>k \<in> set args_kinds; gv \<noteq> ?gv\<rbrakk> \<Longrightarrow> known s1 gv k = None"
    using internal_args_added [OF laws _ _ fresh, of builder] ext version by auto
  have "\<exists>s'. must_add api (builder2 @ [addKnownTypes_v1beta2 api, RegisterDefaults_v1beta2 api,
        RegisterConversions_v1beta2 api, RegisterConversions_v1beta2 api]) s1 = Ok s' \<and>
      provides (conv s') (conversions_v1beta2) \<and>
      (\<forall>a b. (a, b) \<notin> set (type_pairs (conversions_v1beta2)) \<longrightarrow> conv s' a b = conv s1 a b) \<and>
      dflt s' = dflt s1 ++ map_of defaults_v1beta2 \<and>
      (\<forall>k \<in> set args_kinds. known s' ?gv2 k = Some (V1beta2Pkg, k)) \<and>
      (\<forall>gv'. \<forall>k \<in> set args_kinds. gv' \<noteq> ?gv2 \<longrightarrow> known s' gv' k = known s1 gv' k)"
    using ext gvs s1(4)
    by (intro version_added [OF laws] default_types_distinct conversion_types_distinct)
      (simp_all add: args_known_types RegisterDefaults_v1beta2_def RegisterConversions_v1beta2_def)
  then have added2: "\<exists>s'. must_add api (init_conversions_v1beta2 api (init_register_v1beta2 api builder2)) s1 = Ok s' \<and>
      provides (conv s') (conversions_v1beta2) \<and>
      (\<forall>a b. (a, b) \<notin> set (type_pairs (conversions_v1beta2)) \<longrightarrow> conv s' a b = conv s1 a b) \<and>
      dflt s' = dflt s1 ++ map_of defaults_v1beta2 \<and>
      (\<forall>k \<in> set args_kinds. known s' ?gv2 k = Some (V1beta2Pkg, k)) \<and>
      (\<forall>gv'. \<forall>k \<in> set args_kinds. gv' \<noteq> ?gv2 \<longrightarrow> known s' gv' k = known s1 gv' k)"
    by (simp add: init_conversions_v1beta2_def init_register_v1beta2_def)
  obtain s2 where s2: "must_add api (init_conversions_v1beta2 api (init_register_v1beta2 api builder2)) s1 = Ok s2"
      "provides (conv s2) conversions_v1beta2" "dflt s2 = dflt s1 ++ map_of defaults_v1beta2"
      "\<And>k. k \<in> set args_kinds \<Longrightarrow> known s2 ?gv2 k = Some (V1beta2Pkg, k)"
      "\<And>gv k. \<lbrakk>k \<in> set args_kinds; gv \<noteq> ?gv2\<rbrakk> \<Longrightarrow> known s2 gv k = known s1 gv k"
    using added2 by blast
  have "\<exists>s'. must_add api (builder3 @ [addKnownTypes_v1beta3 api, RegisterDefaults_v1beta3 api,
        RegisterConversions_v1beta3 api from_ptr to_ptr, RegisterConversions_v1beta3 api from_ptr to_ptr]) s2 = Ok s' \<and>
      provides (conv s') (conversions_v1beta3 from_ptr to_ptr) \<and>
      (\<forall>a b. (a, b) \<notin> set (type_pairs (conversions_v1beta3 from_ptr to_ptr)) \<longrightarrow> conv s' a b = conv s2 a b) \<and>
      dflt s' = dflt s2 ++ map_of defaults_v1beta3 \<and>
      (\<forall>k \<in> set args_kinds. known s' ?gv3 k = Some (V1beta3Pkg, k)) \<and>
      (\<forall>gv'. \<forall>k \<in> set args_kinds. gv' \<noteq> ?gv3 \<longrightarrow> known s' gv' k = known s2 gv' k)"
    using ext gvs s1(4) s2(5)
    by (intro version_added [OF laws] default_types_distinct conversion_types_distinct)
      (simp_all add: args_known_types RegisterDefaults_v1beta3_def RegisterConversions_v1beta3_def)
  then have added3: "\<exists>s'. must_add api (init_conversions_v1beta3 api from_ptr to_ptr (init_register_v1beta3 api from_ptr to_ptr builder3)) s2 = Ok s' \<and>
      provides (conv s') (conversions_v1beta3 from_ptr to_ptr) \<and>
      (\<forall>a b. (a, b) \<notin> set (type_pairs (conversions_v1beta3 from_ptr to_ptr)) \<longrightarrow> conv s' a b = conv s2 a b) \<and>
      dflt s' = dflt s2 ++ map_of defaults_v1beta3 \<and>
      (\<forall>k \<in> set args_kinds. known s' ?gv3 k = Some (V1beta3Pkg, k)) \<and>
      (\<forall>gv'. \<forall>k \<in> set args_kinds. gv' \<noteq> ?gv3 \<longrightarrow> known s' gv' k = known s2 gv' k)"
    by (simp add: init_conversions_v1beta3_def init_register_v1beta3_def)
  obtain s3 where s3: "must_add api (init_conversions_v1beta3 api from_ptr to_ptr
          (init_register_v1beta3 api from_ptr to_ptr builder3)) s2 = Ok s3"
      "provides (conv s3) (conversions_v1beta3 from_ptr to_ptr)" "dflt s3 = dflt s2 ++ map_of defaults_v1beta3"
      "\<And>k. k \<in> set args_kinds \<Longrightarrow> known s3 ?gv3 k = Some (V1beta3Pkg, k)"
      "\<And>gv k. \<lbrakk>k \<in> set args_kinds; gv \<noteq> ?gv3\<rbrakk> \<Longrightarrow> known s3 gv k = known s2 gv k"
      "\<And>a b. (a, b) \<notin> set (type_pairs (conversions_v1beta3 from_ptr to_ptr)) \<Longrightarrow> conv s3 a b = conv s2 a b"
    using added3 by blast
  have "provides (conv s3) conversions_v1beta2"
  proof (intro provides_kept [OF s2(2)] s3(6))
    fix a b
    assume "(a, b) \<in> set (type_pairs conversions_v1beta2)"
    then show "(a, b) \<notin> set (type_pairs (conversions_v1beta3 from_ptr to_ptr))"
      using conversion_types_distinct(4) [of from_ptr to_ptr]
      unfolding all_conversions_def map_append distinct_append set_append by blast
  qed
  then show ?thesis
    using s1 s2 s3 gvs by (intro exI [of _ s3]) (auto simp: config_AddToScheme_def provides_def)
qed

section \<open>Properties\<close>

text \<open>C28. Every conversion the three packages register is well-typed and can be undone: the pairs of
  types are distinct, on objects of other types the type assertions panic, on objects of its
  types the conversion returns no error and an object of its target type, and the package registers a
  conversion back. There and back gives the object up to the type meta, which stays the caller's, except that an
  unset path of the \<open>v1beta3\<close> arguments comes back as a pointer to the empty string.\<close>

theorem registered_conversions_faithful:
  assumes "pointer_conversions from_ptr to_ptr"
  shows "list_all (faithful (all_conversions from_ptr to_ptr)) (all_conversions from_ptr to_ptr) \<and>
    distinct (type_pairs (all_conversions from_ptr to_ptr))"
proof -
  let ?all = "all_conversions from_ptr to_ptr"
  have "set conversions_v1alpha1 \<subseteq> set ?all" "set conversions_v1beta2 \<subseteq> set ?all"
    "set (conversions_v1beta3 from_ptr to_ptr) \<subseteq> set ?all"
    by (auto simp: all_conversions_def)
  then have "list_all (faithful ?all) (conversions_v1alpha1 @ conversions_v1beta2 @ conversions_v1beta3 from_ptr to_ptr)"
    using conversions_v1alpha1_faithful conversions_v1beta2_faithful conversions_v1beta3_faithful [OF assms]
    by (simp only: list_all_append)
  then show ?thesis
    by (simp only: all_conversions_def [symmetric] conversion_types_distinct(4))
qed

definition example_from_ptr :: "string option \<Rightarrow> string \<Rightarrow> string fallible" where
  "example_from_ptr p old = Inr (case p of None \<Rightarrow> '''' | Some s \<Rightarrow> s)"

definition example_to_ptr :: "string \<Rightarrow> string option \<Rightarrow> string option fallible" where
  "example_to_ptr s old = Inr (Some s)"

lemma example_pointers: "pointer_conversions example_from_ptr example_to_ptr"
  by (simp add: pointer_conversions_def example_from_ptr_def example_to_ptr_def)

theorem registered_conversions_faithful_witness:
  "let sync = SyncPolicyObj \<lparr>sync_Name = ''cpu'', sync_Period = 60\<rparr>;
       args = DynamicArgsV1beta3Obj \<lparr>dyn3_TypeMeta = no_meta, dyn3_PolicyConfigPath = Some ''policy.yaml''\<rparr>;
       unset = DynamicArgsV1beta3Obj \<lparr>dyn3_TypeMeta = no_meta, dyn3_PolicyConfigPath = None\<rparr>;
       out = DynamicArgsObj \<lparr>dyn_TypeMeta = no_meta, dyn_PolicyConfigPath = ''''\<rparr>
   in \<exists>f g b. ((V1beta3Pkg, ''DynamicArgs''), (ConfigPkg, ''DynamicArgs''), f)
         \<in> set (all_conversions example_from_ptr example_to_ptr) \<and>
       ((ConfigPkg, ''DynamicArgs''), (V1beta3Pkg, ''DynamicArgs''), g)
         \<in> set (all_conversions example_from_ptr example_to_ptr) \<and>
       f sync out = Panic InterfaceConversion \<and> f args out = Ok (Inr b) \<and>
       (\<exists>a. g b args = Ok (Inr a) \<and> strip_meta a = args) \<and>
       (\<exists>b' a. f unset out = Ok (Inr b') \<and> g b' args = Ok (Inr a) \<and>
          strip_meta a = DynamicArgsV1beta3Obj \<lparr>dyn3_TypeMeta = no_meta, dyn3_PolicyConfigPath = Some ''''\<rparr>)"
proof -
  obtain f where f: "((V1beta3Pkg, ''DynamicArgs''), (ConfigPkg, ''DynamicArgs''), f)
      \<in> set (all_conversions example_from_ptr example_to_ptr)"
    by (auto simp: all_conversions_def conversions_v1beta3_def)
  have "faithful (all_conversions example_from_ptr example_to_ptr)
      ((V1beta3Pkg, ''DynamicArgs''), (ConfigPkg, ''DynamicArgs''), f)"
    using registered_conversions_faithful [OF example_pointers] f unfolding list_all_iff by blast
  then obtain g where g: "((ConfigPkg, ''DynamicArgs''), (V1beta3Pkg, ''DynamicArgs''), g)
        \<in> set (all_conversions example_from_ptr example_to_ptr)"
      "\<And>a b a'. \<lbrakk>go_type a = (V1beta3Pkg, ''DynamicArgs''); go_type b = (ConfigPkg, ''DynamicArgs'');
          go_type a' = (V1beta3Pkg, ''DynamicArgs'')\<rbrakk> \<Longrightarrow>
        \<exists>b'. f a b = Ok (Inr b') \<and> (\<exists>a''. g b' a' = Ok (Inr a'') \<and> strip_meta a'' = strip_meta (restored a))"
    and other: "\<And>a b. go_type a \<noteq> (V1beta3Pkg, ''DynamicArgs'') \<Longrightarrow> f a b = Panic InterfaceConversion"
    unfolding faithful.simps by blast
  let ?args = "DynamicArgsV1beta3Obj \<lparr>dyn3_TypeMeta = no_meta, dyn3_PolicyConfigPath = Some ''policy.yaml''\<rparr>"
    and ?out = "DynamicArgsObj \<lparr>dyn_TypeMeta = no_meta, dyn_PolicyConfigPath = ''''\<rparr>"
  let ?unset = "DynamicArgsV1beta3Obj \<lparr>dyn3_TypeMeta = no_meta, dyn3_PolicyConfigPath = None\<rparr>"
  obtain b where "f ?args ?out = Ok (Inr b)" "\<exists>a. g b ?args = Ok (Inr a) \<and> strip_meta a = ?args"
    using g(2) [of ?args ?out ?args] by (auto simp: path_of_pointer_def)
  moreover obtain b' a' where "f ?unset ?out = Ok (Inr b')" "g b' ?args = Ok (Inr a')"
      "strip_meta a' = DynamicArgsV1beta3Obj \<lparr>dyn3_TypeMeta = no_meta, dyn3_PolicyConfigPath = Some ''''\<rparr>"
    using g(2) [of ?unset ?out ?args] by (auto simp: path_of_pointer_def)
  moreover have "f (SyncPolicyObj \<lparr>sync_Name = ''cpu'', sync_Period = 60\<rparr>) ?out = Panic InterfaceConversion"
    by (rule other) simp
  ultimately show ?thesis
    unfolding Let_def using f g(1) by blast
qed

text \<open>Building the two schemes succeeds when none of the kinds is taken, also though the conversions
  of \<open>v1beta2\<close> and \<open>v1beta3\<close> are registered twice. The policy scheme then knows the policy in both versions
  and holds all conversions of \<open>v1alpha1\<close>; the scheme of the arguments knows the three kinds in the
  internal version, \<open>v1beta2\<close> and \<open>v1beta3\<close> and holds their conversions and defaulting functions.\<close>

lemma schemes_hold_registrations:
  assumes "scheme_laws api known conv dflt"
    and "list_all (neutral known conv dflt) (builder @ builder2 @ builder3)"
    and "api_APIVersionInternal api \<notin> {'''', ''v1alpha1'', ''v1beta2'', ''v1beta3''}"
    and "\<And>gv. known s gv ''DynamicSchedulerPolicy'' = None"
    and "\<And>gv k. k \<in> set args_kinds \<Longrightarrow> known t gv k = None"
  shows "(\<exists>s'. policy_AddToScheme api s = Ok s' \<and>
      known s' (SchemeGroupVersion_policy api) ''DynamicSchedulerPolicy'' =
        Some (PolicyPkg, ''DynamicSchedulerPolicy'') \<and>
      known s' (SchemeGroupVersion_v1alpha1 api) ''DynamicSchedulerPolicy'' =
        Some (V1alpha1Pkg, ''DynamicSchedulerPolicy'') \<and>
      provides (conv s') conversions_v1alpha1) \<and>
    (\<exists>t'. config_AddToScheme api from_ptr to_ptr builder builder2 builder3 t = Ok t' \<and>
      (\<forall>k \<in> set args_kinds. known t' (SchemeGroupVersion_config api) k = Some (ConfigPkg, k) \<and>
         known t' (SchemeGroupVersion_v1beta2 api) k = Some (V1beta2Pkg, k) \<and>
         known t' (SchemeGroupVersion_v1beta3 api) k = Some (V1beta3Pkg, k)) \<and>
      provides (conv t') (conversions_v1beta2 @ conversions_v1beta3 from_ptr to_ptr) \<and>
      dflt t' = dflt t ++ map_of (defaults_v1beta3 @ defaults_v1beta2))"
proof (intro conjI)
  show "\<exists>s'. policy_AddToScheme api s = Ok s' \<and>
      known s' (SchemeGroupVersion_policy api) ''DynamicSchedulerPolicy'' =
        Some (PolicyPkg, ''DynamicSchedulerPolicy'') \<and>
      known s' (SchemeGroupVersion_v1alpha1 api) ''DynamicSchedulerPolicy'' =
        Some (V1alpha1Pkg, ''DynamicSchedulerPolicy'') \<and>
      provides (conv s') conversions_v1alpha1"
    by (rule policy_scheme_complete [OF assms(1)]) (use assms(3,4) in simp_all)
qed (rule args_scheme_complete [OF assms(1,2)]; use assms(3,5) in simp)

text \<open>A scheme with three maps.\<close>

type_synonym map_scheme =
  "(GroupVersion \<Rightarrow> string \<Rightarrow> api_type option) \<times> (api_type \<Rightarrow> api_type \<Rightarrow> conversion_func option) \<times>
   (api_type \<Rightarrow> defaulting_func option)"

primrec run_registrations :: "'s registration list \<Rightarrow> 's registration" where
  "run_registrations [] s = Ok (s, None)"
| "run_registrations (r # rs) s =
     obind (r s) (\<lambda>(s', err). if err = None then run_registrations rs s' else Ok (s', err))"

definition map_scheme_api :: "map_scheme scheme_api" where
  "map_scheme_api =
     \<lparr>api_AddKnownTypes = (\<lambda>gv ts (k, c, d). Ok (k(gv := k gv ++ map_of (map (\<lambda>t. (snd t, t)) ts)), c, d)),
      api_AddGeneratedConversionFunc = (\<lambda>a b f (k, c, d). ((k, c(a := (c a)(b \<mapsto> f)), d), None)),
      api_AddTypeDefaultingFunc = (\<lambda>a f (k, c, d). (k, c, d(a \<mapsto> f))),
      api_AddToScheme = run_registrations,
      api_Must = (\<lambda>err. if err = None then Ok () else Panic InterfaceConversion),
      api_GroupName = ''kubescheduler.config.k8s.io'',
      api_APIVersionInternal = ''__internal''\<rparr>"

lemma map_of_kinds:
  "\<lbrakk>distinct (map snd ts); t \<in> set ts\<rbrakk> \<Longrightarrow> map_of (map (\<lambda>t. (snd t, t)) ts) (snd t) = Some t"
  by (rule map_of_is_SomeI) (auto simp: comp_def)

lemma map_of_other_kind: "k \<notin> snd ` set ts \<Longrightarrow> map_of (map (\<lambda>t. (snd t, t)) ts) k = None"
  by (simp add: map_of_eq_None_iff image_image)

lemma map_scheme_api_simps:
  "api_AddKnownTypes map_scheme_api gv ts (k, c, d) = Ok (k(gv := k gv ++ map_of (map (\<lambda>t. (snd t, t)) ts)), c, d)"
  "api_AddGeneratedConversionFunc map_scheme_api a b f (k, c, d) = ((k, c(a := (c a)(b \<mapsto> f)), d), None)"
  "api_AddTypeDefaultingFunc map_scheme_api x h (k, c, d) = (k, c, d(x \<mapsto> h))"
  "api_AddToScheme map_scheme_api = run_registrations" "api_Must map_scheme_api None = Ok ()"
  by (simp_all add: map_scheme_api_def)

lemma map_scheme_laws: "scheme_laws map_scheme_api fst (\<lambda>s. fst (snd s)) (\<lambda>s. snd (snd s))"
  unfolding scheme_laws_def map_scheme_api_simps(4)
  by (auto simp: map_scheme_api_simps map_of_kinds map_of_other_kind map_add_def
      split: option.split)

lemma schemes_hold_registrations_witness:
  "let empty = (\<lambda>gv k. None, \<lambda>a b. None, \<lambda>a. None)
   in (\<exists>s. policy_AddToScheme map_scheme_api empty = Ok s \<and> provides (fst (snd s)) conversions_v1alpha1) \<and>
      (\<exists>t. config_AddToScheme map_scheme_api example_from_ptr example_to_ptr [] [] [] empty = Ok t \<and>
        provides (fst (snd t)) conversions_v1beta2)"
proof -
  let ?empty = "(\<lambda>gv k. None, \<lambda>a b. None, \<lambda>a. None) :: map_scheme"
  have "api_APIVersionInternal map_scheme_api \<notin> {'''', ''v1alpha1'', ''v1beta2'', ''v1beta3''}"
    by (simp add: map_scheme_api_def)
  from schemes_hold_registrations [OF map_scheme_laws _ this, where s = ?empty and t = ?empty
      and builder = "[]" and ?builder2.0 = "[]" and ?builder3.0 = "[]"
      and from_ptr = example_from_ptr and to_ptr = example_to_ptr]
  show ?thesis by (auto simp: provides_def)
qed

end
