(* ===== verification/Scheduler_App.thy ===== *)
theory Scheduler_App
  imports Api_Scheme Dynamic_Plugin Ara_Plugin Numa_Topology
begin

text \<open>
  \<open>cmd/scheduler/main.go\<close> and \<open>pkg/plugins/metrics\<close>: the plugins the scheduler is started with, under their
  names, and the metrics their constructors register. The scheduler command and the metrics
  registry are libraries: they are the parameters \<open>execute\<close> and \<open>must_register\<close>, over a type of
  registries \<open>'r\<close>. Setting a metric afterwards has no effect the plugins read.
\<close>

section \<open>metrics.go\<close>

datatype metric_kind = GaugeVec | CounterVec

record metric =
  metric_kind :: metric_kind
  metric_Subsystem :: string
  metric_Name :: string
  metric_Help :: string
  metric_labels :: "string list"

abbreviation DynamicSchedulerSubsystem :: string where
  "DynamicSchedulerSubsystem \<equiv> ''scheduler_dynamic''"

definition DynamicPriorityAvailableNodesNumber :: metric where
  "DynamicPriorityAvailableNodesNumber =
     \<lparr>metric_kind = GaugeVec, metric_Subsystem = DynamicSchedulerSubsystem,
      metric_Name = ''priority_available_nodes_number'', metric_Help = ''Number of available nodes for priority'',
      metric_labels = [''extension_point'']\<rparr>"

definition RegisterDynamicSchedulerMetrics :: "(metric \<Rightarrow> 'r \<Rightarrow> 'r outcome) \<Rightarrow> 'r \<Rightarrow> 'r outcome" where
  "RegisterDynamicSchedulerMetrics must_register reg = must_register DynamicPriorityAvailableNodesNumber reg"

abbreviation ApplicationResourceAwareSubsystem :: string where
  "ApplicationResourceAwareSubsystem \<equiv> ''scheduler_ara''"

definition ApplicationResourceAwareFilterFiltedNodes :: metric where
  "ApplicationResourceAwareFilterFiltedNodes =
     \<lparr>metric_kind = CounterVec, metric_Subsystem = ApplicationResourceAwareSubsystem,
      metric_Name = ''filter_filted_nodes_total'', metric_Help = ''Number of filted nodes for filter'',
      metric_labels = [''extension_point'', ''node'']\<rparr>"

definition RegisterAraSchedulerMetrics :: "(metric \<Rightarrow> 'r \<Rightarrow> 'r outcome) \<Rightarrow> 'r \<Rightarrow> 'r outcome" where
  "RegisterAraSchedulerMetrics must_register reg = must_register ApplicationResourceAwareFilterFiltedNodes reg"

section \<open>Plugins\<close>

datatype 'q plugin =
    DynamicPlugin DynamicScheduler
  | TopologyPlugin "'q TopologyMatch"
  | AraPlugin ApplicationResourceAware

definition Dynamic_Name :: "DynamicScheduler \<Rightarrow> string" where
  "Dynamic_Name ds = ''Dynamic''"

definition Topology_Name :: "'q TopologyMatch \<Rightarrow> string" where
  "Topology_Name tm = ''NodeResourceTopologyMatch''"

definition Ara_Name :: "ApplicationResourceAware \<Rightarrow> string" where
  "Ara_Name ara = ''ApplicationResourceAware''"

fun plugin_Name :: "'q plugin \<Rightarrow> string" where
  "plugin_Name (DynamicPlugin ds) = Dynamic_Name ds"
| "plugin_Name (TopologyPlugin tm) = Topology_Name tm"
| "plugin_Name (AraPlugin ara) = Ara_Name ara"

text \<open>The constructors with their effect on the metrics registry: the metrics are registered once the
  policy is loaded, so a failing constructor registers nothing.\<close>

definition register_on_success ::
  "('r \<Rightarrow> 'r outcome) \<Rightarrow> ('a \<Rightarrow> 'q plugin) \<Rightarrow> 'a fallible \<Rightarrow> 'r \<Rightarrow> ('q plugin fallible \<times> 'r) outcome" where
  "register_on_success register plugin result reg =
     (case result of
        Inl err \<Rightarrow> Ok (Inl err, reg)
      | Inr x \<Rightarrow> omap (\<lambda>reg. (Inr (plugin x), reg)) (register reg))"

record ('q, 'r) scheduler_env =
  env_load :: "string \<Rightarrow> DynamicSchedulerPolicy fallible"
  env_topology_client :: "'q topology_client fallible"
  env_must_register :: "metric \<Rightarrow> 'r \<Rightarrow> 'r outcome"

type_synonym ('q, 'r) plugin_factory =
  "('q, 'r) scheduler_env \<Rightarrow> runtime_object \<Rightarrow> 'r \<Rightarrow> ('q plugin fallible \<times> 'r) outcome"

definition dynamic_factory :: "('q, 'r) plugin_factory" where
  "dynamic_factory e args =
     register_on_success (RegisterDynamicSchedulerMetrics (env_must_register e)) DynamicPlugin
       (NewDynamicScheduler (env_load e) args)"

definition topology_factory :: "('q, 'r) plugin_factory" where
  "topology_factory e args reg = Ok (map_sum id TopologyPlugin (TopologyMatch_New (env_topology_client e) args), reg)"

definition ara_factory :: "('q, 'r) plugin_factory" where
  "ara_factory e args =
     register_on_success (RegisterAraSchedulerMetrics (env_must_register e)) AraPlugin (Ara_New (env_load e) args)"

section \<open>main.go\<close>

definition scheduler_plugins :: "(string \<times> ('q, 'r) plugin_factory) list" where
  "scheduler_plugins =
     [(''Dynamic'', dynamic_factory), (''NodeResourceTopologyMatch'', topology_factory),
      (''ApplicationResourceAware'', ara_factory)]"

text \<open>The exit code of the process and what it prints to the standard error.\<close>

definition scheduler_main ::
  "((string \<times> ('q, 'r) plugin_factory) list \<Rightarrow> go_error option) \<Rightarrow> int \<times> string" where
  "scheduler_main execute =
     (case execute scheduler_plugins of
        Some err \<Rightarrow> (1, err_text err @ [CHR 0x0A])
      | None \<Rightarrow> (0, ''''))"

section \<open>Default arguments\<close>

text \<open>An object a constructor is given, as the interface value it receives.\<close>

fun as_runtime_object :: "api_object \<Rightarrow> runtime_object" where
  "as_runtime_object (DynamicArgsObj x) = DynamicArgsObject x"
| "as_runtime_object (NodeResourceTopologyMatchArgsObj x) = TopologyArgsObject x"
| "as_runtime_object (ApplicationResourceAwareArgsObj x) = AraArgsObject x"
| "as_runtime_object a = OtherArgsObject (snd (go_type a))"

text \<open>The zero value of a type of arguments.\<close>

fun zero_args :: "api_package \<Rightarrow> string \<Rightarrow> api_object option" where
  "zero_args pkg kind =
     map_of
       [((ConfigPkg, ''DynamicArgs''), DynamicArgsObj \<lparr>dyn_TypeMeta = no_meta, dyn_PolicyConfigPath = ''''\<rparr>),
        ((ConfigPkg, ''NodeResourceTopologyMatchArgs''), NodeResourceTopologyMatchArgsObj
          \<lparr>nrt_TypeMeta = no_meta, nrt_TopologyAwareResources = []\<rparr>),
        ((ConfigPkg, ''ApplicationResourceAwareArgs''), ApplicationResourceAwareArgsObj
          \<lparr>ara_TypeMeta = no_meta, ara_PolicyConfigPath = ''''\<rparr>),
        ((V1beta2Pkg, ''DynamicArgs''), DynamicArgsV1beta2Obj \<lparr>dyn2_TypeMeta = no_meta, dyn2_PolicyConfigPath = ''''\<rparr>),
        ((V1beta2Pkg, ''NodeResourceTopologyMatchArgs''), NodeResourceTopologyMatchArgsV1beta2Obj
          \<lparr>nrt2_TypeMeta = no_meta, nrt2_TopologyAwareResources = []\<rparr>),
        ((V1beta2Pkg, ''ApplicationResourceAwareArgs''), ApplicationResourceAwareArgsV1beta2Obj
          \<lparr>ara2_TypeMeta = no_meta, ara2_PolicyConfigPath = ''''\<rparr>),
        ((V1beta3Pkg, ''DynamicArgs''), DynamicArgsV1beta3Obj \<lparr>dyn3_TypeMeta = no_meta, dyn3_PolicyConfigPath = None\<rparr>),
        ((V1beta3Pkg, ''NodeResourceTopologyMatchArgs''), NodeResourceTopologyMatchArgsV1beta3Obj
          \<lparr>nrt3_TypeMeta = no_meta, nrt3_TopologyAwareResources = []\<rparr>),
        ((V1beta3Pkg, ''ApplicationResourceAwareArgs''), ApplicationResourceAwareArgsV1beta3Obj
          \<lparr>ara3_TypeMeta = no_meta, ara3_PolicyConfigPath = None\<rparr>)] (pkg, kind)"

text \<open>Decoding an empty object of a version: it is defaulted and then converted to the internal type, by the
  functions registered for it. The order is that of the decoder of apimachinery, which is not part of the repository.\<close>

definition decode_empty ::
  "(string option \<Rightarrow> string \<Rightarrow> string fallible) \<Rightarrow> (string \<Rightarrow> string option \<Rightarrow> string option fallible) \<Rightarrow>
   api_package \<Rightarrow> string \<Rightarrow> api_object fallible outcome option" where
  "decode_empty from_ptr to_ptr pkg kind =
     Option.bind (zero_args pkg kind) (\<lambda>empty.
     Option.bind (zero_args ConfigPkg kind) (\<lambda>target.
     Option.bind (map_of (defaults_v1beta2 @ defaults_v1beta3) (pkg, kind)) (\<lambda>set_defaults.
     Option.bind (map_of (map (\<lambda>(a, b, f). ((a, b), f)) (all_conversions from_ptr to_ptr))
         ((pkg, kind), (ConfigPkg, kind))) (\<lambda>convert.
       Some (obind (set_defaults empty) (\<lambda>obj. convert obj target))))))"

section \<open>Lemmas\<close>

lemmas factory_defs =
  dynamic_factory_def topology_factory_def ara_factory_def register_on_success_def
  NewDynamicScheduler_def TopologyMatch_New_def Ara_New_def
  RegisterDynamicSchedulerMetrics_def RegisterAraSchedulerMetrics_def

text \<open>What each plugin gets from an empty object of either version.\<close>

lemmas decode_empty_defs =
  decode_empty_def all_conversions_def conversions_v1alpha1_def conversions_v1beta2_def conversions_v1beta3_def
  defaults_v1beta2_def defaults_v1beta3_def conversion_closure_def defaulting_closure_def never_fails_def
  args_conversion_defs pointer_conversions_def
  as_DynamicArgs_def as_DynamicArgsV1beta2_def as_DynamicArgsV1beta3_def
  as_NodeResourceTopologyMatchArgs_def as_NodeResourceTopologyMatchArgsV1beta2_def
  as_NodeResourceTopologyMatchArgsV1beta3_def as_ApplicationResourceAwareArgs_def
  as_ApplicationResourceAwareArgsV1beta2_def as_ApplicationResourceAwareArgsV1beta3_def
  SetObjectDefaults_DynamicArgs_v1beta2_def SetObjectDefaults_DynamicArgs_v1beta3_def
  SetObjectDefaults_NodeResourceTopologyMatchArgs_v1beta2_def
  SetObjectDefaults_NodeResourceTopologyMatchArgs_v1beta3_def
  SetObjectDefaults_ApplicationResourceAwareArgs_v1beta2_def
  SetObjectDefaults_ApplicationResourceAwareArgs_v1beta3_def
  SetDefaults_DynamicArgs_v1beta2_def SetDefaults_DynamicArgs_v1beta3_def
  SetDefaults_NodeResourceTopologyMatchArgs_v1beta2_def SetDefaults_NodeResourceTopologyMatchArgs_v1beta3_def
  SetDefaults_ApplicationResourceAwareArgs_v1beta2_def SetDefaults_ApplicationResourceAwareArgs_v1beta3_def

lemma decode_empty_args:
  assumes "pointer_conversions from_ptr to_ptr" "pkg \<in> {V1beta2Pkg, V1beta3Pkg}"
  shows "decode_empty from_ptr to_ptr pkg ''DynamicArgs'' =
      Some (Ok (Inr (DynamicArgsObj \<lparr>dyn_TypeMeta = no_meta, dyn_PolicyConfigPath = default_policy_path\<rparr>)))"
    and "decode_empty from_ptr to_ptr pkg ''NodeResourceTopologyMatchArgs'' =
      Some (Ok (Inr (NodeResourceTopologyMatchArgsObj \<lparr>nrt_TypeMeta = no_meta, nrt_TopologyAwareResources = [''cpu'']\<rparr>)))"
    and "decode_empty from_ptr to_ptr pkg ''ApplicationResourceAwareArgs'' =
      Some (Ok (Inr (ApplicationResourceAwareArgsObj \<lparr>ara_TypeMeta = no_meta, ara_PolicyConfigPath = default_policy_path\<rparr>)))"
  using assms by (auto simp: decode_empty_defs)

section \<open>Properties\<close>

text \<open>C29. Every plugin the scheduler registers can be configured with an empty object of either version: the
  kind with the plugin's name is registered, its defaulting function and its conversion return the internal
  arguments, the plugin's constructor accepts them and, when the default policy file and the topology lister can be had,
  returns a plugin of that name. It accepts no object of any other registered type.\<close>

theorem default_plugins_built:
  assumes "pointer_conversions from_ptr to_ptr"
    and "pkg \<in> {V1beta2Pkg, V1beta3Pkg}"
    and "(name, factory) \<in> set scheduler_plugins"
    and "env_load e default_policy_path = Inr policy" and "env_topology_client e = Inr lister"
    and "\<And>m. env_must_register e m reg = Ok (reg' m)"
  shows "name @ ''Args'' \<in> set args_kinds \<and>
    (\<exists>args p reg1. decode_empty from_ptr to_ptr pkg (name @ ''Args'') = Some (Ok (Inr args)) \<and>
       factory e (as_runtime_object args) reg = Ok (Inr p, reg1) \<and> plugin_Name p = name) \<and>
    (\<forall>a. go_type a \<noteq> (ConfigPkg, name @ ''Args'') \<longrightarrow>
       (\<exists>err. factory e (as_runtime_object a) reg = Ok (Inl err, reg)))"
proof -
  have rejects: "\<exists>err. factory e (as_runtime_object a) reg = Ok (Inl err, reg)"
    if "go_type a \<noteq> (ConfigPkg, name @ ''Args'')" for a
    using assms(3) that by (cases a) (auto simp: scheduler_plugins_def factory_defs)
  have "name @ ''Args'' \<in> set args_kinds"
    using assms(3) by (auto simp: scheduler_plugins_def args_kinds_def)
  moreover have "\<exists>args p reg1. decode_empty from_ptr to_ptr pkg (name @ ''Args'') = Some (Ok (Inr args)) \<and>
       factory e (as_runtime_object args) reg = Ok (Inr p, reg1) \<and> plugin_Name p = name"
    using assms(3-6) decode_empty_args [OF assms(1,2)]
    by (auto simp: scheduler_plugins_def factory_defs Dynamic_Name_def Topology_Name_def Ara_Name_def)
  ultimately show ?thesis using rejects by blast
qed

text \<open>What \<open>legacyregistry.MustRegister\<close> documents: a metric that is already registered makes it panic.\<close>

definition registry_law :: "(metric \<Rightarrow> 'r \<Rightarrow> 'r outcome) \<Rightarrow> ('r \<Rightarrow> metric set) \<Rightarrow> bool" where
  "registry_law must_register registered \<longleftrightarrow>
     (\<forall>m reg. if m \<in> registered reg then must_register m reg = Panic DuplicateMetric
        else (\<exists>reg'. must_register m reg = Ok reg' \<and> registered reg' = insert m (registered reg)))"

lemma register_twice:
  assumes law: "registry_law must_register registered" and register: "\<And>reg. register reg = must_register m reg"
    and first: "register_on_success register plugin result reg = Ok (Inr p, reg1)"
    and kept: "registered reg1 \<subseteq> registered reg2"
    and second: "register_on_success register plugin result2 reg0 = Ok (Inr p2, reg0')"
  shows "register_on_success register plugin result2 reg2 = Panic DuplicateMetric"
proof -
  have "must_register m reg = Ok reg1"
    using first by (cases result; cases "must_register m reg") (auto simp: register_on_success_def register)
  then have "m \<in> registered reg1"
    using law unfolding registry_law_def by (metis insertI1 outcome.distinct(1) outcome.inject(1))
  then have "must_register m reg2 = Panic DuplicateMetric"
    using law kept unfolding registry_law_def by (metis subsetD)
  moreover obtain y where "result2 = Inr y"
    using second by (cases result2) (auto simp: register_on_success_def)
  ultimately show ?thesis by (simp add: register_on_success_def register)
qed

text \<open>C32. The constructors of the plugins \<open>Dynamic\<close> and \<open>ApplicationResourceAware\<close> register their metric
  each time they are called. A scheduler with two profiles that enable such a plugin calls its constructor
  twice; the second call, whatever registrations of other metrics came between, panics where it would otherwise
  return a plugin.\<close>

theorem second_profile_panics:
  assumes "registry_law (env_must_register e) registered"
    and "factory \<in> {dynamic_factory, ara_factory}"
    and "factory e args reg = Ok (Inr p, reg1)"
    and "registered reg1 \<subseteq> registered reg2"
    and "factory e args2 reg0 = Ok (Inr p2, reg0')"
  shows "factory e args2 reg2 = Panic DuplicateMetric"
proof -
  consider "factory = dynamic_factory" | "factory = ara_factory" using assms(2) by blast
  then show ?thesis
  proof cases
    case 1
    show ?thesis
      using register_twice [where register = "RegisterDynamicSchedulerMetrics (env_must_register e)"
          and m = DynamicPriorityAvailableNodesNumber, OF assms(1) RegisterDynamicSchedulerMetrics_def _ assms(4)] assms(3,5)
      by (simp add: 1 dynamic_factory_def)
  next
    case 2
    show ?thesis
      using register_twice [where register = "RegisterAraSchedulerMetrics (env_must_register e)"
          and m = ApplicationResourceAwareFilterFiltedNodes, OF assms(1) RegisterAraSchedulerMetrics_def _ assms(4)] assms(3,5)
      by (simp add: 2 ara_factory_def)
  qed
qed

definition example_register :: "metric \<Rightarrow> metric list \<Rightarrow> metric list outcome" where
  "example_register m reg = (if m \<in> set reg then Panic DuplicateMetric else Ok (m # reg))"

definition example_scheduler_env :: "(int, metric list) scheduler_env" where
  "example_scheduler_env =
     \<lparr>env_load = (\<lambda>path. Inr (ds_schedulerPolicy example_scheduler)), env_topology_client = Inr (\<lambda>node. Inl (Plain node)),
      env_must_register = example_register\<rparr>"

abbreviation example_dynamic_args :: runtime_object where
  "example_dynamic_args \<equiv> DynamicArgsObject \<lparr>dyn_TypeMeta = no_meta, dyn_PolicyConfigPath = default_policy_path\<rparr>"

lemma example_first_profile:
  "\<exists>p. dynamic_factory example_scheduler_env example_dynamic_args [] =
     Ok (Inr p, [DynamicPriorityAvailableNodesNumber])"
  by (simp add: factory_defs example_scheduler_env_def example_register_def)

theorem default_plugins_built_witness:
  "\<exists>args p reg1. decode_empty example_from_ptr example_to_ptr V1beta3Pkg ''DynamicArgs'' = Some (Ok (Inr args)) \<and>
     dynamic_factory example_scheduler_env (as_runtime_object args) [] = Ok (Inr p, reg1) \<and> plugin_Name p = ''Dynamic''"
proof -
  have "V1beta3Pkg \<in> {V1beta2Pkg, V1beta3Pkg}" "(''Dynamic'', dynamic_factory) \<in> set scheduler_plugins"
    "env_load example_scheduler_env default_policy_path = Inr (ds_schedulerPolicy example_scheduler)"
    "env_topology_client example_scheduler_env = Inr (\<lambda>node. Inl (Plain node))"
    "\<And>m. env_must_register example_scheduler_env m [] = Ok [m]"
    by (simp_all add: scheduler_plugins_def example_scheduler_env_def example_register_def)
  from default_plugins_built [OF example_pointers this] show ?thesis by simp
qed

theorem second_profile_panics_witness:
  "\<exists>p reg. dynamic_factory example_scheduler_env example_dynamic_args [] = Ok (Inr p, reg) \<and>
     dynamic_factory example_scheduler_env example_dynamic_args reg = Panic DuplicateMetric"
proof -
  have law: "registry_law (env_must_register example_scheduler_env) set"
    by (simp add: registry_law_def example_scheduler_env_def example_register_def)
  obtain p where p: "dynamic_factory example_scheduler_env example_dynamic_args [] =
      Ok (Inr p, [DynamicPriorityAvailableNodesNumber])"
    using example_first_profile by blast
  have "dynamic_factory \<in> {dynamic_factory, ara_factory}" by simp
  from second_profile_panics [where factory = dynamic_factory and registered = set, OF law this p subset_refl p] p
  show ?thesis by blast
qed

end
