(* ===== verification/Spec2Isabelle.thy ===== *)
theory Spec2Isabelle
  imports Go_Prelude Go_Float Go_Heap Go_Strconv Go_Time Kube_Types Policy_Api Plugin_Args Crane_Utils
    Binding_Records Dynamic_Plugin Ara_Plugin Prom_Client Node_Annotator Annotation_Store Annotator_Run Work_Queue
    Patch_Texts Cluster_Run Controller_App Pod_Topology_Cache Numa_Topology Numa_Run Go_Memory Deep_Copy Api_Scheme Scheduler_App
begin

text \<open>
  \<^bold>\<open>A verification of crane-scheduler.\<close> The repository extends the Kubernetes scheduler with three plugins
  and a controller that feeds them.

  \<^bold>\<open>The program.\<close>

  \<^item> The annotator (\<open>pkg/controller/annotator\<close>) asks Prometheus (\<open>pkg/controller/prometheus\<close>) for the load of
    nodes and deployments and writes it, with a time stamp, into annotations. It records where pods were bound, writes
    a hot value for recently used nodes, and keeps deltas: the usage of pods that were bound or deleted since
    the last measurement. \<open>cmd/controller\<close> configures and starts it.
  \<^item> The plugin \<open>Dynamic\<close> (\<open>pkg/plugins/dynamic\<close>) reads the annotations, rejects overloaded nodes and scores
    the others; it keeps its own log of bindings.
  \<^item> The plugin \<open>ApplicationResourceAware\<close> (\<open>pkg/plugins/applicationresourceaware\<close>) predicts the load of a node
    over a day from ranges of usages.
  \<^item> The plugin \<open>NodeResourceTopologyMatch\<close> (\<open>pkg/plugins/noderesourcetopology\<close>) places the CPUs of a pod on the
    NUMA nodes of a host and remembers assignments that are not bound yet.
  \<^item> \<open>pkg/utils\<close> fixes the format of annotations; \<open>pkg/plugins/apis\<close> holds policies, plugin arguments, their
    versions and conversions.

  The parts meet in the annotations of nodes and deployments, which the annotator writes and the plugins read, and in
  the log of bindings, a type that the annotator and the dynamic plugin share.

  \<^bold>\<open>The language and its library.\<close> \<open>Go_Prelude\<close>: how a call ends (a value or a run-time panic), error values,
  64-bit integers with their wrap-around, \<open>strings.Split\<close> and its inverse. \<open>Go_Float\<close>: \<open>float64\<close> with rounding to nearest
  even, infinities, NaN and signed zeros, computed on rationals; rounding is monotone, exact on representable
  values and has an error bound. \<open>Go_Heap\<close>: \<open>container/heap\<close> on a slice, shown to be a priority queue (a locale,
  interpreted on the heap operations). \<open>Go_Strconv\<close>: printing with five decimals and \<open>ParseFloat\<close> with its whole
  grammar, and their round trip. \<open>Go_Time\<close>: the calendar, formatting and parsing of time stamps in a location, and
  their round trip. \<open>Kube_Types\<close>: the fields of Kubernetes objects that the code reads, annotations, statuses, patches, and
  the record \<open>sys\<close> of what a process sees of its host (clock, environment, time zones).

  \<^bold>\<open>The components.\<close>

  \<^item> \<open>Policy_Api\<close>, \<open>Plugin_Args\<close>: the types of \<open>apis/policy\<close> and \<open>apis/config\<close> in all versions, defaults, generated
    conversions, \<open>policyfile.go\<close>. The conversions are inverse to each other and defaulting is idempotent.
  \<^item> \<open>Go_Memory\<close>, \<open>Deep_Copy\<close>: the generated \<open>DeepCopyInto\<close>, \<open>DeepCopy\<close> and \<open>DeepCopyObject\<close> of all those types over an
    explicit memory of arrays with slices and string pointers into it. The locale \<open>deep_copy\<close> is the contract of a copy; it is
    closed under sequences of fields and under structs, and interpreted on every generated copy: a copy reads
    the same, lies in fresh arrays, and neither side sees writes through the other. The conversions in memory refine
    those on values and share their arrays, and so does the defaulting of the topology arguments.
  \<^item> \<open>Api_Scheme\<close>: what the packages register with the schemes (\<open>register.go\<close>, \<open>zz_generated.*\<close>, \<open>scheme.go\<close>): types, closures with
    their type assertions, builders. Registered conversions are well-typed and come in inverse pairs, building both
    schemes succeeds and makes everything available. The locale \<open>api_kind\<close> is the contract of a registered type,
    interpreted on all twenty-one of them.
  \<^item> \<open>Crane_Utils\<close>: every function of \<open>utils.go\<close>. The locale \<open>annotation_reader\<close> is the contract of the readers of
    annotations, interpreted on \<open>GetResourceUsage\<close> and \<open>GetResourceUsageRange\<close>. Merging usage ranges is exact decimal
    arithmetic although it is computed with floats.
  \<^item> \<open>Binding_Records\<close>: \<open>binding.go\<close>. The log is a heap of bounded size; it refines a multiset of bindings, recycling and
    counting are exact, and at capacity an oldest binding goes first.
  \<^item> \<open>Dynamic_Plugin\<close>: \<open>plugins.go\<close> and \<open>stats.go\<close> of the dynamic plugin: \<open>Filter\<close>, \<open>PreScore\<close>, \<open>Score\<close>, \<open>PostBind\<close>, the
    constructor and its collector. The decision of the filter, the range of the score, monotonicity in load and
    bindings through all roundings, and where the score fails.
  \<^item> \<open>Ara_Plugin\<close>: the filter of the application plugin; its decision, and its division by a zero capacity.
  \<^item> \<open>Prom_Client\<close>: the queries of \<open>prometheus.go\<close>, the cleaning of samples and the range of the previous day.
  \<^item> \<open>Node_Annotator\<close>: the reconcilers of \<open>node.go\<close>, \<open>deployment.go\<close>, \<open>event.go\<close>, \<open>pod.go\<close> and the constructor of
    \<open>controller.go\<close>; each returns the patches it sends, its result and the calls on its queue.
  \<^item> \<open>Annotation_Store\<close>: what the API server does with those patches (\<open>applies_json_patch\<close>, a hypothesis that a concrete
    reader of the patches satisfies), and what a reader finds after a write: loads, hot values, deltas, their reset.
  \<^item> \<open>Annotator_Run\<close>: worker loops, tickers, event handlers and \<open>Controller.Run\<close>, and the reachable states of the
    controller as an inductive predicate over all interleavings of its activities. No step panics, every patch has the
    shape of a stamped one, and a worker ends exactly when its queue is shut down.
  \<^item> \<open>Work_Queue\<close>: one key of the node controller over its deliveries by the rate-limited queue, with everything else changing
    in between; what each delivery does on every branch, and at which delivery the key is done.
  \<^item> \<open>Patch_Texts\<close>: the texts of the patches, read as JSON (\<open>json_patch\<close>). The annotator pastes names and values without
    escaping; when these need none (\<open>safe_text\<close>) every patch is well-formed, and a quote in a value breaks it. The locale
    \<open>written_values\<close> follows the values from Prometheus, the log and the merged usages to the patch; it is interpreted
    for any values (the safety of the annotator) and for values by the kind of their annotation (\<open>Cluster_Run\<close>).
  \<^item> \<open>Cluster_Run\<close>: the annotator, the patches on their way, the annotations at the API server and the states they had as one
    transition system, with patches applied, rejected or lost in any order, caches of any age and other clients; the
    invariant is that what the annotator owns is absent or a stamped value of its kind, and the theorem says what each
    reader makes of it. An empty value, written for a metric without samples, is the one that a usage reader rejects.
  \<^item> \<open>Controller_App\<close>: options, configuration, informer factory, the command, \<open>main\<close> and the start of the controller: when
    \<open>Run\<close> panics, and safety from \<open>main\<close> to every state that is reached.
  \<^item> \<open>Scheduler_App\<close>: \<open>cmd/scheduler\<close> and \<open>metrics.go\<close>: the registered plugins with their constructors and the metrics these
    register. Every plugin can be built from empty arguments of either version; two of them cannot be built twice.
  \<^item> \<open>Pod_Topology_Cache\<close>, \<open>Numa_Topology\<close>: \<open>cache.go\<close>, and \<open>helper.go\<close>, \<open>filter.go\<close>, \<open>scorer.go\<close>, \<open>reserver.go\<close>,
    \<open>binder.go\<close>, \<open>plugin.go\<close>. The two maps of the cache agree, an assumed pod is readable until its deadline; the filter's
    decision, conservation and minimality of an assignment over several NUMA nodes, and the agreement of what is
    charged while a pod is assumed and once it is bound.
  \<^item> \<open>Numa_Run\<close>: the plugin over many scheduling cycles, as a step relation \<open>numa_step\<close>: the calls the framework makes, in
    its order, with one cycle at a time on a snapshot, bindings in the background that succeed or fail, pods that end or
    are placed by others, topologies that are published again, and ticks of the cache. Every step has a label, and \<open>orderly\<close>
    says which labels keep the invariant that no NUMA node is overcommitted: pods come without a result of an earlier
    attempt, reserved pods are bound before the cache drops them after thirty minutes (\<open>bound_in_time\<close>), and topologies do
    not shrink (\<open>topologies_grow\<close>). The framework promises none of this; a theorem shows what goes wrong without the
    first, when a pod is scheduled again after a failed binding.

  This theory holds the properties that span several of them: from a sample in Prometheus to the decision of the dynamic filter,
  and from a bound pod to the prediction of the application filter.

  A Go function is a HOL function of the same name (with the plugin's name in front where two would clash). Mutated
  structures are passed and returned; a mutex makes an operation atomic and is left out; the body of a goroutine
  that repeats is one tick. Panics are values of \<open>outcome\<close>, errors of \<open>fallible\<close>.

  \<^bold>\<open>Parameters.\<close> The Prometheus API, the Kubernetes client and the listers, the scheduler's snapshot, the codec and file
  access, \<open>resource.Quantity\<close> and the arithmetic of \<open>framework.Resource\<close>, key functions of client-go, the schemes and pointer
  conversions of apimachinery, \<open>metav1.Duration.DeepCopyInto\<close>, the metrics registry, cobra, and the conversion
  of floats that do not fit an \<open>int64\<close>, which Go leaves to the implementation (\<open>cvt\<close>). What is assumed of them is
  stated in each theorem. Every operation on floats is rounded on its own, as on amd64; Go allows other processors to
  fuse a multiplication with an addition.

  \<^bold>\<open>Bounds.\<close> No fuel is used: every loop is structural or has a measure. Where a theorem needs a size it says so, and
  the sizes are far above what a cluster has: logs below \<open>2 ^ 31\<close> bindings, \<open>2 ^ 20\<close> hot value policies, usages of
  ranges below twenty million. Time stamps need a four-digit year and an instant that is not within one
  offset of a change of the zone (\<open>stable_at\<close>). A worker's loop, which runs as long as its queue, is a function of the
  results of \<open>Get\<close>; a running annotator is an inductive predicate.

  \<^bold>\<open>Not modelled.\<close> Logging and the setting of metrics, which nothing reads; the health server; seeding of the random
  generator; mutexes, whose critical sections are atomic steps. Outside the repository are the inside of work queues,
  informers, cron, leader election, schemes and codecs.
\<close>

section \<open>From Prometheus to the scheduler\<close>

text \<open>C2. What Prometheus measures decides what the scheduler does: when the annotator synchronises a node for a metric
  and the API server applies its patch, then for a scheduler with the same time zone a predicate on that metric
  exceeds exactly when the measured value, as it was printed, is above the limit, the limit is not zero, and the
  clock is before the time stamp plus the active duration of the metric; and as long as it exceeds, the
  filter rejects the node for every pod that is not a daemon set's.\<close>

theorem measured_load_decides:
  assumes "api_floats api" "applies_json_patch apply"
    and "GetLocation sys = Some loc" "GetLocation sys' = Some loc" "stable_at loc (sys_now sys)" "four_digit_year loc (sys_now sys)"
    and "p \<in> set (spec_Predicate (policy_Spec (ds_schedulerPolicy ds)))"
    and "plain_text (predicate_Name p)" "\<not> has_prefix (predicate_Name p) PrefixRange" "\<not> has_prefix (predicate_Name p) RangePrefix"
    and "GetActiveDuration (spec_SyncPeriod (policy_Spec (ds_schedulerPolicy ds))) (predicate_Name p) = Inr d" "d \<noteq> 0"
    and "node_Annotations node = Some m"
    and "QueryByNodeIP api sys (predicate_Name p) (getNodeInternalIP node) = Inr v" "v \<noteq> ''''"
    and "\<not> IsDaemonsetPod pod"
  shows "\<exists>req r x. annotateNodeLoad api sys client node (predicate_Name p) = Ok ([req], r) \<and> parse_float64 v = Some x \<and>
    (load_exceeds sys' (apply (Some m) (patch_data req)) (spec_SyncPeriod (policy_Spec (ds_schedulerPolicy ds))) p \<longleftrightarrow>
       \<not> f_eq (predicate_MaxLimitPecent p) f_zero \<and> predicate_MaxLimitPecent p < x \<and>
       sys_now sys' < time_unix (sys_now sys) * second + d) \<and>
    (load_exceeds sys' (apply (Some m) (patch_data req)) (spec_SyncPeriod (policy_Spec (ds_schedulerPolicy ds))) p \<longrightarrow>
       (\<exists>q. Dynamic_Filter sys' ds pod (Some (node\<lparr>node_Annotations := apply (Some m) (patch_data req)\<rparr>)) =
          Ok (too_high (node_Name node) q)))"
proof -
  let ?spec = "policy_Spec (ds_schedulerPolicy ds)"
  obtain req r x where req: "annotateNodeLoad api sys client node (predicate_Name p) = Ok ([req], r)" "parse_float64 v = Some x"
      "GetResourceUsage sys' (apply (Some m) (patch_data req)) (predicate_Name p) d =
        Ok (if sys_now sys' < time_unix (sys_now sys) * second + d then Inr x
            else Inl (Plain (''timestamp['' @ stamped loc v (sys_now sys) @ ''] is expired'')))"
    using annotated_load_reads [OF assms(1-6,8,9,13-15), of client d] by blast
  let ?anno = "apply (Some m) (patch_data req)"
  have "Dynamic_Filter sys' ds pod (Some (node\<lparr>node_Annotations := ?anno\<rparr>)) =
      Ok (case find (load_exceeds sys' ?anno (spec_SyncPeriod ?spec)) (spec_Predicate ?spec) of
            None \<Rightarrow> NewStatus Success '''' | Some q \<Rightarrow> too_high (node_Name node) q)"
    using Dynamic_Filter_find [of sys' ds pod "Some (node\<lparr>node_Annotations := ?anno\<rparr>)"] assms(4,16) by (simp split: option.split)
  moreover have "load_exceeds sys' ?anno (spec_SyncPeriod ?spec) p \<Longrightarrow>
      find (load_exceeds sys' ?anno (spec_SyncPeriod ?spec)) (spec_Predicate ?spec) \<noteq> None"
    using assms(7) by (auto simp: find_None_iff)
  moreover have "load_exceeds sys' ?anno (spec_SyncPeriod ?spec) p \<longleftrightarrow>
      \<not> f_eq (predicate_MaxLimitPecent p) f_zero \<and> predicate_MaxLimitPecent p < x \<and>
      sys_now sys' < time_unix (sys_now sys) * second + d"
    using assms(10-12) req(3) by (auto simp: load_exceeds_def split: if_splits)
  ultimately show ?thesis using req(1,2) by (intro exI [of _ req] exI [of _ r] exI [of _ x]) (auto split: option.split)
qed

theorem measured_load_decides_witness:
  "\<exists>req r x. annotateNodeLoad (example_api [Fin False (1 / 4)]) (example_sys (100 * second)) (\<lambda>_. None) (example_node (Some []))
      ''cpu_usage_avg_5m'' = Ok ([req], r) \<and> parse_float64 ''0.25000'' = Some x \<and>
    (load_exceeds (example_sys (200 * second)) (json_server (Some []) (patch_data req))
       (spec_SyncPeriod (policy_Spec (ds_schedulerPolicy example_scheduler)))
       \<lparr>predicate_Name = ''cpu_usage_avg_5m'', predicate_MaxLimitPecent = Fin False (1 / 2)\<rparr> \<longleftrightarrow> Fin False (1 / 2) < x)"
proof -
  let ?p = "\<lparr>predicate_Name = ''cpu_usage_avg_5m'', predicate_MaxLimitPecent = Fin False (1 / 2)\<rparr>"
  have k: "plain_text (predicate_Name ?p)" "\<not> has_prefix (predicate_Name ?p) PrefixRange" "\<not> has_prefix (predicate_Name ?p) RangePrefix"
    by code_simp+
  have "is_float64 (Fin False (1 / 4))" by code_simp
  then have api: "api_floats (example_api [Fin False (1 / 4)])" by (simp add: example_api_floats)
  have pred: "?p \<in> set (spec_Predicate (policy_Spec (ds_schedulerPolicy example_scheduler)))"
    by (simp add: example_scheduler_def example_spec_def)
  have d: "GetActiveDuration (spec_SyncPeriod (policy_Spec (ds_schedulerPolicy example_scheduler))) (predicate_Name ?p) = Inr (8 * minute)"
    by (simp add: example_scheduler_def example_spec_def wrap64_numeral_id)
  have t: "stable_at (fixed_location 0) (sys_now (example_sys (100 * second)))"
    "four_digit_year (fixed_location 0) (sys_now (example_sys (100 * second)))"
    using example_times by (simp_all add: example_sys_def)
  have pod: "\<not> IsDaemonsetPod plain_pod" by (simp add: IsDaemonsetPod_def plain_pod_def)
  have n: "node_Annotations (example_node (Some [])) = Some []" by (simp add: example_node_def)
  from measured_load_decides [OF api json_server_applies example_location example_location [of "200 * second"] t pred k d _ n
      example_load_query _ pod, of "\<lambda>_. None"]
  show ?thesis by (simp add: example_sys_def time_unix_def) blast
qed

section \<open>From a bound pod to the scheduler\<close>

text \<open>C4. A pod that was bound counts in the next prediction: after the annotator has reconciled it and the server has applied
  its patches, the filter of the application plugin judges a policy on that metric, for a pod of any deployment, by
  the usage of the node, the old delta plus the usage of the bound pod's deployment (minus it for a deleted pod, exactly),
  and the usage of its own deployment, slot by slot; and it rejects the node when some slot is above the limit.\<close>

theorem bound_pod_predicted:
  assumes reconcile: "applies_json_patch apply" "split_key key = Inr (ns, name)" "get_pod ls ns name = Inr pod"
      "GetDeploymentByPod (get_replicaset ls) (get_deployment ls) pod = Inr deploy"
      "get_node ls (pod_NodeName pod) = Inr node" "node_Annotations node = Some m"
      "GetLocation sys = Some loc" "\<forall>req. client req = None"
      "ps = spec_SyncAppPeriod (policy_Spec (c_policy c))" "distinct (map sync_Name ps)"
      "\<forall>p \<in> set ps. plain_text (sync_Name p) \<and> delta_ready sys deploy node deltas usages p"
    and policy: "p \<in> set (spec_Predicate spec)" "spec = policy_Spec (ara_schedulerPolicy ara)"
      "has_prefix (predicate_Name p) RangePrefix" "go_split CHR '':'' (predicate_Name p) = [pre, resource, app, metric]"
      "app \<in> sync_Name ` set ps" "metric \<notin> (\<lambda>p. DeltaPrefixName @ sync_Name p) ` set ps"
      "GetActiveDuration (spec_SyncPeriod spec) metric = Inr na" "na \<noteq> 0"
      "GetActiveDuration (spec_SyncAppPeriod spec) app = Inr da" "da \<noteq> 0"
    and usage: "GetLocation sys' \<noteq> None" "GetDeploymentByPod get_rs get_deploy pod' = Inr deploy'"
      "GetResourceUsageRange sys' (Some m) metric na = Ok (Inr (decimal_range us))"
      "GetResourceUsageRange sys' (deploy_Annotations deploy') app da = Ok (Inr (decimal_range vs))"
      "us \<noteq> []" "length us = length (deltas app)" "length vs = length us"
      "\<forall>n \<in> set us \<union> set vs \<union> set (delta_sum pod (deltas app) (usages app)). \<bar>n\<bar> \<le> 2 ^ 41"
  shows "\<exists>reqs b. pod_reconcile split_key sys client ls c key = Ok (reqs, None) \<and>
    apply_all apply reqs (Some m) = Some b \<and>
    (day_overloaded sys' spec (node\<lparr>node_Annotations := Some b\<rparr>) deploy' p \<longleftrightarrow>
       \<not> f_eq (predicate_MaxLimitPecent p) f_zero \<and>
       (\<exists>j < length us. predicate_MaxLimitPecent p <
          (dec5 (us ! j) * of_int64 (resource_capacity node resource) + dec5 (delta_sum pod (deltas app) (usages app) ! j) +
           dec5 (vs ! j)) / of_int64 (resource_capacity node resource))) \<and>
    (day_overloaded sys' spec (node\<lparr>node_Annotations := Some b\<rparr>) deploy' p \<longrightarrow>
       (\<exists>msg. Ara_Filter sys' get_rs get_deploy ara pod' (Some (node\<lparr>node_Annotations := Some b\<rparr>)) =
          Ok (NewStatus Unschedulable msg)))"
proof -
  let ?ds = "delta_sum pod (deltas app) (usages app)"
  obtain reqs b where b: "pod_reconcile split_key sys client ls c key = Ok (reqs, None)" "apply_all apply reqs (Some m) = Some b"
      "\<forall>p \<in> set ps. GetDeltaUsageRange (Some b) (DeltaPrefixName @ sync_Name p) =
        Inr (decimal_range (delta_sum pod (deltas (sync_Name p)) (usages (sync_Name p))))"
      "\<forall>k. k \<notin> (\<lambda>p. DeltaPrefixName @ sync_Name p) ` set ps \<longrightarrow> anno_get (Some b) k = anno_get (Some m) k"
    using pod_delta_applied [where deltas = deltas and usages = usages and split_key = split_key and key = key and ls = ls
        and c = c and client = client and sys = sys and pod = pod and deploy = deploy and node = node and m = m and ps = ps]
      reconcile by blast
  let ?node = "node\<lparr>node_Annotations := Some b\<rparr>"
  obtain q where q: "q \<in> set ps" "app = sync_Name q" using policy(5) by blast
  then have "length (deltas app) = length (usages app)" using reconcile(11) by (auto simp: delta_ready_def)
  then have len: "length ?ds = length us" using usage(6) by (simp add: delta_sum_def)
  then have ne: "?ds \<noteq> []" "vs \<noteq> []" using usage(5,7) by auto
  have parse: "ParseRangeMetricsByString (decimal_range us) = Inr (map dec5 us)"
    "ParseRangeMetricsByString (decimal_range vs) = Inr (map dec5 vs)" "ParseRangeMetricsByString (decimal_range ?ds) = Inr (map dec5 ?ds)"
    using usage(5,8) ne by (auto intro!: parse_decimal_range)
  have node: "GetResourceUsageRange sys' (Some b) metric na = Ok (Inr (decimal_range us))"
    using usage(3) b(4) policy(6) by (simp add: GetResourceUsageRange_def)
  have delta: "GetDeltaUsageRange (Some b) (DeltaPrefixName @ app) = Inr (decimal_range ?ds)" using b(3) q by simp
  have usages: "readable_usages sys' spec ?node deploy' p r nodes deploys dls \<longleftrightarrow>
      r = resource \<and> nodes = map dec5 us \<and> deploys = map dec5 vs \<and> dls = map dec5 ?ds" for r nodes deploys dls
    using policy(3,4,7-10) node usage(4) delta parse decimal_range_not_Nil [OF ne(1)]
    by (auto simp: readable_usages_def)
  have over: "day_overloaded sys' spec ?node deploy' p \<longleftrightarrow> \<not> f_eq (predicate_MaxLimitPecent p) f_zero \<and>
      (\<exists>j < length us. predicate_MaxLimitPecent p <
        (dec5 (us ! j) * of_int64 (resource_capacity node resource) + dec5 (?ds ! j) + dec5 (vs ! j)) /
          of_int64 (resource_capacity node resource))"
    using len usage(7) by (auto simp: day_overloaded_def usages predicted_def resource_capacity_def)
  moreover have "\<exists>msg. Ara_Filter sys' get_rs get_deploy ara pod' (Some ?node) = Ok (NewStatus Unschedulable msg)"
    if "day_overloaded sys' spec ?node deploy' p"
  proof -
    have "find (day_overloaded sys' spec ?node deploy') (spec_Predicate spec) \<noteq> None"
      using that policy(1) by (auto simp: find_None_iff)
    then show ?thesis
      using usage(2) ara_filter_find [OF ara_policy_returns [OF usage(1)]]
      by (auto simp: Ara_Filter_def ara_policy_rejects_iff [OF usage(1)] policy(2) [symmetric])
  qed
  ultimately show ?thesis using b(1,2) by blast
qed

definition example_day_ara :: ApplicationResourceAware where
  "example_day_ara = \<lparr>ara_schedulerPolicy = (ara_schedulerPolicy example_ara)\<lparr>policy_Spec := \<lparr>
     spec_SyncPeriod = [\<lparr>sync_Name = ''node_cpu'', sync_Period = minute\<rparr>],
     spec_SyncAppPeriod = [\<lparr>sync_Name = ''range_cpu'', sync_Period = minute\<rparr>],
     spec_Predicate = [\<lparr>predicate_Name = ''range:cpu:range_cpu:node_cpu'', predicate_MaxLimitPecent = Fin False (3 / 4)\<rparr>],
     spec_Priority = [], spec_HotValue = []\<rparr>\<rparr>\<rparr>"

abbreviation example_day_annotations :: "(string \<times> string) list" where
  "example_day_annotations \<equiv> [(''delta_range_cpu'', ''0.10000|1.25000,1970-01-01T00:00:00Z''),
     (''node_cpu'', ''0.25000|0.50000,1970-01-01T00:00:00Z'')]"

abbreviation example_day_node :: Node where
  "example_day_node \<equiv> example_ara_node\<lparr>node_Annotations := Some example_day_annotations\<rparr>"

lemma example_day_reads:
  "GetResourceUsageRange (example_sys (100 * second)) (Some example_day_annotations) ''node_cpu'' (6 * minute) = Ok (Inr ''0.25000|0.50000'')"
  "GetDeltaUsageRange (Some example_day_annotations) ''delta_range_cpu'' = Inr ''0.10000|1.25000''"
  "GetResourceUsageRange (example_sys (100 * second)) (Some [(''range_cpu'', ''0.20000|0.75000,1970-01-01T00:00:00Z'')]) ''range_cpu'' (6 * minute) =
     Ok (Inr ''0.20000|0.75000'')"
  using example_range_read(1) [of "''0.25000|0.50000''" "6 * minute" "''node_cpu''"]
    example_range_read(2) [of "''0.10000|1.25000''" "6 * minute" "''delta_range_cpu''"]
    example_range_read(1) [of "''0.20000|0.75000''" "6 * minute" "''range_cpu''"]
  by (simp_all add: GetResourceUsageRange_def GetDeltaUsageRange_def anno_get_def anno_entries_def)

theorem bound_pod_predicted_witness:
  "\<exists>reqs b msg. pod_reconcile example_split (example_sys (100 * second)) (\<lambda>_. None)
      (example_app_listers\<lparr>get_node := \<lambda>_. Inr example_day_node\<rparr>) example_app_controller ''ns/p'' = Ok (reqs, None) \<and>
    apply_all json_server reqs (Some example_day_annotations) = Some b \<and>
    Ara_Filter (example_sys (100 * second)) (get_replicaset example_app_listers) (get_deployment example_app_listers) example_day_ara
      example_app_pod (Some (example_day_node\<lparr>node_Annotations := Some b\<rparr>)) = Ok (NewStatus Unschedulable msg)"
proof -
  let ?ls = "example_app_listers\<lparr>get_node := \<lambda>_. Inr example_day_node\<rparr>" and ?sys = "example_sys (100 * second)"
  let ?pod = "plain_pod\<lparr>pod_NodeName := ''n1'', pod_OwnerReferences := [\<lparr>ref_Kind = ''ReplicaSet'', ref_Name = ''r''\<rparr>]\<rparr>"
  let ?deploy = "\<lparr>deploy_Namespace = ''ns'', deploy_Name = ''d'',
    deploy_Annotations = Some [(''range_cpu'', ''0.20000|0.75000,1970-01-01T00:00:00Z'')], deploy_Replicas = Some 1\<rparr>"
  let ?sync = "\<lparr>sync_Name = ''range_cpu'', sync_Period = minute\<rparr>"
  let ?spec = "policy_Spec (ara_schedulerPolicy example_day_ara)"
  let ?p = "\<lparr>predicate_Name = ''range:cpu:range_cpu:node_cpu'', predicate_MaxLimitPecent = Fin False (3 / 4)\<rparr>"
  have d: "decimal_range [10000, 125000] = ''0.10000|1.25000''" "decimal_range [20000, 75000] = ''0.20000|0.75000''"
    "decimal_range [25000, 50000] = ''0.25000|0.50000''"
    by code_simp+
  have ready: "delta_ready ?sys ?deploy example_day_node (\<lambda>_. [10000, 125000]) (\<lambda>_. [20000, 75000]) ?sync"
    using example_day_reads d by (simp add: delta_ready_def wrap64_numeral_id)
  have k: "plain_text ''range_cpu''" "example_split ''ns/p'' = Inr (''ns'', ''p'')" 
      "has_prefix (predicate_Name ?p) RangePrefix" "go_split CHR '':'' (predicate_Name ?p) = [''range'', ''cpu'', ''range_cpu'', ''node_cpu'']"
    by code_simp+
  have l: "get_pod ?ls ''ns'' ''p'' = Inr ?pod" "GetDeploymentByPod (get_replicaset ?ls) (get_deployment ?ls) ?pod = Inr ?deploy"
    "get_node ?ls (pod_NodeName ?pod) = Inr example_day_node" "[?sync] = spec_SyncAppPeriod (policy_Spec (c_policy example_app_controller))"
    "GetDeploymentByPod (get_replicaset example_app_listers) (get_deployment example_app_listers) example_app_pod = Inr ?deploy"
    by (simp_all add: example_app_listers_def example_listers_def example_app_controller_def NewNodeAnnotator_def plain_pod_def
        GetDeploymentByPod_def example_app_pod_def)
  have a: "GetActiveDuration (spec_SyncPeriod ?spec) ''node_cpu'' = Inr (6 * minute)"
    "GetActiveDuration (spec_SyncAppPeriod ?spec) ''range_cpu'' = Inr (6 * minute)" "?p \<in> set (spec_Predicate ?spec)"
    by (simp_all add: example_day_ara_def wrap64_numeral_id)
  have over: "Fin False (3 / 4) < (dec5 50000 * of_int64 4 + dec5 200000 + dec5 75000) / of_int64 4" by code_simp
  have lim: "\<not> f_eq (Fin False (3 / 4)) f_zero" by code_simp
  have r: "node_Annotations example_day_node = Some example_day_annotations" "\<forall>req :: patch_request. (None :: go_error option) = None"
    "distinct (map sync_Name [?sync])" "\<forall>p \<in> set [?sync]. plain_text (sync_Name p) \<and>
      delta_ready ?sys ?deploy example_day_node (\<lambda>_. [10000, 125000]) (\<lambda>_. [20000, 75000]) p"
    "''range_cpu'' \<in> sync_Name ` set [?sync]" "''node_cpu'' \<notin> (\<lambda>p. DeltaPrefixName @ sync_Name p) ` set [?sync]"
    "6 * minute \<noteq> 0" "GetLocation ?sys \<noteq> None"
    "GetResourceUsageRange ?sys (Some example_day_annotations) ''node_cpu'' (6 * minute) = Ok (Inr (decimal_range [25000, 50000]))"
    "GetResourceUsageRange ?sys (deploy_Annotations ?deploy) ''range_cpu'' (6 * minute) = Ok (Inr (decimal_range [20000, 75000]))"
    "[25000, 50000 :: int] \<noteq> []" "length [25000, 50000 :: int] = length [10000, 125000 :: int]"
    "length [20000, 75000 :: int] = length [25000, 50000 :: int]"
    using ready k(1) example_day_reads d by (simp_all add: example_location)
  have "\<forall>n \<in> set [25000, 50000] \<union> set [20000, 75000] \<union> set (delta_sum ?pod [10000, 125000] [20000, 75000]). \<bar>n\<bar> \<le> 2 ^ 41"
    by (simp add: delta_sum_def plain_pod_def)
  with bound_pod_predicted [where split_key = example_split and key = "''ns/p''" and ls = ?ls and pod = ?pod
      and deploy = ?deploy and node = example_day_node and m = example_day_annotations and c = example_app_controller and ps = "[?sync]"
      and client = "\<lambda>_. None" and deltas = "\<lambda>_. [10000, 125000]" and usages = "\<lambda>_. [20000, 75000]" and p = ?p and ara = example_day_ara
      and spec = ?spec and sys' = ?sys and deploy' = ?deploy and us = "[25000, 50000]" and vs = "[20000, 75000]" and app = "''range_cpu''"
      and metric = "''node_cpu''" and resource = "''cpu''" and na = "6 * minute" and da = "6 * minute",
      OF json_server_applies k(2) l(1-3) r(1) example_location r(2) l(4) r(3,4) a(3) refl k(3,4) r(5,6) a(1) r(7) a(2) r(7,8) l(5) r(9-13)]
  obtain reqs b where b: "pod_reconcile example_split ?sys (\<lambda>_. None) ?ls example_app_controller ''ns/p'' = Ok (reqs, None)"
      "apply_all json_server reqs (Some example_day_annotations) = Some b"
      "day_overloaded ?sys ?spec (example_day_node\<lparr>node_Annotations := Some b\<rparr>) ?deploy ?p \<longrightarrow>
        (\<exists>msg. Ara_Filter ?sys (get_replicaset example_app_listers) (get_deployment example_app_listers) example_day_ara
          example_app_pod (Some (example_day_node\<lparr>node_Annotations := Some b\<rparr>)) = Ok (NewStatus Unschedulable msg))"
      "\<not> f_eq (predicate_MaxLimitPecent ?p) f_zero \<Longrightarrow> predicate_MaxLimitPecent ?p <
         (dec5 ([25000, 50000] ! 1) * of_int64 (resource_capacity example_day_node ''cpu'') +
          dec5 (delta_sum ?pod [10000, 125000] [20000, 75000] ! 1) + dec5 ([20000, 75000] ! 1)) /
         of_int64 (resource_capacity example_day_node ''cpu'') \<Longrightarrow>
       day_overloaded ?sys ?spec (example_day_node\<lparr>node_Annotations := Some b\<rparr>) ?deploy ?p" by fastforce
  have "day_overloaded ?sys ?spec (example_day_node\<lparr>node_Annotations := Some b\<rparr>) ?deploy ?p"
    by (rule b(4)) (use over lim in \<open>simp_all add: delta_sum_def resource_capacity_def example_ara_node_def plain_pod_def\<close>)
  then show ?thesis using b(1-3) by blast
qed

end
